(* ===== verification/Prelude.thy ===== *)
theory Prelude
  imports Complex_Main "HOL-Library.AList" "HOL-Library.Word" "HOL-Library.List_Lexorder"
    "HOL-Library.Char_ord" "HOL-Library.Product_Lexorder" "HOL-Library.Sublist"
begin

section \<open>Prelude: Python values, strings, dictionaries, exceptions\<close>

text \<open>
  What every component of the model shares: the exceptions of the program as values, the
  results of fallible code as sums, the dynamic values that travel as payloads (a Python
  \<open>object\<close> decoded from JSON), dictionaries in insertion order as association lists, and the
  string methods the source calls. A character is a code point below 256; the case mappings
  are those of ASCII. Times are integers (microseconds since the epoch, UTC), floats are the
  rationals they denote.
\<close>

named_theorems py_simps "unfolding rules for the small Python helpers"
named_theorems handler_defs "definitions of handlers, for proofs by case analysis"

subsection \<open>Identifiers and times\<close>

type_synonym uuid = "128 word"
type_synonym datetime = int

definition microseconds_per_day :: int where
  "microseconds_per_day = 86400000000"

definition timedelta_days :: "int \<Rightarrow> int" where
  "timedelta_days d = d * microseconds_per_day"

definition timedelta_minutes :: "int \<Rightarrow> int" where
  "timedelta_minutes m = m * 60000000"

lemma timedelta_days_pos [simp]: "0 < timedelta_days d \<longleftrightarrow> 0 < d"
  by (simp add: timedelta_days_def microseconds_per_day_def)

lemma timedelta_days_nonneg [simp]: "0 \<le> timedelta_days d \<longleftrightarrow> 0 \<le> d"
  by (simp add: timedelta_days_def microseconds_per_day_def)

subsection \<open>Exceptions and results\<close>

text \<open>
  One constructor per exception class the modelled code raises. \<open>DomainErr\<close> carries the
  \<open>code\<close> of a subclass of \<open>DomainError\<close>; \<open>ExternalErr\<close> is any exception of a library the
  program calls (the database driver, the vector index, the model provider).
\<close>

datatype exc =
    KeyErr string
  | ValueErr string
  | TypeErr string
  | AttributeErr string
  | PermissionErr string
  | RuntimeErr string
  | ValidationErr string
  | EvidenceAdaptationErr string
  | AuthorizationPolicyErr string
  | DomainErr string string
  | HTTPErr int string
  | ExternalErr string

type_synonym 'a result = "exc + 'a"

fun rbind :: "'a result \<Rightarrow> ('a \<Rightarrow> 'b result) \<Rightarrow> 'b result" where
  "rbind (Inl e) f = Inl e"
| "rbind (Inr x) f = f x"

fun rmap :: "('a \<Rightarrow> 'b) \<Rightarrow> 'a result \<Rightarrow> 'b result" where
  "rmap f (Inl e) = Inl e"
| "rmap f (Inr x) = Inr (f x)"

text \<open>A comprehension whose body may raise: the first exception wins.\<close>

fun traverse :: "('a \<Rightarrow> 'b result) \<Rightarrow> 'a list \<Rightarrow> 'b list result" where
  "traverse f [] = Inr []"
| "traverse f (x # xs) = rbind (f x) (\<lambda>y. rmap (\<lambda>ys. y # ys) (traverse f xs))"

lemma rbind_Inr_iff: "rbind r f = Inr y \<longleftrightarrow> (\<exists>x. r = Inr x \<and> f x = Inr y)"
  by (cases r) auto

lemma rmap_Inr_iff: "rmap f r = Inr y \<longleftrightarrow> (\<exists>x. r = Inr x \<and> y = f x)"
  by (cases r) auto

lemma traverse_Inr_iff: "traverse f xs = Inr ys \<longleftrightarrow> list_all2 (\<lambda>x y. f x = Inr y) xs ys"
proof (induction xs arbitrary: ys)
  case Nil
  then show ?case by auto
next
  case (Cons x xs)
  then show ?case
    by (cases ys) (auto simp: rbind_Inr_iff rmap_Inr_iff)
qed

lemma traverse_all_Inr: "(\<And>x. x \<in> set xs \<Longrightarrow> f x = Inr (g x)) \<Longrightarrow> traverse f xs = Inr (map g xs)"
  by (induction xs) auto

lemma traverse_map: "traverse f (map g xs) = traverse (\<lambda>x. f (g x)) xs"
  by (induction xs) auto

lemma traverse_length: "traverse f xs = Inr ys \<Longrightarrow> length ys = length xs"
  by (auto simp: traverse_Inr_iff dest: list_all2_lengthD)

lemma traverse_Inr_elem:
  assumes "traverse f xs = Inr ys" and "y \<in> set ys"
  obtains x where "x \<in> set xs" and "f x = Inr y"
proof -
  have "list_all2 (\<lambda>x y. f x = Inr y) xs ys"
    using assms(1) by (simp add: traverse_Inr_iff)
  moreover obtain i where "i < length ys" "ys ! i = y"
    using assms(2) by (auto simp: in_set_conv_nth)
  ultimately have "xs ! i \<in> set xs" "f (xs ! i) = Inr y"
    by (auto simp: list_all2_conv_all_nth)
  then show thesis by (rule that)
qed

lemma traverse_Inr_image:
  assumes "traverse f xs = Inr ys" and "x \<in> set xs"
  obtains y where "y \<in> set ys" and "f x = Inr y"
proof -
  have l2: "list_all2 (\<lambda>x y. f x = Inr y) xs ys"
    using assms(1) by (simp add: traverse_Inr_iff)
  obtain i where "i < length xs" "xs ! i = x"
    using assms(2) by (auto simp: in_set_conv_nth)
  then have "ys ! i \<in> set ys" "f x = Inr (ys ! i)"
    using l2 by (auto simp: list_all2_conv_all_nth)
  then show thesis by (rule that)
qed

lemma traverse_Inl_elem: "traverse f xs = Inl e \<Longrightarrow> \<exists>x \<in> set xs. f x = Inl e"
proof (induction xs)
  case (Cons x xs)
  then show ?case by (cases "f x"; cases "traverse f xs") auto
qed simp

lemma traverse_Inl_ex: "x \<in> set xs \<Longrightarrow> f x = Inl e \<Longrightarrow> \<exists>e'. traverse f xs = Inl e'"
proof (induction xs)
  case (Cons y xs)
  then show ?case by (cases "f y"; cases "traverse f xs") auto
qed simp

subsection \<open>Strings\<close>

definition is_space :: "char \<Rightarrow> bool" where
  "is_space c = (let n = (of_char c :: nat) in
     (9 \<le> n \<and> n \<le> 13) \<or> (28 \<le> n \<and> n \<le> 32) \<or> n = 133 \<or> n = 160)"

definition strip :: "string \<Rightarrow> string" where
  "strip s = rev (dropWhile is_space (rev (dropWhile is_space s)))"

fun split_acc :: "string \<Rightarrow> string \<Rightarrow> string list" where
  "split_acc cur [] = (if cur = [] then [] else [rev cur])"
| "split_acc cur (c # cs) =
     (if is_space c then (if cur = [] then split_acc [] cs else rev cur # split_acc [] cs)
      else split_acc (c # cur) cs)"

text \<open>\<open>str.split()\<close> without a separator: the maximal runs of non-space characters.\<close>

definition split_ws :: "string \<Rightarrow> string list" where
  "split_ws s = split_acc [] s"

fun join :: "string \<Rightarrow> string list \<Rightarrow> string" where
  "join sep [] = []"
| "join sep [x] = x"
| "join sep (x # y # ys) = x @ sep @ join sep (y # ys)"

definition lower_char :: "char \<Rightarrow> char" where
  "lower_char c = (let n = (of_char c :: nat) in if 65 \<le> n \<and> n \<le> 90 then char_of (n + 32) else c)"

definition upper_char :: "char \<Rightarrow> char" where
  "upper_char c = (let n = (of_char c :: nat) in if 97 \<le> n \<and> n \<le> 122 then char_of (n - 32) else c)"

definition lower :: "string \<Rightarrow> string" where
  "lower s = map lower_char s"

definition upper :: "string \<Rightarrow> string" where
  "upper s = map upper_char s"

definition replace_char :: "char \<Rightarrow> string \<Rightarrow> string \<Rightarrow> string" where
  "replace_char c r s = concat (map (\<lambda>x. if x = c then r else [x]) s)"

text \<open>\<open>str.title()\<close>: a letter after a non-letter is upper case, every other letter lower case.\<close>

definition is_alpha :: "char \<Rightarrow> bool" where
  "is_alpha c = (let n = (of_char c :: nat) in (65 \<le> n \<and> n \<le> 90) \<or> (97 \<le> n \<and> n \<le> 122))"

fun title_from :: "bool \<Rightarrow> string \<Rightarrow> string" where
  "title_from after [] = []"
| "title_from after (c # cs) =
     (if after then lower_char c else upper_char c) # title_from (is_alpha c) cs"

definition title :: "string \<Rightarrow> string" where
  "title s = title_from False s"

fun nat_str :: "nat \<Rightarrow> string" where
  "nat_str n = (if n < 10 then [''0123456789'' ! n] else nat_str (n div 10) @ [''0123456789'' ! (n mod 10)])"

declare nat_str.simps [simp del]


definition int_str :: "int \<Rightarrow> string" where
  "int_str i = (if i < 0 then ''-'' @ nat_str (nat (- i)) else nat_str (nat i))"

definition newline :: string where
  "newline = [char_of (10 :: nat)]"

text \<open>\<open>str(uuid)\<close>: 32 hexadecimal digits in groups of 8, 4, 4, 4 and 12.\<close>

definition hex_digit :: "nat \<Rightarrow> char" where
  "hex_digit n = char_of (if n < 10 then 48 + n else 87 + n)"

definition hex_digits :: "nat \<Rightarrow> nat \<Rightarrow> string" where
  "hex_digits width n = map (\<lambda>i. hex_digit (n div 16 ^ i mod 16)) (rev [0..<width])"

definition uuid_str :: "uuid \<Rightarrow> string" where
  "uuid_str u = (let h = hex_digits 32 (unat u) in
     take 8 h @ ''-'' @ take 4 (drop 8 h) @ ''-'' @ take 4 (drop 12 h) @ ''-'' @
     take 4 (drop 16 h) @ ''-'' @ drop 20 h)"

text \<open>\<open>UUID(text)\<close>: braces, hyphens and the prefix \<open>urn:uuid:\<close> are dropped, 32 hexadecimal
  digits must remain.\<close>

definition hex_value :: "char \<Rightarrow> nat option" where
  "hex_value c = (let n = (of_char c :: nat) in
     if 48 \<le> n \<and> n \<le> 57 then Some (n - 48)
     else if 97 \<le> n \<and> n \<le> 102 then Some (n - 87)
     else if 65 \<le> n \<and> n \<le> 70 then Some (n - 55) else None)"

definition drop_prefix :: "string \<Rightarrow> string \<Rightarrow> string" where
  "drop_prefix p s = (if take (length p) s = p then drop (length p) s else s)"

fun hex_nat :: "nat \<Rightarrow> string \<Rightarrow> nat option" where
  "hex_nat acc [] = Some acc"
| "hex_nat acc (c # cs) = (case hex_value c of None \<Rightarrow> None | Some d \<Rightarrow> hex_nat (16 * acc + d) cs)"

definition parse_uuid :: "string \<Rightarrow> uuid result" where
  "parse_uuid s = (let h = filter (\<lambda>c. c \<noteq> CHR ''-'' \<and> c \<noteq> CHR ''{'' \<and> c \<noteq> CHR ''}'')
       (drop_prefix ''uuid:'' (drop_prefix ''urn:'' s)) in
     if length h \<noteq> 32 then Inl (ValueErr ''badly formed hexadecimal UUID string'')
     else case hex_nat 0 h of
         None \<Rightarrow> Inl (ValueErr ''invalid literal for int() with base 16'')
       | Some n \<Rightarrow> Inr (of_nat n))"

text \<open>\<open>datetime.isoformat()\<close> of a UTC time: the civil date of a day number (days since 1970-01-01,
  proleptic Gregorian calendar), the time of day, microseconds only when they are not zero.\<close>

definition civil_from_days :: "int \<Rightarrow> int \<times> int \<times> int" where
  "civil_from_days z0 = (let z = z0 + 719468; era = z div 146097; doe = z - era * 146097;
     yoe = (doe - doe div 1460 + doe div 36524 - doe div 146096) div 365;
     y = yoe + era * 400;
     doy = doe - (365 * yoe + yoe div 4 - yoe div 100);
     mp = (5 * doy + 2) div 153;
     d = doy - (153 * mp + 2) div 5 + 1;
     m = (if mp < 10 then mp + 3 else mp - 9)
     in (if m \<le> 2 then y + 1 else y, m, d))"

definition pad_nat :: "nat \<Rightarrow> int \<Rightarrow> string" where
  "pad_nat width i = (let s = nat_str (nat i) in replicate (width - length s) (CHR ''0'') @ s)"

definition isoformat :: "datetime \<Rightarrow> string" where
  "isoformat t = (let days = t div microseconds_per_day; rest = t mod microseconds_per_day;
     (y, m, d) = civil_from_days days; us = rest mod 1000000; secs = rest div 1000000 in
     pad_nat 4 y @ ''-'' @ pad_nat 2 m @ ''-'' @ pad_nat 2 d @ ''T'' @
     pad_nat 2 (secs div 3600) @ '':'' @ pad_nat 2 (secs div 60 mod 60) @ '':'' @ pad_nat 2 (secs mod 60) @
     (if us = 0 then [] else ''.'' @ pad_nat 6 us) @ ''+00:00'')"

lemma hex_value_digit [simp]: "n < 16 \<Longrightarrow> hex_value (hex_digit n) = Some n"
  by (auto simp: hex_value_def hex_digit_def Let_def)

lemma hex_nat_digits: "hex_nat acc (hex_digits w n) = Some (16 ^ w * acc + n mod 16 ^ w)"
proof (induction w arbitrary: acc)
  case (Suc w)
  have "hex_digits (Suc w) n = hex_digit (n div 16 ^ w mod 16) # hex_digits w n"
    by (simp add: hex_digits_def)
  moreover have "n mod (16 * 16 ^ w) = 16 ^ w * (n div 16 ^ w mod 16) + n mod 16 ^ w"
    by (metis mod_mult2_eq mult.commute)
  ultimately show ?case using Suc by (simp add: algebra_simps)
qed (simp add: hex_digits_def)

lemma hex_digits_plain: "c \<in> set (hex_digits w n) \<Longrightarrow> c \<noteq> CHR ''-'' \<and> c \<noteq> CHR ''{'' \<and> c \<noteq> CHR ''}'' \<and> c \<noteq> CHR ''u''"
proof -
  assume "c \<in> set (hex_digits w n)"
  then obtain i where i: "c = hex_digit (n div 16 ^ i mod 16)" by (auto simp: hex_digits_def)
  define d where "d = n div 16 ^ i mod 16"
  have "d < 16" by (simp add: d_def)
  moreover have "c = hex_digit d" using i by (simp add: d_def)
  ultimately have "hex_value c \<noteq> None" by simp
  then show ?thesis by (auto simp: hex_value_def)
qed

lemma length_hex_digits [simp]: "length (hex_digits w n) = w"
  by (simp add: hex_digits_def)

lemma nat_str_nonempty [simp]: "nat_str n \<noteq> []"
  by (subst nat_str.simps) simp

lemma int_str_nonempty [simp]: "int_str i \<noteq> []"
  by (simp add: int_str_def)

lemma uuid_str_nonempty [simp]: "uuid_str u \<noteq> []"
  by (simp add: uuid_str_def Let_def)

lemma length_uuid_str [simp]: "length (uuid_str u) = 36"
  by (simp add: uuid_str_def Let_def)

lemma parse_uuid_str [simp]: "parse_uuid (uuid_str u) = Inr u"
proof -
  define h where "h = hex_digits 32 (unat u)"
  have len: "length h = 32" by (simp add: h_def)
  have plain: "c \<in> set h \<Longrightarrow> c \<noteq> CHR ''-'' \<and> c \<noteq> CHR ''{'' \<and> c \<noteq> CHR ''}'' \<and> c \<noteq> CHR ''u''" for c
    unfolding h_def by (rule hex_digits_plain)
  have keep: "filter (\<lambda>c. c \<noteq> CHR ''-'' \<and> c \<noteq> CHR ''{'' \<and> c \<noteq> CHR ''}'') xs = xs" if "set xs \<subseteq> set h" for xs
    using that plain by (intro filter_True) auto
  have us: "uuid_str u = take 8 h @ ''-'' @ take 4 (drop 8 h) @ ''-'' @ take 4 (drop 12 h) @ ''-'' @
      take 4 (drop 16 h) @ ''-'' @ drop 20 h"
    by (simp add: uuid_str_def h_def Let_def)
  obtain c t where ct: "h = c # t" using len by (cases h) auto
  have hd: "\<exists>t'. uuid_str u = c # t'" "c \<noteq> CHR ''u''"
    using us ct plain by auto
  then have pre: "drop_prefix ''uuid:'' (drop_prefix ''urn:'' (uuid_str u)) = uuid_str u"
    by (auto simp: drop_prefix_def)
  have parts: "take 8 h @ take 4 (drop 8 h) @ take 4 (drop 12 h) @ take 4 (drop 16 h) @ drop 20 h = h"
  proof -
    have "take 4 (drop 16 h) @ drop 20 h = drop 16 h" using append_take_drop_id[of 4 "drop 16 h"] by simp
    moreover have "take 4 (drop 12 h) @ drop 16 h = drop 12 h" using append_take_drop_id[of 4 "drop 12 h"] by simp
    moreover have "take 4 (drop 8 h) @ drop 12 h = drop 8 h" using append_take_drop_id[of 4 "drop 8 h"] by simp
    ultimately show ?thesis by simp
  qed
  have sub: "set (take n h) \<subseteq> set h" "set (take n (drop m h)) \<subseteq> set h" "set (drop m h) \<subseteq> set h" for n m
    by (auto dest: in_set_takeD in_set_dropD)
  have "filter (\<lambda>c. c \<noteq> CHR ''-'' \<and> c \<noteq> CHR ''{'' \<and> c \<noteq> CHR ''}'') (uuid_str u) = h"
    unfolding us using parts by (simp add: keep sub)
  moreover have "hex_nat 0 h = Some (unat u)"
  proof -
    have "unat u < 2 ^ len_of TYPE(128)" by (rule unsigned_less)
    then have "unat u < 2 ^ 128" by simp
    then have "unat u mod 16 ^ 32 = unat u" by simp
    then show ?thesis by (simp add: h_def hex_nat_digits)
  qed
  ultimately show ?thesis using len pre by (simp add: parse_uuid_def Let_def)
qed

lemma join_eq_Nil: "join sep xs = [] \<Longrightarrow> xs = [] \<or> (\<exists>x. xs = [x] \<and> x = []) \<or> sep = []"
  by (induction sep xs rule: join.induct) auto

lemma split_acc_words:
  assumes "\<forall>c \<in> set cur. \<not> is_space c" and "w \<in> set (split_acc cur s)"
  shows "w \<noteq> [] \<and> (\<forall>c \<in> set w. \<not> is_space c)"
  using assms
proof (induction s arbitrary: cur)
  case Nil
  then show ?case by (cases "cur = []") auto
next
  case (Cons c s)
  show ?case
  proof (cases "is_space c")
    case True
    have "w \<in> set (split_acc [] s) \<or> cur \<noteq> [] \<and> w = rev cur"
      using Cons.prems(2) True by (cases "cur = []") auto
    moreover have "w \<in> set (split_acc [] s) \<Longrightarrow> ?thesis"
      by (rule Cons.IH[of "[]"]) simp_all
    ultimately show ?thesis using Cons.prems(1) by fastforce
  next
    case False
    have 1: "w \<in> set (split_acc (c # cur) s)"
      using Cons.prems(2) by (simp only: split_acc.simps False if_False)
    have 2: "\<forall>x \<in> set (c # cur). \<not> is_space x"
      using Cons.prems(1) False by simp
    show ?thesis by (rule Cons.IH[OF 2 1])
  qed
qed

lemma split_ws_words: "w \<in> set (split_ws s) \<Longrightarrow> w \<noteq> [] \<and> (\<forall>c \<in> set w. \<not> is_space c)"
  unfolding split_ws_def using split_acc_words[of "[]" w s] by simp

subsection \<open>Dynamic values and dictionaries\<close>

text \<open>
  The value of a Python object decoded from JSON. A dictionary keeps its insertion order, as
  Python's does: \<open>AList.update\<close> overwrites in place and appends a new key at the end.
\<close>

datatype pyval =
    PNone
  | PBool bool
  | PInt int
  | PFloat rat
  | PStr string
  | PList "pyval list"
  | PDict "(string \<times> pyval) list"

type_synonym dict = "(string \<times> pyval) list"

text \<open>\<open>data.get(name)\<close>: the value, or \<open>None\<close> when the key is absent.\<close>

definition dget :: "dict \<Rightarrow> string \<Rightarrow> pyval" where
  "dget d k = (case map_of d k of None \<Rightarrow> PNone | Some v \<Rightarrow> v)"

definition dget_default :: "dict \<Rightarrow> string \<Rightarrow> pyval \<Rightarrow> pyval" where
  "dget_default d k v0 = (case map_of d k of None \<Rightarrow> v0 | Some v \<Rightarrow> v)"

definition opt_str :: "string option \<Rightarrow> pyval" where
  "opt_str x = (case x of None \<Rightarrow> PNone | Some s \<Rightarrow> PStr s)"

definition opt_int :: "int option \<Rightarrow> pyval" where
  "opt_int x = (case x of None \<Rightarrow> PNone | Some i \<Rightarrow> PInt i)"

text \<open>\<open>isinstance(value, str)\<close> with the string it holds.\<close>

fun as_str :: "pyval \<Rightarrow> string option" where
  "as_str (PStr s) = Some s"
| "as_str _ = None"

text \<open>\<open>str(value)\<close>; the \<open>repr\<close> of a float, a list or a dictionary is the parameter \<open>pr\<close>.\<close>

fun py_str :: "(pyval \<Rightarrow> string) \<Rightarrow> pyval \<Rightarrow> string" where
  "py_str pr PNone = ''None''"
| "py_str pr (PBool b) = (if b then ''True'' else ''False'')"
| "py_str pr (PInt i) = int_str i"
| "py_str pr (PStr s) = s"
| "py_str pr v = pr v"

text \<open>\<open>bool(value)\<close>.\<close>

fun truthy :: "pyval \<Rightarrow> bool" where
  "truthy PNone = False"
| "truthy (PBool b) = b"
| "truthy (PInt i) = (i \<noteq> 0)"
| "truthy (PFloat r) = (r \<noteq> 0)"
| "truthy (PStr s) = (s \<noteq> [])"
| "truthy (PList xs) = (xs \<noteq> [])"
| "truthy (PDict d) = (d \<noteq> [])"

lemma as_str_Some [simp]: "as_str v = Some s \<longleftrightarrow> v = PStr s"
  by (cases v) auto

lemma opt_str_inject [simp]: "opt_str a = opt_str b \<longleftrightarrow> a = b"
  by (auto simp: opt_str_def split: option.splits)

lemma opt_int_inject [simp]: "opt_int a = opt_int b \<longleftrightarrow> a = b"
  by (auto simp: opt_int_def split: option.splits)

lemma dget_update [simp]: "dget (AList.update k v d) k' = (if k' = k then v else dget d k')"
  by (simp add: dget_def update_conv)

lemma dget_Nil [simp]: "dget [] k = PNone"
  by (simp add: dget_def)

lemma dget_Cons [simp]: "dget ((k, v) # d) k' = (if k' = k then v else dget d k')"
  by (simp add: dget_def)

text \<open>
  Python's \<open>==\<close>: numbers compare by value across \<open>bool\<close>, \<open>int\<close> and \<open>float\<close>; two dictionaries
  are equal when they map the same keys to equal values.
\<close>

fun py_num :: "pyval \<Rightarrow> rat option" where
  "py_num (PBool b) = Some (if b then 1 else 0)"
| "py_num (PInt i) = Some (of_int i)"
| "py_num (PFloat r) = Some r"
| "py_num _ = None"

function py_eq :: "pyval \<Rightarrow> pyval \<Rightarrow> bool" where
  "py_eq a b = (case (a, b) of
      (PNone, PNone) \<Rightarrow> True
    | (PStr s, PStr t) \<Rightarrow> s = t
    | (PList xs, PList ys) \<Rightarrow> list_all2 py_eq xs ys
    | (PDict xs, PDict ys) \<Rightarrow>
        fst ` set xs = fst ` set ys
        \<and> list_all (\<lambda>(k, v). case map_of ys k of None \<Rightarrow> False | Some w \<Rightarrow> py_eq v w) xs
    | _ \<Rightarrow> (case (py_num a, py_num b) of (Some x, Some y) \<Rightarrow> x = y | _ \<Rightarrow> False))"
  by pat_completeness auto
termination
  by (relation "measure (\<lambda>(a, b). size a)")
    (auto simp: less_Suc_eq_le dest!: split_list[of "(_, _)"] intro: size_list_estimation')

declare py_eq.simps [simp del]

lemma py_eq_PStr [simp]: "py_eq (PStr s) v \<longleftrightarrow> v = PStr s" "py_eq v (PStr s) \<longleftrightarrow> v = PStr s"
  by (cases v; auto simp: py_eq.simps)+

lemma py_eq_PNone [simp]: "py_eq PNone v \<longleftrightarrow> v = PNone" "py_eq v PNone \<longleftrightarrow> v = PNone"
  by (cases v; auto simp: py_eq.simps)+

lemma py_eq_PInt [simp]: "py_eq (PInt i) v \<longleftrightarrow> py_num v = Some (of_int i)"
    "py_eq v (PInt i) \<longleftrightarrow> py_num v = Some (of_int i)"
  by (cases v; auto simp: py_eq.simps)+

lemma py_eq_PBool [simp]: "py_eq (PBool b) v \<longleftrightarrow> py_num v = Some (if b then 1 else 0)"
    "py_eq v (PBool b) \<longleftrightarrow> py_num v = Some (if b then 1 else 0)"
  by (cases v; auto simp: py_eq.simps)+

subsection \<open>Lists\<close>

text \<open>\<open>xs[-n:]\<close> and \<open>del xs[:k]\<close> for a non-negative count.\<close>

definition last_n :: "nat \<Rightarrow> 'a list \<Rightarrow> 'a list" where
  "last_n n xs = drop (length xs - n) xs"

lemma length_last_n [simp]: "length (last_n n xs) = min n (length xs)"
  by (simp add: last_n_def)

lemma last_n_suffix: "suffix (last_n n xs) xs"
  by (simp add: last_n_def suffix_drop)

lemma last_n_append: "n \<le> length ys \<Longrightarrow> last_n n (xs @ ys) = last_n n ys"
  by (simp add: last_n_def)

lemma set_last_n: "set (last_n n xs) \<subseteq> set xs"
  by (simp add: last_n_def set_drop_subset)

lemma last_n_all [simp]: "length xs \<le> n \<Longrightarrow> last_n n xs = xs"
  by (simp add: last_n_def)

text \<open>The first element that satisfies a test, \<open>next((x for x in xs if p(x)), None)\<close>.\<close>

lemma find_Some_set: "List.find p xs = Some x \<Longrightarrow> x \<in> set xs \<and> p x"
  by (auto simp: find_Some_iff)

lemma find_None_iff_all: "List.find p xs = None \<longleftrightarrow> (\<forall>x \<in> set xs. \<not> p x)"
  by (induction xs) auto

text \<open>\<open>ORDER BY key DESC\<close>, stable.\<close>

definition sort_desc :: "('a \<Rightarrow> 'b::linorder) \<Rightarrow> 'a list \<Rightarrow> 'a list" where
  "sort_desc k xs = rev (sort_key k (rev xs))"

lemma set_sort_desc [simp]: "set (sort_desc k xs) = set xs"
  by (simp add: sort_desc_def)

lemma length_sort_desc [simp]: "length (sort_desc k xs) = length xs"
  by (simp add: sort_desc_def)

lemma sorted_sort_desc: "sorted_wrt (\<lambda>x y. k y \<le> k x) (sort_desc k xs)"
  unfolding sort_desc_def sorted_wrt_rev using sorted_sort_key[of k "rev xs"]
  by (simp add: sorted_map)

text \<open>\<open>ORDER BY key LIMIT n\<close> keeps the first rows: nothing left out comes before anything kept.\<close>

lemma sorted_wrt_take_drop:
  "sorted_wrt R xs \<Longrightarrow> x \<in> set (take n xs) \<Longrightarrow> y \<in> set (drop n xs) \<Longrightarrow> R x y"
  by (metis append_take_drop_id sorted_wrt_append)

lemma in_take_or_drop: "x \<in> set xs \<Longrightarrow> x \<notin> set (take n xs) \<Longrightarrow> x \<in> set (drop n xs)"
  by (metis Un_iff append_take_drop_id set_append)

lemma set_take_sub: "x \<in> set (take n xs) \<Longrightarrow> x \<in> set xs"
  by (rule in_set_takeD)

end
