(* ===== verification/Regex.thy ===== *)
theory Regex
  imports Prelude
begin

section \<open>Backtracking regular expressions\<close>

text \<open>
  The part of Python's \<open>re\<close> the program uses: sets of characters, sequence, ordered choice, greedy
  repetition, word boundaries, the start anchor and groups. \<open>matches_at\<close> lists the ways to match from
  a position in the order the engine tries them, so its first element is the engine's match. A
  position is the text before it (reversed), the text after it and the groups captured so far. The
  relation \<open>rx_match\<close> is the declarative meaning; \<open>matches_at_iff\<close> shows that the two agree.
\<close>

datatype rx =
    RSet "char \<Rightarrow> bool"
  | REps
  | RSeq rx rx
  | RAlt rx rx
  | RStar rx
  | RUpTo nat rx
  | RWordB
  | RBegin
  | RGroup nat rx

record position =
  ps_before :: string
  ps_after :: string
  ps_groups :: "(nat \<times> string) list"

text \<open>\<open>\w\<close> on code points below 256: letters, digits and the underscore.\<close>

definition is_word :: "char \<Rightarrow> bool" where
  "is_word c = (let n = (of_char c :: nat) in
     (48 \<le> n \<and> n \<le> 57) \<or> (65 \<le> n \<and> n \<le> 90) \<or> n = 95 \<or> (97 \<le> n \<and> n \<le> 122)
     \<or> n \<in> {170, 178, 179, 181, 185, 186, 188, 189, 190}
     \<or> (192 \<le> n \<and> n \<noteq> 215 \<and> n \<noteq> 247))"

definition is_digit :: "char \<Rightarrow> bool" where
  "is_digit c = (let n = (of_char c :: nat) in 48 \<le> n \<and> n \<le> 57)"

definition starts_word :: "string \<Rightarrow> bool" where
  "starts_word s = (case s of [] \<Rightarrow> False | c # _ \<Rightarrow> is_word c)"

definition at_boundary :: "position \<Rightarrow> bool" where
  "at_boundary p \<longleftrightarrow> starts_word (ps_before p) \<noteq> starts_word (ps_after p)"

definition advances :: "position \<Rightarrow> position \<Rightarrow> bool" where
  "advances p q \<longleftrightarrow> length (ps_after q) < length (ps_after p)"

text \<open>Greedy repetition, at most \<open>n\<close> times: once more first, stopping last; a round that consumes nothing
  ends the repetition.\<close>

fun repeat_greedy :: "nat \<Rightarrow> (position \<Rightarrow> position list) \<Rightarrow> position \<Rightarrow> position list" where
  "repeat_greedy 0 f p = [p]"
| "repeat_greedy (Suc n) f p = concat (map (repeat_greedy n f) (filter (advances p) (f p))) @ [p]"

definition step_char :: "(char \<Rightarrow> bool) \<Rightarrow> position \<Rightarrow> position list" where
  "step_char P p = (case ps_after p of
      [] \<Rightarrow> []
    | c # cs \<Rightarrow> if P c then [p\<lparr>ps_before := c # ps_before p, ps_after := cs\<rparr>] else [])"

definition capture :: "nat \<Rightarrow> position \<Rightarrow> position \<Rightarrow> position" where
  "capture k p q = q\<lparr>ps_groups :=
     AList.update k (take (length (ps_after p) - length (ps_after q)) (ps_after p)) (ps_groups q)\<rparr>"

primrec matches_at :: "rx \<Rightarrow> position \<Rightarrow> position list" where
  "matches_at (RSet P) p = step_char P p"
| "matches_at REps p = [p]"
| "matches_at (RSeq r s) p = concat (map (matches_at s) (matches_at r p))"
| "matches_at (RAlt r s) p = matches_at r p @ matches_at s p"
| "matches_at (RStar r) p = repeat_greedy (length (ps_after p)) (matches_at r) p"
| "matches_at (RUpTo n r) p = repeat_greedy n (matches_at r) p"
| "matches_at RWordB p = (if at_boundary p then [p] else [])"
| "matches_at RBegin p = (if ps_before p = [] then [p] else [])"
| "matches_at (RGroup k r) p = map (capture k p) (matches_at r p)"

subsection \<open>Searching\<close>

definition start_of :: "string \<Rightarrow> position" where
  "start_of s = \<lparr>ps_before = [], ps_after = s, ps_groups = []\<rparr>"

definition first_match :: "rx \<Rightarrow> position \<Rightarrow> position option" where
  "first_match r p = (case matches_at r p of [] \<Rightarrow> None | q # _ \<Rightarrow> Some q)"

text \<open>\<open>search\<close>: the first position, from left to right, that has a match.\<close>

fun search_from :: "rx \<Rightarrow> string \<Rightarrow> string \<Rightarrow> (position \<times> position) option" where
  "search_from r before after =
     (let p = \<lparr>ps_before = before, ps_after = after, ps_groups = []\<rparr> in
      case first_match r p of
        Some q \<Rightarrow> Some (p, q)
      | None \<Rightarrow> (case after of [] \<Rightarrow> None | c # cs \<Rightarrow> search_from r (c # before) cs))"

declare search_from.simps [simp del]

definition rx_search :: "rx \<Rightarrow> string \<Rightarrow> (position \<times> position) option" where
  "rx_search r s = search_from r [] s"

definition rx_found :: "rx \<Rightarrow> string \<Rightarrow> bool" where
  "rx_found r s \<longleftrightarrow> rx_search r s \<noteq> None"

definition matched_text :: "position \<times> position \<Rightarrow> string" where
  "matched_text m = take (length (ps_after (fst m)) - length (ps_after (snd m))) (ps_after (fst m))"

definition group_text :: "nat \<Rightarrow> position \<times> position \<Rightarrow> string" where
  "group_text k m = (case map_of (ps_groups (snd m)) k of Some s \<Rightarrow> s | None \<Rightarrow> [])"

text \<open>\<open>finditer\<close>: the next search starts where the last match ended, one further when it was empty.\<close>

fun find_iter :: "nat \<Rightarrow> rx \<Rightarrow> string \<Rightarrow> string \<Rightarrow> (position \<times> position) list" where
  "find_iter 0 r before after = []"
| "find_iter (Suc n) r before after = (case search_from r before after of
      None \<Rightarrow> []
    | Some (p, q) \<Rightarrow> (p, q) #
        (if advances p q then find_iter n r (ps_before q) (ps_after q)
         else (case ps_after q of [] \<Rightarrow> [] | c # cs \<Rightarrow> find_iter n r (c # ps_before q) cs)))"

definition rx_finditer :: "rx \<Rightarrow> string \<Rightarrow> (position \<times> position) list" where
  "rx_finditer r s = find_iter (Suc (length s)) r [] s"

definition rx_fullmatch :: "rx \<Rightarrow> string \<Rightarrow> bool" where
  "rx_fullmatch r s \<longleftrightarrow> list_ex (\<lambda>q. ps_after q = []) (matches_at r (start_of s))"

subsection \<open>Building expressions\<close>

text \<open>Under \<open>IGNORECASE\<close> a letter matches either case.\<close>

definition rx_char :: "char \<Rightarrow> rx" where
  "rx_char c = RSet (\<lambda>x. lower_char x = lower_char c)"

fun rx_lit :: "string \<Rightarrow> rx" where
  "rx_lit [] = REps"
| "rx_lit (c # cs) = RSeq (rx_char c) (rx_lit cs)"

fun rx_seq :: "rx list \<Rightarrow> rx" where
  "rx_seq [] = REps"
| "rx_seq [r] = r"
| "rx_seq (r # s # rs) = RSeq r (rx_seq (s # rs))"

fun rx_alts :: "rx list \<Rightarrow> rx" where
  "rx_alts [] = RSet (\<lambda>_. False)"
| "rx_alts [r] = r"
| "rx_alts (r # s # rs) = RAlt r (rx_alts (s # rs))"

definition rx_opt :: "rx \<Rightarrow> rx" where
  "rx_opt r = RUpTo 1 r"

definition rx_plus :: "rx \<Rightarrow> rx" where
  "rx_plus r = RSeq r (RStar r)"

definition rx_space :: rx where
  "rx_space = RSet is_space"

definition rx_spaces :: rx where
  "rx_spaces = rx_plus rx_space"

definition rx_dot :: rx where
  "rx_dot = RSet (\<lambda>c. (of_char c :: nat) \<noteq> 10)"

definition rx_alnum :: rx where
  "rx_alnum = RSet (\<lambda>c. is_digit c \<or> is_alpha c)"

subsection \<open>The declarative meaning\<close>

inductive rx_match :: "rx \<Rightarrow> position \<Rightarrow> position \<Rightarrow> bool" where
  rm_set: "ps_after p = c # cs \<Longrightarrow> P c \<Longrightarrow>
     rx_match (RSet P) p (p\<lparr>ps_before := c # ps_before p, ps_after := cs\<rparr>)"
| rm_eps: "rx_match REps p p"
| rm_seq: "rx_match r p q \<Longrightarrow> rx_match s q t \<Longrightarrow> rx_match (RSeq r s) p t"
| rm_left: "rx_match r p q \<Longrightarrow> rx_match (RAlt r s) p q"
| rm_right: "rx_match s p q \<Longrightarrow> rx_match (RAlt r s) p q"
| rm_stop: "rx_match (RStar r) p p"
| rm_more: "rx_match r p q \<Longrightarrow> advances p q \<Longrightarrow> rx_match (RStar r) q t \<Longrightarrow> rx_match (RStar r) p t"
| rm_none: "rx_match (RUpTo n r) p p"
| rm_next: "rx_match r p q \<Longrightarrow> advances p q \<Longrightarrow> rx_match (RUpTo n r) q t \<Longrightarrow> rx_match (RUpTo (Suc n) r) p t"
| rm_word: "at_boundary p \<Longrightarrow> rx_match RWordB p p"
| rm_begin: "ps_before p = [] \<Longrightarrow> rx_match RBegin p p"
| rm_group: "rx_match r p q \<Longrightarrow> rx_match (RGroup k r) p (capture k p q)"

inductive_cases rx_starE: "rx_match (RStar r) p q"
inductive_cases rx_uptoE: "rx_match (RUpTo n r) p q"
inductive_simps rx_match_simps: "rx_match (RSet P) p q" "rx_match REps p q" "rx_match (RSeq r s) p q"
  "rx_match (RAlt r s) p q" "rx_match RWordB p q" "rx_match RBegin p q" "rx_match (RGroup k r) p q"

text \<open>Text is never reordered: before and after together stay the subject.\<close>

definition subject :: "position \<Rightarrow> string" where
  "subject p = rev (ps_before p) @ ps_after p"

lemma rx_match_subject: "rx_match r p q \<Longrightarrow> subject q = subject p \<and> length (ps_after q) \<le> length (ps_after p)"
  by (induction rule: rx_match.induct) (auto simp: subject_def capture_def advances_def)

lemma repeat_greedy_upto:
  assumes "\<And>p q. q \<in> set (f p) \<longleftrightarrow> rx_match r p q"
  shows "q \<in> set (repeat_greedy n f p) \<longleftrightarrow> rx_match (RUpTo n r) p q"
proof (induction n arbitrary: p)
  case 0
  then show ?case by (auto intro: rm_none elim: rx_uptoE)
next
  case (Suc n)
  have "q \<in> set (repeat_greedy (Suc n) f p) \<longleftrightarrow>
      q = p \<or> (\<exists>p'. rx_match r p p' \<and> advances p p' \<and> rx_match (RUpTo n r) p' q)"
    using assms Suc by auto
  also have "\<dots> \<longleftrightarrow> rx_match (RUpTo (Suc n) r) p q"
    by (auto intro: rm_none rm_next elim: rx_uptoE)
  finally show ?case .
qed

lemma star_upto: "rx_match (RUpTo n r) p q \<Longrightarrow> rx_match (RStar r) p q"
  by (induction "RUpTo n r" p q arbitrary: n rule: rx_match.induct) (auto intro: rm_stop rm_more)

lemma upto_star: "rx_match (RStar r) p q \<Longrightarrow> length (ps_after p) \<le> n \<Longrightarrow> rx_match (RUpTo n r) p q"
proof (induction "RStar r" p q arbitrary: n rule: rx_match.induct)
  case (rm_more p q t)
  then obtain m where m: "n = Suc m" by (cases n) (auto simp: advances_def)
  then have "rx_match (RUpTo m r) q t" using rm_more by (auto simp: advances_def)
  then show ?case using rm_more m by (auto intro: rm_next)
qed (auto intro: rm_none)

theorem matches_at_iff: "q \<in> set (matches_at r p) \<longleftrightarrow> rx_match r p q"
proof (induction r arbitrary: p q)
  case (RSet P)
  show ?case by (cases "ps_after p") (auto simp: step_char_def rx_match_simps)
next
  case (RStar r)
  then show ?case using repeat_greedy_upto[of "matches_at r" r] upto_star star_upto by auto
next
  case (RUpTo n r)
  then show ?case using repeat_greedy_upto[of "matches_at r" r] by auto
next
  case (RSeq r s)
  then show ?case by (fastforce simp: rx_match_simps)
qed (auto simp: rx_match_simps)

lemma search_from_Some:
  "search_from r before after = Some (p, q) \<Longrightarrow>
     rx_match r p q \<and> subject p = rev before @ after \<and> ps_groups p = []"
proof (induction r before after rule: search_from.induct)
  case (1 r before after)
  let ?p = "\<lparr>ps_before = before, ps_after = after, ps_groups = []\<rparr>"
  show ?case
  proof (cases "matches_at r ?p")
    case (Cons x xs)
    then have "p = ?p" "q = x" using "1.prems"
      by (simp_all add: search_from.simps[of r before after] first_match_def Let_def)
    moreover have "rx_match r ?p x" using Cons matches_at_iff[of x r ?p] by simp
    ultimately show ?thesis by (simp add: subject_def)
  next
    case Nil
    then have none: "first_match r ?p = None" by (simp add: first_match_def)
    then obtain c cs where c: "after = c # cs" "search_from r (c # before) cs = Some (p, q)"
      using "1.prems" by (cases after) (simp_all add: search_from.simps[of r before] Let_def)
    then show ?thesis using "1.IH"[OF refl none c(1)] by simp
  qed
qed

lemma search_from_None:
  "search_from r before after = None \<Longrightarrow> subject p = rev before @ after \<Longrightarrow> ps_groups p = [] \<Longrightarrow>
     length (ps_after p) \<le> length after \<Longrightarrow> \<not> rx_match r p q"
proof (induction r before after rule: search_from.induct)
  case (1 r before after)
  let ?p = "\<lparr>ps_before = before, ps_after = after, ps_groups = []\<rparr>"
  have nil: "matches_at r ?p = []"
    using "1.prems"(1)
    by (cases "matches_at r ?p") (simp_all add: search_from.simps[of r before after] first_match_def Let_def)
  then have none: "first_match r ?p = None" by (simp add: first_match_def)
  show ?case
  proof (cases "length (ps_after p) = length after")
    case True
    then have "ps_before p = before" "ps_after p = after"
      using "1.prems"(2) by (auto simp: subject_def)
    then have "p = ?p" using "1.prems"(3) by (cases p) simp
    then show ?thesis using nil matches_at_iff[of q r ?p] by simp
  next
    case False
    then obtain c cs where c: "after = c # cs" using "1.prems"(4) by (cases after) auto
    then have "search_from r (c # before) cs = None"
      using "1.prems"(1) none by (simp add: search_from.simps[of r before "c # cs"] Let_def)
    then show ?thesis
      using "1.IH"[OF refl none c] "1.prems"(2-4) False c by simp
  qed
qed

text \<open>A search finds something exactly when the pattern matches somewhere in the text.\<close>

lemma rx_found_iff:
  "rx_found r s \<longleftrightarrow> (\<exists>p q. subject p = s \<and> ps_groups p = [] \<and> rx_match r p q)"
proof
  assume "rx_found r s"
  then obtain p q where "search_from r [] s = Some (p, q)" by (auto simp: rx_found_def rx_search_def)
  then show "\<exists>p q. subject p = s \<and> ps_groups p = [] \<and> rx_match r p q"
    using search_from_Some by fastforce
next
  assume "\<exists>p q. subject p = s \<and> ps_groups p = [] \<and> rx_match r p q"
  then obtain p q where "subject p = s" "ps_groups p = []" "rx_match r p q" by blast
  then have "search_from r [] s = None \<Longrightarrow> False"
    using search_from_None[of r "[]" s p q] by (auto simp: subject_def)
  then have "search_from r [] s \<noteq> None" by blast
  then show "rx_found r s" by (simp add: rx_found_def rx_search_def)
qed

text \<open>A cheap necessary condition: every character an expression cannot do without occurs in the text.\<close>

primrec rx_possible :: "rx \<Rightarrow> string \<Rightarrow> bool" where
  "rx_possible (RSet P) s = list_ex P s"
| "rx_possible REps s = True"
| "rx_possible (RSeq r t) s = (rx_possible r s \<and> rx_possible t s)"
| "rx_possible (RAlt r t) s = (rx_possible r s \<or> rx_possible t s)"
| "rx_possible (RStar r) s = True"
| "rx_possible (RUpTo n r) s = True"
| "rx_possible RWordB s = True"
| "rx_possible RBegin s = True"
| "rx_possible (RGroup k r) s = rx_possible r s"

lemma rx_match_possible: "rx_match r p q \<Longrightarrow> rx_possible r (subject p)"
  by (induction rule: rx_match.induct) (auto simp: subject_def list_ex_iff dest: rx_match_subject)

lemma not_possible_not_found: "\<not> rx_possible r s \<Longrightarrow> rx_found r s = False"
  by (auto simp: rx_found_iff dest: rx_match_possible)

end
