(* ===== verification/Authorization.thy ===== *)
theory Authorization
  imports Prelude
begin

section \<open>Roles, permissions and the authorization policy\<close>

text \<open>
  The role catalogue and \<open>AuthorizationContext\<close> of
  \<open>src/app/modules/user/domain/authorization.py\<close>, and the \<open>AuthorizationPolicy\<close> of
  \<open>user/application/authorization_policy.py\<close> over the role and site tables that
  \<open>user/infrastructure/repository.py\<close> reads and writes. A context holds role \<^emph>\<open>strings\<close>, as the
  repository loads them: a row whose role is not in the catalogue makes \<open>permissions\<close> raise
  \<open>KeyError\<close>. The locale \<open>permission_gate\<close> is what the policy's callers rely on.
\<close>

subsection \<open>The catalogue\<close>

datatype permission =
    USERS_MANAGE
  | ROLES_MANAGE
  | WORK_ORDERS_READ
  | WORK_ORDERS_UPDATE
  | WORK_ORDERS_CHANGE_STATUS
  | WORK_ORDERS_COMPLETE
  | WORK_ORDERS_CANCEL
  | MAINTENANCE_TICKETS_READ
  | MAINTENANCE_TICKETS_UPDATE
  | ASSETS_READ
  | ASSETS_UPDATE
  | SPARE_PARTS_READ
  | SPARE_PARTS_ISSUE
  | SPARE_PARTS_ADJUST_INVENTORY
  | PRODUCTION_SCHEDULE_READ
  | PRODUCTION_SCHEDULE_UPDATE
  | PRODUCTION_SCHEDULE_PUBLISH
  | DOCUMENTS_READ
  | DOCUMENTS_UPLOAD
  | DOCUMENTS_DELETE
  | REPORTS_READ
  | AUDIT_LOGS_READ
  | WEB_SEARCH

fun permission_value :: "permission \<Rightarrow> string" where
  "permission_value USERS_MANAGE = ''users:manage''"
| "permission_value ROLES_MANAGE = ''roles:manage''"
| "permission_value WORK_ORDERS_READ = ''work_orders:read''"
| "permission_value WORK_ORDERS_UPDATE = ''work_orders:update''"
| "permission_value WORK_ORDERS_CHANGE_STATUS = ''work_orders:change_status''"
| "permission_value WORK_ORDERS_COMPLETE = ''work_orders:complete''"
| "permission_value WORK_ORDERS_CANCEL = ''work_orders:cancel''"
| "permission_value MAINTENANCE_TICKETS_READ = ''maintenance_tickets:read''"
| "permission_value MAINTENANCE_TICKETS_UPDATE = ''maintenance_tickets:update''"
| "permission_value ASSETS_READ = ''assets:read''"
| "permission_value ASSETS_UPDATE = ''assets:update''"
| "permission_value SPARE_PARTS_READ = ''spare_parts:read''"
| "permission_value SPARE_PARTS_ISSUE = ''spare_parts:issue''"
| "permission_value SPARE_PARTS_ADJUST_INVENTORY = ''spare_parts:adjust_inventory''"
| "permission_value PRODUCTION_SCHEDULE_READ = ''production_schedule:read''"
| "permission_value PRODUCTION_SCHEDULE_UPDATE = ''production_schedule:update''"
| "permission_value PRODUCTION_SCHEDULE_PUBLISH = ''production_schedule:publish''"
| "permission_value DOCUMENTS_READ = ''documents:read''"
| "permission_value DOCUMENTS_UPLOAD = ''documents:upload''"
| "permission_value DOCUMENTS_DELETE = ''documents:delete''"
| "permission_value REPORTS_READ = ''reports:read''"
| "permission_value AUDIT_LOGS_READ = ''audit_logs:read''"
| "permission_value WEB_SEARCH = ''web_search''"

datatype role_name =
    SYSTEM_ADMINISTRATOR
  | OPERATIONS_MANAGER
  | READ_ONLY_ANALYST
  | MAINTENANCE_TECHNICIAN
  | MAINTENANCE_SUPERVISOR

fun role_value :: "role_name \<Rightarrow> string" where
  "role_value SYSTEM_ADMINISTRATOR = ''system_administrator''"
| "role_value OPERATIONS_MANAGER = ''operations_manager''"
| "role_value READ_ONLY_ANALYST = ''read_only_analyst''"
| "role_value MAINTENANCE_TECHNICIAN = ''maintenance_technician''"
| "role_value MAINTENANCE_SUPERVISOR = ''maintenance_supervisor''"

definition all_permissions :: "permission list" where
  "all_permissions = [USERS_MANAGE, ROLES_MANAGE, WORK_ORDERS_READ, WORK_ORDERS_UPDATE,
     WORK_ORDERS_CHANGE_STATUS, WORK_ORDERS_COMPLETE, WORK_ORDERS_CANCEL, MAINTENANCE_TICKETS_READ,
     MAINTENANCE_TICKETS_UPDATE, ASSETS_READ, ASSETS_UPDATE, SPARE_PARTS_READ, SPARE_PARTS_ISSUE,
     SPARE_PARTS_ADJUST_INVENTORY, PRODUCTION_SCHEDULE_READ, PRODUCTION_SCHEDULE_UPDATE,
     PRODUCTION_SCHEDULE_PUBLISH, DOCUMENTS_READ, DOCUMENTS_UPLOAD, DOCUMENTS_DELETE, REPORTS_READ,
     AUDIT_LOGS_READ, WEB_SEARCH]"

lemma all_permissions_complete [simp]: "set all_permissions = UNIV"
proof -
  have "p \<in> set all_permissions" for p
    by (cases p) (simp_all add: all_permissions_def)
  then show ?thesis by auto
qed

text \<open>Permissions are finitely many; the library's automation for such types applies.\<close>

instantiation permission :: enum
begin

definition enum_permission :: "permission list" where
  "enum_permission = all_permissions"

definition enum_all_permission :: "(permission \<Rightarrow> bool) \<Rightarrow> bool" where
  "enum_all_permission P \<longleftrightarrow> list_all P all_permissions"

definition enum_ex_permission :: "(permission \<Rightarrow> bool) \<Rightarrow> bool" where
  "enum_ex_permission P \<longleftrightarrow> list_ex P all_permissions"

instance
proof
  show "distinct (enum_class.enum :: permission list)" by (simp add: enum_permission_def all_permissions_def)
qed (auto simp: enum_permission_def enum_all_permission_def enum_ex_permission_def list_all_iff list_ex_iff)

end

lemma permission_value_inject: "permission_value p = permission_value q \<longleftrightarrow> p = q"
proof -
  have "\<forall>p q. permission_value p = permission_value q \<longrightarrow> p = q" by code_simp
  then show ?thesis by blast
qed

record role_definition_t =
  rd_name :: role_name
  rd_permissions :: "permission set"

definition READ_OPERATIONS :: "permission set" where
  "READ_OPERATIONS =
     {WORK_ORDERS_READ, MAINTENANCE_TICKETS_READ, ASSETS_READ, SPARE_PARTS_READ, PRODUCTION_SCHEDULE_READ}"

fun ROLE_DEFINITIONS :: "role_name \<Rightarrow> role_definition_t" where
  "ROLE_DEFINITIONS SYSTEM_ADMINISTRATOR =
     \<lparr>rd_name = SYSTEM_ADMINISTRATOR, rd_permissions = set all_permissions\<rparr>"
| "ROLE_DEFINITIONS OPERATIONS_MANAGER =
     \<lparr>rd_name = OPERATIONS_MANAGER, rd_permissions = READ_OPERATIONS \<union>
        {WORK_ORDERS_UPDATE, WORK_ORDERS_CHANGE_STATUS, WORK_ORDERS_COMPLETE, WORK_ORDERS_CANCEL,
         MAINTENANCE_TICKETS_UPDATE, PRODUCTION_SCHEDULE_UPDATE, PRODUCTION_SCHEDULE_PUBLISH,
         DOCUMENTS_READ, DOCUMENTS_UPLOAD, REPORTS_READ, AUDIT_LOGS_READ, WEB_SEARCH}\<rparr>"
| "ROLE_DEFINITIONS READ_ONLY_ANALYST =
     \<lparr>rd_name = READ_ONLY_ANALYST, rd_permissions = READ_OPERATIONS \<union>
        {DOCUMENTS_READ, REPORTS_READ, AUDIT_LOGS_READ, WEB_SEARCH}\<rparr>"
| "ROLE_DEFINITIONS MAINTENANCE_TECHNICIAN =
     \<lparr>rd_name = MAINTENANCE_TECHNICIAN, rd_permissions =
        {WORK_ORDERS_READ, WORK_ORDERS_UPDATE, WORK_ORDERS_CHANGE_STATUS, MAINTENANCE_TICKETS_READ,
         MAINTENANCE_TICKETS_UPDATE, ASSETS_READ, SPARE_PARTS_READ, SPARE_PARTS_ISSUE, DOCUMENTS_READ,
         DOCUMENTS_UPLOAD, WEB_SEARCH}\<rparr>"
| "ROLE_DEFINITIONS MAINTENANCE_SUPERVISOR =
     \<lparr>rd_name = MAINTENANCE_SUPERVISOR, rd_permissions =
        {WORK_ORDERS_READ, WORK_ORDERS_UPDATE, WORK_ORDERS_CHANGE_STATUS, WORK_ORDERS_COMPLETE,
         WORK_ORDERS_CANCEL, MAINTENANCE_TICKETS_READ, MAINTENANCE_TICKETS_UPDATE, ASSETS_READ,
         SPARE_PARTS_READ, SPARE_PARTS_ISSUE, DOCUMENTS_READ, DOCUMENTS_UPLOAD, REPORTS_READ, WEB_SEARCH}\<rparr>"

definition role_definition :: "role_name \<Rightarrow> role_definition_t" where
  "role_definition r = ROLE_DEFINITIONS r"

text \<open>A \<open>StrEnum\<close> member hashes and compares as its value: a dictionary keyed by \<open>RoleName\<close> is
  looked up with a plain string.\<close>

definition all_roles :: "role_name list" where
  "all_roles = [SYSTEM_ADMINISTRATOR, OPERATIONS_MANAGER, READ_ONLY_ANALYST, MAINTENANCE_TECHNICIAN,
     MAINTENANCE_SUPERVISOR]"

definition role_lookup :: "string \<Rightarrow> role_definition_t result" where
  "role_lookup s = (case List.find (\<lambda>r. role_value r = s) all_roles of
      Some r \<Rightarrow> Inr (ROLE_DEFINITIONS r)
    | None \<Rightarrow> Inl (KeyErr s))"

lemma role_lookup_value [simp]: "role_lookup (role_value r) = Inr (ROLE_DEFINITIONS r)"
  by (cases r) (simp_all add: role_lookup_def all_roles_def)

lemma role_lookup_Inr: "role_lookup s = Inr d \<Longrightarrow> \<exists>r. s = role_value r \<and> d = ROLE_DEFINITIONS r"
  by (auto simp: role_lookup_def find_Some_iff split: option.splits)

lemma role_lookup_Inl: "role_lookup s = Inl e \<Longrightarrow> e = KeyErr s \<and> s \<notin> range role_value"
proof -
  assume a: "role_lookup s = Inl e"
  have "s \<noteq> role_value r" for r
    using a by (auto simp: role_lookup_value)
  moreover have "e = KeyErr s" using a by (auto simp: role_lookup_def split: option.splits)
  ultimately show ?thesis by auto
qed

subsection \<open>The authorization context\<close>

record authorization_context =
  ac_user_id :: uuid
  ac_roles :: "string list"
  ac_site_codes :: "string list"
  ac_global_scope :: bool

definition permissions :: "authorization_context \<Rightarrow> permission set result" where
  "permissions c = rmap (\<lambda>ds. \<Union> (set (map rd_permissions ds))) (traverse role_lookup (ac_roles c))"

definition can :: "authorization_context \<Rightarrow> permission \<Rightarrow> string option \<Rightarrow> bool result" where
  "can c p site = rbind (permissions c) (\<lambda>ps.
     if p \<notin> ps then Inr False
     else Inr (case site of None \<Rightarrow> True | Some s \<Rightarrow> ac_global_scope c \<or> s \<in> set (ac_site_codes c)))"

subsection \<open>The access tables and the policy\<close>

text \<open>A frozen set of strings is the list of its members. The rows of \<open>user_roles\<close> and \<open>user_sites\<close>; both columns form the primary key, so an insert
  of a row that is there violates the constraint. \<open>known_roles\<close> and \<open>known_sites\<close> are the rows the
  foreign keys refer to.\<close>

record access_tables =
  at_users :: "uuid set"
  at_known_roles :: "string set"
  at_known_sites :: "string set"
  at_user_roles :: "(uuid \<times> string) list"
  at_user_sites :: "(uuid \<times> string) list"

definition get_user_roles :: "access_tables \<Rightarrow> uuid \<Rightarrow> string list" where
  "get_user_roles t u = remdups (map snd (filter (\<lambda>(u', r). u' = u) (at_user_roles t)))"

definition get_user_sites :: "access_tables \<Rightarrow> uuid \<Rightarrow> string list" where
  "get_user_sites t u = remdups (map snd (filter (\<lambda>(u', s). u' = u) (at_user_sites t)))"

definition assign_role :: "access_tables \<Rightarrow> uuid \<Rightarrow> string \<Rightarrow> access_tables result" where
  "assign_role t u r =
     (if (u, r) \<in> set (at_user_roles t) \<or> u \<notin> at_users t \<or> r \<notin> at_known_roles t
      then Inl (ExternalErr ''IntegrityError'')
      else Inr (t\<lparr>at_user_roles := at_user_roles t @ [(u, r)]\<rparr>))"

definition remove_role :: "access_tables \<Rightarrow> uuid \<Rightarrow> string \<Rightarrow> access_tables" where
  "remove_role t u r =
     (if (u, r) \<in> set (at_user_roles t)
      then t\<lparr>at_user_roles := remove1 (u, r) (at_user_roles t)\<rparr> else t)"

definition assign_site :: "access_tables \<Rightarrow> uuid \<Rightarrow> string \<Rightarrow> access_tables result" where
  "assign_site t u s =
     (if (u, s) \<in> set (at_user_sites t) \<or> u \<notin> at_users t \<or> s \<notin> at_known_sites t
      then Inl (ExternalErr ''IntegrityError'')
      else Inr (t\<lparr>at_user_sites := at_user_sites t @ [(u, s)]\<rparr>))"

definition remove_site :: "access_tables \<Rightarrow> uuid \<Rightarrow> string \<Rightarrow> access_tables" where
  "remove_site t u s =
     (if (u, s) \<in> set (at_user_sites t)
      then t\<lparr>at_user_sites := remove1 (u, s) (at_user_sites t)\<rparr> else t)"

definition get_authorization_context :: "access_tables \<Rightarrow> uuid \<Rightarrow> authorization_context" where
  "get_authorization_context t u = (let roles = get_user_roles t u; sites = get_user_sites t u in
     \<lparr>ac_user_id = u, ac_roles = roles, ac_site_codes = sites,
      ac_global_scope = (role_value SYSTEM_ADMINISTRATOR \<in> set roles)\<rparr>)"

definition site_suffix :: "string option \<Rightarrow> string" where
  "site_suffix site = (case site of None \<Rightarrow> [] | Some s \<Rightarrow> if s = [] then [] else '' for site '' @ s)"

definition require_permission :: "access_tables \<Rightarrow> uuid \<Rightarrow> permission \<Rightarrow> string option \<Rightarrow> unit result" where
  "require_permission t u p site =
     rbind (can (get_authorization_context t u) p site) (\<lambda>ok.
       if \<not> ok then Inl (AuthorizationPolicyErr
              (''User '' @ uuid_str u @ '' lacks permission '' @ permission_value p @ site_suffix site))
       else Inr ())"

text \<open>\<open>any(...)\<close> stops at the first permission that holds.\<close>

fun any_can :: "authorization_context \<Rightarrow> permission list \<Rightarrow> string option \<Rightarrow> bool result" where
  "any_can c [] site = Inr False"
| "any_can c (p # ps) site = rbind (can c p site) (\<lambda>b. if b then Inr True else any_can c ps site)"

definition require_any_permission ::
  "access_tables \<Rightarrow> uuid \<Rightarrow> permission list \<Rightarrow> string option \<Rightarrow> unit result" where
  "require_any_permission t u ps site =
     rbind (any_can (get_authorization_context t u) ps site) (\<lambda>ok.
       if \<not> ok then Inl (AuthorizationPolicyErr
              (''User '' @ uuid_str u @ '' lacks at least one of '' @ nat_str (length ps) @
               '' required permissions'' @ site_suffix site))
       else Inr ())"

subsection \<open>Facts about contexts\<close>

definition known_roles :: "authorization_context \<Rightarrow> bool" where
  "known_roles c \<longleftrightarrow> (\<forall>s \<in> set (ac_roles c). s \<in> range role_value)"

lemma role_value_inject [simp]: "role_value r = role_value r' \<longleftrightarrow> r = r'"
  by (cases r; cases r') simp_all

lemma permissions_Inr:
  assumes "permissions c = Inr ps"
  shows "known_roles c \<and>
     ps = (\<Union>r \<in> {r. role_value r \<in> set (ac_roles c)}. rd_permissions (ROLE_DEFINITIONS r))"
proof -
  obtain ds where ds: "traverse role_lookup (ac_roles c) = Inr ds"
    and ps: "ps = \<Union> (set (map rd_permissions ds))"
    using assms by (auto simp: permissions_def rmap_Inr_iff)
  have known: "known_roles c"
    unfolding known_roles_def
  proof
    fix s assume "s \<in> set (ac_roles c)"
    with ds obtain d where "role_lookup s = Inr d" by (rule traverse_Inr_image)
    then show "s \<in> range role_value" using role_lookup_Inr by blast
  qed
  have "d \<in> set ds \<longleftrightarrow> (\<exists>r. role_value r \<in> set (ac_roles c) \<and> d = ROLE_DEFINITIONS r)" for d
  proof
    assume "d \<in> set ds"
    with ds obtain s where "s \<in> set (ac_roles c)" "role_lookup s = Inr d" by (rule traverse_Inr_elem)
    then show "\<exists>r. role_value r \<in> set (ac_roles c) \<and> d = ROLE_DEFINITIONS r"
      using role_lookup_Inr by blast
  next
    assume "\<exists>r. role_value r \<in> set (ac_roles c) \<and> d = ROLE_DEFINITIONS r"
    then obtain r where r: "role_value r \<in> set (ac_roles c)" "d = ROLE_DEFINITIONS r" by blast
    from ds r(1) obtain d' where "d' \<in> set ds" "role_lookup (role_value r) = Inr d'"
      by (rule traverse_Inr_image)
    then show "d \<in> set ds" using r(2) by simp
  qed
  then have "set ds = ROLE_DEFINITIONS ` {r. role_value r \<in> set (ac_roles c)}" by auto
  then show ?thesis using known ps by auto
qed

lemma permissions_known: "known_roles c \<Longrightarrow> \<exists>ps. permissions c = Inr ps"
proof -
  assume k: "known_roles c"
  have "traverse role_lookup (ac_roles c)
      = Inr (map (\<lambda>s. ROLE_DEFINITIONS (the (List.find (\<lambda>r. role_value r = s) all_roles))) (ac_roles c))"
  proof (rule traverse_all_Inr)
    fix s assume "s \<in> set (ac_roles c)"
    then obtain r where s: "s = role_value r" using k by (auto simp: known_roles_def)
    show "role_lookup s = Inr (ROLE_DEFINITIONS (the (List.find (\<lambda>r. role_value r = s) all_roles)))"
      unfolding s by (cases r) (simp_all add: role_lookup_def all_roles_def)
  qed
  then show ?thesis by (simp add: permissions_def)
qed

lemma permissions_unknown:
  assumes "\<not> known_roles c"
  shows "\<exists>s. permissions c = Inl (KeyErr s) \<and> s \<in> set (ac_roles c) \<and> s \<notin> range role_value"
proof (cases "traverse role_lookup (ac_roles c)")
  case (Inl e)
  then obtain s where "s \<in> set (ac_roles c)" "role_lookup s = Inl e"
    using traverse_Inl_elem by blast
  then show ?thesis using Inl role_lookup_Inl by (fastforce simp: permissions_def)
next
  case (Inr ds)
  then have "permissions c = Inr (\<Union> (set (map rd_permissions ds)))" by (simp add: permissions_def)
  then show ?thesis using assms permissions_Inr by blast
qed

lemma can_Inr:
  "can c p site = Inr b \<Longrightarrow> \<exists>ps. permissions c = Inr ps \<and>
     (b \<longleftrightarrow> p \<in> ps \<and> (case site of None \<Rightarrow> True | Some s \<Rightarrow> ac_global_scope c \<or> s \<in> set (ac_site_codes c)))"
  by (auto simp: can_def rbind_Inr_iff split: if_splits)

lemma can_mono_site: "can c p (Some s) = Inr True \<Longrightarrow> can c p None = Inr True"
  by (auto simp: can_def rbind_Inr_iff split: if_splits)

lemma get_user_roles_iff: "r \<in> set (get_user_roles t u) \<longleftrightarrow> (u, r) \<in> set (at_user_roles t)"
  by (force simp: get_user_roles_def)

lemma get_user_sites_iff: "r \<in> set (get_user_sites t u) \<longleftrightarrow> (u, r) \<in> set (at_user_sites t)"
  by (force simp: get_user_sites_def)

lemma context_simps [simp]:
  "ac_user_id (get_authorization_context t u) = u"
  "ac_roles (get_authorization_context t u) = get_user_roles t u"
  "ac_site_codes (get_authorization_context t u) = get_user_sites t u"
  "ac_global_scope (get_authorization_context t u) \<longleftrightarrow> (u, ''system_administrator'') \<in> set (at_user_roles t)"
  by (simp_all add: get_authorization_context_def Let_def get_user_roles_iff)

text \<open>The permissions the rows of a user grant.\<close>

definition granted :: "access_tables \<Rightarrow> uuid \<Rightarrow> permission \<Rightarrow> bool" where
  "granted t u p \<longleftrightarrow> (\<exists>r. (u, role_value r) \<in> set (at_user_roles t) \<and> p \<in> rd_permissions (ROLE_DEFINITIONS r))"

definition in_scope :: "access_tables \<Rightarrow> uuid \<Rightarrow> string option \<Rightarrow> bool" where
  "in_scope t u site = (case site of None \<Rightarrow> True | Some s \<Rightarrow>
     (u, ''system_administrator'') \<in> set (at_user_roles t) \<or> (u, s) \<in> set (at_user_sites t))"

definition roles_known :: "access_tables \<Rightarrow> uuid \<Rightarrow> bool" where
  "roles_known t u \<longleftrightarrow> known_roles (get_authorization_context t u)"

lemma can_context:
  "can (get_authorization_context t u) p site =
     (case permissions (get_authorization_context t u) of Inl e \<Rightarrow> Inl e
      | Inr ps \<Rightarrow> Inr (granted t u p \<and> in_scope t u site))"
proof (cases "permissions (get_authorization_context t u)")
  case (Inr ps)
  have "p \<in> ps \<longleftrightarrow> granted t u p"
    using permissions_Inr[OF Inr] by (auto simp: granted_def get_user_roles_iff)
  then show ?thesis using Inr
    by (auto simp: can_def in_scope_def get_user_sites_iff split: option.splits)
qed (simp add: can_def)

lemma permissions_context_Inr: "roles_known t u \<Longrightarrow> \<exists>ps. permissions (get_authorization_context t u) = Inr ps"
  by (simp add: roles_known_def permissions_known)

lemma permissions_context_Inl:
  "\<not> roles_known t u \<Longrightarrow> \<exists>s. permissions (get_authorization_context t u) = Inl (KeyErr s)
      \<and> (u, s) \<in> set (at_user_roles t)"
  using permissions_unknown by (fastforce simp: roles_known_def get_user_roles_iff)

subsection \<open>What the policy's callers rely on\<close>

text \<open>A gate asked with a site is at least as strict as one asked without, and a refusal is one of
  two exceptions: the policy's own or the lookup's.\<close>

locale permission_gate =
  fixes ask :: "'t \<Rightarrow> 'u \<Rightarrow> 'p \<Rightarrow> string option \<Rightarrow> unit result"
  assumes unscoped: "ask t u p (Some s) = Inr () \<Longrightarrow> ask t u p None = Inr ()"
    and refusal: "ask t u p site = Inl e \<Longrightarrow> (\<exists>m. e = AuthorizationPolicyErr m) \<or> (\<exists>m. e = KeyErr m)"
begin

lemma refused_without_site: "ask t u p None = Inl e \<Longrightarrow> \<exists>e'. ask t u p (Some s) = Inl e'"
  using unscoped[of t u p s] by (cases "ask t u p (Some s)") auto

lemma asked: "ask t u p site = Inr () \<or> (\<exists>m. ask t u p site = Inl (AuthorizationPolicyErr m))
    \<or> (\<exists>m. ask t u p site = Inl (KeyErr m))"
  using refusal[of t u p site] by (cases "ask t u p site") auto

end

lemma require_permission_cases:
  "require_permission t u p site =
     (case permissions (get_authorization_context t u) of Inl e \<Rightarrow> Inl e
      | Inr ps \<Rightarrow> if granted t u p \<and> in_scope t u site then Inr ()
          else Inl (AuthorizationPolicyErr (''User '' @ uuid_str u @ '' lacks permission ''
                 @ permission_value p @ site_suffix site)))"
  by (simp add: require_permission_def can_context split: sum.splits)

interpretation policy_gate: permission_gate require_permission
proof
  fix t u p s
  assume "require_permission t u p (Some s) = Inr ()"
  then show "require_permission t u p None = Inr ()"
    by (auto simp: require_permission_cases in_scope_def split: sum.splits if_splits)
next
  fix t u p site e
  assume "require_permission t u p site = Inl e"
  then show "(\<exists>m. e = AuthorizationPolicyErr m) \<or> (\<exists>m. e = KeyErr m)"
    using permissions_context_Inl[of t u] permissions_context_Inr[of t u]
    by (cases "roles_known t u")
      (fastforce simp: require_permission_cases split: sum.splits if_splits)+
qed

lemma any_can_known:
  assumes "roles_known t u"
  shows "any_can (get_authorization_context t u) ps site = Inr (\<exists>p \<in> set ps. granted t u p \<and> in_scope t u site)"
  using permissions_context_Inr[OF assms] by (induction ps) (auto simp: can_context)

subsection \<open>Properties\<close>

text \<open>C6. \<open>require_permission\<close> lets a call through exactly when every role row of the user is in
  the catalogue, one of the roles grants the permission, and the site (if one is named) is assigned
  to the user or the user is an administrator. A refusal names its cause: a role row outside the
  catalogue surfaces as \<open>KeyError\<close>, even when another role would grant the permission, and
  everything else as \<open>AuthorizationPolicyError\<close>.\<close>

theorem require_permission_decides:
  "case require_permission t u p site of
     Inr _ \<Rightarrow> roles_known t u \<and> granted t u p \<and> in_scope t u site
   | Inl (KeyErr s) \<Rightarrow> (u, s) \<in> set (at_user_roles t) \<and> s \<notin> range role_value
   | Inl (AuthorizationPolicyErr m) \<Rightarrow> roles_known t u \<and> \<not> (granted t u p \<and> in_scope t u site)
   | Inl _ \<Rightarrow> False"
proof (cases "roles_known t u")
  case True
  then show ?thesis using permissions_context_Inr[OF True]
    by (auto simp: require_permission_cases)
next
  case False
  then show ?thesis
    using permissions_unknown[of "get_authorization_context t u"]
    by (auto simp: require_permission_cases roles_known_def get_user_roles_iff)
qed

text \<open>The permissions whose holder can change something.\<close>

definition mutating_permissions :: "permission set" where
  "mutating_permissions = {USERS_MANAGE, ROLES_MANAGE, WORK_ORDERS_UPDATE, WORK_ORDERS_CHANGE_STATUS,
     WORK_ORDERS_COMPLETE, WORK_ORDERS_CANCEL, MAINTENANCE_TICKETS_UPDATE, ASSETS_UPDATE,
     SPARE_PARTS_ISSUE, SPARE_PARTS_ADJUST_INVENTORY, PRODUCTION_SCHEDULE_UPDATE,
     PRODUCTION_SCHEDULE_PUBLISH, DOCUMENTS_UPLOAD, DOCUMENTS_DELETE}"

lemma granted_only:
  assumes "\<And>s. (u, s) \<in> set (at_user_roles t) \<Longrightarrow> s = role_value r" and "granted t u p"
  shows "p \<in> rd_permissions (ROLE_DEFINITIONS r)"
  using assms by (force simp: granted_def)

text \<open>Least privilege: a user whose only role is the analyst's passes no check for a permission
  that changes anything, with or without a site, alone or among several.\<close>

theorem analyst_never_mutates:
  assumes "\<And>s. (u, s) \<in> set (at_user_roles t) \<Longrightarrow> s = ''read_only_analyst''"
    and "set ps \<subseteq> mutating_permissions"
  shows "\<exists>m. require_any_permission t u ps site = Inl (AuthorizationPolicyErr m)"
proof -
  have known: "roles_known t u"
    using assms(1) by (force simp: roles_known_def known_roles_def get_user_roles_iff
        intro: range_eqI[where x = READ_ONLY_ANALYST])
  have "p \<in> rd_permissions (ROLE_DEFINITIONS READ_ONLY_ANALYST)" if "granted t u p" for p
    using granted_only[of u t READ_ONLY_ANALYST p] assms(1) that by simp
  then have "\<not> granted t u p" if "p \<in> set ps" for p
    using that assms(2) by (fastforce simp: mutating_permissions_def READ_OPERATIONS_def)
  then show ?thesis
    by (auto simp: require_any_permission_def any_can_known[OF known])
qed

theorem analyst_never_mutates_witness:
  "\<exists>m. require_any_permission \<lparr>at_users = {1}, at_known_roles = {''read_only_analyst''},
        at_known_sites = {''S1''}, at_user_roles = [(1, ''read_only_analyst'')],
        at_user_sites = [(1, ''S1'')]\<rparr> 1 [WORK_ORDERS_CANCEL, DOCUMENTS_UPLOAD] (Some ''S1'')
      = Inl (AuthorizationPolicyErr m)"
  by (rule analyst_never_mutates) (simp_all add: mutating_permissions_def)

lemma remove_role_rows:
  assumes "distinct (at_user_roles t)"
  shows "set (at_user_roles (remove_role t u r)) = set (at_user_roles t) - {(u, r)}"
  using assms by (auto simp: remove_role_def set_remove1_eq)

text \<open>Revocation: after a role is removed from a user, that user holds exactly the permissions
  the remaining roles grant, every other user holds what they held, and assigning the role again
  restores the user's grants.\<close>

theorem remove_role_revokes:
  assumes "distinct (at_user_roles t)"
  shows "granted (remove_role t u (role_value r)) u p
          = (\<exists>r'. r' \<noteq> r \<and> (u, role_value r') \<in> set (at_user_roles t)
                 \<and> p \<in> rd_permissions (ROLE_DEFINITIONS r'))
       \<and> (\<forall>v. v \<noteq> u \<longrightarrow> granted (remove_role t u (role_value r)) v p = granted t v p)
       \<and> (\<forall>t'. (u, role_value r) \<in> set (at_user_roles t)
              \<longrightarrow> assign_role (remove_role t u (role_value r)) u (role_value r) = Inr t'
              \<longrightarrow> granted t' u p = granted t u p)"
  using remove_role_rows[OF assms, of u "role_value r"]
  by (auto simp: granted_def assign_role_def split: if_splits)

theorem remove_role_revokes_witness:
  "\<not> granted (remove_role \<lparr>at_users = {1}, at_known_roles = {''system_administrator''},
        at_known_sites = {}, at_user_roles = [(1, ''system_administrator'')],
        at_user_sites = []\<rparr> 1 (role_value SYSTEM_ADMINISTRATOR)) 1 USERS_MANAGE"
proof -
  let ?t = "\<lparr>at_users = {1}, at_known_roles = {''system_administrator''},
        at_known_sites = {}, at_user_roles = [(1, ''system_administrator'')], at_user_sites = []\<rparr>"
  have "distinct (at_user_roles ?t)" by simp
  from remove_role_revokes[OF this, of 1 SYSTEM_ADMINISTRATOR USERS_MANAGE]
  have "granted (remove_role ?t 1 (role_value SYSTEM_ADMINISTRATOR)) 1 USERS_MANAGE
    = (\<exists>r'. r' \<noteq> SYSTEM_ADMINISTRATOR \<and> (1, role_value r') \<in> set (at_user_roles ?t)
                 \<and> USERS_MANAGE \<in> rd_permissions (ROLE_DEFINITIONS r'))" by blast
  moreover have "\<not> (\<exists>r'. r' \<noteq> SYSTEM_ADMINISTRATOR \<and> (1, role_value r') \<in> set (at_user_roles ?t)
                 \<and> USERS_MANAGE \<in> rd_permissions (ROLE_DEFINITIONS r'))"
    using role_value_inject[of _ SYSTEM_ADMINISTRATOR] by auto
  ultimately show ?thesis by simp
qed

end
