(* ===== verification/Evidence.thy ===== *)
theory Evidence
  imports Prelude
begin

section \<open>Evidence blocks and their serialised snapshots\<close>

text \<open>
  The evidence blocks of \<open>src/app/shared/kernel/response_evidence.py\<close>, which every tool result is
  turned into, and \<open>ConversationEvidenceSnapshot\<close> of
  \<open>modules/assistant/domain/conversation_evidence.py\<close>: the snapshot's JSON payload, its version and
  size checks, the parser and the text shown to the planner. Python's \<open>repr\<close> of a
  float, a list or a dictionary is a parameter \<open>fr\<close>.
\<close>

subsection \<open>The blocks\<close>

text \<open>\<open>EvidenceScalar\<close>: a string, a number, a boolean or \<open>None\<close>; the source does not check it when a
  field is built.\<close>

fun is_scalar :: "pyval \<Rightarrow> bool" where
  "is_scalar (PList _) = False"
| "is_scalar (PDict _) = False"
| "is_scalar _ = True"

record evidence_field =
  ef_name :: string
  ef_label :: string
  ef_value :: pyval

record source_reference =
  sr_source_id :: string
  sr_title :: string
  sr_url :: string
  sr_published_at :: "string option"

record evidence_item =
  ei_evidence_id :: string
  ei_entity_id :: string
  ei_label :: string
  ei_fields :: "evidence_field list"
  ei_source :: "source_reference option"

record collection_evidence =
  ce_evidence_id :: string
  ce_entity_label :: string
  ce_entity_label_plural :: string
  ce_filters :: "evidence_field list"
  ce_requested_count :: "int option"
  ce_items :: "evidence_item list"

record mutation_evidence =
  me_evidence_id :: string
  me_entity_label :: string
  me_entity_id :: string
  me_previous_state :: "string option"
  me_current_state :: string
  me_changed :: bool

record action_required_evidence =
  ae_evidence_id :: string
  ae_action :: string
  ae_reason :: string

record failure_evidence =
  fe_evidence_id :: string
  fe_code :: string
  fe_message :: string
  fe_retryable :: bool

datatype evidence_block =
    CollectionEvidence collection_evidence
  | MutationEvidence mutation_evidence
  | ActionRequiredEvidence action_required_evidence
  | FailureEvidence failure_evidence

subsection \<open>Rendering of values\<close>

text \<open>\<open>json.dumps\<close> with \<open>ensure_ascii\<close>: the two separators and \<open>sort_keys\<close> are arguments.\<close>

definition json_char :: "char \<Rightarrow> string" where
  "json_char c = (let n = (of_char c :: nat) in
     if n = 34 then [CHR 0x5C, CHR 0x22]
     else if n = 92 then [CHR 0x5C, CHR 0x5C]
     else if n = 10 then [CHR 0x5C, CHR ''n'']
     else if n = 13 then [CHR 0x5C, CHR ''r'']
     else if n = 9 then [CHR 0x5C, CHR ''t'']
     else if n = 8 then [CHR 0x5C, CHR ''b'']
     else if n = 12 then [CHR 0x5C, CHR ''f'']
     else if 32 \<le> n \<and> n \<le> 126 then [c]
     else [CHR 0x5C, CHR ''u''] @ hex_digits 4 n)"

definition json_str :: "string \<Rightarrow> string" where
  "json_str s = [CHR 0x22] @ concat (map json_char s) @ [CHR 0x22]"

fun dumps :: "(pyval \<Rightarrow> string) \<Rightarrow> string \<Rightarrow> string \<Rightarrow> bool \<Rightarrow> pyval \<Rightarrow> string" where
  "dumps fr isep ksep sk PNone = ''null''"
| "dumps fr isep ksep sk (PBool b) = (if b then ''true'' else ''false'')"
| "dumps fr isep ksep sk (PInt i) = int_str i"
| "dumps fr isep ksep sk (PFloat r) = fr (PFloat r)"
| "dumps fr isep ksep sk (PStr s) = json_str s"
| "dumps fr isep ksep sk (PList xs) = ''['' @ join isep (map (dumps fr isep ksep sk) xs) @ '']''"
| "dumps fr isep ksep sk (PDict d) =
     (let kvs = map (\<lambda>(k, v). (k, dumps fr isep ksep sk v)) d;
          kvs' = (if sk then sort_key fst kvs else kvs)
      in ''{'' @ join isep (map (\<lambda>(k, t). json_str k @ ksep @ t) kvs') @ ''}'')"

subsection \<open>Serialisation\<close>

definition serialize_field :: "evidence_field \<Rightarrow> pyval" where
  "serialize_field f = PDict [(''name'', PStr (ef_name f)), (''label'', PStr (ef_label f)),
     (''value'', ef_value f)]"

definition serialize_item :: "evidence_item \<Rightarrow> pyval" where
  "serialize_item i = PDict [
     (''evidence_id'', PStr (ei_evidence_id i)),
     (''entity_id'', PStr (ei_entity_id i)),
     (''label'', PStr (ei_label i)),
     (''fields'', PList (map serialize_field (ei_fields i)))]"

fun serialize_block :: "evidence_block \<Rightarrow> pyval" where
  "serialize_block (CollectionEvidence b) = PDict [
     (''type'', PStr ''collection''),
     (''evidence_id'', PStr (ce_evidence_id b)),
     (''entity_label'', PStr (ce_entity_label b)),
     (''entity_label_plural'', PStr (ce_entity_label_plural b)),
     (''filters'', PList (map serialize_field (ce_filters b))),
     (''requested_count'', opt_int (ce_requested_count b)),
     (''items'', PList (map serialize_item (ce_items b)))]"
| "serialize_block (MutationEvidence b) = PDict [
     (''type'', PStr ''mutation''),
     (''evidence_id'', PStr (me_evidence_id b)),
     (''entity_label'', PStr (me_entity_label b)),
     (''entity_id'', PStr (me_entity_id b)),
     (''previous_state'', opt_str (me_previous_state b)),
     (''current_state'', PStr (me_current_state b)),
     (''changed'', PBool (me_changed b))]"
| "serialize_block (ActionRequiredEvidence b) = PDict [
     (''type'', PStr ''action_required''),
     (''evidence_id'', PStr (ae_evidence_id b)),
     (''action'', PStr (ae_action b)),
     (''reason'', PStr (ae_reason b))]"
| "serialize_block (FailureEvidence b) = PDict [
     (''type'', PStr ''failure''),
     (''evidence_id'', PStr (fe_evidence_id b)),
     (''code'', PStr (fe_code b)),
     (''message'', PStr (fe_message b)),
     (''retryable'', PBool (fe_retryable b))]"

subsection \<open>Parsing\<close>

fun as_mapping :: "pyval \<Rightarrow> dict result" where
  "as_mapping (PDict d) = Inr d"
| "as_mapping _ = Inl (ValueErr ''evidence value must be an object'')"

definition required_string :: "dict \<Rightarrow> string \<Rightarrow> string result" where
  "required_string d name = (case dget d name of
      PStr s \<Rightarrow> if s = [] then Inl (ValueErr (''evidence field '' @ name @ '' must be a non-empty string''))
                else Inr s
    | _ \<Rightarrow> Inl (ValueErr (''evidence field '' @ name @ '' must be a non-empty string'')))"

definition optional_string :: "dict \<Rightarrow> string \<Rightarrow> string option result" where
  "optional_string d name = (case dget d name of
      PNone \<Rightarrow> Inr None
    | PStr s \<Rightarrow> Inr (Some s)
    | _ \<Rightarrow> Inl (ValueErr (''evidence field '' @ name @ '' must be a string or null'')))"

definition required_bool :: "dict \<Rightarrow> string \<Rightarrow> bool result" where
  "required_bool d name = (case dget d name of
      PBool b \<Rightarrow> Inr b
    | _ \<Rightarrow> Inl (ValueErr (''evidence field '' @ name @ '' must be a boolean'')))"

definition val_scalar :: "pyval \<Rightarrow> pyval result" where
  "val_scalar v = (if is_scalar v then Inr v
     else Inl (ValueErr ''evidence field value has an unsupported type''))"

definition deserialize_field :: "pyval \<Rightarrow> evidence_field result" where
  "deserialize_field v =
     rbind (as_mapping v) (\<lambda>d.
     rbind (val_scalar (dget d ''value'')) (\<lambda>x.
     rbind (required_string d ''name'') (\<lambda>n.
     rbind (required_string d ''label'') (\<lambda>l.
       Inr \<lparr>ef_name = n, ef_label = l, ef_value = x\<rparr>))))"

fun as_list :: "string \<Rightarrow> pyval \<Rightarrow> pyval list result" where
  "as_list msg (PList xs) = Inr xs"
| "as_list msg _ = Inl (ValueErr msg)"

definition deserialize_item :: "pyval \<Rightarrow> evidence_item result" where
  "deserialize_item v =
     rbind (as_mapping v) (\<lambda>d.
     rbind (as_list ''evidence item fields must be a list'' (dget_default d ''fields'' (PList []))) (\<lambda>fs.
     rbind (required_string d ''evidence_id'') (\<lambda>e.
     rbind (required_string d ''entity_id'') (\<lambda>i.
     rbind (required_string d ''label'') (\<lambda>l.
     rbind (traverse deserialize_field fs) (\<lambda>fields.
       Inr \<lparr>ei_evidence_id = e, ei_entity_id = i, ei_label = l, ei_fields = fields,
             ei_source = None\<rparr>))))))"

fun requested_count_of :: "pyval \<Rightarrow> int option result" where
  "requested_count_of PNone = Inr None"
| "requested_count_of (PInt i) = Inr (Some i)"
| "requested_count_of _ = Inl (ValueErr ''requested count must be an integer'')"

definition deserialize_collection :: "dict \<Rightarrow> evidence_block result" where
  "deserialize_collection d =
     rbind (as_list ''collection evidence fields must be lists'' (dget_default d ''filters'' (PList []))) (\<lambda>fs.
     rbind (as_list ''collection evidence fields must be lists'' (dget_default d ''items'' (PList []))) (\<lambda>is.
     rbind (requested_count_of (dget d ''requested_count'')) (\<lambda>n.
     rbind (required_string d ''evidence_id'') (\<lambda>e.
     rbind (required_string d ''entity_label'') (\<lambda>l.
     rbind (required_string d ''entity_label_plural'') (\<lambda>p.
     rbind (traverse deserialize_field fs) (\<lambda>filters.
     rbind (traverse deserialize_item is) (\<lambda>items.
       Inr (CollectionEvidence \<lparr>ce_evidence_id = e, ce_entity_label = l, ce_entity_label_plural = p,
         ce_filters = filters, ce_requested_count = n, ce_items = items\<rparr>)))))))))"

definition deserialize_mutation :: "dict \<Rightarrow> evidence_block result" where
  "deserialize_mutation d =
     rbind (required_string d ''evidence_id'') (\<lambda>e.
     rbind (required_string d ''entity_label'') (\<lambda>l.
     rbind (required_string d ''entity_id'') (\<lambda>i.
     rbind (optional_string d ''previous_state'') (\<lambda>p.
     rbind (required_string d ''current_state'') (\<lambda>c.
     rbind (required_bool d ''changed'') (\<lambda>ch.
       Inr (MutationEvidence \<lparr>me_evidence_id = e, me_entity_label = l, me_entity_id = i,
         me_previous_state = p, me_current_state = c, me_changed = ch\<rparr>)))))))"

definition deserialize_action :: "dict \<Rightarrow> evidence_block result" where
  "deserialize_action d =
     rbind (required_string d ''evidence_id'') (\<lambda>e.
     rbind (required_string d ''action'') (\<lambda>a.
     rbind (required_string d ''reason'') (\<lambda>r.
       Inr (ActionRequiredEvidence \<lparr>ae_evidence_id = e, ae_action = a, ae_reason = r\<rparr>))))"

definition deserialize_failure :: "dict \<Rightarrow> evidence_block result" where
  "deserialize_failure d =
     rbind (required_string d ''evidence_id'') (\<lambda>e.
     rbind (required_string d ''code'') (\<lambda>c.
     rbind (required_string d ''message'') (\<lambda>m.
     rbind (required_bool d ''retryable'') (\<lambda>r.
       Inr (FailureEvidence \<lparr>fe_evidence_id = e, fe_code = c, fe_message = m, fe_retryable = r\<rparr>)))))"

definition deserialize_block :: "pyval \<Rightarrow> evidence_block result" where
  "deserialize_block v =
     rbind (as_mapping v) (\<lambda>d.
     rbind (required_string d ''type'') (\<lambda>ty.
       if ty = ''collection'' then deserialize_collection d
       else if ty = ''mutation'' then deserialize_mutation d
       else if ty = ''action_required'' then deserialize_action d
       else if ty = ''failure'' then deserialize_failure d
       else Inl (ValueErr ''unsupported evidence block type'')))"

subsection \<open>Snapshots\<close>

definition EVIDENCE_SCHEMA_VERSION :: int where
  "EVIDENCE_SCHEMA_VERSION = 1"

definition MAX_SERIALIZED_EVIDENCE_BYTES :: nat where
  "MAX_SERIALIZED_EVIDENCE_BYTES = 128000"

record evidence_snapshot =
  es_conversation_id :: uuid
  es_owner_user_id :: uuid
  es_exchange_id :: uuid
  es_tool_name :: string
  es_evidence :: "evidence_block list"
  es_created_at :: datetime
  es_expires_at :: "datetime option"
  es_schema_version :: int

definition snapshot_payload :: "evidence_snapshot \<Rightarrow> dict" where
  "snapshot_payload s = [
     (''schema_version'', PInt (es_schema_version s)),
     (''exchange_id'', PStr (uuid_str (es_exchange_id s))),
     (''tool_name'', PStr (es_tool_name s)),
     (''evidence'', PList (map serialize_block (es_evidence s)))]"

definition snapshot_to_json :: "(pyval \<Rightarrow> string) \<Rightarrow> evidence_snapshot \<Rightarrow> dict result" where
  "snapshot_to_json fr s =
     (if es_schema_version s \<noteq> EVIDENCE_SCHEMA_VERSION
      then Inl (ValueErr ''unsupported evidence schema version'')
      else let payload = snapshot_payload s; serialized = dumps fr '','' '':'' False (PDict payload) in
        if MAX_SERIALIZED_EVIDENCE_BYTES < length serialized
        then Inl (ValueErr ''evidence payload exceeds size limit'')
        else Inr payload)"

definition snapshot_from_json ::
  "(pyval \<Rightarrow> string) \<Rightarrow> uuid \<Rightarrow> uuid \<Rightarrow> datetime \<Rightarrow> datetime option \<Rightarrow> dict \<Rightarrow> evidence_snapshot result" where
  "snapshot_from_json fr cid owner created expires payload =
     (if \<not> py_eq (dget payload ''schema_version'') (PInt EVIDENCE_SCHEMA_VERSION)
      then Inl (ValueErr ''unsupported evidence schema version'')
      else
        rbind (as_list ''evidence payload must contain a list'' (dget payload ''evidence'')) (\<lambda>raw.
        rbind (required_string payload ''exchange_id'') (\<lambda>x.
        rbind (parse_uuid x) (\<lambda>exchange.
        rbind (required_string payload ''tool_name'') (\<lambda>tool.
        rbind (traverse deserialize_block raw) (\<lambda>blocks.
          let snapshot = \<lparr>es_conversation_id = cid, es_owner_user_id = owner,
                es_exchange_id = exchange, es_tool_name = tool, es_evidence = blocks,
                es_created_at = created, es_expires_at = expires,
                es_schema_version = EVIDENCE_SCHEMA_VERSION\<rparr>
          in rmap (\<lambda>_. snapshot) (snapshot_to_json fr snapshot)))))))"

definition item_context_text :: "(pyval \<Rightarrow> string) \<Rightarrow> evidence_item \<Rightarrow> string" where
  "item_context_text fr i =
     ''entity_id='' @ ei_entity_id i @ ''; label='' @ ei_label i @ ''; '' @
     join '', '' (map (\<lambda>f. ef_name f @ ''='' @ py_str fr (ef_value f)) (ei_fields i))"

fun block_context_text :: "(pyval \<Rightarrow> string) \<Rightarrow> evidence_block \<Rightarrow> string" where
  "block_context_text fr (CollectionEvidence b) =
     ''type=collection; entity='' @ ce_entity_label_plural b @ ''; '' @
     join '' | '' (map (item_context_text fr) (ce_items b))"
| "block_context_text fr b = dumps fr '', '' '': '' True (serialize_block b)"

definition to_context_text :: "(pyval \<Rightarrow> string) \<Rightarrow> evidence_snapshot \<Rightarrow> string" where
  "to_context_text fr s =
     ''conversation_id='' @ uuid_str (es_conversation_id s) @ ''; exchange_id='' @
     uuid_str (es_exchange_id s) @ ''; '' @ join newline (map (block_context_text fr) (es_evidence s))"

subsection \<open>Round trip\<close>

text \<open>What \<open>from_json\<close> demands of a block, and the block it gives back: the source of an item is
  not serialised.\<close>

definition wf_field :: "evidence_field \<Rightarrow> bool" where
  "wf_field f \<longleftrightarrow> ef_name f \<noteq> [] \<and> ef_label f \<noteq> [] \<and> is_scalar (ef_value f)"

definition wf_item :: "evidence_item \<Rightarrow> bool" where
  "wf_item i \<longleftrightarrow> ei_evidence_id i \<noteq> [] \<and> ei_entity_id i \<noteq> [] \<and> ei_label i \<noteq> [] \<and> list_all wf_field (ei_fields i)"

fun wf_block :: "evidence_block \<Rightarrow> bool" where
  "wf_block (CollectionEvidence b) \<longleftrightarrow> ce_evidence_id b \<noteq> [] \<and> ce_entity_label b \<noteq> [] \<and>
     ce_entity_label_plural b \<noteq> [] \<and> list_all wf_field (ce_filters b) \<and> list_all wf_item (ce_items b)"
| "wf_block (MutationEvidence b) \<longleftrightarrow> me_evidence_id b \<noteq> [] \<and> me_entity_label b \<noteq> [] \<and>
     me_entity_id b \<noteq> [] \<and> me_current_state b \<noteq> []"
| "wf_block (ActionRequiredEvidence b) \<longleftrightarrow> ae_evidence_id b \<noteq> [] \<and> ae_action b \<noteq> [] \<and> ae_reason b \<noteq> []"
| "wf_block (FailureEvidence b) \<longleftrightarrow> fe_evidence_id b \<noteq> [] \<and> fe_code b \<noteq> [] \<and> fe_message b \<noteq> []"

definition drop_source :: "evidence_item \<Rightarrow> evidence_item" where
  "drop_source i = i\<lparr>ei_source := None\<rparr>"

fun drop_sources :: "evidence_block \<Rightarrow> evidence_block" where
  "drop_sources (CollectionEvidence b) = CollectionEvidence (b\<lparr>ce_items := map drop_source (ce_items b)\<rparr>)"
| "drop_sources b = b"

lemma requested_count_of_opt [simp]: "requested_count_of (opt_int n) = Inr n"
  by (cases n) (simp_all add: opt_int_def)

lemma required_string_Inr_iff: "required_string d k = Inr s \<longleftrightarrow> dget d k = PStr s \<and> s \<noteq> []"
  by (cases "dget d k") (auto simp: required_string_def)

lemma field_roundtrip: "wf_field f \<Longrightarrow> deserialize_field (serialize_field f) = Inr f"
  by (simp add: deserialize_field_def serialize_field_def required_string_def wf_field_def val_scalar_def)

lemma item_roundtrip: "wf_item i \<Longrightarrow> deserialize_item (serialize_item i) = Inr (drop_source i)"
proof -
  assume wf: "wf_item i"
  then have "traverse deserialize_field (map serialize_field (ei_fields i)) = Inr (ei_fields i)"
    using traverse_all_Inr[of "ei_fields i" "\<lambda>f. deserialize_field (serialize_field f)" "\<lambda>f. f"]
    by (simp add: traverse_map field_roundtrip wf_item_def list_all_iff)
  then show ?thesis using wf
    by (simp add: deserialize_item_def serialize_item_def required_string_def wf_item_def
        dget_default_def drop_source_def)
qed

lemma collection_roundtrip:
  assumes "wf_block (CollectionEvidence b)"
  shows "deserialize_block (serialize_block (CollectionEvidence b)) = Inr (drop_sources (CollectionEvidence b))"
proof -
  have 1: "traverse deserialize_field (map serialize_field (ce_filters b)) = Inr (ce_filters b)"
    using assms traverse_all_Inr[of "ce_filters b" "\<lambda>f. deserialize_field (serialize_field f)" "\<lambda>f. f"]
    by (simp add: traverse_map field_roundtrip list_all_iff)
  have 2: "traverse deserialize_item (map serialize_item (ce_items b)) = Inr (map drop_source (ce_items b))"
    using assms traverse_all_Inr[of "ce_items b" "\<lambda>i. deserialize_item (serialize_item i)" drop_source]
    by (simp add: traverse_map item_roundtrip list_all_iff)
  show ?thesis using assms 1 2
    by (simp add: deserialize_block_def deserialize_collection_def required_string_def dget_default_def)
qed

lemma block_roundtrip: "wf_block b \<Longrightarrow> deserialize_block (serialize_block b) = Inr (drop_sources b)"
proof (cases b)
  case (CollectionEvidence c)
  moreover assume "wf_block b"
  ultimately show ?thesis using collection_roundtrip by blast
next
  case (MutationEvidence m)
  moreover assume "wf_block b"
  ultimately show ?thesis
    by (cases "me_previous_state m")
      (simp_all add: deserialize_block_def deserialize_mutation_def required_string_def
        optional_string_def required_bool_def opt_str_def)
qed (simp_all add: deserialize_block_def deserialize_action_def
      deserialize_failure_def required_string_def required_bool_def)

lemma serialize_drop_source [simp]: "serialize_item (drop_source i) = serialize_item i"
  by (simp add: serialize_item_def drop_source_def)

lemma serialize_drop_sources [simp]: "serialize_block (drop_sources b) = serialize_block b"
  by (cases b) (simp_all add: comp_def)

text \<open>Whatever the parser accepts is well formed and carries no source.\<close>

lemma deserialize_field_wf: "deserialize_field v = Inr f \<Longrightarrow> wf_field f"
  by (auto simp: deserialize_field_def rbind_Inr_iff required_string_Inr_iff wf_field_def
      val_scalar_def split: if_splits)

lemma deserialize_fields_wf: "traverse deserialize_field vs = Inr fs \<Longrightarrow> list_all wf_field fs"
  unfolding list_all_iff by (metis deserialize_field_wf traverse_Inr_elem)

lemma deserialize_item_wf: "deserialize_item v = Inr i \<Longrightarrow> wf_item i \<and> drop_source i = i"
  by (auto simp: deserialize_item_def rbind_Inr_iff required_string_Inr_iff wf_item_def drop_source_def
      dest: deserialize_fields_wf)

lemma deserialize_items_wf:
  "traverse deserialize_item vs = Inr is \<Longrightarrow> list_all wf_item is \<and> map drop_source is = is"
  by (auto simp: list_all_iff intro!: map_idI dest: deserialize_item_wf elim: traverse_Inr_elem)

lemma deserialize_block_wf: "deserialize_block v = Inr b \<Longrightarrow> wf_block b \<and> drop_sources b = b"
  by (auto simp: deserialize_block_def deserialize_collection_def deserialize_mutation_def
      deserialize_action_def deserialize_failure_def rbind_Inr_iff required_string_Inr_iff
      split: if_splits dest: deserialize_fields_wf deserialize_items_wf)

lemma deserialize_blocks_wf:
  "traverse deserialize_block vs = Inr bs \<Longrightarrow> list_all wf_block bs \<and> map drop_sources bs = bs"
  by (auto simp: list_all_iff intro!: map_idI dest: deserialize_block_wf elim: traverse_Inr_elem)

lemma blocks_roundtrip:
  "list_all wf_block bs \<Longrightarrow> traverse deserialize_block (map serialize_block bs) = Inr (map drop_sources bs)"
  using traverse_all_Inr[of bs "\<lambda>b. deserialize_block (serialize_block b)" drop_sources]
  by (simp add: traverse_map block_roundtrip list_all_iff)

lemma snapshot_to_json_Inr:
  "snapshot_to_json fr s = Inr p \<Longrightarrow> p = snapshot_payload s \<and> es_schema_version s = EVIDENCE_SCHEMA_VERSION"
  by (auto simp: snapshot_to_json_def Let_def split: if_splits)

lemma snapshot_to_json_cong:
  "snapshot_payload s = snapshot_payload s' \<Longrightarrow> es_schema_version s = es_schema_version s' \<Longrightarrow>
     snapshot_to_json fr s = snapshot_to_json fr s'"
  by (simp add: snapshot_to_json_def Let_def)

lemma length_json_chars: "length (concat (map json_char s)) \<le> 6 * length s"
proof (induction s)
  case (Cons c s)
  have "length (json_char c) \<le> 6" by (simp add: json_char_def Let_def)
  then show ?case using Cons by simp
qed simp

lemma snapshot_roundtrip_core:
  assumes "snapshot_to_json fr s = Inr p" and "es_tool_name s \<noteq> []" and "list_all wf_block (es_evidence s)"
  shows "snapshot_from_json fr (es_conversation_id s) (es_owner_user_id s) (es_created_at s)
           (es_expires_at s) p = Inr (s\<lparr>es_evidence := map drop_sources (es_evidence s)\<rparr>)"
proof -
  let ?s = "s\<lparr>es_evidence := map drop_sources (es_evidence s)\<rparr>"
  have p: "p = snapshot_payload s" and v: "es_schema_version s = EVIDENCE_SCHEMA_VERSION"
    using snapshot_to_json_Inr[OF assms(1)] by auto
  have same: "snapshot_to_json fr ?s = Inr p"
    using assms(1) by (subst snapshot_to_json_cong[of _ s]) (simp_all add: snapshot_payload_def comp_def)
  show ?thesis
    using assms(2,3) v same blocks_roundtrip[of "es_evidence s"]
    by (cases s) (simp add: snapshot_from_json_def p snapshot_payload_def required_string_def)
qed

text \<open>C7. What \<open>to_json\<close> stores, \<open>from_json\<close> reads back: the same blocks, exchange and tool,
  the sources of the items apart, which the stored form does not hold.\<close>

theorem snapshot_roundtrip:
  assumes "snapshot_to_json fr s = Inr p" and "es_tool_name s \<noteq> []" and "list_all wf_block (es_evidence s)"
  shows "snapshot_from_json fr (es_conversation_id s) (es_owner_user_id s) (es_created_at s)
           (es_expires_at s) p = Inr (s\<lparr>es_evidence := map drop_sources (es_evidence s)\<rparr>)"
  by (rule snapshot_roundtrip_core[OF assms])

definition sample_snapshot :: evidence_snapshot where
  "sample_snapshot = \<lparr>es_conversation_id = 1, es_owner_user_id = 2, es_exchange_id = 3, es_tool_name = ''t'',
       es_evidence = [FailureEvidence \<lparr>fe_evidence_id = ''e'', fe_code = ''c'', fe_message = ''m'',
         fe_retryable = True\<rparr>],
       es_created_at = 0, es_expires_at = None, es_schema_version = 1\<rparr>"

lemma sample_stored: "snapshot_to_json (\<lambda>_. []) sample_snapshot = Inr (snapshot_payload sample_snapshot)"
proof -
  have "length (dumps (\<lambda>_. []) '','' '':'' False (PDict (snapshot_payload sample_snapshot))) \<le> 1000"
    using length_json_chars[of "uuid_str 3"]
    by (simp add: sample_snapshot_def snapshot_payload_def int_str_def nat_str.simps json_str_def json_char_def Let_def)
  then show ?thesis
    by (simp add: snapshot_to_json_def EVIDENCE_SCHEMA_VERSION_def MAX_SERIALIZED_EVIDENCE_BYTES_def Let_def)
      (simp add: sample_snapshot_def)
qed

theorem snapshot_roundtrip_witness:
  "snapshot_from_json (\<lambda>_. []) 1 2 0 None (snapshot_payload sample_snapshot) = Inr sample_snapshot"
  using snapshot_roundtrip[OF sample_stored] by (simp add: sample_snapshot_def)

text \<open>A snapshot that \<open>from_json\<close> accepts can be stored again, and reading that form
  gives the same snapshot: no stored row is accepted once and refused after a rewrite.\<close>

theorem snapshot_reparse:
  assumes "snapshot_from_json fr cid owner created expires payload = Inr s"
  shows "snapshot_to_json fr s = Inr (snapshot_payload s)
    \<and> snapshot_from_json fr cid owner created expires (snapshot_payload s) = Inr s
    \<and> list_all wf_block (es_evidence s)"
proof -
  obtain raw x exchange tool blocks where
    raw: "as_list ''evidence payload must contain a list'' (dget payload ''evidence'') = Inr raw"
    and tool: "required_string payload ''tool_name'' = Inr tool"
    and blocks: "traverse deserialize_block raw = Inr blocks"
    and s: "s = \<lparr>es_conversation_id = cid, es_owner_user_id = owner, es_exchange_id = exchange,
       es_tool_name = tool, es_evidence = blocks, es_created_at = created, es_expires_at = expires,
       es_schema_version = EVIDENCE_SCHEMA_VERSION\<rparr>"
    and stored: "\<exists>p. snapshot_to_json fr s = Inr p"
    using assms by (auto simp: snapshot_from_json_def rbind_Inr_iff rmap_Inr_iff Let_def split: if_splits)
  have 1: "snapshot_to_json fr s = Inr (snapshot_payload s)"
    using stored snapshot_to_json_Inr by blast
  have wf: "list_all wf_block blocks" and same: "map drop_sources blocks = blocks"
    using deserialize_blocks_wf[OF blocks] by auto
  have "tool \<noteq> []" using tool by (simp add: required_string_Inr_iff)
  then have "snapshot_from_json fr cid owner created expires (snapshot_payload s) = Inr s"
    using 1 wf same blocks_roundtrip[OF wf]
    by (simp add: snapshot_from_json_def snapshot_payload_def required_string_def s)
  then show ?thesis using 1 wf s by simp
qed

theorem snapshot_reparse_witness:
  "\<exists>s. snapshot_from_json (\<lambda>_. []) 1 2 0 None (snapshot_payload sample_snapshot) = Inr s
     \<and> snapshot_from_json (\<lambda>_. []) 1 2 0 None (snapshot_payload s) = Inr s"
proof -
  have "snapshot_from_json (\<lambda>_. []) 1 2 0 None (snapshot_payload sample_snapshot) = Inr sample_snapshot"
    using sample_stored
    by (simp add: snapshot_from_json_def snapshot_payload_def sample_snapshot_def EVIDENCE_SCHEMA_VERSION_def
        required_string_def deserialize_block_def deserialize_failure_def required_bool_def Let_def)
  from snapshot_reparse[OF this] this show ?thesis by blast
qed

end
