(* ===== verification/Rate_Limit.thy ===== *)
theory Rate_Limit
  imports Prelude
begin

section \<open>The fixed-window rate limiter\<close>

text \<open>
  \<open>FixedWindowRateLimiter\<close> of
  \<open>src/app/modules/assistant/tool_gateway/rate_limit.py\<close> and \<open>ToolRateLimit\<close> of
  \<open>tool_gateway/domain.py\<close>. The counters are a map from (actor, tool) to the window's start and the
  calls used; the clock's reading (a float of seconds) is an argument. The locale
  \<open>rate_limiter\<close> is the contract the gateway has with any limiter; it is interpreted on this one.
\<close>

subsection \<open>Model\<close>

record tool_rate_limit =
  rl_max_calls :: int
  rl_window_seconds :: int

definition make_rate_limit :: "int \<Rightarrow> int \<Rightarrow> tool_rate_limit result" where
  "make_rate_limit m w =
     (if m < 1 then Inl (ValueErr ''max_calls must be at least 1'')
      else if w < 1 then Inl (ValueErr ''window_seconds must be at least 1'')
      else Inr \<lparr>rl_max_calls = m, rl_window_seconds = w\<rparr>)"

record rate_limit_verdict =
  rv_allowed :: bool
  rv_remaining :: int
  rv_retry_after_seconds :: int

record window_counter =
  wc_window_start :: rat
  wc_used :: int

type_synonym limiter_key = "string \<times> string"
type_synonym limiter_state = "limiter_key \<Rightarrow> window_counter option"

definition ANONYMOUS_ACTOR :: string where
  "ANONYMOUS_ACTOR = ''__anonymous__''"

definition limiter_key :: "string option \<Rightarrow> string \<Rightarrow> limiter_key" where
  "limiter_key actor tool = (case actor of Some a \<Rightarrow> a | None \<Rightarrow> ANONYMOUS_ACTOR, tool)"

definition current_counter :: "limiter_state \<Rightarrow> limiter_key \<Rightarrow> tool_rate_limit \<Rightarrow> rat \<Rightarrow> window_counter" where
  "current_counter st key rl now = (case st key of
      None \<Rightarrow> \<lparr>wc_window_start = now, wc_used = 0\<rparr>
    | Some c \<Rightarrow> if now - wc_window_start c \<ge> of_int (rl_window_seconds rl)
        then \<lparr>wc_window_start = now, wc_used = 0\<rparr> else c)"

definition consume_key ::
  "limiter_state \<Rightarrow> limiter_key \<Rightarrow> tool_rate_limit \<Rightarrow> rat \<Rightarrow> rate_limit_verdict \<times> limiter_state" where
  "consume_key st key rl now = (let c = current_counter st key rl now in
     if wc_used c \<ge> rl_max_calls rl then
       (let elapsed = now - wc_window_start c;
            retry_after = max 1 (ceiling (of_int (rl_window_seconds rl) - elapsed))
        in (\<lparr>rv_allowed = False, rv_remaining = 0, rv_retry_after_seconds = retry_after\<rparr>, st(key \<mapsto> c)))
     else (let c' = c\<lparr>wc_used := wc_used c + 1\<rparr> in
       (\<lparr>rv_allowed = True, rv_remaining = rl_max_calls rl - wc_used c', rv_retry_after_seconds = 0\<rparr>,
        st(key \<mapsto> c'))))"

definition try_consume ::
  "limiter_state \<Rightarrow> string option \<Rightarrow> string \<Rightarrow> tool_rate_limit \<Rightarrow> rat \<Rightarrow> rate_limit_verdict \<times> limiter_state" where
  "try_consume st actor tool rl now = consume_key st (limiter_key actor tool) rl now"

text \<open>The verdicts a sequence of calls gets from a limiter.\<close>

fun run_calls :: "('s \<Rightarrow> 'k \<Rightarrow> 'c \<Rightarrow> rat \<Rightarrow> rate_limit_verdict \<times> 's) \<Rightarrow> 's \<Rightarrow> ('k \<times> 'c \<times> rat) list
    \<Rightarrow> rate_limit_verdict list" where
  "run_calls consume s [] = []"
| "run_calls consume s ((k, rl, now) # cs) =
     fst (consume s k rl now) # run_calls consume (snd (consume s k rl now)) cs"

subsection \<open>The contract of a limiter\<close>

text \<open>
  A limiter's verdict on a key depends only on what it holds for the key (\<open>view\<close>), a call leaves
  every other key alone, and from any state at most \<open>quota\<close> further calls are admitted before the
  end of the current window (\<open>quota_left\<close> bounds them and falls by one with each).
\<close>

locale rate_limiter =
  fixes consume :: "'s \<Rightarrow> 'k \<Rightarrow> 'c \<Rightarrow> rat \<Rightarrow> rate_limit_verdict \<times> 's"
    and view :: "'s \<Rightarrow> 'k \<Rightarrow> 'v"
  assumes local_verdict: "view s k = view s' k \<Longrightarrow> fst (consume s k rl now) = fst (consume s' k rl now)"
    and local_view: "view s k = view s' k \<Longrightarrow> view (snd (consume s k rl now)) k = view (snd (consume s' k rl now)) k"
    and isolated: "k \<noteq> k' \<Longrightarrow> view (snd (consume s k rl now)) k' = view s k'"
begin

text \<open>The verdicts on one key are those of a limiter that sees that key's calls alone.\<close>

lemma run_projection:
  "view s k = view s' k \<Longrightarrow>
     map snd (filter (\<lambda>((k', rl, now), v). k' = k) (zip cs (run_calls consume s cs)))
     = run_calls consume s' (filter (\<lambda>(k', _). k' = k) cs)"
proof (induction cs arbitrary: s s')
  case (Cons c cs)
  obtain k' rl now where c: "c = (k', rl, now)" by (cases c) auto
  show ?case
  proof (cases "k' = k")
    case True
    then show ?thesis
      using Cons.IH[OF local_view[OF Cons.prems]] local_verdict[OF Cons.prems] by (simp add: c)
  next
    case False
    then have "view (snd (consume s k' rl now)) k = view s' k" using isolated Cons.prems by metis
    then show ?thesis using Cons.IH False by (simp add: c)
  qed
qed simp

end

lemma consume_key_other: "k \<noteq> k' \<Longrightarrow> snd (consume_key st k rl now) k' = st k'"
  by (simp add: consume_key_def Let_def)

interpretation fixed_window: rate_limiter consume_key "\<lambda>st k. st k"
  by unfold_locales (auto simp: consume_key_def current_counter_def Let_def)

subsection \<open>One key over time\<close>

fun admitted :: "limiter_state \<Rightarrow> limiter_key \<Rightarrow> tool_rate_limit \<Rightarrow> rat list \<Rightarrow> rat list" where
  "admitted st k rl [] = []"
| "admitted st k rl (now # ts) = (case consume_key st k rl now of
     (v, st') \<Rightarrow> (if rv_allowed v then [now] else []) @ admitted st' k rl ts)"

definition in_interval :: "rat \<Rightarrow> int \<Rightarrow> rat \<Rightarrow> bool" where
  "in_interval t w x \<longleftrightarrow> t \<le> x \<and> x < t + of_int w"

text \<open>What holds of a key's counter at all times: the calls used are at most the limit.\<close>

definition counter_ok :: "limiter_state \<Rightarrow> limiter_key \<Rightarrow> tool_rate_limit \<Rightarrow> bool" where
  "counter_ok st k rl \<longleftrightarrow> (case st k of None \<Rightarrow> True | Some c \<Rightarrow> 0 \<le> wc_used c \<and> wc_used c \<le> rl_max_calls rl)"

lemma current_counter_ok:
  "counter_ok st k rl \<Longrightarrow> 0 \<le> rl_max_calls rl \<Longrightarrow>
     0 \<le> wc_used (current_counter st k rl now) \<and> wc_used (current_counter st k rl now) \<le> rl_max_calls rl"
  by (auto simp: current_counter_def counter_ok_def split: option.splits)

lemma consume_key_ok:
  "counter_ok st k rl \<Longrightarrow> 0 \<le> rl_max_calls rl \<Longrightarrow> counter_ok (snd (consume_key st k rl now)) k rl"
  using current_counter_ok[of st k rl now] by (auto simp: consume_key_def counter_ok_def Let_def)

lemma admitted_Cons:
  "admitted st k rl (now # ts) =
     (let c = current_counter st k rl now in
      if wc_used c \<ge> rl_max_calls rl then admitted (st(k \<mapsto> c)) k rl ts
      else now # admitted (st(k \<mapsto> c\<lparr>wc_used := wc_used c + 1\<rparr>)) k rl ts)"
  by (simp add: consume_key_def Let_def)

declare admitted.simps(2) [simp del]

lemma set_admitted: "set (admitted st k rl ts) \<subseteq> set ts"
  by (induction ts arbitrary: st) (auto simp: admitted_Cons Let_def)

definition hits :: "rat \<Rightarrow> limiter_state \<Rightarrow> limiter_key \<Rightarrow> tool_rate_limit \<Rightarrow> rat list \<Rightarrow> int" where
  "hits t st k rl ts = int (length (filter (in_interval t (rl_window_seconds rl)) (admitted st k rl ts)))"

lemma hits_Nil [simp]: "hits t st k rl [] = 0"
  by (simp add: hits_def)

lemma hits_Cons:
  "hits t st k rl (now # ts) =
     (let c = current_counter st k rl now in
      if wc_used c \<ge> rl_max_calls rl then hits t (st(k \<mapsto> c)) k rl ts
      else (if in_interval t (rl_window_seconds rl) now then 1 else 0)
             + hits t (st(k \<mapsto> c\<lparr>wc_used := wc_used c + 1\<rparr>)) k rl ts)"
  by (simp add: hits_def admitted_Cons Let_def)

lemma hits_late: "(\<And>x. x \<in> set ts \<Longrightarrow> t + of_int (rl_window_seconds rl) \<le> x) \<Longrightarrow> hits t st k rl ts = 0"
  using set_admitted[of st k rl ts] by (force simp: hits_def in_interval_def filter_empty_conv)

text \<open>Once a window has begun inside the interval, only its own remaining calls are admitted there.\<close>

lemma hits_window:
  assumes "st k = Some c" and "t \<le> wc_window_start c" and "wc_used c \<le> rl_max_calls rl" and "sorted ts"
  shows "hits t st k rl ts \<le> rl_max_calls rl - wc_used c"
  using assms
proof (induction ts arbitrary: st c)
  case (Cons now ts)
  show ?case
  proof (cases "now - wc_window_start c \<ge> of_int (rl_window_seconds rl)")
    case True
    have "hits t st k rl (now # ts) = 0"
      by (rule hits_late) (use True Cons.prems(2,4) in auto)
    then show ?thesis using Cons.prems(3) by simp
  next
    case False
    then have cc: "current_counter st k rl now = c"
      using Cons.prems(1) by (simp add: current_counter_def)
    show ?thesis
    proof (cases "wc_used c \<ge> rl_max_calls rl")
      case True
      have "hits t (st(k \<mapsto> c)) k rl ts \<le> rl_max_calls rl - wc_used c"
        by (rule Cons.IH) (use Cons.prems in auto)
      then show ?thesis using True by (simp add: hits_Cons cc)
    next
      case False
      have "hits t (st(k \<mapsto> c\<lparr>wc_used := wc_used c + 1\<rparr>)) k rl ts
          \<le> rl_max_calls rl - wc_used (c\<lparr>wc_used := wc_used c + 1\<rparr>)"
        by (rule Cons.IH) (use Cons.prems False in auto)
      then show ?thesis using False by (simp add: hits_Cons cc)
    qed
  qed
qed simp

text \<open>From the start of the interval on, the calls left in the current window and one full window.\<close>

definition left_in_window :: "limiter_state \<Rightarrow> limiter_key \<Rightarrow> tool_rate_limit \<Rightarrow> int" where
  "left_in_window st k rl = (case st k of None \<Rightarrow> rl_max_calls rl | Some c \<Rightarrow> rl_max_calls rl - wc_used c)"

lemma hits_from:
  assumes "counter_ok st k rl" and "0 \<le> rl_max_calls rl" and "sorted ts" and "\<And>x. x \<in> set ts \<Longrightarrow> t \<le> x"
  shows "hits t st k rl ts \<le> left_in_window st k rl + rl_max_calls rl"
  using assms
proof (induction ts arbitrary: st)
  case Nil
  then show ?case by (auto simp: left_in_window_def counter_ok_def split: option.splits)
next
  case (Cons now ts)
  have left: "0 \<le> left_in_window st k rl"
    using Cons.prems(1,2) by (auto simp: left_in_window_def counter_ok_def split: option.splits)
  let ?c = "current_counter st k rl now"
  show ?case
  proof (cases "?c = \<lparr>wc_window_start = now, wc_used = 0\<rparr>")
    case True
    have "hits t st k rl (now # ts) \<le> rl_max_calls rl"
    proof (cases "rl_max_calls rl \<le> 0")
      case True
      have "hits t (st(k \<mapsto> ?c)) k rl ts \<le> rl_max_calls rl - wc_used ?c"
        by (rule hits_window) (use Cons.prems \<open>?c = _\<close> in auto)
      then show ?thesis using True \<open>?c = _\<close> by (simp add: hits_Cons)
    next
      case False
      let ?c' = "\<lparr>wc_window_start = now, wc_used = 1\<rparr>"
      have "hits t (st(k \<mapsto> ?c')) k rl ts \<le> rl_max_calls rl - wc_used ?c'"
        by (rule hits_window) (use Cons.prems False in auto)
      then show ?thesis using False \<open>?c = _\<close> by (simp add: hits_Cons)
    qed
    then show ?thesis using left by simp
  next
    case False
    then obtain c where c: "st k = Some c" and cc: "?c = c"
      by (auto simp: current_counter_def split: option.splits if_splits)
    have ok: "wc_used c \<le> rl_max_calls rl" "0 \<le> wc_used c"
      using Cons.prems(1) c by (auto simp: counter_ok_def)
    show ?thesis
    proof (cases "wc_used c \<ge> rl_max_calls rl")
      case True
      have "hits t (st(k \<mapsto> c)) k rl ts \<le> left_in_window (st(k \<mapsto> c)) k rl + rl_max_calls rl"
        by (rule Cons.IH) (use Cons.prems ok in \<open>auto simp: counter_ok_def\<close>)
      then show ?thesis using True c by (simp add: hits_Cons cc left_in_window_def)
    next
      case False
      let ?c' = "c\<lparr>wc_used := wc_used c + 1\<rparr>"
      have "hits t (st(k \<mapsto> ?c')) k rl ts \<le> left_in_window (st(k \<mapsto> ?c')) k rl + rl_max_calls rl"
        by (rule Cons.IH) (use Cons.prems ok False in \<open>auto simp: counter_ok_def\<close>)
      then show ?thesis using False c by (simp add: hits_Cons cc left_in_window_def)
    qed
  qed
qed

lemma hits_bound:
  assumes "counter_ok st k rl" and "0 \<le> rl_max_calls rl" and "sorted ts"
  shows "hits t st k rl ts \<le> 2 * rl_max_calls rl"
  using assms
proof (induction ts arbitrary: st)
  case (Cons now ts)
  show ?case
  proof (cases "now < t")
    case True
    let ?st = "snd (consume_key st k rl now)"
    have "hits t st k rl (now # ts) = hits t ?st k rl ts"
      using True by (simp add: hits_Cons consume_key_def Let_def in_interval_def)
    moreover have "hits t ?st k rl ts \<le> 2 * rl_max_calls rl"
      using Cons.IH[of ?st] Cons.prems consume_key_ok[OF Cons.prems(1,2)] by simp
    ultimately show ?thesis by simp
  next
    case False
    have "hits t st k rl (now # ts) \<le> left_in_window st k rl + rl_max_calls rl"
      by (rule hits_from) (use Cons.prems False in auto)
    moreover have "left_in_window st k rl \<le> rl_max_calls rl"
      using Cons.prems(1) by (auto simp: left_in_window_def counter_ok_def split: option.splits)
    ultimately show ?thesis by simp
  qed
qed simp

subsection \<open>Properties\<close>

text \<open>C4. The limit over real time: from a fresh limiter and a clock that never goes back, the calls of
  one actor to one tool that are admitted in \<^emph>\<open>any\<close> interval of one window's length are at most twice
  the configured maximum, and at most the maximum when the interval starts with the window.\<close>

theorem admitted_bound:
  assumes "make_rate_limit m w = Inr rl" and "sorted ts"
  shows "int (length (filter (in_interval t w) (admitted Map.empty k rl ts))) \<le> 2 * m
    \<and> (\<forall>start. int (length (filter (in_interval start w)
           (admitted (\<lambda>_. Some \<lparr>wc_window_start = start, wc_used = 0\<rparr>) k rl ts))) \<le> m)"
proof -
  have rl: "1 \<le> m" "rl = \<lparr>rl_max_calls = m, rl_window_seconds = w\<rparr>"
    using assms(1) by (auto simp: make_rate_limit_def split: if_splits)
  have "hits t Map.empty k rl ts \<le> 2 * rl_max_calls rl"
    by (rule hits_bound) (use rl assms(2) in \<open>auto simp: counter_ok_def\<close>)
  moreover have "hits start (\<lambda>_. Some \<lparr>wc_window_start = start, wc_used = 0\<rparr>) k rl ts \<le> rl_max_calls rl - 0"
    for start
    using hits_window[of "\<lambda>_. Some \<lparr>wc_window_start = start, wc_used = 0\<rparr>" k
        "\<lparr>wc_window_start = start, wc_used = 0\<rparr>" start rl ts] rl assms(2) by simp
  ultimately show ?thesis using rl by (simp add: hits_def)
qed

theorem admitted_bound_witness:
  "int (length (filter (in_interval 9 10)
     (admitted Map.empty (''a'', ''t'') \<lparr>rl_max_calls = 1, rl_window_seconds = 10\<rparr> [0, 9, 10, 18]))) \<le> 2 * 1"
proof -
  have 1: "make_rate_limit 1 10 = Inr \<lparr>rl_max_calls = 1, rl_window_seconds = 10\<rparr>"
    by (simp add: make_rate_limit_def)
  have 2: "sorted [0, 9, 10, 18 :: rat]" by simp
  show ?thesis using admitted_bound[OF 1 2, of 9 "(''a'', ''t'')"] by blast
qed

text \<open>A refusal costs nothing and its advice is right: the calls used stay as they were, the
  retry delay is at least a second, and a call made once the delay has passed is admitted.\<close>

theorem refusal_is_recoverable:
  assumes "try_consume st actor tool rl now = (v, st')" and "\<not> rv_allowed v"
    and "make_rate_limit m w = Inr rl" and "now + of_int (rv_retry_after_seconds v) \<le> later"
  shows "1 \<le> rv_retry_after_seconds v
    \<and> wc_used (the (st' (limiter_key actor tool))) = wc_used (current_counter st (limiter_key actor tool) rl now)
    \<and> rv_allowed (fst (try_consume st' actor tool rl later))
    \<and> rv_remaining (fst (try_consume st' actor tool rl later)) = m - 1"
proof -
  let ?k = "limiter_key actor tool"
  define c where "c = current_counter st ?k rl now"
  have rl: "1 \<le> m" "rl_max_calls rl = m"
    using assms(3) by (auto simp: make_rate_limit_def split: if_splits)
  have full: "wc_used c \<ge> rl_max_calls rl" and st': "st' = st(?k \<mapsto> c)"
    and retry: "rv_retry_after_seconds v
        = max 1 (ceiling (of_int (rl_window_seconds rl) - (now - wc_window_start c)))"
    using assms(1,2) by (auto simp: try_consume_def consume_key_def c_def Let_def split: if_splits)
  have "of_int (rl_window_seconds rl) - (now - wc_window_start c) \<le> of_int (rv_retry_after_seconds v)"
  proof -
    let ?x = "of_int (rl_window_seconds rl) - (now - wc_window_start c) :: rat"
    have "?x \<le> of_int (ceiling ?x)" by (rule le_of_int_ceiling)
    also have "\<dots> \<le> of_int (max 1 (ceiling ?x))" by simp
    finally show ?thesis by (simp only: retry)
  qed
  then have "later - wc_window_start c \<ge> of_int (rl_window_seconds rl)"
    using assms(4) by linarith
  then have "current_counter st' ?k rl later = \<lparr>wc_window_start = later, wc_used = 0\<rparr>"
    by (simp add: current_counter_def st')
  then show ?thesis
    using rl by (simp add: try_consume_def consume_key_def retry st' c_def)
qed

theorem refusal_is_recoverable_witness:
  "rv_allowed (fst (try_consume (\<lambda>_. Some \<lparr>wc_window_start = 0, wc_used = 1\<rparr>) None ''t''
      \<lparr>rl_max_calls = 1, rl_window_seconds = 10\<rparr> 14))"
proof -
  let ?rl = "\<lparr>rl_max_calls = 1, rl_window_seconds = 10\<rparr>"
  let ?st = "\<lambda>_::limiter_key. Some \<lparr>wc_window_start = 0, wc_used = 1\<rparr>"
  have 1: "try_consume ?st None ''t'' ?rl 7
      = (\<lparr>rv_allowed = False, rv_remaining = 0, rv_retry_after_seconds = 3\<rparr>, ?st)"
    by (auto simp: try_consume_def consume_key_def current_counter_def Let_def)
  have 2: "make_rate_limit 1 10 = Inr ?rl" by (simp add: make_rate_limit_def)
  show ?thesis using refusal_is_recoverable[OF 1 _ 2, of 14] by simp
qed

text \<open>Actors and tools do not share quotas: in any interleaving of calls, the verdicts on one
  (actor, tool) pair are those the pair gets when its calls are the only ones.\<close>

theorem limiter_isolation:
  "map snd (filter (\<lambda>((k', rl, now), v). k' = k) (zip cs (run_calls consume_key st cs)))
     = run_calls consume_key st (filter (\<lambda>(k', _). k' = k) cs)"
  by (rule fixed_window.run_projection) simp

end
