(* ===== verification/Tools.thy ===== *)
theory Tools
  imports Authorization Evidence Rate_Limit
begin

section \<open>Tool definitions, the registry, the approval policy\<close>

text \<open>
  The data of \<open>src/app/modules/assistant/tool_gateway/domain.py\<close> and
  \<open>assistant/domain/entities.py\<close>, \<open>ToolRegistry\<close> and \<open>validate_strict_input\<close> of
  \<open>registry.py\<close>, \<open>PolicyApprovalService\<close> of \<open>policy.py\<close> and \<open>DefaultPermissionChecker\<close> of
  \<open>permissions.py\<close>. A tool acts on a world of type \<open>'w\<close>. A Pydantic model class is what the gateway
  uses of it: its \<open>extra\<close> setting, and its validation with the JSON dump (for the input), or its
  validation and its dump (for the output), as functions; an instance is the dictionary of its
  fields.
\<close>

subsection \<open>Data\<close>

datatype tool_approval_decision = APPROVED | REJECTED | APPROVAL_REQUIRED | RATE_LIMITED

fun decision_value :: "tool_approval_decision \<Rightarrow> string" where
  "decision_value APPROVED = ''approved''"
| "decision_value REJECTED = ''rejected''"
| "decision_value APPROVAL_REQUIRED = ''approval_required''"
| "decision_value RATE_LIMITED = ''rate_limit''"

datatype side_effect_type = READ | WRITE

datatype tool_outcome_status =
    OUTCOME_SUCCESS
  | OUTCOME_APPROVAL_REQUIRED
  | OUTCOME_RATE_LIMITED
  | OUTCOME_FAILED

fun outcome_value :: "tool_outcome_status \<Rightarrow> string" where
  "outcome_value OUTCOME_SUCCESS = ''success''"
| "outcome_value OUTCOME_APPROVAL_REQUIRED = ''approval_required''"
| "outcome_value OUTCOME_RATE_LIMITED = ''rate_limited''"
| "outcome_value OUTCOME_FAILED = ''failed''"

record input_model =
  im_name :: string
  im_extra :: "string option"
  im_validate :: "dict \<Rightarrow> dict result"
  im_schema :: dict

record output_model =
  om_validate :: "dict \<Rightarrow> dict result"
  om_dump :: "dict \<Rightarrow> dict"

record 'w tool_definition =
  td_name :: string
  td_description :: string
  td_input_model :: input_model
  td_output_model :: output_model
  td_handler :: "dict \<Rightarrow> 'w \<Rightarrow> dict result \<times> 'w"
  td_required_permission :: permission
  td_site_code_field :: "string option"
  td_requires_approval :: bool
  td_max_retries :: int
  td_approval_scope :: string
  td_rate_limit :: "tool_rate_limit option"
  td_side_effect_type :: side_effect_type

text \<open>The adapter of a registration; \<open>None\<close> when a tool is registered without one.\<close>

type_synonym result_adapter = "dict \<Rightarrow> dict \<Rightarrow> evidence_block list result"

record 'w tool_registration =
  tr_definition :: "'w tool_definition"
  tr_result_adapter :: "result_adapter option"

record tool_audit_record =
  tar_tool_name :: string
  tar_actor :: "string option"
  tar_payload :: dict
  tar_decision :: tool_approval_decision
  tar_conversation_id :: "uuid option"
  tar_reason :: "string option"
  tar_created_at :: datetime

record tool_trace_event =
  tte_tool_name :: string
  tte_actor :: "string option"
  tte_event :: string
  tte_payload :: dict
  tte_conversation_id :: "uuid option"
  tte_created_at :: datetime

record tool_descriptor =
  tdr_name :: string
  tdr_description :: string
  tdr_input_hint :: "string option"
  tdr_input_schema :: dict
  tdr_site_code_field :: "string option"
  tdr_is_mutating :: bool

record tool_call_record =
  tcr_tool_name :: string
  tcr_payload :: dict
  tcr_status :: tool_outcome_status
  tcr_evidence :: "evidence_block list"
  tcr_result :: dict

subsection \<open>The registry\<close>

type_synonym 'w registry = "(string \<times> 'w tool_registration) list"

definition registry_register :: "'w registry \<Rightarrow> 'w tool_registration \<Rightarrow> 'w registry result" where
  "registry_register r reg = (let name = td_name (tr_definition reg) in
     if name \<in> fst ` set r then Inl (ValueErr (''tool already registered: '' @ name))
     else Inr (AList.update name reg r))"

definition registry_get :: "'w registry \<Rightarrow> string \<Rightarrow> 'w tool_registration option" where
  "registry_get r name = map_of r name"

definition list_registrations :: "'w registry \<Rightarrow> 'w tool_registration list" where
  "list_registrations r = map (\<lambda>name. the (map_of r name)) (sort (map fst r))"

definition validate_strict_input :: "input_model \<Rightarrow> dict \<Rightarrow> dict result" where
  "validate_strict_input m payload =
     (if im_extra m \<noteq> Some ''forbid''
      then Inl (TypeErr (im_name m @ '' must set model_config = ConfigDict(extra='' @ [CHR 0x27] @
             ''forbid'' @ [CHR 0x27] @ '') so unknown args are rejected before handler execution''))
      else im_validate m payload)"

text \<open>
  What the users of a registry rely on: a name is bound once and for all, and what was registered is
  what a lookup finds.
\<close>

locale write_once_map =
  fixes register :: "'s \<Rightarrow> 'v \<Rightarrow> 's result"
    and lookup :: "'s \<Rightarrow> string \<Rightarrow> 'v option"
    and name_of :: "'v \<Rightarrow> string"
    and inv :: "'s \<Rightarrow> bool"
  assumes found: "inv s \<Longrightarrow> register s v = Inr s' \<Longrightarrow> lookup s' (name_of v) = Some v"
    and others: "inv s \<Longrightarrow> register s v = Inr s' \<Longrightarrow> k \<noteq> name_of v \<Longrightarrow> lookup s' k = lookup s k"
    and once: "inv s \<Longrightarrow> lookup s (name_of v) \<noteq> None \<longleftrightarrow> (\<exists>e. register s v = Inl e)"
    and inv: "inv s \<Longrightarrow> register s v = Inr s' \<Longrightarrow> inv s'"
begin

lemma kept: "inv s \<Longrightarrow> register s v = Inr s' \<Longrightarrow> lookup s k = Some u \<Longrightarrow> lookup s' k = Some u"
  using once[of s v] others[of s v s' k] by (cases "k = name_of v") auto

lemma twice: "inv s \<Longrightarrow> register s v = Inr s' \<Longrightarrow> name_of u = name_of v \<Longrightarrow> \<exists>e. register s' u = Inl e"
  using once[of s' u] found[of s v s'] inv[of s v s'] by simp

end

definition registry_ok :: "'w registry \<Rightarrow> bool" where
  "registry_ok r \<longleftrightarrow> distinct (map fst r) \<and> (\<forall>(name, reg) \<in> set r. td_name (tr_definition reg) = name)"

lemma registry_update_new:
  "name \<notin> fst ` set r \<Longrightarrow> AList.update name reg r = r @ [(name, reg)]"
  by (induction r) auto

interpretation tool_registry: write_once_map registry_register registry_get
    "\<lambda>reg. td_name (tr_definition reg)" registry_ok
proof
  fix s :: "'w registry" and v s' k
  assume ok: "registry_ok s"
  show "registry_register s v = Inr s' \<Longrightarrow> registry_get s' (td_name (tr_definition v)) = Some v"
    by (auto simp: registry_register_def registry_get_def update_conv Let_def split: if_splits)
  show "registry_register s v = Inr s' \<Longrightarrow> k \<noteq> td_name (tr_definition v) \<Longrightarrow> registry_get s' k = registry_get s k"
    by (auto simp: registry_register_def registry_get_def update_conv Let_def split: if_splits)
  show "(registry_get s (td_name (tr_definition v)) \<noteq> None) = (\<exists>e. registry_register s v = Inl e)"
    by (auto simp: registry_register_def registry_get_def map_of_eq_None_iff Let_def)
  show "registry_register s v = Inr s' \<Longrightarrow> registry_ok s'"
    using ok by (auto simp: registry_register_def registry_ok_def registry_update_new Let_def split: if_splits)
qed

lemma list_registrations_set:
  assumes "registry_ok r"
  shows "set (list_registrations r) = snd ` set r"
proof -
  have "the (map_of r k) = v" if "(k, v) \<in> set r" for k v
    using that assms by (simp add: registry_ok_def)
  then show ?thesis by (force simp: list_registrations_def)
qed

lemma list_registrations_names:
  assumes "registry_ok r"
  shows "map (\<lambda>reg. td_name (tr_definition reg)) (list_registrations r) = sort (map fst r)"
proof -
  have "td_name (tr_definition (the (map_of r k))) = k" if "k \<in> fst ` set r" for k
    using that assms by (force simp: registry_ok_def)
  then show ?thesis by (auto simp: list_registrations_def intro!: map_idI)
qed

lemma registry_get_in: "registry_ok r \<Longrightarrow> registry_get r name = Some reg \<Longrightarrow>
    reg \<in> snd ` set r \<and> td_name (tr_definition reg) = name"
  by (force simp: registry_get_def registry_ok_def dest: map_of_SomeD)

text \<open>Registering the tools of a list, as the wiring does.\<close>

fun register_all :: "'w registry \<Rightarrow> 'w tool_registration list \<Rightarrow> 'w registry result" where
  "register_all r [] = Inr r"
| "register_all r (reg # regs) = rbind (registry_register r reg) (\<lambda>r'. register_all r' regs)"

lemma register_all_ok: "registry_ok r \<Longrightarrow> register_all r regs = Inr r' \<Longrightarrow> registry_ok r'"
  by (induction regs arbitrary: r) (auto simp: rbind_Inr_iff dest: tool_registry.inv)

lemma register_all_kept:
  "registry_ok r \<Longrightarrow> register_all r regs = Inr r' \<Longrightarrow> registry_get r k = Some u \<Longrightarrow> registry_get r' k = Some u"
  by (induction regs arbitrary: r) (auto simp: rbind_Inr_iff dest: tool_registry.inv tool_registry.kept)

lemma register_all_set: "register_all r regs = Inr r' \<Longrightarrow> snd ` set r' = snd ` set r \<union> set regs"
  by (induction regs arbitrary: r)
    (auto simp: rbind_Inr_iff registry_register_def registry_update_new Let_def split: if_splits)

lemma register_all_dom:
  "register_all r regs = Inr r' \<Longrightarrow>
     map fst r' = map fst r @ map (\<lambda>reg. td_name (tr_definition reg)) regs"
  by (induction regs arbitrary: r)
    (auto simp: rbind_Inr_iff registry_register_def registry_update_new Let_def split: if_splits)

subsection \<open>Approval policy and permission checker\<close>

definition starts_with :: "string \<Rightarrow> string \<Rightarrow> bool" where
  "starts_with p s \<longleftrightarrow> take (length p) s = p"

definition ends_with :: "string \<Rightarrow> string \<Rightarrow> bool" where
  "ends_with p s \<longleftrightarrow> length p \<le> length s \<and> drop (length s - length p) s = p"

text \<open>\<open>PolicyApprovalService.evaluate\<close>: actor and payload are not looked at.\<close>

definition evaluate_approval :: "bool \<Rightarrow> string \<Rightarrow> tool_approval_decision" where
  "evaluate_approval allow_write_tools tool_name =
     (if (starts_with ''write_'' tool_name \<or> ends_with ''_write'' tool_name) \<and> \<not> allow_write_tools
      then APPROVAL_REQUIRED else APPROVED)"

definition can_call :: "authorization_context \<Rightarrow> permission \<Rightarrow> string option \<Rightarrow> bool result" where
  "can_call c p site = can c p site"

subsection \<open>Properties\<close>

text \<open>Registration is a round trip and binds a name once: after registering a list of tools,
  every one of them is what a lookup of its name returns, the listing holds exactly these tools in
  name order, and registering any of the names again raises \<open>ValueError\<close>.\<close>

theorem registry_roundtrip:
  assumes "register_all [] regs = Inr r"
  shows "(\<forall>reg \<in> set regs. registry_get r (td_name (tr_definition reg)) = Some reg)
    \<and> set (list_registrations r) = set regs
    \<and> sorted (map (\<lambda>reg. td_name (tr_definition reg)) (list_registrations r))
    \<and> (\<forall>reg. td_name (tr_definition reg) \<in> (\<lambda>g. td_name (tr_definition g)) ` set regs \<longrightarrow>
         registry_register r reg = Inl (ValueErr (''tool already registered: '' @ td_name (tr_definition reg))))"
proof -
  have empty: "registry_ok ([] :: 'a registry)" by (simp add: registry_ok_def)
  have ok: "registry_ok r" using register_all_ok[OF empty assms] .
  have get: "registry_get r (td_name (tr_definition reg)) = Some reg"
    if "register_all s regs = Inr r" "registry_ok s" "reg \<in> set regs" for s regs and reg :: "'a tool_registration"
    using that
  proof (induction regs arbitrary: s)
    case (Cons g regs)
    then obtain s' where s': "registry_register s g = Inr s'" "register_all s' regs = Inr r"
      by (auto simp: rbind_Inr_iff)
    have ok': "registry_ok s'" using tool_registry.inv[OF Cons.prems(2) s'(1)] .
    show ?case
    proof (cases "reg = g")
      case True
      then show ?thesis
        using register_all_kept[OF ok' s'(2)] tool_registry.found[OF Cons.prems(2) s'(1)] by simp
    next
      case False
      then show ?thesis using Cons.IH[OF s'(2) ok'] Cons.prems(3) by simp
    qed
  qed simp
  have 1: "\<forall>reg \<in> set regs. registry_get r (td_name (tr_definition reg)) = Some reg"
    using get[OF assms empty] by blast
  have dom: "map fst r = map (\<lambda>reg. td_name (tr_definition reg)) regs"
    using register_all_dom[OF assms] by simp
  have "set (list_registrations r) = set regs"
  proof
    show "set regs \<subseteq> set (list_registrations r)"
      using 1 registry_get_in[OF ok] list_registrations_set[OF ok] by blast
    show "set (list_registrations r) \<subseteq> set regs"
    proof
      fix g assume "g \<in> set (list_registrations r)"
      then obtain k where kg: "(k, g) \<in> set r" using list_registrations_set[OF ok] by auto
      then have "k \<in> set (map fst r)" by force
      then obtain h where h: "h \<in> set regs" "k = td_name (tr_definition h)" using dom by auto
      have "registry_get r k = Some g"
        using kg ok by (simp add: registry_get_def registry_ok_def)
      then show "g \<in> set regs" using 1 h by auto
    qed
  qed
  moreover have "sorted (map (\<lambda>reg. td_name (tr_definition reg)) (list_registrations r))"
    using list_registrations_names[OF ok] by simp
  moreover have "fst ` set r = (\<lambda>g. td_name (tr_definition g)) ` set regs"
    using dom by (metis list.set_map)
  ultimately show ?thesis using 1 by (auto simp: registry_register_def)
qed

text \<open>A registration for the concrete instances of the properties: a tool that counts its calls.\<close>

definition sample_registration :: "string \<Rightarrow> nat tool_registration" where
  "sample_registration name = \<lparr>tr_definition = \<lparr>td_name = name, td_description = [],
     td_input_model = \<lparr>im_name = ''In'', im_extra = Some ''forbid'', im_validate = Inr, im_schema = []\<rparr>,
     td_output_model = \<lparr>om_validate = Inr, om_dump = (\<lambda>d. d)\<rparr>,
     td_handler = (\<lambda>p n. (Inr p, Suc n)), td_required_permission = ASSETS_READ,
     td_site_code_field = Some ''site'', td_requires_approval = False, td_max_retries = 0,
     td_approval_scope = ''write'', td_rate_limit = None, td_side_effect_type = READ\<rparr>,
     tr_result_adapter = Some (\<lambda>p d. Inr [FailureEvidence \<lparr>fe_evidence_id = ''e'', fe_code = ''c'',
       fe_message = ''m'', fe_retryable = False\<rparr>])\<rparr>"

lemma sample_registration_simps [simp]:
  "td_name (tr_definition (sample_registration name)) = name"
  by (simp add: sample_registration_def)

theorem registry_roundtrip_witness:
  "registry_get [(''b'', sample_registration ''b''), (''a'', sample_registration ''a'')] ''a''
     = Some (sample_registration ''a'')"
proof -
  have "register_all [] [sample_registration ''b'', sample_registration ''a'']
      = Inr [(''b'', sample_registration ''b''), (''a'', sample_registration ''a'')]"
    by (simp add: registry_register_def Let_def)
  from registry_roundtrip[OF this] show ?thesis by simp
qed

end
