(* ===== verification/Intent.thy ===== *)
theory Intent
  imports Regex Tools
begin

section \<open>Deterministic intents and semantic validation of tool calls\<close>

text \<open>
  \<open>resolve_intent\<close> of
  \<open>src/app/modules/assistant/infrastructure/agents/langgraph/deterministic_intent.py\<close>, which maps
  unambiguous requests to a tool and a payload without the language model, and
  \<open>validate_tool_call_semantics\<close> of \<open>semantic_validation.py\<close>, the fail-closed check of a planned call
  against the request. The patterns are the source's, on the expressions of \<open>Regex\<close>; the typographic
  apostrophe of one pattern is beyond the character range of the model.
\<close>

subsection \<open>The patterns\<close>

definition rx_b :: "rx list \<Rightarrow> rx" where
  "rx_b rs = rx_seq (RWordB # rs @ [RWordB])"

definition rx_words :: "string list \<Rightarrow> rx" where
  "rx_words ws = rx_alts (map rx_lit ws)"

definition rx_any_tools :: "rx list" where
  "rx_any_tools = [rx_opt (RSeq (rx_lit ''any'') rx_spaces), rx_lit ''tool'', rx_opt (rx_lit ''s'')]"

definition NO_TOOL_PATTERN :: rx where
  "NO_TOOL_PATTERN = rx_alts [
     rx_b ([rx_alts [rx_seq [rx_lit ''do'', rx_spaces, rx_lit ''not''],
              rx_seq [rx_lit ''don'', rx_char CHR 0x27, rx_lit ''t''], rx_lit ''never''],
            rx_spaces, rx_words [''call'', ''invoke'', ''use''], rx_spaces] @ rx_any_tools),
     rx_b ([rx_lit ''without'', rx_spaces, rx_opt (rx_words [''calling'', ''invoking'', ''using'']),
            RStar rx_space] @ rx_any_tools),
     rx_b [rx_lit ''no'', rx_spaces, rx_lit ''tool'', rx_spaces, rx_lit ''call'', rx_opt (rx_lit ''s'')]]"

definition INFORMATIONAL_PATTERN :: rx where
  "INFORMATIONAL_PATTERN = rx_alts [
     rx_seq [RBegin, RStar rx_space, rx_words [''explain'', ''define''], RWordB],
     rx_seq [RBegin, RStar rx_space, rx_lit ''what'', rx_spaces, rx_words [''is'', ''are''], rx_spaces,
       rx_words [''a'', ''an''], RWordB]]"

definition SITE_PATTERN :: rx where
  "SITE_PATTERN = rx_seq [RWordB, rx_words [''at'', ''for'', ''in'', ''site''], rx_spaces,
     rx_opt (RSeq (rx_lit ''site'') rx_spaces),
     RGroup 1 (RSeq (rx_plus rx_alnum) (rx_plus (RSeq (rx_char CHR ''-'') (rx_plus rx_alnum)))), RWordB]"

definition LIMIT_WORDS :: "(string \<times> int) list" where
  "LIMIT_WORDS = [(''one'', 1), (''two'', 2), (''three'', 3), (''four'', 4), (''five'', 5), (''six'', 6),
     (''seven'', 7), (''eight'', 8), (''nine'', 9), (''ten'', 10), (''eleven'', 11), (''twelve'', 12),
     (''thirteen'', 13), (''fourteen'', 14), (''fifteen'', 15), (''sixteen'', 16), (''seventeen'', 17),
     (''eighteen'', 18), (''nineteen'', 19), (''twenty'', 20)]"

definition LIMIT_PATTERN :: rx where
  "LIMIT_PATTERN = rx_seq [RWordB,
     rx_alts [rx_lit ''top'', rx_lit ''first'',
       RSeq (rx_lit ''limit'') (rx_opt (rx_seq [rx_lit ''ed'', rx_spaces, rx_lit ''to''])),
       RSeq (rx_lit ''show'') (rx_opt (RSeq rx_spaces (rx_lit ''me''))),
       rx_lit ''list'', rx_lit ''display'', rx_seq [rx_lit ''give'', rx_spaces, rx_lit ''me'']],
     rx_spaces, rx_opt (RSeq (rx_lit ''the'') rx_spaces),
     RGroup 1 (rx_alts (rx_plus (RSet is_digit) # map (\<lambda>(w, n). rx_lit w) LIMIT_WORDS)), RWordB]"

definition WORK_ORDER_CODE_PATTERN :: rx where
  "WORK_ORDER_CODE_PATTERN = rx_b [rx_lit ''WO-'', rx_plus rx_alnum,
     RStar (RSeq (rx_char CHR ''-'') (rx_plus rx_alnum))]"

definition RETRIEVAL_PATTERN :: rx where
  "RETRIEVAL_PATTERN = rx_b [rx_alts (map rx_lit [''show'', ''list'', ''find'', ''get'', ''fetch'',
     ''retrieve'', ''display''] @ [rx_seq [rx_lit ''give'', rx_spaces, rx_lit ''me'']])]"

definition rx_work_orders :: "rx list" where
  "rx_work_orders = [rx_lit ''work'', rx_spaces, rx_lit ''order'', rx_opt (rx_lit ''s'')]"

definition DUE_SCHEDULE_PATTERN :: rx where
  "DUE_SCHEDULE_PATTERN = rx_alts [
     rx_b [rx_lit ''production'', rx_spaces, rx_lit ''schedule''],
     rx_seq [rx_b rx_work_orders, RUpTo 40 rx_dot,
       rx_b [rx_words [''due'', ''deadline'', ''schedule'', ''upcoming'']]],
     rx_seq [rx_b [rx_words [''due'', ''upcoming'']], RUpTo 40 rx_dot, rx_b rx_work_orders]]"

definition SPARE_PARTS_PATTERN :: rx where
  "SPARE_PARTS_PATTERN = rx_alts [
     rx_b [rx_lit ''spare'', rx_spaces, rx_lit ''part'', rx_opt (rx_lit ''s'')],
     rx_b [rx_lit ''part'', rx_opt (rx_lit ''s''), rx_spaces,
       rx_words [''availability'', ''inventory'', ''stock'']]]"

definition MAINTENANCE_TICKETS_PATTERN :: rx where
  "MAINTENANCE_TICKETS_PATTERN =
     rx_b [rx_lit ''maintenance'', rx_spaces, rx_lit ''ticket'', rx_opt (rx_lit ''s'')]"

definition ASSET_STATUS_PATTERN :: rx where
  "ASSET_STATUS_PATTERN = rx_alts [
     rx_b [rx_lit ''asset'', rx_spaces, rx_lit ''status'', rx_opt (rx_lit ''es'')],
     rx_b [rx_lit ''status'', rx_spaces, rx_lit ''of'', rx_spaces, rx_opt (RSeq (rx_lit ''the'') rx_spaces),
       rx_lit ''asset'', rx_opt (rx_lit ''s'')]]"

definition WORK_ORDERS_PATTERN :: rx where
  "WORK_ORDERS_PATTERN = rx_b rx_work_orders"

definition rx_separators :: rx where
  "rx_separators = rx_plus (RSet (\<lambda>c. is_space c \<or> c = CHR ''_'' \<or> c = CHR ''-''))"

definition STATUS_PATTERNS :: "(rx \<times> string) list" where
  "STATUS_PATTERNS = [
     (rx_b [rx_lit ''in'', rx_separators, rx_lit ''progress''], ''in_progress''),
     (rx_b [rx_lit ''complete'', rx_opt (rx_lit ''d'')], ''completed''),
     (rx_b [rx_lit ''cancel'', rx_words [''led'', ''ed'']], ''cancelled''),
     (rx_b [rx_lit ''pending''], ''pending''),
     (rx_b [rx_lit ''open''], ''open'')]"

subsection \<open>Intent resolution\<close>

datatype deterministic_intent =
    DIRECT_RESPONSE
  | LIST_WORK_ORDERS
  | GET_ASSET_STATUS
  | LIST_MAINTENANCE_TICKETS
  | CHECK_SPARE_PARTS
  | GET_PRODUCTION_SCHEDULE

fun intent_value :: "deterministic_intent \<Rightarrow> string" where
  "intent_value DIRECT_RESPONSE = ''direct_response''"
| "intent_value LIST_WORK_ORDERS = ''list_work_orders''"
| "intent_value GET_ASSET_STATUS = ''get_asset_status''"
| "intent_value LIST_MAINTENANCE_TICKETS = ''list_maintenance_tickets''"
| "intent_value CHECK_SPARE_PARTS = ''check_spare_parts''"
| "intent_value GET_PRODUCTION_SCHEDULE = ''get_production_schedule''"

record intent_resolution =
  ir_intent :: deterministic_intent
  ir_tool_name :: "string option"
  ir_payload :: dict

definition extract_site_code :: "string \<Rightarrow> string option" where
  "extract_site_code query =
     List.find (\<lambda>code. \<not> rx_fullmatch WORK_ORDER_CODE_PATTERN code)
       (map (\<lambda>m. upper (group_text 1 m)) (rx_finditer SITE_PATTERN query))"

text \<open>\<open>int(text)\<close> of decimal digits.\<close>

definition decimal_value :: "string \<Rightarrow> int" where
  "decimal_value s = foldl (\<lambda>acc c. 10 * acc + int (of_char c - 48)) 0 s"

definition extract_limit :: "string \<Rightarrow> int option" where
  "extract_limit query = (case rx_search LIMIT_PATTERN query of
      None \<Rightarrow> None
    | Some m \<Rightarrow>
        (let raw = lower (group_text 1 m);
             limit = (if raw \<noteq> [] \<and> list_all is_digit raw then Some (decimal_value raw)
                      else map_of LIMIT_WORDS raw)
         in case limit of None \<Rightarrow> None
            | Some n \<Rightarrow> if 1 \<le> n \<and> n \<le> 100 then Some n else None))"

definition extract_status :: "string \<Rightarrow> string option" where
  "extract_status query = map_option snd (List.find (\<lambda>(r, status). rx_found r query) STATUS_PATTERNS)"

definition site_payload :: "string \<Rightarrow> dict" where
  "site_payload query = (case extract_site_code query of None \<Rightarrow> [] | Some c \<Rightarrow> [(''site_code'', PStr c)])"

definition common_payload :: "string \<Rightarrow> dict" where
  "common_payload query = (case extract_limit query of
      None \<Rightarrow> site_payload query
    | Some n \<Rightarrow> AList.update ''limit'' (PInt n) (site_payload query))"

definition resolution :: "deterministic_intent \<Rightarrow> string option \<Rightarrow> dict \<Rightarrow> intent_resolution option" where
  "resolution i tool payload = Some \<lparr>ir_intent = i, ir_tool_name = tool, ir_payload = payload\<rparr>"

definition resolve_intent :: "string \<Rightarrow> intent_resolution option" where
  "resolve_intent query =
     (if rx_found NO_TOOL_PATTERN query then resolution DIRECT_RESPONSE None []
      else if rx_found INFORMATIONAL_PATTERN query then resolution DIRECT_RESPONSE None []
      else let payload = common_payload query in
        if rx_found DUE_SCHEDULE_PATTERN query
        then resolution GET_PRODUCTION_SCHEDULE (Some ''get_production_schedule'') payload
        else if rx_found SPARE_PARTS_PATTERN query \<and> rx_found RETRIEVAL_PATTERN query
        then resolution CHECK_SPARE_PARTS (Some ''get_spare_parts_availability'') payload
        else if rx_found MAINTENANCE_TICKETS_PATTERN query \<and> rx_found RETRIEVAL_PATTERN query
        then resolution LIST_MAINTENANCE_TICKETS (Some ''get_maintenance_tickets'') payload
        else if rx_found ASSET_STATUS_PATTERN query
        then resolution GET_ASSET_STATUS (Some ''get_asset_status'') (site_payload query)
        else if rx_found WORK_ORDERS_PATTERN query \<and> rx_found RETRIEVAL_PATTERN query
          \<and> \<not> rx_found WORK_ORDER_CODE_PATTERN query
        then resolution LIST_WORK_ORDERS (Some ''get_work_orders'')
          (case extract_status query of None \<Rightarrow> payload
           | Some s \<Rightarrow> AList.update ''status'' (PStr s) payload)
        else None)"

subsection \<open>Semantic validation\<close>

datatype rejection_reason =
    TOOL_NOT_REQUESTED
  | TOOL_MISMATCH
  | ENTITY_MISSING
  | ENTITY_MISMATCH
  | UNEXPECTED_ENTITY
  | MUTATION_NOT_EXPLICIT
  | MUTATION_NOT_SUPPORTED

datatype semantic_result = Allowed | Rejected rejection_reason string

definition SEMANTIC_FIELDS_BY_TOOL :: "(string \<times> string list) list" where
  "SEMANTIC_FIELDS_BY_TOOL = [
     (''get_work_orders'', [''site_code'', ''status'', ''limit'']),
     (''get_asset_status'', [''site_code'']),
     (''get_maintenance_tickets'', [''site_code'', ''limit'']),
     (''get_spare_parts_availability'', [''site_code'', ''limit'']),
     (''get_production_schedule'', [''site_code'', ''limit''])]"

definition DEFAULT_SEMANTIC_VALUES :: dict where
  "DEFAULT_SEMANTIC_VALUES = [(''limit'', PInt 10)]"

definition rx_hex :: "nat \<Rightarrow> rx list" where
  "rx_hex n = replicate n (RSet (\<lambda>c. is_digit c \<or> lower_char c \<in> set ''abcdef''))"

definition UUID_PATTERN :: rx where
  "UUID_PATTERN = rx_b (rx_hex 8 @ [rx_char CHR ''-''] @ rx_hex 4 @ [rx_char CHR ''-'',
     RSet (\<lambda>c. c \<in> set ''12345'')] @ rx_hex 3 @ [rx_char CHR ''-'', RSet (\<lambda>c. lower_char c \<in> set ''89ab'')]
     @ rx_hex 3 @ [rx_char CHR ''-''] @ rx_hex 12)"

definition rx_mutation_verb :: rx where
  "rx_mutation_verb = rx_b [rx_words [''change'', ''set'', ''update'', ''move'', ''mark'', ''complete'',
     ''cancel'', ''reopen'', ''start'']]"

definition rx_work_order_mention :: rx where
  "rx_work_order_mention = rx_b [rx_alts [rx_seq [rx_lit ''work'', rx_spaces, rx_lit ''order''],
     rx_seq [rx_lit ''WO-'', rx_alnum, RStar (RSet (\<lambda>c. is_digit c \<or> is_alpha c \<or> c = CHR ''-''))]]]"

definition WORK_ORDER_MUTATION_PATTERN :: rx where
  "WORK_ORDER_MUTATION_PATTERN = rx_alts [
     rx_seq [rx_mutation_verb, RUpTo 100 rx_dot, rx_work_order_mention],
     rx_seq [rx_work_order_mention, RUpTo 100 rx_dot, rx_mutation_verb]]"

definition TARGET_STATUS_PATTERN :: rx where
  "TARGET_STATUS_PATTERN = rx_seq [RWordB, rx_words [''to'', ''as''], rx_spaces,
     RGroup 1 (rx_alts [rx_lit ''pending'', rx_lit ''open'',
       rx_seq [rx_lit ''in'', rx_separators, rx_lit ''progress''],
       RSeq (rx_lit ''complete'') (rx_opt (rx_lit ''d'')), rx_lit ''cancelled'', rx_lit ''canceled'']), RWordB]"

definition IMPERATIVE_TARGETS :: "(rx \<times> string) list" where
  "IMPERATIVE_TARGETS = [
     (rx_b [rx_lit ''complet'', rx_words [''e'', ''ed'']], ''completed''),
     (rx_b [rx_lit ''cancel'', rx_opt (rx_words [''led'', ''ed''])], ''cancelled''),
     (rx_b [rx_lit ''reopen''], ''open''),
     (rx_b [rx_lit ''start''], ''in_progress'')]"

text \<open>\<open>re.sub("[\s-]+", "_", text)\<close>.\<close>

fun squeeze :: "bool \<Rightarrow> string \<Rightarrow> string" where
  "squeeze inside [] = []"
| "squeeze inside (c # cs) =
     (if is_space c \<or> c = CHR ''-'' then (if inside then [] else ''_'') @ squeeze True cs
      else c # squeeze False cs)"

definition canonical_status :: "string \<Rightarrow> string" where
  "canonical_status value = (let normalized = squeeze False (lower (strip value)) in
     if normalized = ''complete'' then ''completed''
     else if normalized \<in> {''cancelled'', ''canceled''} then ''cancelled'' else normalized)"

definition canonical_entity :: "(pyval \<Rightarrow> string) \<Rightarrow> string \<Rightarrow> pyval \<Rightarrow> pyval" where
  "canonical_entity pr field v = (case (field \<in> {''site_code'', ''work_order_code''}, field \<in> {''status'', ''target_status''}, v) of
      (True, _, PStr s) \<Rightarrow> PStr (upper (strip s))
    | (_, True, PStr s) \<Rightarrow> PStr (canonical_status s)
    | _ \<Rightarrow> if field = ''work_order_id''
        then (case parse_uuid (py_str pr v) of Inr u \<Rightarrow> PStr (uuid_str u) | Inl _ \<Rightarrow> PStr (py_str pr v))
        else v)"

definition require_matching_entity :: "(pyval \<Rightarrow> string) \<Rightarrow> string \<Rightarrow> pyval \<Rightarrow> dict \<Rightarrow> semantic_result" where
  "require_matching_entity pr field expected actual =
     (if dget actual field = PNone then Rejected ENTITY_MISSING (''required entity '' @ field @ '' is missing'')
      else if \<not> py_eq (canonical_entity pr field (dget actual field)) (canonical_entity pr field expected)
      then Rejected ENTITY_MISMATCH (field @ '' does not match the request'')
      else Allowed)"

fun check_fields :: "(pyval \<Rightarrow> string) \<Rightarrow> string list \<Rightarrow> dict \<Rightarrow> dict \<Rightarrow> semantic_result" where
  "check_fields pr [] expected actual = Allowed"
| "check_fields pr (field # fs) expected actual =
     (case map_of expected field of
        Some e \<Rightarrow> (case require_matching_entity pr field e actual of
            Allowed \<Rightarrow> check_fields pr fs expected actual | rejected \<Rightarrow> rejected)
      | None \<Rightarrow>
          if dget actual field = PNone \<or> py_eq (dget actual field) (dget DEFAULT_SEMANTIC_VALUES field)
          then check_fields pr fs expected actual
          else Rejected UNEXPECTED_ENTITY (field @ '' was not present in the request''))"

definition validate_resolved_entities :: "(pyval \<Rightarrow> string) \<Rightarrow> string \<Rightarrow> dict \<Rightarrow> dict \<Rightarrow> semantic_result" where
  "validate_resolved_entities pr tool expected actual =
     check_fields pr (case map_of SEMANTIC_FIELDS_BY_TOOL tool of None \<Rightarrow> [] | Some fs \<Rightarrow> fs) expected actual"

definition extract_target_status :: "string \<Rightarrow> string option" where
  "extract_target_status query = (case rx_search TARGET_STATUS_PATTERN query of
      Some m \<Rightarrow> Some (canonical_status (group_text 1 m))
    | None \<Rightarrow> map_option snd (List.find (\<lambda>(r, status). rx_found r query) IMPERATIVE_TARGETS))"

definition then_check :: "semantic_result \<Rightarrow> semantic_result \<Rightarrow> semantic_result" where
  "then_check a b = (case a of Allowed \<Rightarrow> b | _ \<Rightarrow> a)"

definition check_mutation_site :: "(pyval \<Rightarrow> string) \<Rightarrow> string \<Rightarrow> dict \<Rightarrow> semantic_result" where
  "check_mutation_site pr query payload = (case extract_site_code query of
      Some site \<Rightarrow> require_matching_entity pr ''site_code'' (PStr site) payload
    | None \<Rightarrow> if dget payload ''site_code'' \<noteq> PNone
        then Rejected UNEXPECTED_ENTITY ''site_code was not present in the request'' else Allowed)"

definition check_mutation_identity :: "(pyval \<Rightarrow> string) \<Rightarrow> string \<Rightarrow> dict \<Rightarrow> semantic_result" where
  "check_mutation_identity pr query payload =
     (case (rx_search WORK_ORDER_CODE_PATTERN query, rx_search UUID_PATTERN query) of
        (None, None) \<Rightarrow> Rejected MUTATION_NOT_EXPLICIT ''the work order identifier is not explicit''
      | (Some m, _) \<Rightarrow>
          then_check (require_matching_entity pr ''work_order_code'' (PStr (upper (matched_text m))) payload)
            (if dget payload ''work_order_id'' \<noteq> PNone
             then Rejected UNEXPECTED_ENTITY ''work_order_id was not present in the request'' else Allowed)
      | (None, Some m) \<Rightarrow>
          then_check (require_matching_entity pr ''work_order_id''
              (case parse_uuid (matched_text m) of Inr u \<Rightarrow> PStr (uuid_str u) | Inl _ \<Rightarrow> PNone) payload)
            (if dget payload ''work_order_code'' \<noteq> PNone
             then Rejected UNEXPECTED_ENTITY ''work_order_code was not present in the request'' else Allowed))"

definition validate_mutation :: "(pyval \<Rightarrow> string) \<Rightarrow> string \<Rightarrow> dict \<Rightarrow> semantic_result" where
  "validate_mutation pr query payload =
     (if \<not> rx_found WORK_ORDER_MUTATION_PATTERN query
      then Rejected MUTATION_NOT_EXPLICIT ''the request does not explicitly ask to mutate a work order''
      else case extract_target_status query of
        None \<Rightarrow> Rejected MUTATION_NOT_EXPLICIT ''the requested target status is not explicit''
      | Some status \<Rightarrow>
          then_check (require_matching_entity pr ''target_status'' (PStr status) payload)
            (then_check (check_mutation_identity pr query payload) (check_mutation_site pr query payload)))"

definition validate_tool_call_semantics ::
  "(pyval \<Rightarrow> string) \<Rightarrow> string \<Rightarrow> tool_descriptor \<Rightarrow> dict \<Rightarrow> semantic_result" where
  "validate_tool_call_semantics pr query d payload =
     (let res = resolve_intent query;
          resolved = (case res of
              None \<Rightarrow> Allowed
            | Some r \<Rightarrow> (case ir_tool_name r of
                None \<Rightarrow> Rejected TOOL_NOT_REQUESTED ''the request requires a direct response''
              | Some tool \<Rightarrow> if tdr_name d \<noteq> tool
                  then Rejected TOOL_MISMATCH (''expected '' @ tool @ '', got '' @ tdr_name d)
                  else validate_resolved_entities pr (tdr_name d) (ir_payload r) payload));
          sited = (case (res, extract_site_code query, tdr_site_code_field d) of
              (None, Some site, Some field) \<Rightarrow> require_matching_entity pr field (PStr site) payload
            | _ \<Rightarrow> Allowed);
          mutation = (if tdr_is_mutating d then
              (if tdr_name d \<noteq> ''write_work_order_status''
               then Rejected MUTATION_NOT_SUPPORTED (''no semantic validator is registered for '' @ tdr_name d)
               else validate_mutation pr query payload)
            else Allowed)
      in then_check resolved (then_check sited mutation))"

subsection \<open>Facts\<close>

lemma then_check_Allowed [simp]: "then_check a b = Allowed \<longleftrightarrow> a = Allowed \<and> b = Allowed"
  by (cases a) (simp_all add: then_check_def)

lemma require_matching_Allowed:
  "require_matching_entity pr field expected actual = Allowed \<longleftrightarrow>
     dget actual field \<noteq> PNone
     \<and> py_eq (canonical_entity pr field (dget actual field)) (canonical_entity pr field expected)"
  by (simp add: require_matching_entity_def)

text \<open>The tools the deterministic rules name, each with the fields its payload can hold.\<close>

lemma site_payload_keys: "dget (site_payload q) k \<noteq> PNone \<Longrightarrow> k = ''site_code''"
  by (auto simp: site_payload_def split: option.splits if_splits)

lemma extract_limit_range: "extract_limit q = Some n \<Longrightarrow> 1 \<le> n \<and> n \<le> 100"
  by (auto simp: extract_limit_def Let_def split: option.splits if_splits)

lemma extract_site_code_upper:
  "extract_site_code q = Some c \<Longrightarrow> (\<exists>t. c = upper t) \<and> \<not> rx_fullmatch WORK_ORDER_CODE_PATTERN c"
  by (auto simp: extract_site_code_def dest!: find_Some_set)

lemma extract_status_range: "extract_status q = Some s \<Longrightarrow> s \<in> snd ` set STATUS_PATTERNS"
  by (auto simp: extract_status_def dest!: find_Some_set intro!: rev_image_eqI)

definition payload_ok :: "dict \<Rightarrow> bool" where
  "payload_ok p \<longleftrightarrow> list_all (\<lambda>(k, v). v \<noteq> PNone) p
     \<and> (dget p ''site_code'' = PNone \<or> (\<exists>c. dget p ''site_code'' = PStr c
           \<and> (\<exists>t. c = upper t) \<and> \<not> rx_fullmatch WORK_ORDER_CODE_PATTERN c))
     \<and> (dget p ''limit'' = PNone \<or> (\<exists>n. dget p ''limit'' = PInt n \<and> 1 \<le> n \<and> n \<le> 100))
     \<and> (dget p ''status'' = PNone \<or> (\<exists>s. dget p ''status'' = PStr s \<and> s \<in> snd ` set STATUS_PATTERNS))"

lemma payload_ok_site: "payload_ok (site_payload q)"
  using extract_site_code_upper[of q] by (auto simp: payload_ok_def site_payload_def split: option.splits)

lemma payload_ok_common: "payload_ok (common_payload q)"
  using extract_site_code_upper[of q] extract_limit_range[of q]
  by (auto simp: payload_ok_def common_payload_def site_payload_def split: option.splits)

lemma common_payload_keys: "fst ` set (common_payload q) \<subseteq> {''site_code'', ''limit''}"
  by (auto simp: common_payload_def site_payload_def split: option.splits)

lemma payload_ok_status:
  assumes "extract_status q = Some s"
  shows "payload_ok (AList.update ''status'' (PStr s) (common_payload q))"
proof -
  have "v \<noteq> PNone" if "(k, v) \<in> set (AList.update ''status'' (PStr s) (common_payload q))" for k v
    using that payload_ok_common[of q]
    by (auto simp: payload_ok_def common_payload_def site_payload_def split: option.splits)
  then have "list_all (\<lambda>(k, v). v \<noteq> PNone) (AList.update ''status'' (PStr s) (common_payload q))"
    by (auto simp: list_all_iff)
  then show ?thesis
    using payload_ok_common[of q] extract_status_range[OF assms] by (auto simp: payload_ok_def)
qed

lemma resolve_intent_cases:
  assumes "resolve_intent q = Some r"
  shows "(ir_tool_name r = None \<and> ir_payload r = [])
     \<or> (\<exists>tool fs. ir_tool_name r = Some tool \<and> (tool, fs) \<in> set SEMANTIC_FIELDS_BY_TOOL \<and> payload_ok (ir_payload r))"
proof -
  note ok = payload_ok_common[of q] payload_ok_site[of q] payload_ok_status[of q]
  show ?thesis
    using assms ok
    by (auto simp: resolve_intent_def resolution_def SEMANTIC_FIELDS_BY_TOOL_def Let_def
        split: if_splits option.splits)
qed

lemma check_fields_self:
  assumes "payload_ok p" and "set fs \<subseteq> {''site_code'', ''status'', ''limit''}"
  shows "check_fields pr fs p p = Allowed"
  using assms(2)
proof (induction fs)
  case (Cons f fs)
  show ?case
  proof (cases "map_of p f")
    case None
    then show ?thesis using Cons by (simp add: dget_def)
  next
    case (Some e)
    then have e: "dget p f = e" by (simp add: dget_def)
    have "e \<noteq> PNone" using map_of_SomeD[OF Some] assms(1) by (auto simp: payload_ok_def list_all_iff)
    moreover have "(\<exists>s. e = PStr s) \<or> (\<exists>n. e = PInt n)"
      using assms(1) Cons.prems e calculation by (auto simp: payload_ok_def)
    ultimately have "require_matching_entity pr f e p = Allowed"
      unfolding require_matching_Allowed e using Cons.prems by (auto simp: canonical_entity_def)
    then show ?thesis using Some Cons by simp
  qed
qed simp

lemma semantic_fields_table:
  "list_all (\<lambda>(tool, fs). map_of SEMANTIC_FIELDS_BY_TOOL tool = Some fs
     \<and> list_all (\<lambda>f. f = ''site_code'' \<or> f = ''status'' \<or> f = ''limit'') fs
     \<and> tool \<noteq> ''write_work_order_status'') SEMANTIC_FIELDS_BY_TOOL"
  by code_simp

lemma semantic_fields_known:
  "(tool, fs) \<in> set SEMANTIC_FIELDS_BY_TOOL \<Longrightarrow>
     map_of SEMANTIC_FIELDS_BY_TOOL tool = Some fs \<and> set fs \<subseteq> {''site_code'', ''status'', ''limit''}
     \<and> tool \<noteq> ''write_work_order_status''"
  using semantic_fields_table unfolding list_all_iff by blast

lemma canonical_entity_code:
  "f = ''site_code'' \<or> f = ''work_order_code'' \<Longrightarrow>
     canonical_entity pr f v = (case v of PStr s \<Rightarrow> PStr (upper (strip s)) | _ \<Rightarrow> v)"
  by (elim disjE) (simp_all add: canonical_entity_def split: pyval.split)

lemma canonical_entity_status:
  "canonical_entity pr ''target_status'' v = (case v of PStr s \<Rightarrow> PStr (canonical_status s) | _ \<Rightarrow> v)"
  by (simp add: canonical_entity_def split: pyval.split)

lemma py_eq_string: "py_eq v (PStr s) \<longleftrightarrow> v = PStr s"
  by (cases v) simp_all

lemma matching_string:
  assumes "require_matching_entity pr f (PStr e) p = Allowed" and f: "f = ''site_code'' \<or> f = ''work_order_code''"
  shows "\<exists>s. dget p f = PStr s \<and> upper (strip s) = upper (strip e)"
  using assms(1) unfolding require_matching_Allowed canonical_entity_code[OF f]
  by (simp add: py_eq_string split: pyval.splits)

lemma matching_status:
  assumes "require_matching_entity pr ''target_status'' (PStr e) p = Allowed"
  shows "\<exists>s. dget p ''target_status'' = PStr s \<and> canonical_status s = canonical_status e"
  using assms unfolding require_matching_Allowed canonical_entity_status
  by (simp add: py_eq_string split: pyval.splits)

lemma deterministic_plan_core:
  assumes "resolve_intent query = Some r" and "ir_tool_name r = Some (tdr_name d)" and "\<not> tdr_is_mutating d"
  shows "validate_tool_call_semantics pr query d (ir_payload r) = Allowed \<and> payload_ok (ir_payload r)"
proof -
  obtain fs where fs: "(tdr_name d, fs) \<in> set SEMANTIC_FIELDS_BY_TOOL" and ok: "payload_ok (ir_payload r)"
    using resolve_intent_cases[OF assms(1)] assms(2) by auto
  have "validate_resolved_entities pr (tdr_name d) (ir_payload r) (ir_payload r) = Allowed"
    using semantic_fields_known[OF fs] check_fields_self[OF ok]
    by (simp add: validate_resolved_entities_def)
  then show ?thesis using assms ok by (simp add: validate_tool_call_semantics_def Let_def)
qed

subsection \<open>Properties\<close>


text \<open>The deterministic plan passes its own check: the payload the rules extract for a request is
  always accepted by the validator for the tool they name, so a resolved request is never blocked as a
  mismatch; and that payload holds at most a canonical site code that is not a work-order code, a limit
  from 1 to 100 and a known status.\<close>

theorem deterministic_plan_accepted:
  assumes "resolve_intent query = Some r" and "ir_tool_name r = Some (tdr_name d)" and "\<not> tdr_is_mutating d"
  shows "validate_tool_call_semantics pr query d (ir_payload r) = Allowed \<and> payload_ok (ir_payload r)"
  using assms by (rule deterministic_plan_core)

subsection \<open>Two requests\<close>

definition sample_descriptor :: "string \<Rightarrow> bool \<Rightarrow> tool_descriptor" where
  "sample_descriptor name mutating = \<lparr>tdr_name = name, tdr_description = [], tdr_input_hint = None,
     tdr_input_schema = [], tdr_site_code_field = Some ''site_code'', tdr_is_mutating = mutating\<rparr>"

lemmas pattern_simps = NO_TOOL_PATTERN_def INFORMATIONAL_PATTERN_def DUE_SCHEDULE_PATTERN_def
  SPARE_PARTS_PATTERN_def MAINTENANCE_TICKETS_PATTERN_def RETRIEVAL_PATTERN_def

lemma asset_request_patterns:
  "\<not> rx_possible NO_TOOL_PATTERN ''asset status''" "\<not> rx_possible INFORMATIONAL_PATTERN ''asset status''"
  "\<not> rx_possible DUE_SCHEDULE_PATTERN ''asset status''" "\<not> rx_possible SPARE_PARTS_PATTERN ''asset status''"
  "\<not> rx_possible MAINTENANCE_TICKETS_PATTERN ''asset status''" "\<not> rx_possible SITE_PATTERN ''asset status''"
  by code_simp+

lemma asset_request_found: "rx_found ASSET_STATUS_PATTERN ''asset status''"
  by code_simp

lemma no_site: "\<not> rx_possible SITE_PATTERN q \<Longrightarrow> extract_site_code q = None"
  using not_possible_not_found[of SITE_PATTERN q]
  by (simp add: extract_site_code_def rx_finditer_def rx_found_def rx_search_def del: not_None_eq)

lemma asset_request:
  "resolve_intent ''asset status''
     = Some \<lparr>ir_intent = GET_ASSET_STATUS, ir_tool_name = Some ''get_asset_status'', ir_payload = []\<rparr>"
  by (simp add: resolve_intent_def asset_request_patterns[THEN not_possible_not_found] asset_request_found
      no_site[OF asset_request_patterns(6)] site_payload_def resolution_def Let_def)

theorem deterministic_plan_accepted_witness:
  "validate_tool_call_semantics (\<lambda>_. []) ''asset status'' (sample_descriptor ''get_asset_status'' False) [] = Allowed"
  using deterministic_plan_accepted[OF asset_request, of "sample_descriptor ''get_asset_status'' False" "\<lambda>_. []"]
  by (simp add: sample_descriptor_def)

lemma change_request_patterns:
  "\<not> rx_possible NO_TOOL_PATTERN ''start WO-1 as open''" "\<not> rx_possible INFORMATIONAL_PATTERN ''start WO-1 as open''"
  "\<not> rx_possible DUE_SCHEDULE_PATTERN ''start WO-1 as open''" "\<not> rx_possible RETRIEVAL_PATTERN ''start WO-1 as open''"
  "\<not> rx_possible ASSET_STATUS_PATTERN ''start WO-1 as open''"
  by code_simp+

lemma change_request_site: "extract_site_code ''start WO-1 as open'' = None"
  by code_simp

lemma change_request_found: "rx_found WORK_ORDER_MUTATION_PATTERN ''start WO-1 as open''"
  by code_simp

lemma change_request_target: "extract_target_status ''start WO-1 as open'' = Some ''open''"
  by code_simp

lemma change_request_code:
  "map_option matched_text (rx_search WORK_ORDER_CODE_PATTERN ''start WO-1 as open'') = Some ''WO-1''"
  by code_simp

lemma change_request: "resolve_intent ''start WO-1 as open'' = None"
  by (simp add: resolve_intent_def change_request_patterns[THEN not_possible_not_found] Let_def)

definition sample_change :: dict where
  "sample_change = [(''target_status'', PStr ''open''), (''work_order_code'', PStr ''WO-1'')]"

lemma change_request_allowed:
  "validate_tool_call_semantics (\<lambda>_. []) ''start WO-1 as open''
     (sample_descriptor ''write_work_order_status'' True) sample_change = Allowed"
proof -
  obtain m where m: "rx_search WORK_ORDER_CODE_PATTERN ''start WO-1 as open'' = Some m" "matched_text m = ''WO-1''"
    using change_request_code by auto
  show ?thesis
    by (simp add: validate_tool_call_semantics_def change_request change_request_site validate_mutation_def
        change_request_found change_request_target check_mutation_identity_def check_mutation_site_def m
        require_matching_Allowed canonical_entity_code canonical_entity_status sample_descriptor_def
        sample_change_def Let_def) code_simp
qed


end
