(* ===== verification/Facts.thy ===== *)
theory Facts
  imports Intent
begin

section \<open>Which facts about a user may be remembered\<close>

text \<open>
  \<open>FactAcceptancePolicy\<close> of \<open>src/app/modules/assistant/application/facts/act_policy.py\<close> with the entities of
  \<open>domain/facts.py\<close>, the filter of \<open>fact_extractor.py\<close> on what the language model returns, and
  \<open>collect_rederivable_fields\<close>, whose field names of output models (Pydantic) are a parameter.
\<close>

subsection \<open>Facts\<close>

datatype fact_class =
    PREFERENCE
  | ENTITY_AFFINITY
  | EPISODIC_REFERENCE
  | DOMAIN_CONSTRAINT
  | ATTRIBUTED_OPINION
  | METRIC_VALUE
  | TRANSIENT_STATE

fun fact_class_value :: "fact_class \<Rightarrow> string" where
  "fact_class_value PREFERENCE = ''preference''"
| "fact_class_value ENTITY_AFFINITY = ''entity_affinity''"
| "fact_class_value EPISODIC_REFERENCE = ''episodic_reference''"
| "fact_class_value DOMAIN_CONSTRAINT = ''domain_constraint''"
| "fact_class_value ATTRIBUTED_OPINION = ''attributed_opinion''"
| "fact_class_value METRIC_VALUE = ''metric_value''"
| "fact_class_value TRANSIENT_STATE = ''transient_state''"

datatype fact_decision = ACCEPTED | REJECTED | DUPLICATE

fun fact_decision_value :: "fact_decision \<Rightarrow> string" where
  "fact_decision_value ACCEPTED = ''accepted''"
| "fact_decision_value REJECTED = ''rejected''"
| "fact_decision_value DUPLICATE = ''duplicate''"

record extracted_fact =
  ft_statement :: string
  ft_class :: fact_class
  ft_evidence_turn_ids :: "uuid list"
  ft_entity_refs :: "string list"
  ft_explicitly_stated :: bool

record fact_evaluation =
  fe_decision :: fact_decision
  fe_reason :: string
  fe_expires_at :: "datetime option"

subsection \<open>The policy\<close>

definition STORABLE :: "fact_class list" where
  "STORABLE = [PREFERENCE, ENTITY_AFFINITY, EPISODIC_REFERENCE, DOMAIN_CONSTRAINT, ATTRIBUTED_OPINION]"

definition TTL_DAYS :: "(fact_class \<times> int option) list" where
  "TTL_DAYS = [(PREFERENCE, None), (ENTITY_AFFINITY, Some 180), (EPISODIC_REFERENCE, Some 180),
     (DOMAIN_CONSTRAINT, Some 180), (ATTRIBUTED_OPINION, Some 90)]"

definition rx_digits :: rx where
  "rx_digits = rx_plus (RSet is_digit)"

definition VOLATILE_VALUE_PATTERN :: rx where
  "VOLATILE_VALUE_PATTERN = rx_alts [
     rx_seq [RWordB, rx_digits, rx_opt (RSeq (rx_char CHR ''.'') rx_digits), RStar rx_space,
       rx_alts [RSeq (rx_lit ''unit'') (rx_opt (rx_lit ''s'')), rx_lit ''pcs'',
         RSeq (rx_lit ''piece'') (rx_opt (rx_lit ''s'')), RSeq (rx_lit ''hour'') (rx_opt (rx_lit ''s'')),
         RSeq (rx_lit ''day'') (rx_opt (rx_lit ''s'')), rx_lit ''%'', rx_lit ''usd'', rx_lit ''vnd''], RWordB],
     rx_seq [rx_char CHR ''$'', RStar rx_space, rx_digits]]"

definition VOLATILE_TIME_PATTERN :: rx where
  "VOLATILE_TIME_PATTERN = rx_b [rx_words [''currently'', ''right now'', ''as of today'', ''at the moment'', ''today'', ''tomorrow'']]"

definition AUTHORITATIVE_CLAIM_PATTERN :: rx where
  "AUTHORITATIVE_CLAIM_PATTERN = rx_b [rx_words [''role'', ''permission'', ''authorized'', ''authorization'',
     ''site membership'', ''works at site'']]"

record fact_policy =
  fpo_max_statement_characters :: int
  fpo_rederivable_terms :: "string list"

definition rejected :: "string \<Rightarrow> fact_evaluation result" where
  "rejected reason = Inr \<lparr>fe_decision = REJECTED, fe_reason = reason, fe_expires_at = None\<rparr>"

text \<open>\<open>term in text\<close>.\<close>

fun contains :: "string \<Rightarrow> string \<Rightarrow> bool" where
  "contains term [] \<longleftrightarrow> term = []"
| "contains term (c # cs) \<longleftrightarrow> take (length term) (c # cs) = term \<or> contains term cs"

definition evaluate_fact :: "fact_policy \<Rightarrow> extracted_fact \<Rightarrow> uuid list \<Rightarrow> datetime \<Rightarrow> fact_evaluation result" where
  "evaluate_fact p f source_turn_ids now =
     (let statement = strip (ft_statement f) in
      if statement = [] then rejected ''empty_statement''
      else if int (length statement) > fpo_max_statement_characters p then rejected ''statement_too_long''
      else if ft_evidence_turn_ids f = [] then rejected ''missing_evidence''
      else if \<not> list_all (\<lambda>i. i \<in> set source_turn_ids) (ft_evidence_turn_ids f) then rejected ''invalid_evidence''
      else if ft_class f \<notin> set STORABLE then rejected ''non_storable_class''
      else if rx_found AUTHORITATIVE_CLAIM_PATTERN statement then rejected ''authoritative_claim''
      else if ft_class f = ATTRIBUTED_OPINION \<and> take 5 statement \<noteq> ''User '' then rejected ''opinion_requires_attribution''
      else if ft_class f \<noteq> DOMAIN_CONSTRAINT
          \<and> (rx_found VOLATILE_VALUE_PATTERN statement \<or> rx_found VOLATILE_TIME_PATTERN statement)
      then rejected ''volatile_value''
      else if list_ex (\<lambda>term. contains term (lower statement)) (fpo_rederivable_terms p) then rejected ''rederivable_value''
      else (case map_of TTL_DAYS (ft_class f) of
          None \<Rightarrow> Inl (KeyErr (fact_class_value (ft_class f)))
        | Some days \<Rightarrow> Inr \<lparr>fe_decision = ACCEPTED, fe_reason = ''accepted'',
            fe_expires_at = map_option (\<lambda>d. now + timedelta_days d) days\<rparr>))"

definition rederivable_fields :: "('w tool_definition \<Rightarrow> string list) \<Rightarrow> 'w registry \<Rightarrow> string list" where
  "rederivable_fields fields_of registry = remdups (map (\<lambda>name. lower (replace_char CHR ''_'' '' '' name))
     (concat (map (\<lambda>reg. fields_of (tr_definition reg)) (list_registrations registry))))"

text \<open>What remains of the model's answer: facts with a statement, stripped.\<close>

definition extracted_facts :: "extracted_fact list \<Rightarrow> extracted_fact list" where
  "extracted_facts facts = map (\<lambda>f. f\<lparr>ft_statement := strip (ft_statement f),
       ft_entity_refs := map strip (filter (\<lambda>e. strip e \<noteq> []) (ft_entity_refs f))\<rparr>)
     (filter (\<lambda>f. strip (ft_statement f) \<noteq> []) facts)"

subsection \<open>What is accepted\<close>

lemma ttl_known: "c \<in> set STORABLE \<longleftrightarrow> (\<exists>d. map_of TTL_DAYS c = Some d)"
  by (cases c) (simp_all add: STORABLE_def TTL_DAYS_def)

lemma take_eq_prefix: "take (length u) s = u \<longleftrightarrow> (\<exists>rest. s = u @ rest)"
proof
  assume "take (length u) s = u"
  then have "s = u @ drop (length u) s" by (metis append_take_drop_id)
  then show "\<exists>rest. s = u @ rest" by blast
qed auto

lemma contains_iff: "contains t s \<longleftrightarrow> (\<exists>xs ys. s = xs @ t @ ys)"
proof (induction s)
  case (Cons c s)
  have "(\<exists>xs ys. c # s = xs @ t @ ys) \<longleftrightarrow> (\<exists>ys. c # s = t @ ys) \<or> (\<exists>xs ys. s = xs @ t @ ys)"
    by (auto simp: Cons_eq_append_conv[of c s _ "t @ _"] intro: exI[of _ "[]"]) 
  then show ?case using Cons.IH take_eq_prefix[of t "c # s"] by simp
qed auto

lemma user_prefix: "take 5 s = ''User '' \<longleftrightarrow> (\<exists>rest. s = ''User '' @ rest)"
  using take_eq_prefix[of "''User ''" s] by (simp add: eval_nat_numeral)

definition acceptable :: "fact_policy \<Rightarrow> extracted_fact \<Rightarrow> uuid list \<Rightarrow> bool" where
  "acceptable p f turns \<longleftrightarrow> (let s = strip (ft_statement f) in
     s \<noteq> [] \<and> int (length s) \<le> fpo_max_statement_characters p
     \<and> ft_evidence_turn_ids f \<noteq> [] \<and> set (ft_evidence_turn_ids f) \<subseteq> set turns
     \<and> ft_class f \<in> {PREFERENCE, ENTITY_AFFINITY, EPISODIC_REFERENCE, DOMAIN_CONSTRAINT, ATTRIBUTED_OPINION}
     \<and> \<not> rx_found AUTHORITATIVE_CLAIM_PATTERN s
     \<and> (ft_class f = ATTRIBUTED_OPINION \<longrightarrow> (\<exists>rest. s = ''User '' @ rest))
     \<and> (ft_class f = DOMAIN_CONSTRAINT \<or> \<not> rx_found VOLATILE_VALUE_PATTERN s \<and> \<not> rx_found VOLATILE_TIME_PATTERN s)
     \<and> (\<forall>t \<in> set (fpo_rederivable_terms p). \<nexists>xs ys. lower s = xs @ t @ ys))"

text \<open>The guards of the evaluation, in its order.\<close>

definition fact_guards :: "fact_policy \<Rightarrow> extracted_fact \<Rightarrow> uuid list \<Rightarrow> bool list" where
  "fact_guards p f turns = (let s = strip (ft_statement f) in
     [s = [], int (length s) > fpo_max_statement_characters p, ft_evidence_turn_ids f = [],
      \<not> list_all (\<lambda>i. i \<in> set turns) (ft_evidence_turn_ids f), ft_class f \<notin> set STORABLE,
      rx_found AUTHORITATIVE_CLAIM_PATTERN s, ft_class f = ATTRIBUTED_OPINION \<and> take 5 s \<noteq> ''User '',
      ft_class f \<noteq> DOMAIN_CONSTRAINT \<and> (rx_found VOLATILE_VALUE_PATTERN s \<or> rx_found VOLATILE_TIME_PATTERN s),
      list_ex (\<lambda>term. contains term (lower s)) (fpo_rederivable_terms p)])"

lemma acceptable_guards: "acceptable p f turns \<longleftrightarrow> list_all Not (fact_guards p f turns)"
proof -
  have store: "ft_class f \<in> {PREFERENCE, ENTITY_AFFINITY, EPISODIC_REFERENCE, DOMAIN_CONSTRAINT, ATTRIBUTED_OPINION}
      \<longleftrightarrow> ft_class f \<in> set STORABLE" by (simp add: STORABLE_def)
  have terms: "(\<forall>t \<in> set (fpo_rederivable_terms p). \<nexists>xs ys. lower s = xs @ t @ ys)
      \<longleftrightarrow> \<not> list_ex (\<lambda>term. contains term (lower s)) (fpo_rederivable_terms p)" for s
    by (simp add: list_ex_iff contains_iff)
  have cited: "set (ft_evidence_turn_ids f) \<subseteq> set turns \<longleftrightarrow> list_all (\<lambda>i. i \<in> set turns) (ft_evidence_turn_ids f)"
    by (auto simp: list_all_iff)
  show ?thesis unfolding acceptable_def fact_guards_def Let_def store terms cited user_prefix list.pred_inject
    by (simp only: not_less list.pred_inject(1)) blast
qed

lemma evaluate_fact_guards:
  "evaluate_fact p f turns now = (case fact_guards p f turns of [a, b, c, d, e, g, h, i, j] \<Rightarrow>
      if a then rejected ''empty_statement'' else if b then rejected ''statement_too_long''
      else if c then rejected ''missing_evidence'' else if d then rejected ''invalid_evidence''
      else if e then rejected ''non_storable_class'' else if g then rejected ''authoritative_claim''
      else if h then rejected ''opinion_requires_attribution'' else if i then rejected ''volatile_value''
      else if j then rejected ''rederivable_value''
      else (case map_of TTL_DAYS (ft_class f) of
          None \<Rightarrow> Inl (KeyErr (fact_class_value (ft_class f)))
        | Some days \<Rightarrow> Inr \<lparr>fe_decision = ACCEPTED, fe_reason = ''accepted'',
            fe_expires_at = map_option (\<lambda>d. now + timedelta_days d) days\<rparr>))"
  by (simp only: evaluate_fact_def fact_guards_def Let_def list.case)

lemma fact_guards_nine: "\<exists>a b c d e g h i j. fact_guards p f turns = [a, b, c, d, e, g, h, i, j]"
  by (simp only: fact_guards_def Let_def) blast

lemma evaluate_acceptable:
  assumes "acceptable p f turns"
  shows "evaluate_fact p f turns now = Inr \<lparr>fe_decision = ACCEPTED, fe_reason = ''accepted'',
     fe_expires_at = (if ft_class f = PREFERENCE then None
       else Some (now + timedelta_days (if ft_class f = ATTRIBUTED_OPINION then 90 else 180)))\<rparr>"
proof -
  have ttl: "map_of TTL_DAYS (ft_class f) = Some (if ft_class f = PREFERENCE then None
      else Some (if ft_class f = ATTRIBUTED_OPINION then 90 else 180))"
    using assms unfolding acceptable_def Let_def by (auto simp: TTL_DAYS_def)
  obtain a b c d e g h i j where gs: "fact_guards p f turns = [a, b, c, d, e, g, h, i, j]"
    using fact_guards_nine[of p f turns] by (elim exE)
  have "\<not> a" "\<not> b" "\<not> c" "\<not> d" "\<not> e" "\<not> g" "\<not> h" "\<not> i" "\<not> j"
    using assms unfolding acceptable_guards gs by simp_all
  then show ?thesis unfolding evaluate_fact_guards gs ttl by simp
qed

lemma cascade: "(\<not> c \<Longrightarrow> P y) \<Longrightarrow> P x \<Longrightarrow> P (if c then x else y)"
  by simp

definition is_rejection :: "fact_evaluation result \<Rightarrow> bool" where
  "is_rejection r \<longleftrightarrow> (\<exists>reason. reason \<noteq> ''accepted'' \<and> r = rejected reason)"

lemma is_rejection_rejected: "reason \<noteq> ''accepted'' \<Longrightarrow> is_rejection (rejected reason)"
  by (auto simp: is_rejection_def)

lemma evaluate_unacceptable:
  assumes "\<not> acceptable p f turns"
  shows "\<exists>reason. reason \<noteq> ''accepted'' \<and> evaluate_fact p f turns now = rejected reason"
proof -
  obtain a b c d e g h i j where gs: "fact_guards p f turns = [a, b, c, d, e, g, h, i, j]"
    using fact_guards_nine[of p f turns] by (elim exE)
  have "a \<or> b \<or> c \<or> d \<or> e \<or> g \<or> h \<or> i \<or> j" using assms unfolding acceptable_guards gs by simp
  then have "is_rejection (evaluate_fact p f turns now)"
    unfolding evaluate_fact_guards gs list.case
    by (intro cascade[where P = is_rejection] is_rejection_rejected) (simp, blast, simp_all)
  then show ?thesis by (simp add: is_rejection_def)
qed

text \<open>Exactly which statements become memories, and for how long: evaluation never raises; it accepts just the
  facts with a statement within the limit, cited from the conversation, of a storable class, that make no claim of
  authority, name the user when they are an opinion, state no volatile value or time unless they are a constraint, and
  mention no field the tools can look up; it rejects all others with a reason and without an expiry; preferences
  never expire, opinions after 90 days, the others after 180.\<close>

theorem fact_accepted_exact:
  "if acceptable p f turns
   then evaluate_fact p f turns now = Inr \<lparr>fe_decision = ACCEPTED, fe_reason = ''accepted'',
        fe_expires_at = (if ft_class f = PREFERENCE then None
          else Some (now + timedelta_days (if ft_class f = ATTRIBUTED_OPINION then 90 else 180)))\<rparr>
   else \<exists>reason. reason \<noteq> ''accepted''
        \<and> evaluate_fact p f turns now = Inr \<lparr>fe_decision = REJECTED, fe_reason = reason, fe_expires_at = None\<rparr>"
  using evaluate_acceptable[of p f turns now] evaluate_unacceptable[of p f turns now]
  by (simp add: rejected_def)

end
