(* ===== verification/Context.thy ===== *)
theory Context
  imports Evidence Authorization
begin

section \<open>Context assembly within a token budget\<close>

text \<open>
  The context the planner sees: the providers of \<open>src/app/modules/assistant/application/context\<close> turn
  recent turns, evidence, documents and memories into blocks, \<open>DefaultContextAssembler\<close> collects the
  blocks of the providers that answered, and \<open>TokenBudgetAllocator\<close> keeps those that fit. The token
  counter (\<open>tiktoken\<close>) and the readers of documents and memories are parameters.
\<close>

subsection \<open>Blocks\<close>

datatype context_kind =
    SYSTEM_DIRECTIVE
  | CONVERSATION_SUMMARY
  | RECENT_TURN
  | RETRIEVED_DOCUMENT
  | USER_MEMORY
  | TOOL_RESULT

fun context_kind_value :: "context_kind \<Rightarrow> string" where
  "context_kind_value SYSTEM_DIRECTIVE = ''system_directive''"
| "context_kind_value CONVERSATION_SUMMARY = ''conversation_summary''"
| "context_kind_value RECENT_TURN = ''recent_turn''"
| "context_kind_value RETRIEVED_DOCUMENT = ''retrieved_document''"
| "context_kind_value USER_MEMORY = ''user_memory''"
| "context_kind_value TOOL_RESULT = ''tool_result''"

record context_block =
  cb_kind :: context_kind
  cb_content :: string
  cb_source :: string
  cb_token_count :: int

record assembled_context =
  acx_blocks :: "context_block list"
  acx_total_tokens :: int
  acx_dropped :: nat

definition render_context_block :: "context_block \<Rightarrow> string" where
  "render_context_block b =
     ''['' @ title (replace_char CHR ''_'' '' '' (context_kind_value (cb_kind b))) @ ''] '' @ cb_content b"

definition render_context :: "assembled_context \<Rightarrow> string" where
  "render_context c = (if acx_blocks c = [] then []
     else join (newline @ newline) (map render_context_block (acx_blocks c)))"

record conversation_turn =
  ct_role :: string
  ct_content :: string
  ct_created_at :: datetime

record context_request =
  cq_conversation_id :: uuid
  cq_query :: string
  cq_actor :: authorization_context
  cq_recent_turns :: "conversation_turn list"
  cq_recent_evidence :: "evidence_snapshot list"

subsection \<open>Providers\<close>

text \<open>A provider returns blocks, raises, or is cancelled.\<close>

datatype provider_outcome = Blocks "context_block list" | Failed exc | Cancelled

type_synonym context_provider = "context_request \<Rightarrow> provider_outcome"

definition make_block :: "(string \<Rightarrow> nat) \<Rightarrow> context_kind \<Rightarrow> string \<Rightarrow> string \<Rightarrow> context_block" where
  "make_block count kind source content = \<lparr>cb_kind = kind, cb_content = content, cb_source = source,
     cb_token_count = int (count content)\<rparr>"

definition conversation_evidence_provider :: "(pyval \<Rightarrow> string) \<Rightarrow> (string \<Rightarrow> nat) \<Rightarrow> context_provider" where
  "conversation_evidence_provider fr count request = Blocks (map
     (\<lambda>snapshot. make_block count TOOL_RESULT ''conversation_evidence'' (to_context_text fr snapshot))
     (cq_recent_evidence request))"

definition recent_turns_provider :: "(string \<Rightarrow> nat) \<Rightarrow> context_provider" where
  "recent_turns_provider count request = Blocks (map
     (\<lambda>turn. make_block count RECENT_TURN ''recent_turns'' (ct_role turn @ '': '' @ ct_content turn))
     (cq_recent_turns request))"

definition document_recall_provider ::
  "(string \<Rightarrow> authorization_context \<Rightarrow> nat \<Rightarrow> string list result) \<Rightarrow> (string \<Rightarrow> nat) \<Rightarrow> nat \<Rightarrow> context_provider" where
  "document_recall_provider read_chunks count limit request =
     (case can (cq_actor request) DOCUMENTS_READ None of
        Inl e \<Rightarrow> Failed e
      | Inr False \<Rightarrow> Blocks []
      | Inr True \<Rightarrow> (case read_chunks (cq_query request) (cq_actor request) limit of
            Inl e \<Rightarrow> Failed e
          | Inr chunks \<Rightarrow> Blocks (map (make_block count RETRIEVED_DOCUMENT ''document_recall'') chunks)))"

definition user_memory_provider ::
  "(uuid \<Rightarrow> nat \<Rightarrow> string list result) \<Rightarrow> (string \<Rightarrow> nat) \<Rightarrow> nat \<Rightarrow> context_provider" where
  "user_memory_provider read_memories count limit request =
     (case read_memories (ac_user_id (cq_actor request)) limit of
        Inl e \<Rightarrow> Failed e
      | Inr memories \<Rightarrow> Blocks (map (make_block count USER_MEMORY ''user_memory'') memories))"

subsection \<open>The allocator\<close>

fun default_kind_share :: "context_kind \<Rightarrow> int" where
  "default_kind_share SYSTEM_DIRECTIVE = 10"
| "default_kind_share CONVERSATION_SUMMARY = 25"
| "default_kind_share RECENT_TURN = 35"
| "default_kind_share RETRIEVED_DOCUMENT = 20"
| "default_kind_share USER_MEMORY = 10"
| "default_kind_share TOOL_RESULT = 10"

definition block_cost :: "context_block \<Rightarrow> int" where
  "block_cost b = (let n = max (cb_token_count b) 0 in
     if n = 0 then max (int (length (split_ws (cb_content b)))) 1 else n)"

definition allocation_order :: "(context_kind \<Rightarrow> int) \<Rightarrow> context_block list \<Rightarrow> context_block list" where
  "allocation_order share blocks =
     sort_desc (\<lambda>b. (share (cb_kind b), cb_source b, cb_content b)) blocks"

fun fill_budget :: "int \<Rightarrow> int \<Rightarrow> context_block list \<Rightarrow> context_block list \<times> nat" where
  "fill_budget budget used [] = ([], 0)"
| "fill_budget budget used (b # bs) =
     (if used + block_cost b \<le> budget
      then (let (selected, dropped) = fill_budget budget (used + block_cost b) bs in (b # selected, dropped))
      else (let (selected, dropped) = fill_budget budget used bs in (selected, Suc dropped)))"

definition allocate :: "(context_kind \<Rightarrow> int) \<Rightarrow> context_block list \<Rightarrow> int \<Rightarrow> context_block list \<times> nat" where
  "allocate share blocks total_budget = fill_budget total_budget 0 (allocation_order share blocks)"

subsection \<open>The assembler\<close>

definition normalize_block :: "(string \<Rightarrow> nat) \<Rightarrow> context_block \<Rightarrow> context_block" where
  "normalize_block count b = b\<lparr>cb_token_count :=
     (if cb_token_count b \<noteq> 0 then cb_token_count b else int (count (cb_content b)))\<rparr>"

fun collect_blocks :: "provider_outcome list \<Rightarrow> context_block list option" where
  "collect_blocks [] = Some []"
| "collect_blocks (Blocks bs # rs) = map_option (\<lambda>xs. bs @ xs) (collect_blocks rs)"
| "collect_blocks (Failed e # rs) = collect_blocks rs"
| "collect_blocks (Cancelled # rs) = None"

text \<open>\<open>None\<close>: the assembly is cancelled.\<close>

definition assemble ::
  "context_provider list \<Rightarrow> (context_kind \<Rightarrow> int) \<Rightarrow> (string \<Rightarrow> nat) \<Rightarrow> int \<Rightarrow> context_request
     \<Rightarrow> assembled_context option" where
  "assemble providers share count total_budget request =
     (case collect_blocks (map (\<lambda>p. p request) providers) of
        None \<Rightarrow> None
      | Some aggregated \<Rightarrow>
          (let (selected, dropped) = allocate share (map (normalize_block count) aggregated) total_budget in
           Some \<lparr>acx_blocks = selected, acx_total_tokens = sum_list (map cb_token_count selected),
                 acx_dropped = dropped\<rparr>))"

text \<open>The providers of \<open>build_assistant_module\<close>.\<close>

definition default_providers ::
  "(string \<Rightarrow> nat) \<Rightarrow> (uuid \<Rightarrow> nat \<Rightarrow> string list result) option
     \<Rightarrow> (string \<Rightarrow> authorization_context \<Rightarrow> nat \<Rightarrow> string list result) option \<Rightarrow> nat \<Rightarrow> context_provider list" where
  "default_providers count memories documents top_k =
     recent_turns_provider count #
     (case memories of None \<Rightarrow> []
      | Some read_memories \<Rightarrow> user_memory_provider read_memories count top_k #
          (case documents of None \<Rightarrow> []
           | Some read_chunks \<Rightarrow> [document_recall_provider read_chunks count top_k]))"

subsection \<open>Facts\<close>

lemma block_cost_pos: "0 < block_cost b"
  by (auto simp: block_cost_def Let_def max_def)

lemma block_cost_covers: "cb_token_count b \<le> block_cost b"
  by (auto simp: block_cost_def Let_def max_def)

lemma fill_budget_props:
  assumes "fill_budget budget used bs = (selected, dropped)"
  shows "subseq selected bs" and "length selected + dropped = length bs"
    and "used \<le> budget \<Longrightarrow> used + sum_list (map block_cost selected) \<le> budget"
    and "b \<in> set bs \<Longrightarrow> b \<in> set selected \<or> budget < used + sum_list (map block_cost selected) + block_cost b"
  using assms
proof (induction budget used bs arbitrary: selected dropped rule: fill_budget.induct)
  case (2 budget used x bs)
  {
    case 1
    with 2 show ?case by (auto split: if_splits prod.splits)
  next
    case 2
    with "2.IH" show ?case by (fastforce split: if_splits prod.splits)
  next
    case 3
    with "2.IH" show ?case by (fastforce simp: algebra_simps split: if_splits prod.splits)
  next
    case 4
    show ?case
    proof (cases "used + block_cost x \<le> budget")
      case True
      then obtain sel d where "fill_budget budget (used + block_cost x) bs = (sel, d)" "selected = x # sel"
        using 4(2) by (auto split: prod.splits)
      then show ?thesis using "2.IH"(4)[OF True] 4(1) by (auto simp: algebra_simps)
    next
      case False
      then obtain sel d where fb: "fill_budget budget used bs = (sel, d)" "selected = sel"
        using 4(2) by (auto split: prod.splits)
      have "0 \<le> sum_list (map block_cost sel)"
        by (intro sum_list_nonneg) (auto intro: less_imp_le block_cost_pos)
      then show ?thesis using "2.IH"(8)[OF False] fb 4(1) False by auto
    qed
  }
qed auto

lemma collect_blocks_set:
  "collect_blocks rs = Some bs \<Longrightarrow> b \<in> set bs \<longleftrightarrow> (\<exists>xs. Blocks xs \<in> set rs \<and> b \<in> set xs)"
  by (induction rs arbitrary: bs rule: collect_blocks.induct) auto

lemma collected_from:
  "collect_blocks (map (\<lambda>p. p request) ps) = Some bs \<longrightarrow>
     b \<in> f ` set bs \<longleftrightarrow> (\<exists>p \<in> set ps. \<exists>xs. p request = Blocks xs \<and> b \<in> f ` set xs)"
proof
  assume cb: "collect_blocks (map (\<lambda>p. p request) ps) = Some bs"
  then show "b \<in> f ` set bs \<longleftrightarrow> (\<exists>p \<in> set ps. \<exists>xs. p request = Blocks xs \<and> b \<in> f ` set xs)"
    unfolding image_iff Bex_def collect_blocks_set[OF cb] set_map by metis
qed

lemma assembleE:
  assumes "assemble ps share count budget request = Some c"
  obtains blocks where "collect_blocks (map (\<lambda>p. p request) ps) = Some blocks"
    and "allocate share (map (normalize_block count) blocks) budget = (acx_blocks c, acx_dropped c)"
    and "acx_total_tokens c = sum_list (map cb_token_count (acx_blocks c))"
  using assms that by (auto simp: assemble_def split: option.splits prod.splits)

lemma allocation_sorted:
  "sorted_wrt (\<lambda>x y. (share (cb_kind y), cb_source y, cb_content y) \<le> (share (cb_kind x), cb_source x, cb_content x))
     (allocation_order share bs)"
  unfolding allocation_order_def by (rule sorted_sort_desc)

lemma sorted_wrt_subseq: "subseq xs ys \<Longrightarrow> sorted_wrt R ys \<Longrightarrow> sorted_wrt R xs"
proof (induction rule: list_emb.induct)
  case (list_emb_Cons2 x y xs ys)
  then show ?case using list_emb_set[OF list_emb_Cons2.hyps(2)] by fastforce
qed auto

lemma subseq_subset: "subseq xs ys \<Longrightarrow> set xs \<subseteq> set ys"
  by (auto dest: list_emb_set)

lemma assembled_sorted:
  assumes "assemble ps share count budget request = Some c"
  shows "sorted_wrt (\<lambda>x y. (share (cb_kind y), cb_source y, cb_content y) \<le> (share (cb_kind x), cb_source x, cb_content x))
     (acx_blocks c)"
  using assms by (elim assembleE) (auto simp only: allocate_def
      intro: sorted_wrt_subseq[OF fill_budget_props(1) allocation_sorted])

subsection \<open>Properties\<close>

text \<open>C15. The assembled context respects the budget and wastes none of it: its token total is within the
  budget, every block it holds comes from a provider that answered (with its token count filled in), a
  provider that failed costs nothing but its own blocks, and a block left out does not fit beside those
  kept; the counter of dropped blocks is exact.\<close>

theorem context_within_budget:
  assumes "assemble ps share count budget request = Some c" and "0 \<le> budget"
  shows "acx_total_tokens c \<le> budget
    \<and> (\<forall>b \<in> set (acx_blocks c). \<exists>p \<in> set ps. \<exists>bs. p request = Blocks bs \<and> b \<in> normalize_block count ` set bs)
    \<and> (\<forall>p \<in> set ps. \<forall>bs. p request = Blocks bs \<longrightarrow>
         (\<forall>b \<in> normalize_block count ` set bs. b \<in> set (acx_blocks c)
           \<or> budget < sum_list (map block_cost (acx_blocks c)) + block_cost b))"
proof -
  obtain blocks where cb: "collect_blocks (map (\<lambda>p. p request) ps) = Some blocks"
    and al: "fill_budget budget 0 (allocation_order share (map (normalize_block count) blocks))
      = (acx_blocks c, acx_dropped c)"
    and tot: "acx_total_tokens c = sum_list (map cb_token_count (acx_blocks c))"
    using assms(1) by (auto elim!: assembleE simp: allocate_def)
  note P = fill_budget_props[OF al]
  have ord: "set (allocation_order share xs) = set xs" for xs by (simp add: allocation_order_def)
  have "sum_list (map cb_token_count (acx_blocks c)) \<le> sum_list (map block_cost (acx_blocks c))"
    by (intro sum_list_mono block_cost_covers)
  then have "acx_total_tokens c \<le> budget" using P(3) assms(2) tot by simp
  moreover have "set (acx_blocks c) \<subseteq> normalize_block count ` set blocks"
    using subseq_subset[OF P(1)] by (simp add: ord)
  moreover have "b \<in> set (acx_blocks c) \<or> budget < sum_list (map block_cost (acx_blocks c)) + block_cost b"
    if "b \<in> normalize_block count ` set blocks" for b
    using P(4)[of b] that by (simp add: ord)
  moreover note source_of = collected_from[rule_format, OF cb, of _ "normalize_block count"]
  ultimately show ?thesis by (intro conjI ballI allI impI) (use source_of in blast)+
qed

text \<open>What the planner sees is not in the order things happened: the blocks of one kind and source,
  the recent turns for one, stand in descending order of their text, whatever the order of the turns.\<close>

theorem same_kind_in_text_order:
  assumes "assemble ps share count budget request = Some c"
  shows "sorted_wrt (\<lambda>x y. cb_content y \<le> cb_content x)
    (filter (\<lambda>b. cb_kind b = kind \<and> cb_source b = source) (acx_blocks c))"
proof -
  have "sorted_wrt (\<lambda>x y. (share (cb_kind y), cb_source y, cb_content y) \<le> (share (cb_kind x), cb_source x, cb_content x))
     (filter (\<lambda>b. cb_kind b = kind \<and> cb_source b = source) (acx_blocks c))"
    by (rule sorted_wrt_filter[OF assembled_sorted[OF assms]])
  then show ?thesis by (rule sorted_wrt_mono_rel[rotated]) auto
qed

text \<open>Documents are recalled only for actors who may read them: with the providers of the
  application, the assembled context of an actor without \<open>documents:read\<close> holds no document block.\<close>

theorem documents_need_permission:
  assumes "assemble (default_providers count memories documents top_k) share count budget request = Some c"
    and "can (cq_actor request) DOCUMENTS_READ None \<noteq> Inr True"
  shows "\<forall>b \<in> set (acx_blocks c). cb_kind b \<noteq> RETRIEVED_DOCUMENT"
proof
  fix b assume b: "b \<in> set (acx_blocks c)"
  obtain blocks where cb: "collect_blocks (map (\<lambda>p. p request) (default_providers count memories documents top_k)) = Some blocks"
    and al: "fill_budget budget 0 (allocation_order share (map (normalize_block count) blocks))
      = (acx_blocks c, acx_dropped c)"
    using assms(1) by (auto elim!: assembleE simp: allocate_def)
  have "b \<in> normalize_block count ` set blocks"
    using subseq_subset[OF fill_budget_props(1)[OF al]] b by (auto simp: allocation_order_def)
  then obtain b' bs p where "b = normalize_block count b'" "b' \<in> set bs" "p request = Blocks bs"
    "p \<in> set (default_providers count memories documents top_k)"
    using collect_blocks_set[OF cb] by fastforce
  then show "cb_kind b \<noteq> RETRIEVED_DOCUMENT"
    using assms(2) by (auto simp: default_providers_def recent_turns_provider_def user_memory_provider_def
        document_recall_provider_def make_block_def normalize_block_def split: option.splits sum.splits bool.splits)
qed

subsection \<open>A sample request\<close>

definition sample_turn :: "string \<Rightarrow> conversation_turn" where
  "sample_turn text = \<lparr>ct_role = ''user'', ct_content = text, ct_created_at = 0\<rparr>"

definition sample_request :: context_request where
  "sample_request = \<lparr>cq_conversation_id = 1, cq_query = ''q'',
     cq_actor = \<lparr>ac_user_id = 1, ac_roles = [], ac_site_codes = [], ac_global_scope = False\<rparr>,
     cq_recent_turns = [sample_turn ''a'', sample_turn ''b''], cq_recent_evidence = []\<rparr>"

definition sample_providers :: "context_provider list" where
  "sample_providers = default_providers length (Some (\<lambda>_ _. Inl (ExternalErr ''down''))) (Some (\<lambda>_ _ _. Inr [''doc''])) 5"

definition sample_context :: assembled_context where
  "sample_context = \<lparr>acx_blocks = [make_block length RECENT_TURN ''recent_turns'' ''user: b''],
     acx_total_tokens = 7, acx_dropped = 1\<rparr>"

lemma sample_assembly: "assemble sample_providers default_kind_share length 10 sample_request = Some sample_context"
  by code_simp

theorem context_within_budget_witness: "acx_total_tokens sample_context \<le> 10"
  using context_within_budget[OF sample_assembly] by simp

lemma sample_assembly_large:
  "map_option (\<lambda>c. map cb_content (acx_blocks c)) (assemble sample_providers default_kind_share length 20 sample_request)
     = Some [''user: b'', ''user: a'']"
  by code_simp

theorem same_kind_in_text_order_witness:
  "\<exists>c. assemble sample_providers default_kind_share length 20 sample_request = Some c
     \<and> map cb_content (acx_blocks c) = [''user: b'', ''user: a'']
     \<and> sorted_wrt (\<lambda>x y. cb_content y \<le> cb_content x)
          (filter (\<lambda>b. cb_kind b = RECENT_TURN \<and> cb_source b = ''recent_turns'') (acx_blocks c))"
proof -
  obtain c where "assemble sample_providers default_kind_share length 20 sample_request = Some c"
    "map cb_content (acx_blocks c) = [''user: b'', ''user: a'']"
    using sample_assembly_large by auto
  then show ?thesis using same_kind_in_text_order[of sample_providers default_kind_share length 20 sample_request c]
    by (intro exI[of _ c] conjI)
qed

theorem documents_need_permission_witness:
  "list_all (\<lambda>b. cb_kind b \<noteq> RETRIEVED_DOCUMENT) (acx_blocks sample_context)"
  unfolding list_all_iff
  using documents_need_permission[OF sample_assembly[unfolded sample_providers_def]]
  by (simp add: sample_request_def can_def permissions_def)

end
