(* ===== verification/Conversations.thy ===== *)
theory Conversations
  imports Context
begin

section \<open>Conversation stores\<close>

text \<open>
  The two stores of \<open>ConversationStorePort\<close>: \<open>InMemoryConversationStore\<close> and \<open>ConversationStore\<close> on the
  database (\<open>src/app/modules/assistant/infrastructure/conversation_memory\<close>), and the retention job of the
  latter. A database operation runs in a transaction: it either returns new tables or raises and leaves
  them alone. Random identifiers and the time of day are arguments. The abstract store is a log of turns
  per conversation with an owner; both stores refine it, and both keep users apart.
\<close>

definition ownership_error :: exc where
  "ownership_error = DomainErr ''assistant_conversation_not_found'' ''The requested conversation was not found.''"

definition exchange_error :: exc where
  "exchange_error = ValueErr ''A completed exchange requires one user and one assistant turn''"

definition exchange_roles_ok :: "conversation_turn \<Rightarrow> conversation_turn \<Rightarrow> bool" where
  "exchange_roles_ok user_turn assistant_turn \<longleftrightarrow> ct_role user_turn = ''user'' \<and> ct_role assistant_turn = ''assistant''"

subsection \<open>The store in memory\<close>

record memory_store =
  ms_turns :: "uuid \<Rightarrow> conversation_turn list"
  ms_evidence :: "uuid \<Rightarrow> evidence_snapshot list"
  ms_owners :: "uuid \<Rightarrow> uuid option"

definition empty_memory_store :: memory_store where
  "empty_memory_store = \<lparr>ms_turns = (\<lambda>_. []), ms_evidence = (\<lambda>_. []), ms_owners = Map.empty\<rparr>"

definition mem_claim :: "uuid \<Rightarrow> uuid \<Rightarrow> memory_store \<Rightarrow> memory_store result" where
  "mem_claim c u s = (case ms_owners s c of
      None \<Rightarrow> Inr (s\<lparr>ms_owners := (ms_owners s)(c \<mapsto> u)\<rparr>)
    | Some v \<Rightarrow> if v \<noteq> u then Inl ownership_error else Inr s)"

definition mem_owned :: "uuid \<Rightarrow> uuid \<Rightarrow> memory_store \<Rightarrow> bool" where
  "mem_owned c u s \<longleftrightarrow> ms_owners s c = Some u"

definition mem_trim :: "nat \<Rightarrow> conversation_turn list \<Rightarrow> conversation_turn list" where
  "mem_trim max_turns turns =
     (if length turns \<le> max_turns then turns else drop (length turns - max_turns) turns)"

definition mem_extend :: "nat \<Rightarrow> uuid \<Rightarrow> conversation_turn list \<Rightarrow> memory_store \<Rightarrow> memory_store" where
  "mem_extend max_turns c turns s = s\<lparr>ms_turns := (ms_turns s)(c := mem_trim max_turns (ms_turns s c @ turns))\<rparr>"

definition mem_read_recent :: "uuid \<Rightarrow> uuid \<Rightarrow> int \<Rightarrow> memory_store \<Rightarrow> conversation_turn list result" where
  "mem_read_recent c u limit s = (if \<not> mem_owned c u s then Inl ownership_error
     else if limit \<le> 0 then Inr [] else Inr (last_n (nat limit) (ms_turns s c)))"

definition mem_append :: "nat \<Rightarrow> uuid \<Rightarrow> conversation_turn \<Rightarrow> uuid \<Rightarrow> memory_store \<Rightarrow> memory_store result" where
  "mem_append max_turns c turn u s = rmap (mem_extend max_turns c [turn]) (mem_claim c u s)"

definition mem_append_exchange ::
  "nat \<Rightarrow> uuid \<Rightarrow> uuid \<Rightarrow> conversation_turn \<Rightarrow> conversation_turn \<Rightarrow> evidence_snapshot option
     \<Rightarrow> memory_store \<Rightarrow> memory_store result" where
  "mem_append_exchange max_turns c u user_turn assistant_turn evidence s =
     (if \<not> exchange_roles_ok user_turn assistant_turn then Inl exchange_error
      else rmap (\<lambda>s1. let s2 = mem_extend max_turns c [user_turn, assistant_turn] s1 in
             case evidence of None \<Rightarrow> s2
             | Some e \<Rightarrow> s2\<lparr>ms_evidence := (ms_evidence s2)(c := ms_evidence s2 c @ [e])\<rparr>)
           (mem_claim c u s))"

definition mem_read_evidence :: "uuid \<Rightarrow> uuid \<Rightarrow> int \<Rightarrow> memory_store \<Rightarrow> evidence_snapshot list result" where
  "mem_read_evidence c u limit s = (if \<not> mem_owned c u s then Inl ownership_error
     else if limit \<le> 0 then Inr [] else Inr (last_n (nat limit) (ms_evidence s c)))"

definition mem_append_evidence :: "evidence_snapshot \<Rightarrow> memory_store \<Rightarrow> memory_store result" where
  "mem_append_evidence e s = (if \<not> mem_owned (es_conversation_id e) (es_owner_user_id e) s then Inl ownership_error
     else Inr (s\<lparr>ms_evidence := (ms_evidence s)(es_conversation_id e := ms_evidence s (es_conversation_id e) @ [e])\<rparr>))"

definition mem_erase_evidence :: "uuid \<Rightarrow> uuid \<Rightarrow> memory_store \<Rightarrow> (nat \<times> memory_store) result" where
  "mem_erase_evidence c u s = (if \<not> mem_owned c u s then Inl ownership_error
     else Inr (length (ms_evidence s c), s\<lparr>ms_evidence := (ms_evidence s)(c := [])\<rparr>))"

definition mem_close :: "uuid \<Rightarrow> uuid \<Rightarrow> memory_store \<Rightarrow> memory_store result" where
  "mem_close c u s = (if \<not> mem_owned c u s then Inl ownership_error else Inr s)"

subsection \<open>The store on the database\<close>

record conversation_row =
  cv_id :: uuid
  cv_owner :: uuid
  cv_started_at :: datetime
  cv_last_turn_at :: datetime
  cv_turn_count :: int
  cv_consolidated_at :: "datetime option"
  cv_closed_at :: "datetime option"

record turn_row =
  tw_id :: uuid
  tw_conversation :: uuid
  tw_owner :: uuid
  tw_role :: string
  tw_content :: string
  tw_created_at :: datetime
  tw_expires_at :: "datetime option"

record evidence_row =
  ew_id :: uuid
  ew_conversation :: uuid
  ew_owner :: uuid
  ew_exchange_id :: uuid
  ew_tool_name :: string
  ew_schema_version :: int
  ew_json :: dict
  ew_created_at :: datetime
  ew_expires_at :: "datetime option"

record conversation_tables =
  cvt_conversations :: "conversation_row list"
  cvt_turns :: "turn_row list"
  cvt_evidence :: "evidence_row list"

definition empty_tables :: conversation_tables where
  "empty_tables = \<lparr>cvt_conversations = [], cvt_turns = [], cvt_evidence = []\<rparr>"

definition integrity_error :: exc where
  "integrity_error = ExternalErr ''IntegrityError''"

definition find_conversation :: "conversation_tables \<Rightarrow> uuid \<Rightarrow> conversation_row option" where
  "find_conversation t c = List.find (\<lambda>r. cv_id r = c) (cvt_conversations t)"

definition db_claim :: "uuid \<Rightarrow> uuid \<Rightarrow> datetime \<Rightarrow> conversation_tables \<Rightarrow> conversation_tables result" where
  "db_claim c u observed_at t = (case find_conversation t c of
      None \<Rightarrow> Inr (t\<lparr>cvt_conversations := cvt_conversations t @ [\<lparr>cv_id = c, cv_owner = u,
          cv_started_at = observed_at, cv_last_turn_at = observed_at, cv_turn_count = 0,
          cv_consolidated_at = None, cv_closed_at = None\<rparr>]\<rparr>)
    | Some r \<Rightarrow> if cv_owner r = u then Inr t else Inl ownership_error)"

definition db_owned :: "uuid \<Rightarrow> uuid \<Rightarrow> conversation_tables \<Rightarrow> bool" where
  "db_owned c u t \<longleftrightarrow> (case find_conversation t c of None \<Rightarrow> False | Some r \<Rightarrow> cv_owner r = u)"

definition turn_record :: "int \<Rightarrow> uuid \<Rightarrow> uuid \<Rightarrow> uuid \<Rightarrow> conversation_turn \<Rightarrow> turn_row" where
  "turn_record retention_days new_id c u turn = \<lparr>tw_id = new_id, tw_conversation = c, tw_owner = u,
     tw_role = ct_role turn, tw_content = ct_content turn, tw_created_at = ct_created_at turn,
     tw_expires_at = Some (ct_created_at turn + timedelta_days retention_days)\<rparr>"

definition evidence_record :: "(pyval \<Rightarrow> string) \<Rightarrow> uuid \<Rightarrow> evidence_snapshot \<Rightarrow> evidence_row result" where
  "evidence_record fr new_id s = rmap (\<lambda>payload. \<lparr>ew_id = new_id, ew_conversation = es_conversation_id s,
     ew_owner = es_owner_user_id s, ew_exchange_id = es_exchange_id s, ew_tool_name = es_tool_name s,
     ew_schema_version = es_schema_version s, ew_json = payload, ew_created_at = es_created_at s,
     ew_expires_at = es_expires_at s\<rparr>) (snapshot_to_json fr s)"

text \<open>Inserts fail on a primary or unique key that is taken and on a missing parent row.\<close>

definition insert_turn :: "turn_row \<Rightarrow> conversation_tables \<Rightarrow> conversation_tables result" where
  "insert_turn r t = (if tw_id r \<in> tw_id ` set (cvt_turns t) \<or> \<not> db_owned (tw_conversation r) (tw_owner r) t
     then Inl integrity_error else Inr (t\<lparr>cvt_turns := cvt_turns t @ [r]\<rparr>))"

definition insert_evidence :: "evidence_row \<Rightarrow> conversation_tables \<Rightarrow> conversation_tables result" where
  "insert_evidence r t = (if ew_id r \<in> ew_id ` set (cvt_evidence t) \<or> ew_exchange_id r \<in> ew_exchange_id ` set (cvt_evidence t)
       \<or> \<not> db_owned (ew_conversation r) (ew_owner r) t
     then Inl integrity_error else Inr (t\<lparr>cvt_evidence := cvt_evidence t @ [r]\<rparr>))"

definition db_advance :: "uuid \<Rightarrow> uuid \<Rightarrow> datetime \<Rightarrow> int \<Rightarrow> conversation_tables \<Rightarrow> conversation_tables result" where
  "db_advance c u touched_at increment t = (if \<not> db_owned c u t then Inl ownership_error
     else Inr (t\<lparr>cvt_conversations := map (\<lambda>r. if cv_id r = c \<and> cv_owner r = u
         then r\<lparr>cv_last_turn_at := (if cv_last_turn_at r < touched_at then touched_at else cv_last_turn_at r),
                cv_turn_count := cv_turn_count r + increment, cv_closed_at := None\<rparr>
         else r) (cvt_conversations t)\<rparr>))"

definition turn_key :: "turn_row \<Rightarrow> datetime \<times> uuid" where
  "turn_key r = (tw_created_at r, tw_id r)"

definition row_turn :: "turn_row \<Rightarrow> conversation_turn" where
  "row_turn r = \<lparr>ct_role = tw_role r, ct_content = tw_content r, ct_created_at = tw_created_at r\<rparr>"

definition db_read_recent :: "uuid \<Rightarrow> uuid \<Rightarrow> int \<Rightarrow> conversation_tables \<Rightarrow> conversation_turn list result" where
  "db_read_recent c u limit t = (if \<not> db_owned c u t then Inl ownership_error
     else if limit \<le> 0 then Inr []
     else Inr (map row_turn (rev (take (nat limit) (sort_desc turn_key
       (filter (\<lambda>r. tw_conversation r = c \<and> tw_owner r = u) (cvt_turns t)))))))"

definition db_append ::
  "int \<Rightarrow> uuid \<Rightarrow> uuid \<Rightarrow> conversation_turn \<Rightarrow> uuid \<Rightarrow> conversation_tables \<Rightarrow> conversation_tables result" where
  "db_append retention_days new_id c turn u t =
     rbind (db_claim c u (ct_created_at turn) t) (\<lambda>t1.
     rbind (insert_turn (turn_record retention_days new_id c u turn) t1) (\<lambda>t2.
     db_advance c u (ct_created_at turn) 1 t2))"

definition db_append_exchange ::
  "(pyval \<Rightarrow> string) \<Rightarrow> int \<Rightarrow> uuid \<times> uuid \<times> uuid \<Rightarrow> uuid \<Rightarrow> uuid \<Rightarrow> conversation_turn \<Rightarrow> conversation_turn
     \<Rightarrow> evidence_snapshot option \<Rightarrow> conversation_tables \<Rightarrow> conversation_tables result" where
  "db_append_exchange fr retention_days ids c u user_turn assistant_turn evidence t =
     (case ids of (id1, id2, id3) \<Rightarrow>
      if \<not> exchange_roles_ok user_turn assistant_turn then Inl exchange_error
      else rbind (db_claim c u (ct_created_at user_turn) t) (\<lambda>t1.
        rbind (case evidence of None \<Rightarrow> Inr None | Some e \<Rightarrow> rmap Some (evidence_record fr id3 e)) (\<lambda>row.
        rbind (insert_turn (turn_record retention_days id1 c u user_turn) t1) (\<lambda>t2.
        rbind (insert_turn (turn_record retention_days id2 c u assistant_turn) t2) (\<lambda>t3.
        rbind (case row of None \<Rightarrow> Inr t3 | Some r \<Rightarrow> insert_evidence r t3) (\<lambda>t4.
        db_advance c u (ct_created_at assistant_turn) 2 t4))))))"

definition row_snapshot :: "(pyval \<Rightarrow> string) \<Rightarrow> evidence_row \<Rightarrow> evidence_snapshot result" where
  "row_snapshot fr r = snapshot_from_json fr (ew_conversation r) (ew_owner r) (ew_created_at r) (ew_expires_at r) (ew_json r)"

definition unexpired :: "datetime \<Rightarrow> datetime option \<Rightarrow> bool" where
  "unexpired now expires \<longleftrightarrow> (case expires of None \<Rightarrow> True | Some e \<Rightarrow> now < e)"

definition db_read_evidence ::
  "(pyval \<Rightarrow> string) \<Rightarrow> datetime \<Rightarrow> uuid \<Rightarrow> uuid \<Rightarrow> int \<Rightarrow> conversation_tables \<Rightarrow> evidence_snapshot list result" where
  "db_read_evidence fr now c u limit t = (if \<not> db_owned c u t then Inl ownership_error
     else if limit \<le> 0 then Inr []
     else traverse (row_snapshot fr) (rev (take (nat limit) (sort_desc (\<lambda>r. (ew_created_at r, ew_id r))
       (filter (\<lambda>r. ew_conversation r = c \<and> ew_owner r = u \<and> unexpired now (ew_expires_at r)) (cvt_evidence t))))))"

definition db_append_evidence ::
  "(pyval \<Rightarrow> string) \<Rightarrow> uuid \<Rightarrow> evidence_snapshot \<Rightarrow> conversation_tables \<Rightarrow> conversation_tables result" where
  "db_append_evidence fr new_id e t = (if \<not> db_owned (es_conversation_id e) (es_owner_user_id e) t then Inl ownership_error
     else rbind (evidence_record fr new_id e) (\<lambda>r. insert_evidence r t))"

definition db_erase_evidence :: "uuid \<Rightarrow> uuid \<Rightarrow> conversation_tables \<Rightarrow> (nat \<times> conversation_tables) result" where
  "db_erase_evidence c u t = (if \<not> db_owned c u t then Inl ownership_error
     else let hit = (\<lambda>r. ew_conversation r = c \<and> ew_owner r = u) in
       Inr (length (filter hit (cvt_evidence t)), t\<lparr>cvt_evidence := filter (\<lambda>r. \<not> hit r) (cvt_evidence t)\<rparr>))"

definition db_close :: "int \<Rightarrow> datetime \<Rightarrow> uuid \<Rightarrow> uuid \<Rightarrow> conversation_tables \<Rightarrow> conversation_tables result" where
  "db_close retention_days now c u t = (if \<not> db_owned c u t then Inl ownership_error
     else Inr (t\<lparr>
       cvt_turns := map (\<lambda>r. if tw_conversation r = c \<and> tw_owner r = u
          then r\<lparr>tw_expires_at := Some (tw_created_at r + timedelta_days retention_days)\<rparr> else r) (cvt_turns t),
       cvt_conversations := map (\<lambda>r. if cv_id r = c \<and> cv_owner r = u then r\<lparr>cv_closed_at := Some now\<rparr> else r)
          (cvt_conversations t)\<rparr>))"

subsection \<open>The retention job\<close>

text \<open>\<open>purge_expired\<close>: the tables after it, the conversations whose checkpoints are erased (owner and
  conversation, in the order of the erasures) and the number it returns. Deleting a conversation deletes
  its turns and evidence with it (\<open>ON DELETE CASCADE\<close>).\<close>

definition turn_expired :: "datetime \<Rightarrow> turn_row \<Rightarrow> bool" where
  "turn_expired now r \<longleftrightarrow> (case tw_expires_at r of None \<Rightarrow> False | Some e \<Rightarrow> e < now)"

definition stale_conversation :: "datetime \<Rightarrow> turn_row list \<Rightarrow> conversation_row \<Rightarrow> bool" where
  "stale_conversation cutoff turns r \<longleftrightarrow> cv_last_turn_at r < cutoff \<and> \<not> list_ex (\<lambda>x. tw_conversation x = cv_id r) turns"

definition purge_expired ::
  "datetime \<Rightarrow> int \<Rightarrow> conversation_tables \<Rightarrow> nat \<times> (uuid \<times> uuid) list \<times> conversation_tables" where
  "purge_expired now conversation_retention_days t =
     (let cutoff = now - timedelta_days conversation_retention_days;
          expired = filter (turn_expired now) (cvt_turns t);
          turns = filter (\<lambda>r. tw_id r \<notin> tw_id ` set expired) (cvt_turns t);
          stale = filter (stale_conversation cutoff turns) (cvt_conversations t);
          gone = cv_id ` set stale;
          affected = sort (remdups (map (\<lambda>r. (tw_owner r, tw_conversation r)) expired @ map (\<lambda>r. (cv_owner r, cv_id r)) stale))
      in (length expired, affected, t\<lparr>
        cvt_turns := filter (\<lambda>r. tw_conversation r \<notin> gone) turns,
        cvt_evidence := filter (\<lambda>r. ew_conversation r \<notin> gone) (cvt_evidence t),
        cvt_conversations := filter (\<lambda>r. cv_id r \<notin> gone) (cvt_conversations t)\<rparr>))"

end
