(* ===== verification/Memory_Records.thy ===== *)
theory Memory_Records
  imports Facts Authorization Conversations
begin

section \<open>Long-term memory records\<close>

text \<open>
  \<open>MemoryRecordRepository\<close>, \<open>FactPromoter\<close>, \<open>FactCandidateRepository\<close> and \<open>PineconeDocumentMemoryReader\<close> of
  \<open>src/app/modules/assistant/infrastructure/conversation_memory/long_term\<close> over the tables of its \<open>models.py\<close>.
  SHA-256 of a text is the parameter \<open>sha\<close>; new identifiers and the time are arguments. Between the lookup and
  the commit of \<open>record_or_get_user_fact\<close> other transactions may commit, so it takes the rows it reads and
  the rows it commits to.
\<close>

subsection \<open>Tables\<close>

record memory_row =
  mr_id :: uuid
  mr_kind :: string
  mr_owner :: "uuid option"
  mr_site :: "string option"
  mr_permissions :: "string list"
  mr_content :: string
  mr_sha :: string
  mr_turn_ids :: "uuid list"
  mr_document :: "uuid option"
  mr_namespace :: string
  mr_vector_id :: string
  mr_embedding_model :: string
  mr_created_at :: datetime
  mr_expires_at :: "datetime option"
  mr_synced_at :: "datetime option"
  mr_deleted_at :: "datetime option"
  mr_retry_count :: nat
  mr_last_error :: "string option"

record candidate_row =
  cr_id :: uuid
  cr_conversation :: uuid
  cr_owner :: uuid
  cr_statement :: string
  cr_sha :: string
  cr_class :: string
  cr_entity_refs :: "string list"
  cr_turn_ids :: "uuid list"
  cr_explicit :: bool
  cr_decision :: string
  cr_reason :: string
  cr_promoted :: "uuid option"
  cr_created_at :: datetime
  cr_expires_at :: datetime

definition live :: "memory_row \<Rightarrow> bool" where
  "live r \<longleftrightarrow> mr_deleted_at r = None"

text \<open>The keys: the identifier, the vector identifier, and for live rows with an owner the fact.\<close>

definition same_fact :: "memory_row \<Rightarrow> memory_row \<Rightarrow> bool" where
  "same_fact r q \<longleftrightarrow> live r \<and> live q \<and> mr_owner r \<noteq> None \<and> mr_owner r = mr_owner q \<and> mr_kind r = mr_kind q \<and> mr_sha r = mr_sha q"

definition insert_memory :: "memory_row \<Rightarrow> memory_row list \<Rightarrow> memory_row list result" where
  "insert_memory r rows = (if list_ex (\<lambda>q. mr_id q = mr_id r \<or> mr_vector_id q = mr_vector_id r \<or> same_fact r q) rows
     then Inl integrity_error else Inr (rows @ [r]))"

subsection \<open>The repository\<close>

record memory_write =
  mw_kind :: string
  mw_content :: string
  mw_owner :: "uuid option"
  mw_site :: "string option"
  mw_permissions :: "string list"
  mw_turn_ids :: "uuid list"
  mw_document :: "uuid option"
  mw_expires_at :: "datetime option"

record memory_repository =
  mp_sha :: "string \<Rightarrow> string"
  mp_embedding_model :: string
  mp_user_namespace :: string
  mp_documents_namespace :: string

definition namespace_for :: "memory_repository \<Rightarrow> string \<Rightarrow> string result" where
  "namespace_for p kind = (if kind = ''conversation_summary'' then Inr (mp_user_namespace p)
     else if kind = ''document_chunk'' then Inr (mp_documents_namespace p)
     else Inl (ValueErr (''Unsupported long-term memory kind: '' @ kind)))"

definition content_hash :: "memory_repository \<Rightarrow> string \<Rightarrow> string" where
  "content_hash p content = mp_sha p (join '' '' (split_ws (lower content)))"

definition memory_row_of ::
  "memory_repository \<Rightarrow> uuid \<Rightarrow> datetime \<Rightarrow> string \<Rightarrow> string \<Rightarrow> string \<Rightarrow> memory_write \<Rightarrow> memory_row" where
  "memory_row_of p i now content sha namespace w = \<lparr>mr_id = i, mr_kind = mw_kind w, mr_owner = mw_owner w, mr_site = mw_site w,
     mr_permissions = sort (remdups (mw_permissions w)), mr_content = content, mr_sha = sha, mr_turn_ids = mw_turn_ids w,
     mr_document = mw_document w, mr_namespace = namespace, mr_vector_id = uuid_str i,
     mr_embedding_model = mp_embedding_model p, mr_created_at = now, mr_expires_at = mw_expires_at w,
     mr_synced_at = None, mr_deleted_at = None, mr_retry_count = 0, mr_last_error = None\<rparr>"

definition record_memory ::
  "memory_repository \<Rightarrow> uuid \<Rightarrow> datetime \<Rightarrow> memory_write \<Rightarrow> memory_row list \<Rightarrow> (uuid \<times> memory_row list) result" where
  "record_memory p i now w rows = rbind (namespace_for p (mw_kind w)) (\<lambda>namespace.
     rmap (Pair i) (insert_memory (memory_row_of p i now (mw_content w) (mp_sha p (mw_content w)) namespace w) rows))"

definition existing_fact :: "memory_repository \<Rightarrow> memory_write \<Rightarrow> memory_row list \<Rightarrow> memory_row option" where
  "existing_fact p w rows = List.find (\<lambda>r. mr_owner r = mw_owner w \<and> mr_kind r = mw_kind w
     \<and> mr_sha r = content_hash p (mw_content w) \<and> live r) rows"

text \<open>\<open>dict.fromkeys\<close>: first occurrences, in order.\<close>

definition first_occurrences :: "'a list \<Rightarrow> 'a list" where
  "first_occurrences xs = rev (remdups (rev xs))"

definition merge_turn_ids :: "uuid \<Rightarrow> uuid list \<Rightarrow> memory_row list \<Rightarrow> memory_row list" where
  "merge_turn_ids i turns rows = map (\<lambda>r. if mr_id r = i
     then r\<lparr>mr_turn_ids := first_occurrences (mr_turn_ids r @ turns)\<rparr> else r) rows"

definition record_or_get_user_fact ::
  "memory_repository \<Rightarrow> uuid \<Rightarrow> datetime \<Rightarrow> memory_write \<Rightarrow> memory_row list \<Rightarrow> memory_row list
     \<Rightarrow> ((uuid \<times> bool) \<times> memory_row list) result" where
  "record_or_get_user_fact p i now w seen rows =
     (if mw_kind w \<noteq> ''conversation_summary'' \<or> mw_owner w = None
      then Inl (ValueErr ''User fact promotion requires an owned conversation summary'')
      else (case existing_fact p w seen of
          Some r \<Rightarrow> Inr ((mr_id r, False), merge_turn_ids (mr_id r) (mw_turn_ids w) rows)
        | None \<Rightarrow> rbind (namespace_for p (mw_kind w)) (\<lambda>namespace.
            (case insert_memory (memory_row_of p i now (strip (mw_content w)) (content_hash p (mw_content w)) namespace w) rows of
               Inr rows' \<Rightarrow> Inr ((i, True), rows')
             | Inl e \<Rightarrow> (case existing_fact p w rows of
                 None \<Rightarrow> Inl e
               | Some r \<Rightarrow> Inr ((mr_id r, False), rows))))))"

definition read_recent_user_memories :: "uuid \<Rightarrow> int \<Rightarrow> memory_row list \<Rightarrow> string list" where
  "read_recent_user_memories owner limit rows = (if limit \<le> 0 then []
     else map mr_content (rev (take (nat limit) (sort_desc mr_created_at
       (filter (\<lambda>r. mr_owner r = Some owner \<and> mr_kind r = ''conversation_summary'' \<and> live r) rows)))))"

definition read_document_chunks ::
  "string list \<Rightarrow> authorization_context \<Rightarrow> memory_row list \<Rightarrow> string list result" where
  "read_document_chunks vector_ids c rows =
     (if vector_ids = [] then Inr []
      else rbind (can c DOCUMENTS_READ None) (\<lambda>may.
        if \<not> may then Inr []
        else (let found = filter (\<lambda>r. mr_kind r = ''document_chunk'' \<and> mr_vector_id r \<in> set vector_ids \<and> live r \<and> mr_synced_at r \<noteq> None) rows in
          rbind (permissions c) (\<lambda>ps.
          rbind (traverse (\<lambda>r. if set (mr_permissions r) \<subseteq> permission_value ` ps
              then rmap (\<lambda>ok. if ok then [(mr_vector_id r, r)] else []) (can c DOCUMENTS_READ (mr_site r)) else Inr []) found) (\<lambda>allowed.
          Inr (List.map_filter (\<lambda>v. map_option mr_content (map_of (rev (concat allowed)) v)) vector_ids))))))"

text \<open>\<open>PineconeDocumentMemoryReader\<close>: the embedding and the index are parameters.\<close>

definition read_document_chunks_for_query ::
  "(string \<Rightarrow> 'e result) \<Rightarrow> (string \<Rightarrow> 'e \<Rightarrow> int \<Rightarrow> string list result) \<Rightarrow> string \<Rightarrow> memory_row list
     \<Rightarrow> string \<Rightarrow> authorization_context \<Rightarrow> int \<Rightarrow> string list result" where
  "read_document_chunks_for_query embedding query_ids namespace rows query c limit =
     (if limit \<le> 0 then Inr []
      else rbind (can c DOCUMENTS_READ None) (\<lambda>may.
        if \<not> may then Inr []
        else rbind (embedding query) (\<lambda>values. rbind (query_ids namespace values limit) (\<lambda>ids. read_document_chunks ids c rows))))"

subsection \<open>Promotion and candidates\<close>

definition promote_fact ::
  "memory_repository \<Rightarrow> uuid \<Rightarrow> datetime \<Rightarrow> extracted_fact \<Rightarrow> fact_evaluation \<Rightarrow> uuid \<Rightarrow> string list \<Rightarrow> uuid list
     \<Rightarrow> memory_row list \<Rightarrow> memory_row list \<Rightarrow> ((uuid \<times> fact_decision) \<times> memory_row list) result" where
  "promote_fact p i now f e owner required turns seen rows =
     rmap (\<lambda>((r, created), rows'). ((r, if created then ACCEPTED else DUPLICATE), rows'))
       (record_or_get_user_fact p i now \<lparr>mw_kind = ''conversation_summary'', mw_content = ft_statement f, mw_owner = Some owner,
          mw_site = None, mw_permissions = required, mw_turn_ids = turns, mw_document = None, mw_expires_at = fe_expires_at e\<rparr>
        seen rows)"

definition record_outcome ::
  "(string \<Rightarrow> string) \<Rightarrow> int \<Rightarrow> uuid \<Rightarrow> datetime \<Rightarrow> uuid \<Rightarrow> uuid \<Rightarrow> extracted_fact \<Rightarrow> fact_decision \<Rightarrow> string \<Rightarrow> candidate_row" where
  "record_outcome sha retention_days i now conversation owner f decision reason = \<lparr>cr_id = i, cr_conversation = conversation,
     cr_owner = owner, cr_statement = ft_statement f, cr_sha = sha (lower (strip (ft_statement f))),
     cr_class = fact_class_value (ft_class f), cr_entity_refs = ft_entity_refs f, cr_turn_ids = ft_evidence_turn_ids f,
     cr_explicit = ft_explicitly_stated f, cr_decision = fact_decision_value decision, cr_reason = reason,
     cr_promoted = None, cr_created_at = now, cr_expires_at = now + timedelta_days retention_days\<rparr>"

definition mark_promoted :: "uuid \<Rightarrow> uuid \<Rightarrow> candidate_row list \<Rightarrow> candidate_row list result" where
  "mark_promoted i record_id rows = (if \<not> list_ex (\<lambda>r. cr_id r = i) rows then Inl (ValueErr ''Fact candidate does not exist'')
     else Inr (map (\<lambda>r. if cr_id r = i then r\<lparr>cr_promoted := Some record_id\<rparr> else r) rows))"

subsection \<open>Who may read a chunk\<close>

definition readable :: "authorization_context \<Rightarrow> memory_row \<Rightarrow> bool" where
  "readable c r \<longleftrightarrow> mr_kind r = ''document_chunk'' \<and> live r \<and> mr_synced_at r \<noteq> None
     \<and> can c DOCUMENTS_READ (mr_site r) = Inr True
     \<and> (\<exists>ps. permissions c = Inr ps \<and> set (mr_permissions r) \<subseteq> permission_value ` ps)"

lemma uuid_str_eq_iff [simp]: "uuid_str i = uuid_str j \<longleftrightarrow> i = j"
  by (metis parse_uuid_str Inr_inject)

lemma readable_may: "readable c r \<Longrightarrow> can c DOCUMENTS_READ None = Inr True"
  by (cases "mr_site r") (auto simp: readable_def dest: can_mono_site)

lemma traverse_pick:
  "traverse f xs = Inr yss \<Longrightarrow> (\<And>x. x \<in> set xs \<Longrightarrow> f x = Inr [] \<or> f x = Inr [g x]) \<Longrightarrow>
     concat yss = map g (filter (\<lambda>x. f x = Inr [g x]) xs)"
proof (induction xs arbitrary: yss)
  case (Cons a xs)
  then obtain y ys where yss: "yss = y # ys" "f a = Inr y" "traverse f xs = Inr ys"
    by (auto simp: rbind_Inr_iff rmap_Inr_iff)
  have "concat ys = map g (filter (\<lambda>x. f x = Inr [g x]) xs)" using Cons.IH[OF yss(3)] Cons.prems(2) by simp
  moreover have "y = [] \<or> y = [g a]" using Cons.prems(2)[of a] yss(2) by simp
  ultimately show ?case using yss by auto
qed simp

lemma set_map_filter_Some: "set (List.map_filter f xs) = {y. \<exists>x \<in> set xs. f x = Some y}"
  by (force simp: List.map_filter_def)

lemma read_chunks_rows:
  assumes "read_document_chunks ids c rows = Inr contents"
  shows "contents = List.map_filter (\<lambda>v. map_option mr_content (map_of (rev (map (\<lambda>r. (mr_vector_id r, r))
      (filter (\<lambda>r. readable c r \<and> mr_vector_id r \<in> set ids) rows))) v)) ids"
proof (cases "ids = [] \<or> can c DOCUMENTS_READ None = Inr False")
  case True
  then have "filter (\<lambda>r. readable c r \<and> mr_vector_id r \<in> set ids) rows = []" if "ids \<noteq> []"
    using that by (auto simp: filter_empty_conv dest!: readable_may)
  then show ?thesis using assms True
    by (cases "ids = []") (auto simp: read_document_chunks_def List.map_filter_simps List.map_filter_def)
next
  case False
  let ?found = "filter (\<lambda>r. mr_kind r = ''document_chunk'' \<and> mr_vector_id r \<in> set ids \<and> live r \<and> mr_synced_at r \<noteq> None) rows"
  let ?pick = "\<lambda>ps r. if set (mr_permissions r) \<subseteq> permission_value ` ps
              then rmap (\<lambda>ok. if ok then [(mr_vector_id r, r)] else []) (can c DOCUMENTS_READ (mr_site r)) else Inr []"
  obtain ps allowed where ps: "permissions c = Inr ps" "traverse (?pick ps) ?found = Inr allowed"
    and contents: "contents = List.map_filter (\<lambda>v. map_option mr_content (map_of (rev (concat allowed)) v)) ids"
    using assms False by (auto simp: read_document_chunks_def rbind_Inr_iff Let_def split: if_splits)
  have picks: "?pick ps r = Inr [] \<or> ?pick ps r = Inr [(mr_vector_id r, r)]" for r
    using ps(1) by (auto simp: can_def)
  have "concat allowed = map (\<lambda>r. (mr_vector_id r, r)) (filter (\<lambda>r. ?pick ps r = Inr [(mr_vector_id r, r)]) ?found)"
    by (rule traverse_pick[OF ps(2)]) (rule picks)
  also have "filter (\<lambda>r. ?pick ps r = Inr [(mr_vector_id r, r)]) ?found = filter (\<lambda>r. readable c r \<and> mr_vector_id r \<in> set ids) rows"
    using ps(1) by (auto simp: readable_def rmap_Inr_iff intro!: filter_cong split: if_splits)
  finally show ?thesis using contents by simp
qed

text \<open>C22. Documents are recalled with authority only: a search over any candidates the index offers returns exactly the
  contents of the stored chunks among them that are live and synced and that the actor may read, with every
  permission the chunk requires and at the chunk's site.\<close>

theorem chunks_only_authorized:
  assumes "read_document_chunks ids c rows = Inr contents" and "distinct (map mr_vector_id rows)"
  shows "set contents = {mr_content r | r. r \<in> set rows \<and> readable c r \<and> mr_vector_id r \<in> set ids}"
proof -
  let ?rows = "filter (\<lambda>r. readable c r \<and> mr_vector_id r \<in> set ids) rows"
  let ?m = "map_of (rev (map (\<lambda>r. (mr_vector_id r, r)) ?rows))"
  have "distinct (map fst (rev (map (\<lambda>r. (mr_vector_id r, r)) ?rows)))"
    using assms(2) by (simp add: o_def rev_map[symmetric] distinct_map_filter)
  then have m: "?m v = Some r \<longleftrightarrow> r \<in> set ?rows \<and> mr_vector_id r = v" for v r
    by (auto simp: map_of_eq_Some_iff)
  have "set contents = {x. \<exists>v \<in> set ids. \<exists>r. ?m v = Some r \<and> x = mr_content r}"
    unfolding read_chunks_rows[OF assms(1)] set_map_filter_Some by auto
  also have "\<dots> = {mr_content r | r. r \<in> set rows \<and> readable c r \<and> mr_vector_id r \<in> set ids}"
    unfolding m by auto
  finally show ?thesis .
qed

definition sample_chunk :: "uuid \<Rightarrow> string \<Rightarrow> string list \<Rightarrow> string option \<Rightarrow> memory_row" where
  "sample_chunk i content required site = \<lparr>mr_id = i, mr_kind = ''document_chunk'', mr_owner = None, mr_site = site,
     mr_permissions = required, mr_content = content, mr_sha = content, mr_turn_ids = [], mr_document = Some 9,
     mr_namespace = ''documents'', mr_vector_id = uuid_str i, mr_embedding_model = ''m'', mr_created_at = 0,
     mr_expires_at = None, mr_synced_at = Some 1, mr_deleted_at = None, mr_retry_count = 0, mr_last_error = None\<rparr>"

definition sample_chunks :: "memory_row list" where
  "sample_chunks = [sample_chunk 1 ''manual'' [''documents:read''] None, sample_chunk 2 ''line 7'' [''documents:read''] (Some ''M7''),
     sample_chunk 3 ''payroll'' [''users:read''] None]"

definition sample_reader :: authorization_context where
  "sample_reader = \<lparr>ac_user_id = 7, ac_roles = [''maintenance_technician''], ac_site_codes = [''M1''], ac_global_scope = False\<rparr>"

lemma sample_reader_permissions: "permissions sample_reader = Inr (rd_permissions (ROLE_DEFINITIONS MAINTENANCE_TECHNICIAN))"
  by (simp add: permissions_def sample_reader_def role_lookup_def role_definition_def all_roles_def)

lemma sample_recall: "read_document_chunks (map uuid_str [2, 3, 1]) sample_reader sample_chunks = Inr [''manual'']"
  by (simp add: read_document_chunks_def can_def sample_reader_permissions Let_def sample_chunks_def sample_chunk_def live_def
      List.map_filter_simps) (simp add: sample_reader_def)

theorem chunks_only_authorized_witness:
  "{mr_content r | r. r \<in> set sample_chunks \<and> readable sample_reader r \<and> mr_vector_id r \<in> uuid_str ` {2, 3, 1}} = {''manual''}"
proof -
  have "distinct (map mr_vector_id sample_chunks)" by (simp add: sample_chunks_def sample_chunk_def)
  from chunks_only_authorized[OF sample_recall this] show ?thesis by simp
qed

subsection \<open>One live record for a fact\<close>

definition records_ok :: "memory_row list \<Rightarrow> bool" where
  "records_ok rows \<longleftrightarrow> distinct (map mr_id rows) \<and> distinct (map mr_vector_id rows)
     \<and> (\<forall>r \<in> set rows. \<forall>q \<in> set rows. same_fact r q \<longrightarrow> r = q)"

lemma same_fact_sym: "same_fact r q \<Longrightarrow> same_fact q r"
  by (auto simp: same_fact_def)

lemma insert_memory_Inr: "insert_memory r rows = Inr rows' \<longleftrightarrow>
    rows' = rows @ [r] \<and> (\<forall>q \<in> set rows. mr_id q \<noteq> mr_id r \<and> mr_vector_id q \<noteq> mr_vector_id r \<and> \<not> same_fact r q)"
  by (auto simp: insert_memory_def list_ex_iff)

lemma insert_memory_keeps: "records_ok rows \<Longrightarrow> insert_memory r rows = Inr rows' \<Longrightarrow> records_ok rows'"
  by (auto simp: insert_memory_Inr records_ok_def dest: same_fact_sym)

lemma records_ok_map:
  assumes ok: "records_ok rows"
    and f: "\<And>r. mr_id (f r) = mr_id r \<and> mr_vector_id (f r) = mr_vector_id r"
    and g: "\<And>r. mr_owner (f r) = mr_owner r \<and> mr_kind (f r) = mr_kind r \<and> mr_sha (f r) = mr_sha r \<and> (live (f r) \<longrightarrow> live r)"
  shows "records_ok (map f rows)"
proof -
  have "map mr_id (map f rows) = map mr_id rows" "map mr_vector_id (map f rows) = map mr_vector_id rows"
    by (simp_all add: f)
  moreover have "same_fact (f r) (f q) \<Longrightarrow> same_fact r q" for r q using g[of r] g[of q] unfolding same_fact_def by metis
  then have "\<forall>r \<in> set (map f rows). \<forall>q \<in> set (map f rows). same_fact r q \<longrightarrow> r = q"
    using ok unfolding records_ok_def set_map by blast
  ultimately show ?thesis using ok unfolding records_ok_def by presburger
qed

lemma records_ok_filter: "records_ok rows \<Longrightarrow> records_ok (filter P rows)"
  by (auto simp: records_ok_def distinct_map_filter)

lemma merge_turn_ids_keeps: "records_ok rows \<Longrightarrow> records_ok (merge_turn_ids i turns rows)"
  unfolding merge_turn_ids_def by (rule records_ok_map) (simp_all add: live_def)

text \<open>The live record of the fact that a write states.\<close>

definition states_fact :: "memory_repository \<Rightarrow> memory_write \<Rightarrow> memory_row \<Rightarrow> bool" where
  "states_fact p w r \<longleftrightarrow> mr_owner r = mw_owner w \<and> mr_kind r = mw_kind w \<and> mr_sha r = content_hash p (mw_content w) \<and> live r"

lemma existing_fact_find: "existing_fact p w rows = List.find (states_fact p w) rows"
  by (simp add: existing_fact_def states_fact_def[abs_def])

lemma states_fact_same: "mw_owner w \<noteq> None \<Longrightarrow> states_fact p w r \<Longrightarrow> states_fact p w q \<Longrightarrow> same_fact r q"
  by (auto simp: states_fact_def same_fact_def)

lemma distinct_set_singleton: "distinct xs \<Longrightarrow> set xs = {r} \<Longrightarrow> xs = [r]"
  by (cases xs) (auto, metis insertCI list.set_intros(1) list.exhaust singletonD subset_eq insertE)

lemma states_fact_unique:
  "records_ok rows \<Longrightarrow> mw_owner w \<noteq> None \<Longrightarrow> r \<in> set rows \<Longrightarrow> states_fact p w r \<Longrightarrow> filter (states_fact p w) rows = [r]"
proof -
  assume ok: "records_ok rows" and w: "mw_owner w \<noteq> None" and r: "r \<in> set rows" "states_fact p w r"
  have "set (filter (states_fact p w) rows) = {r}"
    using ok r states_fact_same[OF w] by (auto simp: records_ok_def)
  moreover have "distinct (filter (states_fact p w) rows)"
    using ok by (auto simp: records_ok_def distinct_map)
  ultimately show ?thesis by (rule distinct_set_singleton[rotated])
qed

definition fact_outcome ::
  "memory_repository \<Rightarrow> memory_write \<Rightarrow> uuid \<Rightarrow> bool \<Rightarrow> memory_row list \<Rightarrow> memory_row list \<Rightarrow> bool" where
  "fact_outcome p w i created rows rows' \<longleftrightarrow> records_ok rows' \<and> map mr_id (filter (states_fact p w) rows') = [i]
     \<and> map mr_id rows' = map mr_id rows @ (if created then [i] else [])
     \<and> (created \<longleftrightarrow> \<not> list_ex (states_fact p w) rows)"

lemma merge_states_fact: "filter (states_fact p w) (merge_turn_ids i turns rows) = merge_turn_ids i turns (filter (states_fact p w) rows)"
proof -
  have "states_fact p w (if mr_id r = i then r\<lparr>mr_turn_ids := first_occurrences (mr_turn_ids r @ turns)\<rparr> else r) = states_fact p w r" for r
    by (simp add: states_fact_def live_def)
  then show ?thesis by (simp add: merge_turn_ids_def filter_map o_def)
qed

lemma merge_ids [simp]: "map mr_id (merge_turn_ids i turns rows) = map mr_id rows"
  by (simp add: merge_turn_ids_def)

lemma fact_outcome_of:
  assumes ok: "records_ok rows" and rec: "record_or_get_user_fact p i now w seen rows = Inr ((j, created), rows')"
    and seen: "seen = rows \<or> existing_fact p w seen = None"
  shows "fact_outcome p w j created rows rows'"
proof (cases "existing_fact p w seen")
  case (Some r)
  then have r: "r \<in> set rows" "states_fact p w r" and owner: "mw_owner w \<noteq> None"
    and eff: "j = mr_id r" "\<not> created" "rows' = merge_turn_ids (mr_id r) (mw_turn_ids w) rows"
    using seen rec by (auto simp: existing_fact_find record_or_get_user_fact_def dest: find_Some_set split: if_splits)
  have "map mr_id (filter (states_fact p w) rows') = [j]"
    unfolding eff merge_states_fact merge_ids states_fact_unique[OF ok owner r] by simp
  then show ?thesis using eff r ok by (auto simp: fact_outcome_def merge_turn_ids_keeps list_ex_iff)
next
  case None
  have guard: "mw_kind w = ''conversation_summary''" "mw_owner w \<noteq> None"
    using rec by (auto simp: record_or_get_user_fact_def split: if_splits)
  define r where "r = memory_row_of p i now (strip (mw_content w)) (content_hash p (mw_content w)) (mp_user_namespace p) w"
  have r: "states_fact p w r" "mr_id r = i" by (simp_all add: r_def memory_row_of_def states_fact_def live_def)
  have rec': "(case insert_memory r rows of Inr rows' \<Rightarrow> Inr ((i, True), rows')
      | Inl e \<Rightarrow> (case existing_fact p w rows of None \<Rightarrow> Inl e | Some r \<Rightarrow> Inr ((mr_id r, False), rows))) = Inr ((j, created), rows')"
    using rec None guard by (simp add: record_or_get_user_fact_def namespace_for_def r_def)
  show ?thesis
  proof (cases "insert_memory r rows")
    case (Inr new)
    then have eff: "j = i" "created" "rows' = rows @ [r]" "records_ok rows'"
      using rec' Inr insert_memory_keeps[OF ok Inr] by (simp_all add: insert_memory_Inr)
    have r': "r \<in> set rows'" using eff by simp
    have "\<not> states_fact p w q" if "q \<in> set rows" for q
      using that Inr states_fact_same[OF guard(2) r(1)] by (auto simp: insert_memory_Inr)
    then show ?thesis using eff r states_fact_unique[OF eff(4) guard(2) r' r(1)]
      by (auto simp: fact_outcome_def list_ex_iff)
  next
    case (Inl e)
    then have "existing_fact p w rows \<noteq> None"
      using rec' by (cases "existing_fact p w rows") simp_all
    then obtain q where q: "List.find (states_fact p w) rows = Some q" by (auto simp: existing_fact_find)
    then have eff: "j = mr_id q" "\<not> created" "rows' = rows"
      using rec' Inl by (simp_all add: existing_fact_find)
    have q': "q \<in> set rows" "states_fact p w q" using find_Some_set[OF q] by auto
    then show ?thesis using eff states_fact_unique[OF ok guard(2) q'] ok by (auto simp: fact_outcome_def list_ex_iff)
  qed
qed

text \<open>C23. A fact is remembered once: after a user's fact was recorded or found, even when another transaction
  committed it in between, the same statement up to letter case and spacing leads to the same single live record and
  adds no row; the record then names the turns of both.\<close>

theorem fact_recorded_once:
  assumes "records_ok rows" and "record_or_get_user_fact p i now w seen rows = Inr ((j, created), rows1)"
    and "seen = rows \<or> existing_fact p w seen = None"
    and "mw_owner w' = mw_owner w" and "split_ws (lower (mw_content w')) = split_ws (lower (mw_content w))"
    and "record_or_get_user_fact p i' now' w' rows1 rows1 = Inr ((k, again), rows2)"
  shows "k = j \<and> \<not> again \<and> map mr_id rows2 = map mr_id rows1 \<and> records_ok rows2
    \<and> map mr_id (filter (states_fact p w) rows2) = [j]
    \<and> (\<forall>r \<in> set rows2. mr_id r = j \<longrightarrow> set (mw_turn_ids w') \<subseteq> set (mr_turn_ids r))"
proof -
  note first = fact_outcome_of[OF assms(1,2,3), unfolded fact_outcome_def]
  have kinds: "mw_kind w = ''conversation_summary''" "mw_kind w' = ''conversation_summary''" "mw_owner w' \<noteq> None"
    using assms(2,6) by (auto simp: record_or_get_user_fact_def split: if_splits)
  have same: "states_fact p w' = states_fact p w"
    using assms(4,5) kinds by (simp add: states_fact_def[abs_def] content_hash_def)
  have "fact_outcome p w' k again rows1 rows2" using fact_outcome_of[OF _ assms(6)] first by simp
  then have second: "map mr_id (filter (states_fact p w) rows2) = [k]" "records_ok rows2" "\<not> again" "map mr_id rows2 = map mr_id rows1"
    using first by (auto simp: fact_outcome_def same list_ex_iff filter_empty_conv)
  obtain r where r: "existing_fact p w' rows1 = Some r"
    using first by (cases "existing_fact p w' rows1") (auto simp: existing_fact_find same find_None_iff_all filter_empty_conv)
  then have eff: "k = mr_id r" "rows2 = merge_turn_ids (mr_id r) (mw_turn_ids w') rows1"
    using assms(6) kinds by (auto simp: record_or_get_user_fact_def)
  have "r \<in> set rows1" "states_fact p w r" using r same by (auto simp: existing_fact_find dest: find_Some_set)
  then have "mr_id r \<in> set (map mr_id (filter (states_fact p w) rows1))" by auto
  then have "mr_id r = j" using first by simp
  then show ?thesis using second eff by (auto simp: merge_turn_ids_def first_occurrences_def)
qed

definition sample_repository :: memory_repository where
  "sample_repository = \<lparr>mp_sha = (\<lambda>s. s), mp_embedding_model = ''m'', mp_user_namespace = ''users'', mp_documents_namespace = ''documents''\<rparr>"

definition sample_fact :: "string \<Rightarrow> uuid \<Rightarrow> memory_write" where
  "sample_fact content turn = \<lparr>mw_kind = ''conversation_summary'', mw_content = content, mw_owner = Some 7, mw_site = None,
     mw_permissions = [], mw_turn_ids = [turn], mw_document = None, mw_expires_at = None\<rparr>"

lemma sample_fact_hash: "content_hash sample_repository (mw_content (sample_fact ''Likes  pumps'' t)) = ''likes pumps''"
    "content_hash sample_repository (mw_content (sample_fact '' likes pumps'' t)) = ''likes pumps''"
  by (simp_all add: content_hash_def sample_repository_def sample_fact_def) code_simp+

theorem fact_recorded_once_witness:
  "\<exists>rows1 rows2. record_or_get_user_fact sample_repository 1 0 (sample_fact ''Likes  pumps'' 21) [] [] = Inr ((1, True), rows1)
    \<and> record_or_get_user_fact sample_repository 2 0 (sample_fact '' likes pumps'' 22) rows1 rows1 = Inr ((1, False), rows2)
    \<and> map mr_id rows2 = [1]"
proof -
  have parts: "mw_kind (sample_fact s t) = ''conversation_summary''" "mw_owner (sample_fact s t) = Some 7" for s t
    by (simp_all add: sample_fact_def)
  define r where "r = memory_row_of sample_repository 1 0 (strip (mw_content (sample_fact ''Likes  pumps'' 21))) ''likes pumps'' ''users''
      (sample_fact ''Likes  pumps'' 21)"
  define rows1 where "rows1 = [r]"
  have first: "record_or_get_user_fact sample_repository 1 0 (sample_fact ''Likes  pumps'' 21) [] [] = Inr ((1, True), rows1)"
    by (simp add: record_or_get_user_fact_def existing_fact_def insert_memory_def namespace_for_def sample_fact_hash parts rows1_def r_def)
      (simp add: sample_repository_def)
  have ids: "map mr_id rows1 = [1]" by (simp add: rows1_def r_def memory_row_of_def)
  have "existing_fact sample_repository (sample_fact '' likes pumps'' 22) rows1 = Some r"
    by (simp add: existing_fact_def sample_fact_hash parts rows1_def r_def memory_row_of_def live_def)
  moreover have "mr_id r = 1" by (simp add: r_def memory_row_of_def)
  ultimately have second: "record_or_get_user_fact sample_repository 2 0 (sample_fact '' likes pumps'' 22) rows1 rows1
      = Inr ((1, False), merge_turn_ids 1 (mw_turn_ids (sample_fact '' likes pumps'' 22)) rows1)"
    by (simp add: record_or_get_user_fact_def parts)
  have ok: "records_ok []" by (simp add: records_ok_def)
  have words: "split_ws (lower (mw_content (sample_fact '' likes pumps'' 22))) = split_ws (lower (mw_content (sample_fact ''Likes  pumps'' 21)))"
    by code_simp
  have owner: "mw_owner (sample_fact '' likes pumps'' 22) = mw_owner (sample_fact ''Likes  pumps'' 21)" by (simp add: sample_fact_def)
  have "map mr_id (merge_turn_ids 1 (mw_turn_ids (sample_fact '' likes pumps'' 22)) rows1) = map mr_id rows1"
    using fact_recorded_once[OF ok first disjI1[OF refl] owner words second] by (elim conjE)
  with first second ids show ?thesis by (intro exI conjI) (assumption, assumption, simp only:)
qed

end
