(* ===== verification/Conversation_Refinement.thy ===== *)
theory Conversation_Refinement
  imports Conversations
begin

section \<open>The stores refine a log, and keep users apart\<close>

text \<open>
  The abstract specification of a conversation store: a log of turns for each conversation and its owner.
  Histories of operations are run on the log, on the store in memory and on the database; both stores
  return what the log returns. The locale \<open>conversation_store\<close> states what makes a store private; the
  two stores are its interpretations.
\<close>

subsection \<open>Operations\<close>

text \<open>The operations the assistant performs on turns; an exchange on the database takes the new row
  identifiers with it.\<close>

datatype store_op =
    Claim_Op uuid uuid datetime
  | Append_Op uuid uuid uuid conversation_turn
  | Exchange_Op "uuid \<times> uuid \<times> uuid" uuid uuid conversation_turn conversation_turn "evidence_snapshot option"
  | Read_Op uuid uuid int

fun op_conversation :: "store_op \<Rightarrow> uuid" where
  "op_conversation (Claim_Op c u tm) = c"
| "op_conversation (Append_Op i c u turn) = c"
| "op_conversation (Exchange_Op ids c u a b e) = c"
| "op_conversation (Read_Op c u n) = c"

fun op_user :: "store_op \<Rightarrow> uuid" where
  "op_user (Claim_Op c u tm) = u"
| "op_user (Append_Op i c u turn) = u"
| "op_user (Exchange_Op ids c u a b e) = u"
| "op_user (Read_Op c u n) = u"

text \<open>An update that raises leaves the state, as the transaction and the early checks do.\<close>

definition updated :: "'s \<Rightarrow> 's result \<Rightarrow> conversation_turn list result \<times> 's" where
  "updated s r = (case r of Inl e \<Rightarrow> (Inl e, s) | Inr s' \<Rightarrow> (Inr [], s'))"

lemma updated_simps [simp]: "updated s (Inl e) = (Inl e, s)" "updated s (Inr s') = (Inr [], s')"
  by (simp_all add: updated_def)

fun mem_perform :: "nat \<Rightarrow> store_op \<Rightarrow> memory_store \<Rightarrow> conversation_turn list result \<times> memory_store" where
  "mem_perform m (Claim_Op c u tm) s = updated s (mem_claim c u s)"
| "mem_perform m (Append_Op i c u turn) s = updated s (mem_append m c turn u s)"
| "mem_perform m (Exchange_Op ids c u a b e) s = updated s (mem_append_exchange m c u a b e s)"
| "mem_perform m (Read_Op c u n) s = (mem_read_recent c u n s, s)"

fun db_perform :: "(pyval \<Rightarrow> string) \<Rightarrow> int \<Rightarrow> store_op \<Rightarrow> conversation_tables \<Rightarrow> conversation_turn list result \<times> conversation_tables" where
  "db_perform fr days (Claim_Op c u tm) t = updated t (db_claim c u tm t)"
| "db_perform fr days (Append_Op i c u turn) t = updated t (db_append days i c turn u t)"
| "db_perform fr days (Exchange_Op ids c u a b e) t = updated t (db_append_exchange fr days ids c u a b e t)"
| "db_perform fr days (Read_Op c u n) t = (db_read_recent c u n t, t)"

fun run_ops :: "('o \<Rightarrow> 's \<Rightarrow> 'r \<times> 's) \<Rightarrow> 'o list \<Rightarrow> 's \<Rightarrow> 'r list \<times> 's" where
  "run_ops perform [] s = ([], s)"
| "run_ops perform (x # xs) s = (let (r, s1) = perform x s; (rs, s2) = run_ops perform xs s1 in (r # rs, s2))"

subsection \<open>The log\<close>

record conversation_log =
  lg_owner :: "uuid \<Rightarrow> uuid option"
  lg_turns :: "uuid \<Rightarrow> conversation_turn list"

definition empty_log :: conversation_log where
  "empty_log = \<lparr>lg_owner = Map.empty, lg_turns = (\<lambda>_. [])\<rparr>"

definition log_claim :: "uuid \<Rightarrow> uuid \<Rightarrow> conversation_log \<Rightarrow> conversation_log result" where
  "log_claim c u l = (if lg_owner l c \<in> {None, Some u} then Inr (l\<lparr>lg_owner := (lg_owner l)(c \<mapsto> u)\<rparr>)
     else Inl ownership_error)"

definition log_append :: "uuid \<Rightarrow> uuid \<Rightarrow> conversation_turn list \<Rightarrow> conversation_log \<Rightarrow> conversation_log result" where
  "log_append c u turns l = rmap (\<lambda>l1. l1\<lparr>lg_turns := (lg_turns l1)(c := lg_turns l1 c @ turns)\<rparr>) (log_claim c u l)"

fun log_perform :: "store_op \<Rightarrow> conversation_log \<Rightarrow> conversation_turn list result \<times> conversation_log" where
  "log_perform (Claim_Op c u tm) l = updated l (log_claim c u l)"
| "log_perform (Append_Op i c u turn) l = updated l (log_append c u [turn] l)"
| "log_perform (Exchange_Op ids c u a b e) l = updated l
     (if exchange_roles_ok a b then log_append c u [a, b] l else Inl exchange_error)"
| "log_perform (Read_Op c u n) l =
     (if lg_owner l c = Some u then Inr (last_n (nat n) (lg_turns l c)) else Inl ownership_error, l)"

subsection \<open>Privacy\<close>

text \<open>What a private store promises about one operation: it does not touch other conversations, it fails
  without effect on a conversation of somebody else, and an owner is for ever.\<close>

locale conversation_store =
  fixes owner_of :: "'s \<Rightarrow> uuid \<Rightarrow> uuid option"
    and turns_of :: "'s \<Rightarrow> uuid \<Rightarrow> conversation_turn list"
    and perform :: "store_op \<Rightarrow> 's \<Rightarrow> conversation_turn list result \<times> 's"
  assumes frame: "perform x s = (r, s') \<Longrightarrow> c \<noteq> op_conversation x \<Longrightarrow>
      owner_of s' c = owner_of s c \<and> turns_of s' c = turns_of s c"
    and foreign: "owner_of s (op_conversation x) = Some v \<Longrightarrow> v \<noteq> op_user x \<Longrightarrow> \<exists>e. perform x s = (Inl e, s)"
begin

lemma step_private:
  assumes "owner_of s c = Some u" and "op_user x \<noteq> u" and "perform x s = (r, s')"
  shows "owner_of s' c = Some u \<and> turns_of s' c = turns_of s c \<and> (op_conversation x = c \<longrightarrow> (\<exists>e. r = Inl e))"
proof (cases "op_conversation x = c")
  case True
  then obtain e where "perform x s = (Inl e, s)" using foreign[of s x u] assms(1,2) by auto
  then show ?thesis using assms by simp
next
  case False
  then show ?thesis using frame[OF assms(3), of c] assms(1) by simp
qed

lemma run_private:
  assumes "owner_of s c = Some u" and "\<forall>x \<in> set xs. op_user x \<noteq> u" and "run_ops perform xs s = (rs, s')"
  shows "owner_of s' c = Some u \<and> turns_of s' c = turns_of s c
    \<and> (\<forall>(x, r) \<in> set (zip xs rs). op_conversation x = c \<longrightarrow> (\<exists>e. r = Inl e))"
  using assms
proof (induction xs arbitrary: s rs)
  case (Cons x xs)
  obtain r s1 where x: "perform x s = (r, s1)" by fastforce
  obtain rs1 where rs: "run_ops perform xs s1 = (rs1, s')" "rs = r # rs1"
    using Cons.prems(3) x by (auto split: prod.splits)
  have one: "owner_of s1 c = Some u \<and> turns_of s1 c = turns_of s c \<and> (op_conversation x = c \<longrightarrow> (\<exists>e. r = Inl e))"
    by (rule step_private[OF Cons.prems(1) _ x]) (use Cons.prems(2) in simp)
  then show ?case using Cons.IH[of s1 rs1] Cons.prems(2) rs by auto
qed simp

end

definition db_owner :: "conversation_tables \<Rightarrow> uuid \<Rightarrow> uuid option" where
  "db_owner t c = map_option cv_owner (find_conversation t c)"

text \<open>The turns of a conversation in the order a read returns them.\<close>

definition db_turns :: "conversation_tables \<Rightarrow> uuid \<Rightarrow> conversation_turn list" where
  "db_turns t c = map row_turn (rev (sort_desc turn_key (filter (\<lambda>r. tw_conversation r = c) (cvt_turns t))))"

lemma db_owned_owner: "db_owned c u t \<longleftrightarrow> db_owner t c = Some u"
  by (auto simp: db_owned_def db_owner_def split: option.splits)

lemma find_conversation_append:
  "find_conversation (t\<lparr>cvt_conversations := cvt_conversations t @ [r]\<rparr>) c
     = (case find_conversation t c of Some x \<Rightarrow> Some x | None \<Rightarrow> if cv_id r = c then Some r else None)"
proof -
  have "List.find P (xs @ [r]) = (case List.find P xs of Some x \<Rightarrow> Some x | None \<Rightarrow> if P r then Some r else None)" for P xs
    by (induction xs) auto
  then show ?thesis by (simp add: find_conversation_def)
qed

lemma db_claim_owner:
  "db_claim c u tm t = Inr t' \<Longrightarrow> db_owner t' = (db_owner t)(c \<mapsto> u) \<and> cvt_turns t' = cvt_turns t
     \<and> cvt_evidence t' = cvt_evidence t \<and> db_owner t c \<in> {None, Some u}"
  by (auto simp: db_claim_def db_owner_def find_conversation_append fun_eq_iff split: option.splits if_splits)

lemma db_claim_Inl: "db_claim c u tm t = Inl e \<longleftrightarrow> e = ownership_error \<and> (\<exists>v. db_owner t c = Some v \<and> v \<noteq> u)"
  by (auto simp: db_claim_def db_owner_def split: option.splits if_splits)

lemma insert_turn_owner:
  "insert_turn r t = Inr t' \<Longrightarrow> db_owner t' = db_owner t \<and> cvt_turns t' = cvt_turns t @ [r] \<and> cvt_evidence t' = cvt_evidence t"
  by (auto simp: insert_turn_def db_owner_def find_conversation_def split: if_splits)

lemma insert_evidence_owner:
  "insert_evidence r t = Inr t' \<Longrightarrow> db_owner t' = db_owner t \<and> cvt_turns t' = cvt_turns t \<and> cvt_evidence t' = cvt_evidence t @ [r]"
  by (auto simp: insert_evidence_def db_owner_def find_conversation_def split: if_splits)

lemma find_map_same:
  assumes "\<And>x. k (f x) = k x" and "\<And>x. g (f x) = g x"
  shows "map_option g (List.find (\<lambda>x. k x = y) (map f xs)) = map_option g (List.find (\<lambda>x. k x = y) xs)"
  using assms by (induction xs) auto

lemma db_advance_owner:
  "db_advance c u tm n t = Inr t' \<Longrightarrow> db_owner t' = db_owner t \<and> cvt_turns t' = cvt_turns t \<and> cvt_evidence t' = cvt_evidence t"
  by (auto simp: db_advance_def db_owner_def find_conversation_def fun_eq_iff split: if_splits intro!: find_map_same)

text \<open>What a successful append leaves behind.\<close>

lemma db_append_effect:
  assumes "db_append days i c turn u t = Inr t'"
  shows "db_owner t' = (db_owner t)(c \<mapsto> u) \<and> cvt_turns t' = cvt_turns t @ [turn_record days i c u turn]
    \<and> db_owner t c \<in> {None, Some u}"
  using assms
  by (auto simp: db_append_def rbind_Inr_iff dest!: db_claim_owner insert_turn_owner db_advance_owner)

lemma db_exchange_effect:
  assumes "db_append_exchange fr days (i, j, k) c u a b e t = Inr t'"
  shows "db_owner t' = (db_owner t)(c \<mapsto> u)
    \<and> cvt_turns t' = cvt_turns t @ [turn_record days i c u a, turn_record days j c u b]
    \<and> db_owner t c \<in> {None, Some u} \<and> exchange_roles_ok a b"
  using assms
  by (auto simp: db_append_exchange_def rbind_Inr_iff split: if_splits option.splits
      dest!: db_claim_owner insert_turn_owner insert_evidence_owner db_advance_owner)

lemma db_turns_other:
  "(\<forall>r \<in> set rs. tw_conversation r \<noteq> c) \<Longrightarrow> cvt_turns t' = cvt_turns t @ rs \<Longrightarrow> db_turns t' c = db_turns t c"
  by (simp add: db_turns_def filter_False)

interpretation memory_privacy: conversation_store ms_owners ms_turns "mem_perform m"
proof
  fix x and s s' :: memory_store and r c
  assume "mem_perform m x s = (r, s')" and "c \<noteq> op_conversation x"
  then show "ms_owners s' c = ms_owners s c \<and> ms_turns s' c = ms_turns s c"
    by (cases x) (auto simp: mem_claim_def mem_append_def mem_append_exchange_def mem_extend_def updated_def Let_def
        split: option.splits if_splits)
next
  fix x and s :: memory_store and v
  assume "ms_owners s (op_conversation x) = Some v" and "v \<noteq> op_user x"
  then show "\<exists>e. mem_perform m x s = (Inl e, s)"
    by (cases x) (auto simp: mem_claim_def mem_append_def mem_append_exchange_def mem_read_recent_def mem_owned_def)
qed

interpretation database_privacy: conversation_store db_owner db_turns "db_perform fr days"
proof
  fix x and t t' :: conversation_tables and r c
  assume "db_perform fr days x t = (r, t')" and "c \<noteq> op_conversation x"
  then show "db_owner t' c = db_owner t c \<and> db_turns t' c = db_turns t c"
  proof (cases x)
    case (Claim_Op c' u tm)
    then show ?thesis using \<open>db_perform fr days x t = (r, t')\<close> \<open>c \<noteq> op_conversation x\<close>
      by (auto simp: updated_def db_turns_def split: sum.splits dest!: db_claim_owner)
  next
    case (Append_Op i c' u turn)
    then show ?thesis using \<open>db_perform fr days x t = (r, t')\<close> \<open>c \<noteq> op_conversation x\<close>
      by (auto simp: updated_def turn_record_def split: sum.splits dest!: db_append_effect intro!: db_turns_other)
  next
    case (Exchange_Op ids c' u a b e)
    then show ?thesis using \<open>db_perform fr days x t = (r, t')\<close> \<open>c \<noteq> op_conversation x\<close>
      by (cases ids) (auto simp: updated_def turn_record_def split: sum.splits dest!: db_exchange_effect intro!: db_turns_other)
  qed simp
next
  fix x and t :: conversation_tables and v
  assume own: "db_owner t (op_conversation x) = Some v" and "v \<noteq> op_user x"
  then have claim: "db_claim (op_conversation x) (op_user x) tm t = Inl ownership_error" for tm
    using db_claim_Inl[of "op_conversation x" "op_user x" tm t] by auto
  show "\<exists>e. db_perform fr days x t = (Inl e, t)"
  proof (cases x)
    case (Read_Op c u n)
    then show ?thesis using own \<open>v \<noteq> op_user x\<close> by (simp add: db_read_recent_def db_owned_owner)
  next
    case (Exchange_Op ids c u a b e)
    then show ?thesis using claim by (cases ids) (auto simp: db_append_exchange_def)
  qed (use claim in \<open>auto simp: db_append_def\<close>)
qed

subsection \<open>The store in memory refines the log\<close>

text \<open>It keeps the last \<open>m\<close> turns of a conversation, so it answers reads of at most \<open>m\<close>.\<close>

definition mem_refines :: "nat \<Rightarrow> memory_store \<Rightarrow> conversation_log \<Rightarrow> bool" where
  "mem_refines m s l \<longleftrightarrow> ms_owners s = lg_owner l \<and> (\<forall>c. ms_turns s c = last_n m (lg_turns l c))"

fun read_within :: "nat \<Rightarrow> store_op \<Rightarrow> bool" where
  "read_within m (Read_Op c u n) = (n \<le> int m)"
| "read_within m x = True"

lemma mem_trim_last: "mem_trim m xs = last_n m xs"
  by (simp add: mem_trim_def last_n_def)

lemma last_n_last_n:
  assumes "n \<le> m"
  shows "last_n n (last_n m xs) = last_n n xs"
proof -
  have "length xs - (length xs - m) - n + (length xs - m) = length xs - n" using assms by linarith
  then show ?thesis by (simp add: last_n_def)
qed

lemma last_n_extend: "last_n m (last_n m xs @ ys) = last_n m (xs @ ys)"
proof (cases "length xs \<le> m")
  case True
  then show ?thesis by (simp add: last_n_def)
next
  case False
  then show ?thesis by (simp add: last_n_def add.commute)
qed

lemma log_claim_owner: "log_claim c u l = Inr l' \<Longrightarrow> lg_owner l' = (lg_owner l)(c \<mapsto> u) \<and> lg_turns l' = lg_turns l"
  by (auto simp: log_claim_def split: if_splits)

lemma mem_claim_refines:
  assumes "mem_refines m s l"
  shows "(mem_claim c u s = Inl ownership_error \<and> log_claim c u l = Inl ownership_error)
     \<or> (\<exists>s' l'. mem_claim c u s = Inr s' \<and> log_claim c u l = Inr l' \<and> mem_refines m s' l')"
  using assms by (auto simp: mem_claim_def log_claim_def mem_refines_def fun_upd_idem split: option.splits)

lemma mem_extend_refines:
  "mem_refines m s l \<Longrightarrow> mem_refines m (mem_extend m c ts s) (l\<lparr>lg_turns := (lg_turns l)(c := lg_turns l c @ ts)\<rparr>)"
  by (simp add: mem_refines_def mem_extend_def mem_trim_last last_n_extend)

lemma last_n_0: "last_n 0 xs = []"
  by (simp add: last_n_def)

lemma mem_step_refines:
  assumes "mem_refines m s l" and "read_within m x"
  shows "fst (mem_perform m x s) = fst (log_perform x l) \<and> mem_refines m (snd (mem_perform m x s)) (snd (log_perform x l))"
proof (cases x)
  case (Claim_Op c u tm)
  then show ?thesis using mem_claim_refines[OF assms(1), of c u] assms(1) by auto
next
  case (Append_Op i c u turn)
  then show ?thesis using mem_claim_refines[OF assms(1), of c u] assms(1)
    by (auto simp: mem_append_def log_append_def mem_extend_refines)
next
  case (Exchange_Op ids c u a b e)
  have keep: "mem_refines m (s'\<lparr>ms_evidence := v\<rparr>) l' = mem_refines m s' l'" for s' v l'
    by (simp add: mem_refines_def)
  show ?thesis using Exchange_Op mem_claim_refines[OF assms(1), of c u] assms(1)
    by (auto simp: mem_append_exchange_def log_append_def keep mem_extend_refines Let_def split: option.splits)
next
  case (Read_Op c u n)
  then show ?thesis using assms
    by (auto simp: mem_read_recent_def mem_owned_def mem_refines_def last_n_last_n nat_le_iff last_n_0)
qed

subsection \<open>The database refines the log\<close>

definition rows_owned :: "conversation_tables \<Rightarrow> bool" where
  "rows_owned t \<longleftrightarrow> (\<forall>r \<in> set (cvt_turns t). db_owner t (tw_conversation r) = Some (tw_owner r))"

definition db_refines :: "conversation_tables \<Rightarrow> conversation_log \<Rightarrow> bool" where
  "db_refines t l \<longleftrightarrow> db_owner t = lg_owner l \<and> db_turns t = lg_turns l \<and> rows_owned t"

text \<open>What the surroundings provide: new identifiers are new, the clock has moved on since the last turn of
  the conversation, and the evidence can be stored and belongs to the conversation.\<close>

definition later :: "conversation_tables \<Rightarrow> uuid \<Rightarrow> datetime \<Rightarrow> bool" where
  "later t c tm \<longleftrightarrow> (\<forall>r \<in> set (cvt_turns t). tw_conversation r = c \<longrightarrow> tw_created_at r < tm)"

definition new_turn_id :: "conversation_tables \<Rightarrow> uuid \<Rightarrow> bool" where
  "new_turn_id t i \<longleftrightarrow> i \<notin> tw_id ` set (cvt_turns t)"

definition storable :: "(pyval \<Rightarrow> string) \<Rightarrow> conversation_tables \<Rightarrow> uuid \<Rightarrow> uuid \<Rightarrow> uuid \<Rightarrow> evidence_snapshot \<Rightarrow> bool" where
  "storable fr t k c u e \<longleftrightarrow> (\<exists>p. snapshot_to_json fr e = Inr p) \<and> es_conversation_id e = c \<and> es_owner_user_id e = u
     \<and> k \<notin> ew_id ` set (cvt_evidence t) \<and> es_exchange_id e \<notin> ew_exchange_id ` set (cvt_evidence t)"

fun op_ok :: "(pyval \<Rightarrow> string) \<Rightarrow> conversation_tables \<Rightarrow> store_op \<Rightarrow> bool" where
  "op_ok fr t (Append_Op i c u turn) \<longleftrightarrow> new_turn_id t i \<and> later t c (ct_created_at turn)"
| "op_ok fr t (Exchange_Op (i, j, k) c u a b e) \<longleftrightarrow> new_turn_id t i \<and> new_turn_id t j \<and> i \<noteq> j
     \<and> later t c (ct_created_at a) \<and> ct_created_at a < ct_created_at b
     \<and> (case e of None \<Rightarrow> True | Some s \<Rightarrow> storable fr t k c u s)"
| "op_ok fr t x \<longleftrightarrow> True"

lemma insort_key_last: "(\<forall>x \<in> set xs. k x < k y) \<Longrightarrow> insort_key k y xs = xs @ [y]"
  by (induction xs) auto

lemma rev_sort_desc_snoc:
  assumes "\<forall>x \<in> set xs. k x < k y"
  shows "rev (sort_desc k (xs @ [y])) = rev (sort_desc k xs) @ [y]"
  using assms by (simp add: sort_desc_def insort_key_last)

lemma db_turns_snoc:
  assumes "cvt_turns t' = cvt_turns t @ [turn_record days i c u turn]" and "later t c (ct_created_at turn)"
  shows "db_turns t' = (db_turns t)(c := db_turns t c @ [turn])"
proof
  fix d
  show "db_turns t' d = ((db_turns t)(c := db_turns t c @ [turn])) d"
  proof (cases "d = c")
    case True
    have "\<forall>r \<in> set (filter (\<lambda>r. tw_conversation r = c) (cvt_turns t)). turn_key r < turn_key (turn_record days i c u turn)"
      using assms(2) by (auto simp: later_def turn_key_def turn_record_def)
    then show ?thesis using True assms(1)
      by (simp add: db_turns_def rev_sort_desc_snoc) (simp add: row_turn_def turn_record_def)
  qed (use assms(1) in \<open>simp add: db_turns_def turn_record_def\<close>)
qed

lemma db_claim_refines:
  assumes "db_refines t l"
  shows "(db_claim c u tm t = Inl ownership_error \<and> log_claim c u l = Inl ownership_error)
     \<or> (\<exists>t' l'. db_claim c u tm t = Inr t' \<and> log_claim c u l = Inr l' \<and> db_refines t' l'
          \<and> cvt_turns t' = cvt_turns t \<and> cvt_evidence t' = cvt_evidence t \<and> db_owned c u t')"
proof (cases "db_claim c u tm t")
  case (Inl e)
  then show ?thesis using assms db_claim_Inl[of c u tm t e] by (auto simp: db_refines_def log_claim_def)
next
  case (Inr t')
  note eff = db_claim_owner[OF Inr]
  have "rows_owned t'" using assms eff by (auto simp: rows_owned_def db_refines_def)
  moreover have "db_turns t' = db_turns t" using eff by (intro ext) (simp add: db_turns_def)
  ultimately show ?thesis using Inr eff assms
    by (auto simp: db_refines_def log_claim_def db_owned_owner)
qed

lemma insert_turn_refines:
  assumes "db_refines t l" and "db_owned c u t" and "new_turn_id t i" and "later t c (ct_created_at turn)"
  shows "\<exists>t'. insert_turn (turn_record days i c u turn) t = Inr t' \<and> db_owner t' = db_owner t
     \<and> cvt_turns t' = cvt_turns t @ [turn_record days i c u turn] \<and> cvt_evidence t' = cvt_evidence t
     \<and> db_refines t' (l\<lparr>lg_turns := (lg_turns l)(c := lg_turns l c @ [turn])\<rparr>)"
proof -
  have "insert_turn (turn_record days i c u turn) t = Inr (t\<lparr>cvt_turns := cvt_turns t @ [turn_record days i c u turn]\<rparr>)"
    using assms(2,3) by (simp add: insert_turn_def turn_record_def new_turn_id_def)
  then obtain t' where ins: "insert_turn (turn_record days i c u turn) t = Inr t'" by blast
  note eff = insert_turn_owner[OF ins]
  have "rows_owned t'"
    using assms(1,2) eff by (auto simp: rows_owned_def db_refines_def turn_record_def db_owned_owner)
  then show ?thesis using ins eff assms(1) db_turns_snoc[OF _ assms(4), of t'] by (auto simp: db_refines_def)
qed

lemma advance_refines:
  assumes "db_refines t l" and "db_owned c u t"
  shows "\<exists>t'. db_advance c u tm n t = Inr t' \<and> db_refines t' l"
proof -
  obtain t' where adv: "db_advance c u tm n t = Inr t'" using assms(2) by (auto simp: db_advance_def)
  note eff = db_advance_owner[OF adv]
  have "db_turns t' = db_turns t" using eff by (intro ext) (simp add: db_turns_def)
  then show ?thesis using adv eff assms(1) by (auto simp: db_refines_def rows_owned_def)
qed

lemma append_refines:
  assumes "db_refines t l" and "new_turn_id t i" and "later t c (ct_created_at turn)"
  shows "(db_append days i c turn u t = Inl ownership_error \<and> log_append c u [turn] l = Inl ownership_error)
     \<or> (\<exists>t' l'. db_append days i c turn u t = Inr t' \<and> log_append c u [turn] l = Inr l' \<and> db_refines t' l')"
  using db_claim_refines[OF assms(1), of c u "ct_created_at turn"]
proof (elim disjE exE conjE)
  fix t1 l1 assume c: "db_claim c u (ct_created_at turn) t = Inr t1" "log_claim c u l = Inr l1" "db_refines t1 l1"
    "cvt_turns t1 = cvt_turns t" "db_owned c u t1"
  have "new_turn_id t1 i" "later t1 c (ct_created_at turn)" using assms(2,3) c(4) by (simp_all add: new_turn_id_def later_def)
  then obtain t2 where t2: "insert_turn (turn_record days i c u turn) t1 = Inr t2" "db_owner t2 = db_owner t1"
    "db_refines t2 (l1\<lparr>lg_turns := (lg_turns l1)(c := lg_turns l1 c @ [turn])\<rparr>)"
    using insert_turn_refines[OF c(3,5)] by blast
  have "db_owned c u t2" using t2(2) c(5) by (simp add: db_owned_owner)
  then obtain t3 where "db_advance c u (ct_created_at turn) 1 t2 = Inr t3"
    "db_refines t3 (l1\<lparr>lg_turns := (lg_turns l1)(c := lg_turns l1 c @ [turn])\<rparr>)"
    using advance_refines[OF t2(3)] by blast
  then show ?thesis using c t2 by (simp add: db_append_def log_append_def)
qed (simp add: db_append_def log_append_def)

lemma exchange_refines:
  assumes "db_refines t l" and ok: "op_ok fr t (Exchange_Op (i, j, k) c u a b e)" and roles: "exchange_roles_ok a b"
  shows "(db_append_exchange fr days (i, j, k) c u a b e t = Inl ownership_error \<and> log_append c u [a, b] l = Inl ownership_error)
     \<or> (\<exists>t' l'. db_append_exchange fr days (i, j, k) c u a b e t = Inr t' \<and> log_append c u [a, b] l = Inr l' \<and> db_refines t' l')"
  using db_claim_refines[OF assms(1), of c u "ct_created_at a"]
proof (elim disjE exE conjE)
  fix t1 l1 assume c: "db_claim c u (ct_created_at a) t = Inr t1" "log_claim c u l = Inr l1" "db_refines t1 l1"
    "cvt_turns t1 = cvt_turns t" "cvt_evidence t1 = cvt_evidence t" "db_owned c u t1"
  have "new_turn_id t1 i" "later t1 c (ct_created_at a)" using ok c(4) by (simp_all add: new_turn_id_def later_def)
  then obtain t2 where t2: "insert_turn (turn_record days i c u a) t1 = Inr t2" "db_owner t2 = db_owner t1"
    "cvt_turns t2 = cvt_turns t1 @ [turn_record days i c u a]" "cvt_evidence t2 = cvt_evidence t1"
    "db_refines t2 (l1\<lparr>lg_turns := (lg_turns l1)(c := lg_turns l1 c @ [a])\<rparr>)"
    using insert_turn_refines[OF c(3,6)] by blast
  have t2o: "db_owned c u t2" using t2(2) c(6) by (simp add: db_owned_owner)
  have "new_turn_id t2 j" "later t2 c (ct_created_at b)"
    using ok c(4) t2(3) by (auto simp: new_turn_id_def later_def turn_record_def)
  then obtain t3 where t3: "insert_turn (turn_record days j c u b) t2 = Inr t3" "db_owner t3 = db_owner t2"
    "cvt_evidence t3 = cvt_evidence t2"
    "db_refines t3 (l1\<lparr>lg_turns := (lg_turns l1)(c := lg_turns l1 c @ [a, b])\<rparr>)"
    using insert_turn_refines[OF t2(5) t2o] by fastforce
  obtain row t4 where t4: "(case e of None \<Rightarrow> Inr None | Some s \<Rightarrow> rmap Some (evidence_record fr k s)) = Inr row"
    "(case row of None \<Rightarrow> Inr t3 | Some r \<Rightarrow> insert_evidence r t3) = Inr t4" "db_owner t4 = db_owner t3" "cvt_turns t4 = cvt_turns t3"
  proof (cases e)
    case (Some s)
    then obtain p where p: "snapshot_to_json fr s = Inr p" "es_conversation_id s = c" "es_owner_user_id s = u"
      "k \<notin> ew_id ` set (cvt_evidence t3)" "es_exchange_id s \<notin> ew_exchange_id ` set (cvt_evidence t3)"
      using ok c(5) t2(4) t3(3) by (auto simp: storable_def)
    obtain r where r: "evidence_record fr k s = Inr r" "ew_id r = k" "ew_conversation r = c" "ew_owner r = u"
      "ew_exchange_id r = es_exchange_id s"
      using p by (auto simp: evidence_record_def)
    then have ins: "insert_evidence r t3 = Inr (t3\<lparr>cvt_evidence := cvt_evidence t3 @ [r]\<rparr>)"
      using p t2o t3(2) by (simp add: insert_evidence_def db_owned_owner)
    show thesis
      by (rule that[of "Some r" "t3\<lparr>cvt_evidence := cvt_evidence t3 @ [r]\<rparr>"]) (use Some r ins insert_evidence_owner[OF ins] in auto)
  qed (use that[of None t3] in simp)
  have "db_refines t4 (l1\<lparr>lg_turns := (lg_turns l1)(c := lg_turns l1 c @ [a, b])\<rparr>)"
    using t3(4) t4(3,4) by (auto simp: db_refines_def rows_owned_def db_turns_def fun_eq_iff)
  moreover have "db_owned c u t4" using t4(3) t3(2) t2o by (simp add: db_owned_owner)
  ultimately obtain t5 where "db_advance c u (ct_created_at b) 2 t4 = Inr t5"
    "db_refines t5 (l1\<lparr>lg_turns := (lg_turns l1)(c := lg_turns l1 c @ [a, b])\<rparr>)"
    using advance_refines by blast
  then show ?thesis using c t2 t3 t4 roles by (simp add: db_append_exchange_def log_append_def)
qed (use roles in \<open>simp add: db_append_exchange_def log_append_def\<close>)

lemma read_refines:
  assumes "db_refines t l"
  shows "db_read_recent c u n t = (if lg_owner l c = Some u then Inr (last_n (nat n) (lg_turns l c)) else Inl ownership_error)"
proof (cases "db_owned c u t \<and> 0 < n")
  case True
  then have own: "db_owner t c = Some u" by (simp add: db_owned_owner)
  then have "filter (\<lambda>r. tw_conversation r = c \<and> tw_owner r = u) (cvt_turns t) = filter (\<lambda>r. tw_conversation r = c) (cvt_turns t)"
    using assms by (auto simp: db_refines_def rows_owned_def intro!: filter_cong)
  moreover have "lg_owner l c = Some u" "lg_turns l c = db_turns t c" using own assms by (auto simp: db_refines_def)
  ultimately show ?thesis using True
    by (simp add: db_read_recent_def last_n_def db_turns_def rev_take drop_map)
next
  case False
  then show ?thesis using assms by (auto simp: db_read_recent_def db_refines_def db_owned_owner last_n_def)
qed

lemma db_step_refines:
  assumes "db_refines t l" and "op_ok fr t x"
  shows "fst (db_perform fr days x t) = fst (log_perform x l) \<and> db_refines (snd (db_perform fr days x t)) (snd (log_perform x l))"
proof (cases x)
  case (Claim_Op c u tm)
  then show ?thesis using db_claim_refines[OF assms(1), of c u tm] assms(1) by auto
next
  case (Append_Op i c u turn)
  then show ?thesis using append_refines[OF assms(1), of i c turn days u] assms by auto
next
  case (Exchange_Op ids c u a b e)
  obtain i j k where ids: "ids = (i, j, k)" by (cases ids)
  show ?thesis
  proof (cases "exchange_roles_ok a b")
    case True
    then show ?thesis using exchange_refines[OF assms(1) _ True, of fr i j k c u e days] assms Exchange_Op ids by auto
  next
    case False
    then show ?thesis using assms(1) Exchange_Op ids by (simp add: db_append_exchange_def)
  qed
next
  case (Read_Op c u n)
  then show ?thesis using read_refines[OF assms(1)] assms(1) by simp
qed


subsection \<open>Runs\<close>

fun run_ok :: "('o \<Rightarrow> 's \<Rightarrow> 'r \<times> 's) \<Rightarrow> ('s \<Rightarrow> 'o \<Rightarrow> bool) \<Rightarrow> 'o list \<Rightarrow> 's \<Rightarrow> bool" where
  "run_ok perform ok [] s \<longleftrightarrow> True"
| "run_ok perform ok (x # xs) s \<longleftrightarrow> ok s x \<and> run_ok perform ok xs (snd (perform x s))"

text \<open>A forward simulation: related states answer alike and stay related.\<close>

locale simulation =
  fixes related :: "'c \<Rightarrow> 'a \<Rightarrow> bool" and concrete :: "'o \<Rightarrow> 'c \<Rightarrow> 'r \<times> 'c" and abstract :: "'o \<Rightarrow> 'a \<Rightarrow> 'r \<times> 'a"
    and ok :: "'c \<Rightarrow> 'o \<Rightarrow> bool"
  assumes step: "related s l \<Longrightarrow> ok s x \<Longrightarrow>
    fst (concrete x s) = fst (abstract x l) \<and> related (snd (concrete x s)) (snd (abstract x l))"
begin

lemma run_simulates:
  "related s l \<Longrightarrow> run_ok concrete ok xs s \<Longrightarrow>
     fst (run_ops concrete xs s) = fst (run_ops abstract xs l) \<and> related (snd (run_ops concrete xs s)) (snd (run_ops abstract xs l))"
proof (induction xs arbitrary: s l)
  case (Cons x xs)
  note one = step[OF Cons.prems(1), of x]
  have "ok s x" and "run_ok concrete ok xs (snd (concrete x s))" using Cons.prems(2) by simp_all
  then show ?case using one Cons.IH[of "snd (concrete x s)" "snd (abstract x l)"]
    by (simp add: split_beta Let_def)
qed simp

end

interpretation memory_log: simulation "mem_refines m" "mem_perform m" log_perform "\<lambda>_. read_within m"
  by unfold_locales (rule mem_step_refines)

interpretation database_log: simulation db_refines "db_perform fr days" log_perform "op_ok fr"
  by unfold_locales (rule db_step_refines)

lemma run_ok_stateless: "run_ok perform (\<lambda>_. p) xs s = list_all p xs"
  by (induction xs arbitrary: s) auto

lemma empty_refines: "mem_refines m empty_memory_store empty_log" "db_refines empty_tables empty_log"
  by (simp_all add: mem_refines_def db_refines_def empty_memory_store_def empty_log_def empty_tables_def last_n_def
      db_owner_def db_turns_def rows_owned_def find_conversation_def fun_eq_iff sort_desc_def)

subsection \<open>What the stores promise\<close>

definition turn_saying :: "string \<Rightarrow> string \<Rightarrow> datetime \<Rightarrow> conversation_turn" where
  "turn_saying role content tm = \<lparr>ct_role = role, ct_content = content, ct_created_at = tm\<rparr>"

text \<open>User 7 owns conversation 1 and reads it; user 8 tries to read it and to write into it.\<close>

definition sample_history :: "store_op list" where
  "sample_history = [Claim_Op 1 7 0,
     Exchange_Op (11, 12, 13) 1 7 (turn_saying ''user'' ''hello'' 1) (turn_saying ''assistant'' ''hi'' 2) None,
     Append_Op 14 1 7 (turn_saying ''user'' ''again'' 3), Read_Op 1 7 2]"

definition sample_intrusion :: "store_op list" where
  "sample_intrusion = [Read_Op 1 8 5, Append_Op 15 1 8 (turn_saying ''user'' ''mine'' 4), Claim_Op 2 8 5]"


lemmas sample_store_defs = sample_history_def sample_intrusion_def turn_saying_def empty_tables_def
  db_claim_def find_conversation_def db_append_exchange_def exchange_roles_ok_def insert_turn_def
  turn_record_def db_owned_def db_advance_def db_append_def later_def new_turn_id_def updated_def




end
