(* ===== verification/Retention.thy ===== *)
theory Retention
  imports Conversation_Refinement
begin

section \<open>Integrity of the conversation tables, and retention\<close>

text \<open>
  Every operation of the database store and of the retention job
  (\<open>short_term/postgres_conversation_store.py\<close>, \<open>short_term/short_term_retention_job.py\<close>) keeps the
  tables consistent, and the job removes exactly what has expired.
\<close>

subsection \<open>The invariant\<close>

definition turns_in :: "conversation_tables \<Rightarrow> uuid \<Rightarrow> turn_row list" where
  "turns_in t c = filter (\<lambda>r. tw_conversation r = c) (cvt_turns t)"

text \<open>The turn counter of a conversation may lag behind by \<open>k\<close> inside a transaction.\<close>

definition counters_cover :: "(uuid \<Rightarrow> int) \<Rightarrow> conversation_tables \<Rightarrow> bool" where
  "counters_cover k t \<longleftrightarrow> (\<forall>r \<in> set (cvt_conversations t). int (length (turns_in t (cv_id r))) \<le> cv_turn_count r + k (cv_id r))"

definition keys_distinct :: "conversation_tables \<Rightarrow> bool" where
  "keys_distinct t \<longleftrightarrow> distinct (map cv_id (cvt_conversations t)) \<and> distinct (map tw_id (cvt_turns t))
     \<and> distinct (map ew_id (cvt_evidence t)) \<and> distinct (map ew_exchange_id (cvt_evidence t))"

definition evidence_owned :: "conversation_tables \<Rightarrow> bool" where
  "evidence_owned t \<longleftrightarrow> (\<forall>r \<in> set (cvt_evidence t). db_owner t (ew_conversation r) = Some (ew_owner r))"

definition tables_upto :: "(uuid \<Rightarrow> int) \<Rightarrow> conversation_tables \<Rightarrow> bool" where
  "tables_upto k t \<longleftrightarrow> keys_distinct t \<and> rows_owned t \<and> evidence_owned t \<and> counters_cover k t"

definition conversations_ok :: "conversation_tables \<Rightarrow> bool" where
  "conversations_ok t \<longleftrightarrow> tables_upto (\<lambda>_. 0) t"

lemma tables_upto_empty: "tables_upto (\<lambda>_. 0) empty_tables"
  by (simp add: tables_upto_def keys_distinct_def rows_owned_def evidence_owned_def counters_cover_def empty_tables_def)

lemma find_conversation_Some: "find_conversation t c = Some r \<Longrightarrow> r \<in> set (cvt_conversations t) \<and> cv_id r = c"
  by (auto simp: find_conversation_def find_Some_iff)

lemma find_conversation_None: "find_conversation t c = None \<longleftrightarrow> c \<notin> cv_id ` set (cvt_conversations t)"
  by (auto simp: find_conversation_def find_None_iff)

lemma turns_in_same: "cvt_turns t' = cvt_turns t \<Longrightarrow> turns_in t' = turns_in t"
  by (simp add: turns_in_def fun_eq_iff)

subsection \<open>The steps of a transaction\<close>

lemma claim_keeps:
  assumes ok: "tables_upto k t" and claim: "db_claim c u tm t = Inr t'" and "k c = 0"
  shows "tables_upto k t'"
proof (cases "find_conversation t c")
  case None
  note eff = db_claim_owner[OF claim]
  have new: "cvt_conversations t' = cvt_conversations t @ [\<lparr>cv_id = c, cv_owner = u, cv_started_at = tm,
      cv_last_turn_at = tm, cv_turn_count = 0, cv_consolidated_at = None, cv_closed_at = None\<rparr>]"
    using None claim by (auto simp: db_claim_def)
  have "db_owner t c = None" using None by (simp add: db_owner_def)
  then have "turns_in t c = []" using ok by (auto simp: tables_upto_def rows_owned_def turns_in_def filter_empty_conv)
  moreover have "c \<notin> cv_id ` set (cvt_conversations t)" using None by (simp add: find_conversation_None)
  ultimately show ?thesis using ok eff new \<open>k c = 0\<close>
    by (auto simp: tables_upto_def keys_distinct_def rows_owned_def evidence_owned_def counters_cover_def
        turns_in_same[of t' t])
next
  case (Some r)
  then show ?thesis using ok claim by (auto simp: db_claim_def split: if_splits)
qed

lemma insert_turn_keeps:
  assumes "tables_upto k t" and "insert_turn r t = Inr t'"
  shows "tables_upto (k(tw_conversation r := k (tw_conversation r) + 1)) t'"
  using assms insert_turn_owner[OF assms(2)]
  by (auto simp: tables_upto_def keys_distinct_def rows_owned_def evidence_owned_def counters_cover_def insert_turn_def
      db_owned_owner turns_in_def split: if_splits) (drule (1) bspec, simp)

lemma insert_evidence_keeps:
  assumes "tables_upto k t" and "insert_evidence r t = Inr t'"
  shows "tables_upto k t'"
  using assms insert_evidence_owner[OF assms(2)]
  by (auto simp: tables_upto_def keys_distinct_def rows_owned_def evidence_owned_def counters_cover_def insert_evidence_def
      db_owned_owner turns_in_def split: if_splits)

lemma advance_keeps:
  assumes ok: "tables_upto k t" and adv: "db_advance c u tm n t = Inr t'"
  shows "tables_upto (k(c := k c - n)) t'"
proof -
  note eff = db_advance_owner[OF adv]
  have own: "\<forall>r \<in> set (cvt_conversations t). cv_id r = c \<longrightarrow> cv_owner r = u"
  proof (intro ballI impI)
    fix r assume r: "r \<in> set (cvt_conversations t)" "cv_id r = c"
    obtain q where q: "find_conversation t c = Some q" "cv_owner q = u"
      using adv by (auto simp: db_advance_def db_owned_def split: option.splits if_splits)
    have "distinct (map cv_id (cvt_conversations t))" using ok by (simp add: tables_upto_def keys_distinct_def)
    then have "q = r" using find_conversation_Some[OF q(1)] r by (metis distinct_map inj_onD)
    then show "cv_owner r = u" using q(2) by simp
  qed
  have ids: "map cv_id (cvt_conversations t') = map cv_id (cvt_conversations t)"
    using adv by (auto simp: db_advance_def split: if_splits)
  have "\<forall>r \<in> set (cvt_conversations t'). \<exists>q \<in> set (cvt_conversations t). cv_id q = cv_id r
      \<and> cv_turn_count r = cv_turn_count q + (if cv_id q = c then n else 0)"
    using adv own by (fastforce simp: db_advance_def split: if_splits)
  then have "counters_cover (k(c := k c - n)) t'"
    using ok turns_in_same[of t' t] eff by (fastforce simp: counters_cover_def tables_upto_def)
  then show ?thesis using ok eff ids by (simp add: tables_upto_def keys_distinct_def rows_owned_def evidence_owned_def)
qed
subsection \<open>The operations\<close>

lemma append_keeps:
  assumes "conversations_ok t" and "db_append days i c turn u t = Inr t'"
  shows "conversations_ok t'"
proof -
  obtain t1 t2 where t: "db_claim c u (ct_created_at turn) t = Inr t1" "insert_turn (turn_record days i c u turn) t1 = Inr t2"
    "db_advance c u (ct_created_at turn) 1 t2 = Inr t'"
    using assms(2) by (auto simp: db_append_def rbind_Inr_iff)
  have "tables_upto (\<lambda>_. 0) t1" by (rule claim_keeps[OF _ t(1)]) (use assms(1) in \<open>simp_all add: conversations_ok_def\<close>)
  from advance_keeps[OF insert_turn_keeps[OF this t(2)] t(3)] show ?thesis
    by (simp add: conversations_ok_def turn_record_def fun_upd_idem)
qed

lemma exchange_keeps:
  assumes "conversations_ok t" and "db_append_exchange fr days ids c u a b e t = Inr t'"
  shows "conversations_ok t'"
proof -
  obtain i j k where ids: "ids = (i, j, k)" by (cases ids)
  obtain row t1 t2 t3 t4 where t: "db_claim c u (ct_created_at a) t = Inr t1"
    "insert_turn (turn_record days i c u a) t1 = Inr t2" "insert_turn (turn_record days j c u b) t2 = Inr t3"
    "(case row of None \<Rightarrow> Inr t3 | Some r \<Rightarrow> insert_evidence r t3) = Inr t4" "db_advance c u (ct_created_at b) 2 t4 = Inr t'"
    using assms(2) ids by (auto simp: db_append_exchange_def rbind_Inr_iff split: if_splits)
  have "tables_upto (\<lambda>_. 0) t1" by (rule claim_keeps[OF _ t(1)]) (use assms(1) in \<open>simp_all add: conversations_ok_def\<close>)
  from insert_turn_keeps[OF insert_turn_keeps[OF this t(2)] t(3)]
  have "tables_upto ((\<lambda>_. 0)(c := 2)) t3" by (simp add: turn_record_def)
  then have "tables_upto ((\<lambda>_. 0)(c := 2)) t4" using t(4) by (cases row) (auto intro: insert_evidence_keeps)
  from advance_keeps[OF this t(5)] show ?thesis by (simp add: conversations_ok_def fun_upd_idem)
qed

lemma evidence_operations_keep:
  assumes "conversations_ok t"
  shows "db_append_evidence fr i e t = Inr t' \<Longrightarrow> conversations_ok t'"
    and "db_erase_evidence c u t = Inr (n, t') \<Longrightarrow> conversations_ok t'"
proof -
  assume "db_append_evidence fr i e t = Inr t'"
  then show "conversations_ok t'" using assms insert_evidence_keeps[of "\<lambda>_. 0" t]
    by (auto simp: db_append_evidence_def rbind_Inr_iff conversations_ok_def split: if_splits)
next
  assume "db_erase_evidence c u t = Inr (n, t')"
  then have t': "t' = t\<lparr>cvt_evidence := filter (\<lambda>r. \<not> (ew_conversation r = c \<and> ew_owner r = u)) (cvt_evidence t)\<rparr>"
    by (auto simp: db_erase_evidence_def Let_def split: if_splits)
  have "db_owner t' = db_owner t" by (simp add: t' db_owner_def find_conversation_def fun_eq_iff)
  then show "conversations_ok t'" using assms
    by (auto simp: t' conversations_ok_def tables_upto_def keys_distinct_def rows_owned_def evidence_owned_def counters_cover_def
        turns_in_def distinct_map_filter)
qed

lemma close_keeps:
  assumes "conversations_ok t" and "db_close days now c u t = Inr t'"
  shows "conversations_ok t'"
proof -
  let ?f = "\<lambda>r. if tw_conversation r = c \<and> tw_owner r = u then r\<lparr>tw_expires_at := Some (tw_created_at r + timedelta_days days)\<rparr> else r"
  let ?g = "\<lambda>r. if cv_id r = c \<and> cv_owner r = u then r\<lparr>cv_closed_at := Some now\<rparr> else r"
  have t': "t' = t\<lparr>cvt_turns := map ?f (cvt_turns t), cvt_conversations := map ?g (cvt_conversations t)\<rparr>"
    using assms(2) by (auto simp: db_close_def split: if_splits)
  have owner: "db_owner t' = db_owner t"
    by (auto simp: t' db_owner_def find_conversation_def fun_eq_iff intro!: find_map_same)
  have turns: "turns_in t' d = map ?f (turns_in t d)" for d
    by (simp add: t' turns_in_def filter_map o_def) (metis (no_types, lifting) filter_cong turn_row.ext_inject turn_row.surjective turn_row.update_convs(7))
  have ids: "map tw_id (cvt_turns t') = map tw_id (cvt_turns t)" "cvt_evidence t' = cvt_evidence t"
    "map cv_id (cvt_conversations t') = map cv_id (cvt_conversations t)" by (simp_all add: t')
  have "counters_cover (\<lambda>_. 0) t'" using assms(1) turns by (auto simp: conversations_ok_def tables_upto_def counters_cover_def t')
  moreover have "rows_owned t'" using assms(1) owner by (auto simp: conversations_ok_def tables_upto_def rows_owned_def t')
  ultimately show ?thesis using assms(1) owner
    by (simp add: conversations_ok_def tables_upto_def keys_distinct_def evidence_owned_def ids)
qed

subsection \<open>Retention\<close>

lemma distinct_key_unique: "distinct (map k xs) \<Longrightarrow> x \<in> set xs \<Longrightarrow> y \<in> set xs \<Longrightarrow> k x = k y \<Longrightarrow> x = y"
  by (auto simp: distinct_map dest: inj_onD)

lemma filter_by_key:
  assumes "distinct (map k xs)"
  shows "filter (\<lambda>r. k r \<notin> k ` set (filter P xs)) xs = filter (\<lambda>r. \<not> P r) xs"
  using distinct_key_unique[OF assms] by (intro filter_cong) (auto simp: image_iff)

text \<open>The conversations that go: their last turn is old and no turn of theirs is left.\<close>

definition goes :: "datetime \<Rightarrow> int \<Rightarrow> conversation_tables \<Rightarrow> conversation_row \<Rightarrow> bool" where
  "goes now days t r \<longleftrightarrow> cv_last_turn_at r < now - timedelta_days days
     \<and> list_all (turn_expired now) (turns_in t (cv_id r))"

lemma find_filter_key:
  "List.find (\<lambda>x. k x = y) (filter (\<lambda>x. k x \<notin> G) xs) = (if y \<in> G then None else List.find (\<lambda>x. k x = y) xs)"
  by (induction xs) auto

lemma purge_effect:
  assumes "conversations_ok t" and "purge_expired now days t = (n, affected, t')"
  shows "cvt_turns t' = filter (\<lambda>r. \<not> turn_expired now r) (cvt_turns t)"
    and "cvt_conversations t' = filter (\<lambda>r. \<not> goes now days t r) (cvt_conversations t)"
    and "db_owner t' c = (if c \<in> cv_id ` set (filter (goes now days t) (cvt_conversations t)) then None else db_owner t c)"
    and "cvt_evidence t' = filter (\<lambda>e. db_owner t' (ew_conversation e) \<noteq> None) (cvt_evidence t)"
    and "affected = sort (remdups (map (\<lambda>r. (tw_owner r, tw_conversation r)) (filter (turn_expired now) (cvt_turns t))
       @ map (\<lambda>r. (cv_owner r, cv_id r)) (filter (goes now days t) (cvt_conversations t))))"
    and "n = length (filter (turn_expired now) (cvt_turns t))"
proof -
  let ?kept = "filter (\<lambda>r. \<not> turn_expired now r) (cvt_turns t)"
  let ?gone = "cv_id ` set (filter (goes now days t) (cvt_conversations t))"
  have keys: "distinct (map tw_id (cvt_turns t))" "distinct (map cv_id (cvt_conversations t))"
    using assms(1) by (simp_all add: conversations_ok_def tables_upto_def keys_distinct_def)
  have stale: "stale_conversation (now - timedelta_days days) ?kept r = goes now days t r" for r
    by (auto simp: stale_conversation_def goes_def turns_in_def list_ex_iff list_all_iff)
  have t': "t' = t\<lparr>cvt_turns := filter (\<lambda>r. tw_conversation r \<notin> ?gone) ?kept,
      cvt_evidence := filter (\<lambda>r. ew_conversation r \<notin> ?gone) (cvt_evidence t),
      cvt_conversations := filter (\<lambda>r. cv_id r \<notin> ?gone) (cvt_conversations t)\<rparr>"
    and aff: "affected = sort (remdups (map (\<lambda>r. (tw_owner r, tw_conversation r)) (filter (turn_expired now) (cvt_turns t))
       @ map (\<lambda>r. (cv_owner r, cv_id r)) (filter (goes now days t) (cvt_conversations t))))"
    and n: "n = length (filter (turn_expired now) (cvt_turns t))"
    using assms(2) unfolding purge_expired_def Let_def filter_by_key[OF keys(1)] stale by simp_all
  show "affected = sort (remdups (map (\<lambda>r. (tw_owner r, tw_conversation r)) (filter (turn_expired now) (cvt_turns t))
       @ map (\<lambda>r. (cv_owner r, cv_id r)) (filter (goes now days t) (cvt_conversations t))))" by (rule aff)
  show "n = length (filter (turn_expired now) (cvt_turns t))" by (rule n)
  show conv: "cvt_conversations t' = filter (\<lambda>r. \<not> goes now days t r) (cvt_conversations t)"
    using filter_by_key[OF keys(2), of "goes now days t"] by (simp add: t')
  have "tw_conversation r \<notin> ?gone" if "r \<in> set ?kept" for r
    using that by (auto simp: goes_def turns_in_def list_all_iff)
  then have "filter (\<lambda>r. tw_conversation r \<notin> ?gone) ?kept = ?kept" by (rule filter_True[OF ballI])
  then show "cvt_turns t' = ?kept" unfolding t' by (simp del: filter_filter)
  show owner: "db_owner t' c = (if c \<in> ?gone then None else db_owner t c)" for c
    by (simp add: t' db_owner_def find_conversation_def find_filter_key)
  have "db_owner t (ew_conversation e) \<noteq> None" if "e \<in> set (cvt_evidence t)" for e
    using assms(1) that by (auto simp: conversations_ok_def tables_upto_def evidence_owned_def)
  then show "cvt_evidence t' = filter (\<lambda>e. db_owner t' (ew_conversation e) \<noteq> None) (cvt_evidence t)"
    unfolding owner by (auto simp: t' intro!: filter_cong)
qed

lemma purge_keeps:
  assumes "conversations_ok t" and "purge_expired now days t = (n, affected, t')"
  shows "conversations_ok t'"
proof -
  note eff = purge_effect[OF assms]
  note ok = assms(1)[unfolded conversations_ok_def tables_upto_def]
  have keys: "keys_distinct t'" using ok by (simp add: keys_distinct_def eff(1,2) eff(4) distinct_map_filter)
  have stay: "db_owner t' (tw_conversation r) = db_owner t (tw_conversation r)" if "r \<in> set (cvt_turns t')" for r
    using that eff(1) unfolding eff(3) by (auto simp: goes_def turns_in_def list_all_iff)
  have rows: "rows_owned t'" using ok stay by (auto simp: rows_owned_def eff(1))
  have sub: "db_owner t' c \<noteq> None \<Longrightarrow> db_owner t' c = db_owner t c" for c unfolding eff(3) by (simp split: if_splits)
  have "evidence_owned t'" unfolding evidence_owned_def
  proof
    fix e assume "e \<in> set (cvt_evidence t')"
    then have "e \<in> set (cvt_evidence t)" "db_owner t' (ew_conversation e) \<noteq> None" by (subst (asm) eff(4), simp)+
    moreover have "db_owner t (ew_conversation e) = Some (ew_owner e)" using ok calculation(1) by (simp add: evidence_owned_def)
    ultimately show "db_owner t' (ew_conversation e) = Some (ew_owner e)" using sub[of "ew_conversation e"] by simp
  qed
  moreover have "length (turns_in t' c) \<le> length (turns_in t c)" for c
  proof -
    have "turns_in t' c = filter (\<lambda>r. \<not> turn_expired now r) (turns_in t c)"
      by (simp add: turns_in_def eff(1) conj_commute)
    then show ?thesis by simp
  qed
  then have le: "int (length (turns_in t' c)) \<le> int (length (turns_in t c))" for c by simp
  have "counters_cover (\<lambda>_. 0) t'" unfolding counters_cover_def
  proof
    fix r assume "r \<in> set (cvt_conversations t')"
    then have "int (length (turns_in t (cv_id r))) \<le> cv_turn_count r + 0"
      using ok by (simp add: counters_cover_def eff(2))
    then show "int (length (turns_in t' (cv_id r))) \<le> cv_turn_count r + 0" using le[of "cv_id r"] by linarith
  qed
  ultimately show ?thesis using keys rows by (simp add: conversations_ok_def tables_upto_def)
qed

subsection \<open>Histories of the database\<close>

datatype table_op =
    Turns_Op store_op
  | Append_Evidence_Op uuid evidence_snapshot
  | Erase_Evidence_Op uuid uuid
  | Close_Op datetime uuid uuid
  | Purge_Op datetime int

text \<open>The tables after an operation; one that raises is rolled back.\<close>

fun table_step :: "(pyval \<Rightarrow> string) \<Rightarrow> int \<Rightarrow> conversation_tables \<Rightarrow> table_op \<Rightarrow> conversation_tables" where
  "table_step fr days t (Turns_Op x) = snd (db_perform fr days x t)"
| "table_step fr days t (Append_Evidence_Op i e) = (case db_append_evidence fr i e t of Inl _ \<Rightarrow> t | Inr t' \<Rightarrow> t')"
| "table_step fr days t (Erase_Evidence_Op c u) = (case db_erase_evidence c u t of Inl _ \<Rightarrow> t | Inr (_, t') \<Rightarrow> t')"
| "table_step fr days t (Close_Op tm c u) = (case db_close days tm c u t of Inl _ \<Rightarrow> t | Inr t' \<Rightarrow> t')"
| "table_step fr days t (Purge_Op tm keep) = snd (snd (purge_expired tm keep t))"

lemma claim_conversations_ok: "conversations_ok t \<Longrightarrow> db_claim c u tm t = Inr t' \<Longrightarrow> conversations_ok t'"
  using claim_keeps[of "\<lambda>_. 0"] by (simp add: conversations_ok_def)

lemma table_step_keeps:
  assumes "conversations_ok t"
  shows "conversations_ok (table_step fr days t x)"
proof (cases x)
  case (Turns_Op y)
  then show ?thesis using assms
    by (cases y) (auto simp: updated_def split: sum.split intro: claim_conversations_ok append_keeps exchange_keeps)
next
  case (Purge_Op tm keep)
  then show ?thesis using purge_keeps[OF assms] by (cases "purge_expired tm keep t") auto
qed (use assms in \<open>auto split: sum.split intro: evidence_operations_keep close_keeps\<close>)

lemma tables_history: "conversations_ok t \<Longrightarrow> conversations_ok (foldl (table_step fr days) t ops)"
  by (induction ops arbitrary: t) (auto intro: table_step_keeps)

text \<open>C18. Whatever the application does with the conversation tables (claims, appends, exchanges, reads,
  evidence, closing, purging, in any order and with any failures), primary and unique keys stay unique, every
  turn and every piece of evidence belongs to an existing conversation and to its owner, and no conversation
  has more turns than its counter says.\<close>

theorem conversation_tables_consistent:
  "conversations_ok (foldl (table_step fr days) empty_tables ops)"
  by (rule tables_history) (simp add: conversations_ok_def tables_upto_empty)

text \<open>C19. The retention job removes exactly what has expired: it returns the number of expired turns, the turns
  that stay are the unexpired ones in their order, a conversation goes just when its last turn is older than
  the limit and all its turns have expired, evidence goes only with its conversation, and the checkpoints it
  erases are those of the conversations that lost a turn or went, each once.\<close>

theorem retention_exact:
  assumes "t = foldl (table_step fr days) empty_tables ops" and "purge_expired now keep t = (n, affected, t')"
  shows "n = length (filter (turn_expired now) (cvt_turns t))
    \<and> cvt_turns t' = filter (\<lambda>r. \<not> turn_expired now r) (cvt_turns t)
    \<and> cvt_conversations t' = filter (\<lambda>r. \<not> goes now keep t r) (cvt_conversations t)
    \<and> cvt_evidence t' = filter (\<lambda>e. db_owner t' (ew_conversation e) \<noteq> None) (cvt_evidence t)
    \<and> distinct affected
    \<and> set affected = {(tw_owner r, tw_conversation r) | r. r \<in> set (cvt_turns t) \<and> turn_expired now r}
        \<union> {(cv_owner r, cv_id r) | r. r \<in> set (cvt_conversations t) \<and> goes now keep t r}"
proof -
  have "conversations_ok t" unfolding assms(1) by (rule tables_history) (simp add: conversations_ok_def tables_upto_empty)
  note eff = purge_effect[OF this assms(2)]
  have "set affected = {(tw_owner r, tw_conversation r) | r. r \<in> set (cvt_turns t) \<and> turn_expired now r}
        \<union> {(cv_owner r, cv_id r) | r. r \<in> set (cvt_conversations t) \<and> goes now keep t r}"
    by (auto simp: eff(5) image_iff)
  moreover have "distinct affected" by (simp add: eff(5))
  ultimately show ?thesis using eff(1,2,4,6) by blast
qed

definition sample_conversations :: "table_op list" where
  "sample_conversations = map Turns_Op sample_history @ [Turns_Op (Claim_Op 2 8 5)]"

definition sample_rows :: conversation_tables where
  "sample_rows = foldl (table_step (\<lambda>_. '''') 30) empty_tables sample_conversations"

lemma sample_rows_ok: "conversations_ok sample_rows"
  unfolding sample_rows_def by (rule tables_history) (simp add: conversations_ok_def tables_upto_empty)

lemma sample_rows_values:
  "map (turn_expired (timedelta_days 40)) (cvt_turns sample_rows) = [True, True, True]"
  "map (\<lambda>r. (tw_owner r, tw_conversation r)) (cvt_turns sample_rows) = [(7, 1), (7, 1), (7, 1)]"
  "map cv_id (cvt_conversations sample_rows) = [1, 2]"
  "map (goes (timedelta_days 40) 60 sample_rows) (cvt_conversations sample_rows) = [False, False]"
  by (simp_all add: sample_rows_def sample_conversations_def sample_store_defs turn_expired_def timedelta_days_def goes_def
      turns_in_def db_read_recent_def microseconds_per_day_def)

lemma sample_rows_expired:
  "filter (turn_expired (timedelta_days 40)) (cvt_turns sample_rows) = cvt_turns sample_rows" "cvt_turns sample_rows \<noteq> []"
  "filter (\<lambda>r. \<not> goes (timedelta_days 40) 60 sample_rows r) (cvt_conversations sample_rows) = cvt_conversations sample_rows"
  using sample_rows_values(1,4) by (auto intro!: filter_True simp: in_set_conv_nth)

theorem retention_exact_witness:
  "\<exists>n affected t'. purge_expired (timedelta_days 40) 60 sample_rows = (n, affected, t')
    \<and> n = 3 \<and> cvt_turns t' = [] \<and> set affected = {(7, 1)} \<and> map cv_id (cvt_conversations t') = [1, 2]"
proof -
  obtain n affected t' where p: "purge_expired (timedelta_days 40) 60 sample_rows = (n, affected, t')" using prod_cases3 by blast
  from retention_exact[OF sample_rows_def p] show ?thesis
    using p sample_rows_values sample_rows_expired
    by (auto simp: length_map[of "turn_expired (timedelta_days 40)", symmetric])
qed

end
