(* ===== verification/Composer.thy ===== *)
theory Composer
  imports Evidence
begin

section \<open>The final response composer\<close>

text \<open>
  \<open>FinalResponseComposer\<close> of \<open>src/app/modules/assistant/application/response_composer.py\<close>: the
  answer the user reads is rendered from the evidence blocks alone.
\<close>

record composed_response =
  cr_answer :: string
  cr_blocks :: "evidence_block list"

definition field_text :: "(pyval \<Rightarrow> string) \<Rightarrow> evidence_field \<Rightarrow> string" where
  "field_text fr f = ef_label f @ '': '' @ py_str fr (ef_value f)"

definition item_row :: "(pyval \<Rightarrow> string) \<Rightarrow> nat \<Rightarrow> evidence_item \<Rightarrow> string" where
  "item_row fr index item =
     nat_str index @ ''. '' @ ei_label item @
     (if ei_fields item \<noteq> [] then '' ('' @ join '', '' (map (field_text fr) (ei_fields item)) @ '')'' else [])"

definition render_collection :: "(pyval \<Rightarrow> string) \<Rightarrow> collection_evidence \<Rightarrow> string" where
  "render_collection fr b =
     (let count = length (ce_items b);
          label = (if count = 1 then ce_entity_label b else ce_entity_label_plural b);
          filters = join '', '' (map (field_text fr) (ce_filters b));
          suffix = (if filters \<noteq> [] then '' ('' @ filters @ '')'' else [])
      in if count = 0 then ''No '' @ ce_entity_label_plural b @ '' found'' @ suffix @ ''.''
         else let header = ''Found '' @ nat_str count @ '' '' @ label @ suffix @
                    (case ce_requested_count b of None \<Rightarrow> []
                     | Some n \<Rightarrow> if int count < n
                         then '', fewer than the '' @ int_str n @ '' requested'' else []);
                  rows = map (\<lambda>(index, item). item_row fr index item)
                           (zip [1..<Suc count] (ce_items b))
              in header @ '':'' @ newline @ join newline rows)"

definition render_mutation :: "mutation_evidence \<Rightarrow> string" where
  "render_mutation b =
     (if \<not> me_changed b
      then title (me_entity_label b) @ '' '' @ me_entity_id b @ '' is already '' @ me_current_state b @ ''.''
      else case me_previous_state b of
          None \<Rightarrow> title (me_entity_label b) @ '' '' @ me_entity_id b @ '' is now '' @ me_current_state b @ ''.''
        | Some p \<Rightarrow> title (me_entity_label b) @ '' '' @ me_entity_id b @ '' changed from '' @ p @ '' to '' @
            me_current_state b @ ''.'')"

fun render_block :: "(pyval \<Rightarrow> string) \<Rightarrow> evidence_block \<Rightarrow> string" where
  "render_block fr (CollectionEvidence b) = render_collection fr b"
| "render_block fr (MutationEvidence b) = render_mutation b"
| "render_block fr (ActionRequiredEvidence b) =
     ''Action required: '' @ ae_action b @ ''. Reason: '' @ ae_reason b @ ''.''"
| "render_block fr (FailureEvidence b) =
     ''Unable to complete the request ('' @ fe_code b @ ''): '' @ fe_message b"

definition compose :: "(pyval \<Rightarrow> string) \<Rightarrow> string \<Rightarrow> evidence_block list \<Rightarrow> composed_response result" where
  "compose fr query evidence =
     (if evidence = [] then Inl (ValueErr ''evidence is required'')
      else Inr \<lparr>cr_answer = join (newline @ newline) (map (render_block fr) evidence),
                cr_blocks = evidence\<rparr>)"

subsection \<open>Nothing is lost\<close>

lemma sublist_join: "x \<in> set xs \<Longrightarrow> sublist x (join sep xs)"
proof (induction sep xs rule: join.induct)
  case (3 sep y z zs)
  then show ?case
    by (auto simp: sublist_append intro: sublist_append_rightI)
qed auto

lemma sublist_item_row: "sublist (ei_label i) (item_row fr k i)"
  unfolding item_row_def by (metis sublist_appendI append.assoc)

lemma sublist_collection:
  assumes "i \<in> set (ce_items b)"
  shows "sublist (ei_label i) (render_collection fr b)"
proof -
  let ?rows = "map (\<lambda>(index, item). item_row fr index item) (zip [1..<Suc (length (ce_items b))] (ce_items b))"
  obtain k where k: "k < length (ce_items b)" "ce_items b ! k = i"
    using assms by (auto simp: in_set_conv_nth)
  then have "?rows ! k = item_row fr (Suc k) i" and "k < length ?rows"
    by (simp_all del: upt_Suc)
  then have "item_row fr (Suc k) i \<in> set ?rows"
    by (metis nth_mem)
  then have "sublist (item_row fr (Suc k) i) (join newline ?rows)" by (rule sublist_join)
  then have "sublist (ei_label i) (join newline ?rows)"
    using sublist_item_row sublist_order.order_trans by blast
  moreover have "\<exists>h. render_collection fr b = h @ join newline ?rows"
  proof -
    have "length (ce_items b) \<noteq> 0" using assms by auto
    then show ?thesis by (simp add: render_collection_def Let_def del: upt_Suc)
  qed
  ultimately show ?thesis by (metis sublist_append)
qed

text \<open>The answer is complete and keeps the order: composition fails only on no evidence at
  all, the blocks are handed on unchanged, the answer is the rendered blocks in order, and every item
  of every collection appears in it by its label.\<close>

theorem compose_complete:
  "case compose fr query evidence of
     Inl e \<Rightarrow> evidence = [] \<and> e = ValueErr ''evidence is required''
   | Inr r \<Rightarrow> evidence \<noteq> [] \<and> cr_blocks r = evidence
       \<and> cr_answer r = join (newline @ newline) (map (render_block fr) evidence)
       \<and> (\<forall>b i. CollectionEvidence b \<in> set evidence \<and> i \<in> set (ce_items b) \<longrightarrow> sublist (ei_label i) (cr_answer r))"
proof -
  have "sublist (ei_label i) (join (newline @ newline) (map (render_block fr) evidence))"
    if "CollectionEvidence b \<in> set evidence" and "i \<in> set (ce_items b)" for b i
  proof -
    have "render_block fr (CollectionEvidence b) \<in> set (map (render_block fr) evidence)"
      using that(1) by (metis image_eqI list.set_map)
    then have "sublist (render_collection fr b) (join (newline @ newline) (map (render_block fr) evidence))"
      using sublist_join by fastforce
    then show ?thesis using sublist_collection[OF that(2)] sublist_order.order_trans by blast
  qed
  then show ?thesis by (auto simp: compose_def)
qed

theorem compose_complete_witness:
  "compose (\<lambda>_. []) ''q'' [CollectionEvidence \<lparr>ce_evidence_id = ''e'', ce_entity_label = ''asset'',
      ce_entity_label_plural = ''assets'', ce_filters = [], ce_requested_count = Some 2,
      ce_items = [\<lparr>ei_evidence_id = ''e1'', ei_entity_id = ''1'', ei_label = ''Pump'',
        ei_fields = [], ei_source = None\<rparr>]\<rparr>]
   = Inr \<lparr>cr_answer = ''Found 1 asset, fewer than the 2 requested:'' @ newline @ ''1. Pump'',
      cr_blocks = [CollectionEvidence \<lparr>ce_evidence_id = ''e'', ce_entity_label = ''asset'',
      ce_entity_label_plural = ''assets'', ce_filters = [], ce_requested_count = Some 2,
      ce_items = [\<lparr>ei_evidence_id = ''e1'', ei_entity_id = ''1'', ei_label = ''Pump'',
        ei_fields = [], ei_source = None\<rparr>]\<rparr>]\<rparr>"
proof -
  let ?ev = "[CollectionEvidence \<lparr>ce_evidence_id = ''e'', ce_entity_label = ''asset'',
      ce_entity_label_plural = ''assets'', ce_filters = [], ce_requested_count = Some 2,
      ce_items = [\<lparr>ei_evidence_id = ''e1'', ei_entity_id = ''1'', ei_label = ''Pump'',
        ei_fields = [], ei_source = None\<rparr>]\<rparr>]"
  obtain r where r: "compose (\<lambda>_. []) ''q'' ?ev = Inr r" by (simp add: compose_def)
  have "cr_blocks r = ?ev \<and> cr_answer r = join (newline @ newline) (map (render_block (\<lambda>_. [])) ?ev)"
    using compose_complete[where fr = "\<lambda>_. []" and query = "''q''" and evidence = ?ev] r by simp
  then show ?thesis unfolding r
    by (cases r) (simp add: render_collection_def item_row_def nat_str.simps int_str_def numeral_2_eq_2)
qed

end
