(* ===== verification/Agent_Graph.thy ===== *)
theory Agent_Graph
  imports Composer Intent Context
begin

section \<open>The agent graph\<close>

text \<open>
  The agent of \<open>src/app/modules/assistant/infrastructure/agents/langgraph\<close>: the channels of
  \<open>state.py\<close>, the budget and the view of \<open>context.py\<close>, one step function per node of \<open>nodes/\<close>, the graph of
  \<open>workflow.py\<close> and the run of \<open>orchestrator.py\<close>. The planning model, the answering model and the tool
  invoker are parameters that read and change a world of any type, so that they can be the gateway of
  \<open>Gateway\<close> or anything else. A run keeps two traces beside the channels: the decision events the
  observer receives and the calls made to the invoker.
\<close>

subsection \<open>Channels\<close>

datatype finish_reason = COMPLETED | TOOL_LIMIT_REACHED | POLICY_BLOCKED | RUN_FAILED

fun finish_reason_value :: "finish_reason \<Rightarrow> string" where
  "finish_reason_value COMPLETED = ''completed''"
| "finish_reason_value TOOL_LIMIT_REACHED = ''tool_limit_reached''"
| "finish_reason_value POLICY_BLOCKED = ''policy_blocked''"
| "finish_reason_value RUN_FAILED = ''failed''"

definition CURRENT_WORKFLOW_VERSION :: int where
  "CURRENT_WORKFLOW_VERSION = 3"

definition MAX_WORKING_SET_ENTITIES :: nat where
  "MAX_WORKING_SET_ENTITIES = 32"

definition WORKING_SET_ENTITY_FIELDS :: "string list" where
  "WORKING_SET_ENTITY_FIELDS = [''asset_code'', ''asset_id'', ''part_code'', ''part_id'', ''site_code'',
     ''ticket_id'', ''work_order_code'', ''work_order_id'']"

datatype agent_action = Respond_Action | Tool_Call_Action

fun agent_action_value :: "agent_action \<Rightarrow> string" where
  "agent_action_value Respond_Action = ''respond''"
| "agent_action_value Tool_Call_Action = ''tool_call''"

record planned_action =
  pa_action :: agent_action
  pa_tool_name :: string
  pa_payload :: dict
  pa_answer :: "string option"
  pa_intent :: "string option"
  pa_confidence :: "rat option"
  pa_rationale :: "string option"

definition bare_action :: "agent_action \<Rightarrow> string \<Rightarrow> dict \<Rightarrow> planned_action" where
  "bare_action a tool payload = \<lparr>pa_action = a, pa_tool_name = tool, pa_payload = payload, pa_answer = None,
     pa_intent = None, pa_confidence = None, pa_rationale = None\<rparr>"

record working_set =
  ws_active_intent :: "string option"
  ws_entities :: "(string \<times> string) list"

text \<open>The insertion order of a dictionary keyed by the whole entity: the first mention keeps its place.\<close>

fun keep_first :: "'a list \<Rightarrow> 'a list \<Rightarrow> 'a list" where
  "keep_first acc [] = acc"
| "keep_first acc (x # xs) = keep_first (if x \<in> set acc then acc else acc @ [x]) xs"

definition merge_working_sets :: "working_set \<Rightarrow> working_set \<Rightarrow> working_set" where
  "merge_working_sets current update = \<lparr>
     ws_active_intent = (case ws_active_intent update of
        Some (c # cs) \<Rightarrow> Some (c # cs) | _ \<Rightarrow> ws_active_intent current),
     ws_entities = last_n MAX_WORKING_SET_ENTITIES (keep_first [] (ws_entities current @ ws_entities update))\<rparr>"

definition working_set_entities :: "dict \<Rightarrow> (string \<times> string) list" where
  "working_set_entities payload = concat (map (\<lambda>(field, value). case value of
      PStr s \<Rightarrow> if field \<in> set WORKING_SET_ENTITY_FIELDS \<and> 0 < length s \<and> length s \<le> 128
                then [(field, s)] else []
    | _ \<Rightarrow> []) payload)"

datatype message = HumanMessage string | AIMessage string

record graph_state =
  gs_workflow_version :: int
  gs_messages :: "message list"
  gs_working_set :: working_set
  gs_intent :: string
  gs_planned_action :: planned_action
  gs_pending_call :: "tool_call_record option"
  gs_tool_calls :: "tool_call_record list"
  gs_answer :: string
  gs_finish_reason :: "finish_reason option"

subsection \<open>Budget, brain, context\<close>

record tool_call_budget =
  tb_remaining :: int
  tb_max_per_tool :: int
  tb_total :: int
  tb_per_tool :: "(string \<times> int) list"

definition calls_of :: "tool_call_budget \<Rightarrow> string \<Rightarrow> int" where
  "calls_of b t = (case map_of (tb_per_tool b) t of None \<Rightarrow> 0 | Some n \<Rightarrow> n)"

definition budget_can_call :: "tool_call_budget \<Rightarrow> string \<Rightarrow> bool" where
  "budget_can_call b t \<longleftrightarrow> 0 < tb_remaining b \<and> calls_of b t < tb_max_per_tool b"

definition budget_record :: "tool_call_budget \<Rightarrow> string \<Rightarrow> tool_call_budget result" where
  "budget_record b t = (if \<not> budget_can_call b t
     then Inl (RuntimeErr ''Tool-call budget was exhausted before recording the result'')
     else Inr (b\<lparr>tb_total := tb_total b + 1, tb_remaining := tb_remaining b - 1,
                 tb_per_tool := AList.update t (calls_of b t + 1) (tb_per_tool b)\<rparr>))"

record agent_state_view =
  av_user_query :: string
  av_context_prompt :: string
  av_available_tools :: "tool_descriptor list"
  av_history :: "(string \<times> string) list"
  av_intent :: string
  av_planned_action :: planned_action
  av_pending_call :: "tool_call_record option"
  av_tool_calls :: "tool_call_record list"
  av_total_calls :: int
  av_per_tool_calls :: "(string \<times> int) list"
  av_remaining_calls :: int
  av_max_calls_per_tool :: int
  av_answer :: string
  av_finish_reason :: "finish_reason option"

record 'w brain =
  br_classify :: "agent_state_view \<Rightarrow> 'w \<Rightarrow> string result \<times> 'w"
  br_plan :: "agent_state_view \<Rightarrow> 'w \<Rightarrow> planned_action result \<times> 'w"
  br_respond :: "agent_state_view \<Rightarrow> 'w \<Rightarrow> string result \<times> 'w"

datatype decision_stage = PLANNING | PRE_EXECUTION | RESULT_VALIDATION

datatype decision_outcome = SELECTED | ALLOWED | BLOCKED

record decision_event =
  de_conversation_id :: "uuid option"
  de_stage :: decision_stage
  de_outcome :: decision_outcome
  de_source :: string
  de_intent :: "string option"
  de_confidence :: "rat option"
  de_action :: "string option"
  de_tool_name :: "string option"
  de_reason_code :: "string option"
  de_callable_tool_count :: "nat option"

record 'w graph_context =
  gc_brain :: "'w brain"
  gc_actor :: authorization_context
  gc_tools :: "tool_descriptor list"
  gc_invoker :: "string \<Rightarrow> dict \<Rightarrow> 'w \<Rightarrow> tool_call_record result \<times> 'w"
  gc_retrieved :: assembled_context
  gc_query :: string
  gc_conversation_id :: "uuid option"
  gc_repr :: "pyval \<Rightarrow> string"

record 'w agent_run =
  rn_state :: graph_state
  rn_budget :: tool_call_budget
  rn_events :: "decision_event list"
  rn_calls :: "(string \<times> dict) list"
  rn_world :: 'w

fun history_entry :: "message \<Rightarrow> string \<times> string" where
  "history_entry (HumanMessage s) = (''user'', s)"
| "history_entry (AIMessage s) = (''assistant'', s)"

definition agent_state :: "'w graph_context \<Rightarrow> tool_descriptor list \<Rightarrow> 'w agent_run \<Rightarrow> agent_state_view" where
  "agent_state ctx tools r = (let s = rn_state r; b = rn_budget r in \<lparr>
     av_user_query = gc_query ctx, av_context_prompt = render_context (gc_retrieved ctx),
     av_available_tools = tools, av_history = map history_entry (gs_messages s), av_intent = gs_intent s,
     av_planned_action = gs_planned_action s, av_pending_call = gs_pending_call s,
     av_tool_calls = gs_tool_calls s, av_total_calls = tb_total b, av_per_tool_calls = tb_per_tool b,
     av_remaining_calls = tb_remaining b, av_max_calls_per_tool = tb_max_per_tool b,
     av_answer = gs_answer s, av_finish_reason = gs_finish_reason s\<rparr>)"

text \<open>The observer's own failures are swallowed, so recording an event only extends the trace.\<close>

definition record_decision :: "decision_event \<Rightarrow> 'w agent_run \<Rightarrow> 'w agent_run" where
  "record_decision ev r = r\<lparr>rn_events := rn_events r @ [ev]\<rparr>"

subsection \<open>Nodes\<close>

datatype node =
    ClassifyIntent
  | PlanAction
  | ToolCall
  | ObserveResult
  | DecideNextStep
  | RespondNode
  | Finished

datatype step_outcome = Goto node | Raised exc

definition set_state :: "(graph_state \<Rightarrow> graph_state) \<Rightarrow> 'w agent_run \<Rightarrow> 'w agent_run" where
  "set_state f r = r\<lparr>rn_state := f (rn_state r)\<rparr>"

definition merge_working_set :: "working_set \<Rightarrow> graph_state \<Rightarrow> graph_state" where
  "merge_working_set update s = s\<lparr>gs_working_set := merge_working_sets (gs_working_set s) update\<rparr>"

definition classify_intent :: "'w graph_context \<Rightarrow> 'w agent_run \<Rightarrow> step_outcome \<times> 'w agent_run" where
  "classify_intent ctx r =
     (let (res, w) = br_classify (gc_brain ctx) (agent_state ctx (gc_tools ctx) r) (rn_world r);
          r1 = r\<lparr>rn_world := w\<rparr> in
      case res of
        Inl e \<Rightarrow> (Raised e, r1)
      | Inr intent \<Rightarrow> (Goto PlanAction,
          set_state (\<lambda>s. merge_working_set \<lparr>ws_active_intent = Some intent,
              ws_entities = ws_entities (gs_working_set s)\<rparr> (s\<lparr>gs_intent := intent\<rparr>)) r1))"

definition route :: "planned_action \<Rightarrow> 'w agent_run \<Rightarrow> step_outcome \<times> 'w agent_run" where
  "route action r =
     (if pa_action action = Tool_Call_Action
      then (Goto ToolCall, set_state (\<lambda>s. s\<lparr>gs_planned_action := action\<rparr>) r)
      else (Goto RespondNode, set_state (\<lambda>s. case pa_answer action of
          Some (c # cs) \<Rightarrow> s\<lparr>gs_planned_action := action, gs_answer := c # cs, gs_finish_reason := Some COMPLETED\<rparr>
        | _ \<Rightarrow> s\<lparr>gs_planned_action := action\<rparr>) r))"

definition callable_tools :: "'w graph_context \<Rightarrow> 'w agent_run \<Rightarrow> tool_descriptor list" where
  "callable_tools ctx r = filter (\<lambda>t. budget_can_call (rn_budget r) (tdr_name t)) (gc_tools ctx)"

definition state_intent :: "'w agent_run \<Rightarrow> string option" where
  "state_intent r = (if gs_intent (rn_state r) = [] then None else Some (gs_intent (rn_state r)))"

definition planning_event ::
  "'w graph_context \<Rightarrow> decision_outcome \<Rightarrow> string \<Rightarrow> string option \<Rightarrow> rat option \<Rightarrow> agent_action
     \<Rightarrow> string option \<Rightarrow> string option \<Rightarrow> nat \<Rightarrow> decision_event" where
  "planning_event ctx outcome source intent confidence action tool reason n = \<lparr>
     de_conversation_id = gc_conversation_id ctx, de_stage = PLANNING, de_outcome = outcome,
     de_source = source, de_intent = intent, de_confidence = confidence,
     de_action = Some (agent_action_value action), de_tool_name = tool, de_reason_code = reason,
     de_callable_tool_count = Some n\<rparr>"

text \<open>The float \<open>0.8\<close>.\<close>

definition MIN_TOOL_DECISION_CONFIDENCE :: rat where
  "MIN_TOOL_DECISION_CONFIDENCE = 3602879701896397 / 4503599627370496"

definition plan_deterministic ::
  "'w graph_context \<Rightarrow> intent_resolution \<Rightarrow> 'w agent_run \<Rightarrow> step_outcome \<times> 'w agent_run" where
  "plan_deterministic ctx res r =
     (let tools = callable_tools ctx r;
          event = \<lambda>outcome action reason. planning_event ctx outcome ''deterministic''
            (Some (intent_value (ir_intent res))) (Some 1) action (ir_tool_name res) reason (length tools) in
      case ir_tool_name res of
        None \<Rightarrow> route (bare_action Respond_Action [] [])
          (record_decision (event SELECTED Respond_Action (Some ''direct_response_intent'')) r)
      | Some tool \<Rightarrow>
          if tool \<notin> set (map tdr_name tools)
          then route (bare_action Respond_Action [] [])
            (record_decision (event BLOCKED Respond_Action (Some ''target_tool_unavailable'')) r)
          else route (bare_action Tool_Call_Action tool (ir_payload res))
            (record_decision (event SELECTED Tool_Call_Action None) r))"

definition plan_with_model :: "'w graph_context \<Rightarrow> 'w agent_run \<Rightarrow> step_outcome \<times> 'w agent_run" where
  "plan_with_model ctx r =
     (let tools = callable_tools ctx r;
          (res, w) = br_plan (gc_brain ctx) (agent_state ctx tools r) (rn_world r);
          r1 = r\<lparr>rn_world := w\<rparr> in
      case res of
        Inl e \<Rightarrow> (Raised e, r1)
      | Inr action \<Rightarrow> route action (record_decision (planning_event ctx SELECTED ''model''
          (case pa_intent action of Some i \<Rightarrow> Some i | None \<Rightarrow> state_intent r)
          (pa_confidence action) (pa_action action)
          (if pa_tool_name action = [] then None else Some (pa_tool_name action))
          (case pa_confidence action of
             Some c \<Rightarrow> if c < MIN_TOOL_DECISION_CONFIDENCE then Some ''low_confidence_response'' else None
           | None \<Rightarrow> None)
          (length tools)) r1))"

definition plan_action :: "'w graph_context \<Rightarrow> 'w agent_run \<Rightarrow> step_outcome \<times> 'w agent_run" where
  "plan_action ctx r = (case resolve_intent (gc_query ctx) of
      Some res \<Rightarrow> plan_deterministic ctx res r
    | None \<Rightarrow>
        if callable_tools ctx r = []
        then route (bare_action Respond_Action [] [])
          (record_decision (planning_event ctx BLOCKED ''policy'' (state_intent r) None Respond_Action None
             (Some ''no_callable_tools'') 0) r)
        else plan_with_model ctx r)"

definition call_event ::
  "'w graph_context \<Rightarrow> 'w agent_run \<Rightarrow> decision_stage \<Rightarrow> decision_outcome \<Rightarrow> string \<Rightarrow> string option \<Rightarrow> decision_event" where
  "call_event ctx r stage outcome source reason = (let action = gs_planned_action (rn_state r) in \<lparr>
     de_conversation_id = gc_conversation_id ctx, de_stage = stage, de_outcome = outcome,
     de_source = source,
     de_intent = (case pa_intent action of Some i \<Rightarrow> Some i | None \<Rightarrow> state_intent r),
     de_confidence = pa_confidence action, de_action = Some ''tool_call'',
     de_tool_name = (if pa_tool_name action = [] then None else Some (pa_tool_name action)),
     de_reason_code = reason, de_callable_tool_count = None\<rparr>)"

definition block_run :: "string \<Rightarrow> 'w agent_run \<Rightarrow> step_outcome \<times> 'w agent_run" where
  "block_run answer r = (Goto RespondNode,
     set_state (\<lambda>s. s\<lparr>gs_answer := answer, gs_finish_reason := Some POLICY_BLOCKED\<rparr>) r)"

fun rejection_reason_value :: "rejection_reason \<Rightarrow> string" where
  "rejection_reason_value TOOL_NOT_REQUESTED = ''tool_not_requested''"
| "rejection_reason_value TOOL_MISMATCH = ''tool_mismatch''"
| "rejection_reason_value ENTITY_MISSING = ''entity_missing''"
| "rejection_reason_value ENTITY_MISMATCH = ''entity_mismatch''"
| "rejection_reason_value UNEXPECTED_ENTITY = ''unexpected_entity''"
| "rejection_reason_value MUTATION_NOT_EXPLICIT = ''mutation_not_explicit''"
| "rejection_reason_value MUTATION_NOT_SUPPORTED = ''mutation_not_supported''"

definition run_call :: "'w graph_context \<Rightarrow> string \<Rightarrow> dict \<Rightarrow> 'w agent_run \<Rightarrow> step_outcome \<times> 'w agent_run" where
  "run_call ctx tool payload r =
     (let (res, w) = gc_invoker ctx tool payload (rn_world r);
          r1 = r\<lparr>rn_calls := rn_calls r @ [(tool, payload)], rn_world := w\<rparr> in
      case res of
        Inl e \<Rightarrow> (Raised e, r1)
      | Inr call \<Rightarrow>
          if tcr_tool_name call \<noteq> tool
          then block_run ''Tool call result blocked because its identity was invalid.'' r1
          else (Goto ObserveResult, set_state (\<lambda>s. s\<lparr>gs_pending_call := Some call\<rparr>) r1))"

definition invoke_tool :: "'w graph_context \<Rightarrow> 'w agent_run \<Rightarrow> step_outcome \<times> 'w agent_run" where
  "invoke_tool ctx r =
     (let action = gs_planned_action (rn_state r); tool = pa_tool_name action; payload = pa_payload action in
      if \<not> budget_can_call (rn_budget r) tool
      then block_run ''Tool call blocked by policy.''
        (record_decision (call_event ctx r PRE_EXECUTION BLOCKED ''policy'' (Some ''tool_call_policy'')) r)
      else case List.find (\<lambda>d. tdr_name d = tool) (gc_tools ctx) of
        None \<Rightarrow> block_run ''Tool call blocked by policy.''
          (record_decision (call_event ctx r PRE_EXECUTION BLOCKED ''policy'' (Some ''tool_call_policy'')) r)
      | Some descriptor \<Rightarrow>
          (case validate_tool_call_semantics (gc_repr ctx) (gc_query ctx) descriptor payload of
             Rejected reason _ \<Rightarrow>
               block_run (''Tool call blocked because it did not match the user'' @ [CHR 0x27] @ ''s request.'')
                 (record_decision (call_event ctx r PRE_EXECUTION BLOCKED ''semantic_validator''
                    (Some (rejection_reason_value reason))) r)
           | Allowed \<Rightarrow> run_call ctx tool payload
               (record_decision (call_event ctx r RESULT_VALIDATION ALLOWED ''result_validator'' None)
                 (record_decision (call_event ctx r PRE_EXECUTION ALLOWED ''semantic_validator'' None) r))))"

definition observe_result :: "'w agent_run \<Rightarrow> step_outcome \<times> 'w agent_run" where
  "observe_result r = (case gs_pending_call (rn_state r) of
      None \<Rightarrow> (Goto DecideNextStep, r)
    | Some call \<Rightarrow> (case budget_record (rn_budget r) (tcr_tool_name call) of
          Inl e \<Rightarrow> (Raised e, r)
        | Inr b \<Rightarrow> (Goto DecideNextStep, set_state (\<lambda>s. merge_working_set
            \<lparr>ws_active_intent = ws_active_intent (gs_working_set s),
             ws_entities = working_set_entities (tcr_payload call)\<rparr>
            (s\<lparr>gs_pending_call := None, gs_tool_calls := gs_tool_calls s @ [call]\<rparr>)) (r\<lparr>rn_budget := b\<rparr>))))"

definition decide_next_step :: "'w agent_run \<Rightarrow> step_outcome \<times> 'w agent_run" where
  "decide_next_step r = (Goto (if 0 < tb_remaining (rn_budget r) then PlanAction else RespondNode), r)"

definition call_evidence :: "tool_call_record list \<Rightarrow> evidence_block list" where
  "call_evidence calls = concat (map tcr_evidence calls)"

definition finish_answer :: "'w graph_context \<Rightarrow> string \<Rightarrow> 'w agent_run \<Rightarrow> step_outcome \<times> 'w agent_run" where
  "finish_answer ctx answer r =
     (let text = (if strip answer \<noteq> [] then strip answer else ''No answer generated.'') in
      (Goto Finished, set_state (\<lambda>s. s\<lparr>gs_answer := text,
         gs_messages := gs_messages s @ [HumanMessage (gc_query ctx), AIMessage text],
         gs_finish_reason := (case gs_finish_reason s of None \<Rightarrow> Some COMPLETED | Some f \<Rightarrow> Some f)\<rparr>) r))"

definition respond :: "'w graph_context \<Rightarrow> 'w agent_run \<Rightarrow> step_outcome \<times> 'w agent_run" where
  "respond ctx r = (let s = rn_state r in
     if gs_finish_reason s \<noteq> None \<and> gs_answer s \<noteq> [] then (Goto Finished, r)
     else if gs_tool_calls s \<noteq> []
     then (case compose (gc_repr ctx) (gc_query ctx) (call_evidence (gs_tool_calls s)) of
             Inl e \<Rightarrow> (Raised e, r)
           | Inr c \<Rightarrow> finish_answer ctx (cr_answer c) r)
     else (let (res, w) = br_respond (gc_brain ctx) (agent_state ctx (gc_tools ctx) r) (rn_world r);
               r1 = r\<lparr>rn_world := w\<rparr> in
           case res of Inl e \<Rightarrow> (Raised e, r1) | Inr answer \<Rightarrow> finish_answer ctx answer r1))"

subsection \<open>The graph\<close>

fun graph_step :: "'w graph_context \<Rightarrow> node \<Rightarrow> 'w agent_run \<Rightarrow> step_outcome \<times> 'w agent_run" where
  "graph_step ctx ClassifyIntent r = classify_intent ctx r"
| "graph_step ctx PlanAction r = plan_action ctx r"
| "graph_step ctx ToolCall r = invoke_tool ctx r"
| "graph_step ctx ObserveResult r = observe_result r"
| "graph_step ctx DecideNextStep r = decide_next_step r"
| "graph_step ctx RespondNode r = respond ctx r"
| "graph_step ctx Finished r = (Goto Finished, r)"

text \<open>The recursion limit of the graph runtime bounds the number of steps.\<close>

definition recursion_error :: exc where
  "recursion_error = ExternalErr ''GraphRecursionError''"

fun run_graph :: "'w graph_context \<Rightarrow> nat \<Rightarrow> node \<Rightarrow> 'w agent_run \<Rightarrow> step_outcome \<times> 'w agent_run" where
  "run_graph ctx limit Finished r = (Goto Finished, r)"
| "run_graph ctx 0 n r = (Raised recursion_error, r)"
| "run_graph ctx (Suc limit) n r = (case graph_step ctx n r of
      (Raised e, r') \<Rightarrow> (Raised e, r')
    | (Goto m, r') \<Rightarrow> run_graph ctx limit m r')"

subsection \<open>The orchestrator\<close>

record tool_call_policy =
  tp_allowed_tool_names :: "string set"
  tp_max_total_calls :: int
  tp_max_calls_per_tool :: int
  tp_fail_on_policy_violation :: bool

record agent_run_result =
  ar_answer :: string
  ar_agent_name :: string
  ar_model_name :: string
  ar_finish_reason :: finish_reason
  ar_tool_calls :: "tool_call_record list"
  ar_evidence :: "evidence_block list"

text \<open>The channels a checkpoint keeps between runs of a conversation.\<close>

record checkpoint =
  ck_messages :: "message list"
  ck_working_set :: working_set

definition empty_checkpoint :: checkpoint where
  "empty_checkpoint = \<lparr>ck_messages = [], ck_working_set = \<lparr>ws_active_intent = None, ws_entities = []\<rparr>\<rparr>"

definition effective_max_calls :: "tool_call_policy \<Rightarrow> int \<Rightarrow> bool \<Rightarrow> int" where
  "effective_max_calls policy max_tool_calls allow =
     (if allow then min (max max_tool_calls 0) (tp_max_total_calls policy) else 0)"

definition allowed_tools :: "tool_call_policy \<Rightarrow> tool_descriptor list \<Rightarrow> tool_descriptor list" where
  "allowed_tools policy tools = filter (\<lambda>t. tdr_name t \<in> tp_allowed_tool_names policy) tools"

definition initial_state :: "checkpoint \<Rightarrow> graph_state" where
  "initial_state ck = \<lparr>gs_workflow_version = CURRENT_WORKFLOW_VERSION, gs_messages = ck_messages ck,
     gs_working_set = merge_working_sets (ck_working_set ck) \<lparr>ws_active_intent = None, ws_entities = []\<rparr>,
     gs_intent = [], gs_planned_action = bare_action Respond_Action [] [], gs_pending_call = None,
     gs_tool_calls = [], gs_answer = [], gs_finish_reason = None\<rparr>"

definition initial_run :: "checkpoint \<Rightarrow> tool_call_policy \<Rightarrow> int \<Rightarrow> bool \<Rightarrow> 'w \<Rightarrow> 'w agent_run" where
  "initial_run ck policy max_tool_calls allow w = \<lparr>rn_state = initial_state ck,
     rn_budget = \<lparr>tb_remaining = effective_max_calls policy max_tool_calls allow,
       tb_max_per_tool = tp_max_calls_per_tool policy, tb_total = 0, tb_per_tool = []\<rparr>,
     rn_events = [], rn_calls = [], rn_world = w\<rparr>"

definition run_result :: "string \<Rightarrow> string \<Rightarrow> 'w agent_run \<Rightarrow> agent_run_result" where
  "run_result agent model r = (let s = rn_state r in \<lparr>
     ar_answer = (if gs_answer s = [] then ''No answer generated.'' else gs_answer s),
     ar_agent_name = agent, ar_model_name = model,
     ar_finish_reason = (case gs_finish_reason s of None \<Rightarrow> RUN_FAILED | Some f \<Rightarrow> f),
     ar_tool_calls = gs_tool_calls s, ar_evidence = call_evidence (gs_tool_calls s)\<rparr>)"

record 'w agent_request =
  aq_context :: "'w graph_context"
  aq_policy :: tool_call_policy
  aq_max_tool_calls :: int
  aq_allow_tool_calls :: bool

definition request_context :: "'w agent_request \<Rightarrow> 'w graph_context" where
  "request_context q = (aq_context q)\<lparr>gc_tools := allowed_tools (aq_policy q) (gc_tools (aq_context q))\<rparr>"

definition request_run :: "nat \<Rightarrow> 'w agent_request \<Rightarrow> checkpoint \<Rightarrow> 'w \<Rightarrow> step_outcome \<times> 'w agent_run" where
  "request_run limit q ck w = run_graph (request_context q) limit ClassifyIntent
     (initial_run ck (aq_policy q) (aq_max_tool_calls q) (aq_allow_tool_calls q) w)"

definition saved_checkpoint :: "'w agent_run \<Rightarrow> checkpoint" where
  "saved_checkpoint r = \<lparr>ck_messages = gs_messages (rn_state r), ck_working_set = gs_working_set (rn_state r)\<rparr>"

definition orchestrate ::
  "bool \<Rightarrow> string \<Rightarrow> string \<Rightarrow> nat \<Rightarrow> 'w agent_request \<Rightarrow> checkpoint \<Rightarrow> 'w \<Rightarrow> agent_run_result result \<times> checkpoint \<times> 'w" where
  "orchestrate started agent model limit q ck w =
     (if \<not> started then (Inl (RuntimeErr ''LangGraphAgentOrchestrator has not been started''), ck, w)
      else (case request_run limit q ck w of
          (Raised e, r) \<Rightarrow> (Inl e, saved_checkpoint r, rn_world r)
        | (Goto _, r) \<Rightarrow> (Inr (run_result agent model r), saved_checkpoint r, rn_world r)))"

subsection \<open>The model-backed brain\<close>

text \<open>
  \<open>AgentBrain\<close> of \<open>agent_brain.py\<close> with the decisions of \<open>structured_decision.py\<close>. The two model calls are
  parameters; what they return is validated as the Pydantic models say, with the JSON parser of the
  payload a parameter.
\<close>

record agent_decision =
  ad_action :: agent_action
  ad_intent :: string
  ad_confidence :: rat
  ad_rationale :: string
  ad_final_answer :: "string option"
  ad_tool_name :: "string option"
  ad_tool_payload_json :: "string option"

definition is_lower :: "char \<Rightarrow> bool" where
  "is_lower c = (let n = (of_char c :: nat) in 97 \<le> n \<and> n \<le> 122)"

definition intent_pattern_ok :: "string \<Rightarrow> bool" where
  "intent_pattern_ok s = (case s of [] \<Rightarrow> False
     | c # cs \<Rightarrow> is_lower c \<and> list_all (\<lambda>x. is_lower x \<or> is_digit x \<or> x = CHR ''_'') cs)"

definition decision_fields_ok :: "agent_decision \<Rightarrow> bool" where
  "decision_fields_ok d \<longleftrightarrow> 2 \<le> length (ad_intent d) \<and> length (ad_intent d) \<le> 64
     \<and> intent_pattern_ok (ad_intent d) \<and> 0 \<le> ad_confidence d \<and> ad_confidence d \<le> 1
     \<and> 1 \<le> length (ad_rationale d) \<and> length (ad_rationale d) \<le> 500"

definition parse_tool_payload :: "(string \<Rightarrow> dict result) \<Rightarrow> agent_decision \<Rightarrow> dict result" where
  "parse_tool_payload parse d = (case ad_tool_payload_json d of None \<Rightarrow> Inr [] | Some s \<Rightarrow> parse s)"

definition validate_action_fields :: "(string \<Rightarrow> dict result) \<Rightarrow> agent_decision \<Rightarrow> agent_decision result" where
  "validate_action_fields parse d =
     (if ad_action d = Respond_Action then
        (if ad_final_answer d = None \<or> strip (the (ad_final_answer d)) = []
         then Inl (ValueErr ''respond decisions require a non-empty final_answer'')
         else if ad_tool_name d \<noteq> None \<or> ad_tool_payload_json d \<noteq> None
         then Inl (ValueErr ''respond decisions cannot include tool fields'')
         else Inr d)
      else if ad_final_answer d \<noteq> None
      then Inl (ValueErr ''tool_call decisions require final_answer=null'')
      else if ad_tool_name d = None \<or> strip (the (ad_tool_name d)) = []
      then Inl (ValueErr ''tool_call decisions require a non-empty tool_name'')
      else if ad_tool_payload_json d = None
      then Inl (ValueErr ''tool_call decisions require tool_payload_json'')
      else rmap (\<lambda>_. d) (parse_tool_payload parse d))"

definition validate_decision :: "(string \<Rightarrow> dict result) \<Rightarrow> agent_decision \<Rightarrow> agent_decision result" where
  "validate_decision parse d = (if decision_fields_ok d then validate_action_fields parse d
     else Inl (ValidationErr ''AgentDecision''))"

definition response_text :: "agent_decision \<Rightarrow> string result" where
  "response_text d = (case (ad_action d, ad_final_answer d) of
      (Respond_Action, Some a) \<Rightarrow> Inr a
    | _ \<Rightarrow> Inl (ValueErr ''decision is not a direct response''))"

definition decision_tool_call :: "(string \<Rightarrow> dict result) \<Rightarrow> agent_decision \<Rightarrow> (string \<times> dict) result" where
  "decision_tool_call parse d = (case (ad_action d, ad_tool_name d) of
      (Tool_Call_Action, Some t) \<Rightarrow> rmap (\<lambda>p. (t, p)) (parse_tool_payload parse d)
    | _ \<Rightarrow> Inl (ValueErr ''decision is not a tool call''))"

definition described_action :: "agent_decision \<Rightarrow> planned_action \<Rightarrow> planned_action" where
  "described_action d a = a\<lparr>pa_intent := Some (ad_intent d), pa_confidence := Some (ad_confidence d),
     pa_rationale := Some (ad_rationale d)\<rparr>"

definition planned_action_from_decision :: "(string \<Rightarrow> dict result) \<Rightarrow> agent_decision \<Rightarrow> planned_action result" where
  "planned_action_from_decision parse d =
     (if ad_action d = Respond_Action \<or> ad_confidence d < MIN_TOOL_DECISION_CONFIDENCE
      then (let action = described_action d (bare_action Respond_Action [] []) in
        if ad_action d = Respond_Action
        then rmap (\<lambda>text. action\<lparr>pa_answer := Some text\<rparr>) (response_text d)
        else Inr action)
      else rmap (\<lambda>(tool, payload). described_action d (bare_action Tool_Call_Action tool payload))
        (decision_tool_call parse d))"

definition agent_brain ::
  "(string \<Rightarrow> dict result) \<Rightarrow> (agent_state_view \<Rightarrow> 'w \<Rightarrow> agent_decision result \<times> 'w)
     \<Rightarrow> (agent_state_view \<Rightarrow> 'w \<Rightarrow> string result \<times> 'w) \<Rightarrow> 'w brain" where
  "agent_brain parse decide answer = \<lparr>
     br_classify = (\<lambda>v w. (Inr (case resolve_intent (av_user_query v) of
        Some res \<Rightarrow> intent_value (ir_intent res) | None \<Rightarrow> ''assistant_query''), w)),
     br_plan = (\<lambda>v w. let (res, w1) = decide v w in
        (rbind res (\<lambda>d. rbind (validate_decision parse d) (planned_action_from_decision parse)), w1)),
     br_respond = (\<lambda>v w. if av_tool_calls v \<noteq> []
        then (Inl (RuntimeErr ''tool-backed responses must use FinalResponseComposer''), w)
        else (let (res, w1) = answer v w in
          (rbind res (\<lambda>t. if t = [] then Inl (ValidationErr ''AgentFinalResponse'') else Inr t), w1)))\<rparr>"

end
