(* ===== verification/Checkpoints.thy ===== *)
theory Checkpoints
  imports Retention Agent_Graph
begin

section \<open>Checkpoint threads and their erasure\<close>

text \<open>
  \<open>thread_identity.py\<close>, \<open>checkpoint_eraser.py\<close>
  (\<open>src/app/modules/assistant/infrastructure/agents/langgraph\<close>) and the whole of \<open>purge_expired\<close> with the
  erasure of checkpoints. SHA-256 is a parameter (\<open>sha256\<close>, bytes to the hexadecimal digest), and so
  is the checkpoint saver of LangGraph: \<open>adelete\<close> deletes a thread and may raise, \<open>stored\<close> is what the saver
  holds for a thread, and \<open>saver_deletes\<close> states what its documentation promises.
\<close>

subsection \<open>Thread identifiers\<close>

definition uuid_bytes :: "uuid \<Rightarrow> 8 word list" where
  "uuid_bytes u = map (\<lambda>i. ucast (drop_bit (8 * i) u)) (rev [0..<16])"

definition THREAD_ID_PREFIX :: string where
  "THREAD_ID_PREFIX = ''assistant:v1:''"

definition THREAD_ID_DOMAIN :: "8 word list" where
  "THREAD_ID_DOMAIN = map (\<lambda>c. of_nat (of_char c)) ''erp-assistant:langgraph-thread:v1'' @ [0]"

definition derive_thread_id :: "(8 word list \<Rightarrow> string) \<Rightarrow> uuid \<Rightarrow> uuid \<Rightarrow> string" where
  "derive_thread_id sha256 owner conversation =
     THREAD_ID_PREFIX @ sha256 (THREAD_ID_DOMAIN @ uuid_bytes owner @ uuid_bytes conversation)"

lemma length_uuid_bytes [simp]: "length (uuid_bytes u) = 16"
  by (simp add: uuid_bytes_def)

lemma uuid_bytes_inj: "uuid_bytes u = uuid_bytes v \<longleftrightarrow> u = v"
proof
  assume eq: "uuid_bytes u = uuid_bytes v"
  show "u = v"
  proof (rule bit_word_eqI)
    fix n assume "n < LENGTH(128)"
    then have i: "n div 8 \<in> set (rev [0..<16])" by auto
    have "\<forall>i \<in> set (rev [0..<16]). (ucast (drop_bit (8 * i) u) :: 8 word) = ucast (drop_bit (8 * i) v)"
      using eq unfolding uuid_bytes_def map_eq_conv .
    with i have "(ucast (drop_bit (8 * (n div 8)) u) :: 8 word) = ucast (drop_bit (8 * (n div 8)) v)" by blast
    then have "bit (ucast (drop_bit (8 * (n div 8)) u) :: 8 word) (n mod 8) = bit (ucast (drop_bit (8 * (n div 8)) v) :: 8 word) (n mod 8)"
      by simp
    moreover have "8 * (n div 8) + n mod 8 = n" by simp
    ultimately show "bit u n = bit v n" by (simp add: bit_ucast_iff bit_drop_bit_eq)
  qed
qed simp

text \<open>Thread identifiers of two conversations or owners agree only if SHA-256 collides.\<close>

lemma thread_input_inj:
  "THREAD_ID_DOMAIN @ uuid_bytes u @ uuid_bytes c = THREAD_ID_DOMAIN @ uuid_bytes v @ uuid_bytes d \<longleftrightarrow> u = v \<and> c = d"
  by (simp add: uuid_bytes_inj)

lemma uuid_str_no_prefix: "uuid_str c \<noteq> THREAD_ID_PREFIX @ s"
proof
  assume eq: "uuid_str c = THREAD_ID_PREFIX @ s"
  have "uuid_str c ! 8 = CHR ''-''" by (simp add: uuid_str_def Let_def nth_append hex_digits_def)
  moreover have "(THREAD_ID_PREFIX @ s) ! 8 = CHR ''t''" by (simp add: THREAD_ID_PREFIX_def)
  ultimately show False using eq by simp
qed

subsection \<open>Erasure\<close>

text \<open>Deleting a thread removes its checkpoints and touches no other thread; a failed deletion may or may not
  have removed them.\<close>

definition saver_deletes :: "(string \<Rightarrow> 'k \<Rightarrow> unit result \<times> 'k) \<Rightarrow> ('k \<Rightarrow> string \<Rightarrow> checkpoint option) \<Rightarrow> bool" where
  "saver_deletes adelete stored \<longleftrightarrow> (\<forall>t m. case adelete t m of
      (Inr _, m') \<Rightarrow> stored m' = (stored m)(t := None)
    | (Inl _, m') \<Rightarrow> stored m' = stored m \<or> stored m' = (stored m)(t := None))"

fun delete_threads :: "(string \<Rightarrow> 'k \<Rightarrow> unit result \<times> 'k) \<Rightarrow> string list \<Rightarrow> 'k \<Rightarrow> unit result \<times> 'k" where
  "delete_threads adelete [] m = (Inr (), m)"
| "delete_threads adelete (t # ts) m = (case adelete t m of
      (Inl e, m1) \<Rightarrow> (Inl e, m1)
    | (Inr _, m1) \<Rightarrow> delete_threads adelete ts m1)"

definition conversation_threads :: "(8 word list \<Rightarrow> string) \<Rightarrow> uuid \<Rightarrow> uuid \<Rightarrow> string list" where
  "conversation_threads sha256 owner conversation = [derive_thread_id sha256 owner conversation, uuid_str conversation]"

definition erase_conversation ::
  "(8 word list \<Rightarrow> string) \<Rightarrow> (string \<Rightarrow> 'k \<Rightarrow> unit result \<times> 'k) \<Rightarrow> uuid \<Rightarrow> uuid \<Rightarrow> 'k \<Rightarrow> unit result \<times> 'k" where
  "erase_conversation sha256 adelete owner conversation m =
     delete_threads adelete (conversation_threads sha256 owner conversation) m"

text \<open>\<open>_erase_checkpoints\<close> goes through the conversations in order and stops at the first failure.\<close>

fun erase_checkpoints ::
  "(8 word list \<Rightarrow> string) \<Rightarrow> (string \<Rightarrow> 'k \<Rightarrow> unit result \<times> 'k) \<Rightarrow> (uuid \<times> uuid) list \<Rightarrow> 'k \<Rightarrow> unit result \<times> 'k" where
  "erase_checkpoints sha256 adelete [] m = (Inr (), m)"
| "erase_checkpoints sha256 adelete ((owner, conversation) # cs) m =
     (case erase_conversation sha256 adelete owner conversation m of
        (Inl e, m1) \<Rightarrow> (Inl e, m1)
      | (Inr _, m1) \<Rightarrow> erase_checkpoints sha256 adelete cs m1)"

text \<open>\<open>purge_expired\<close> with its erasures: they happen before the commit, so a failure rolls the tables back
  and keeps what was erased. \<open>eraser\<close> is absent when no checkpointer is configured.\<close>

definition purge_job ::
  "(8 word list \<Rightarrow> string) \<Rightarrow> (string \<Rightarrow> 'k \<Rightarrow> unit result \<times> 'k) \<Rightarrow> bool \<Rightarrow> datetime \<Rightarrow> int
     \<Rightarrow> conversation_tables \<times> 'k \<Rightarrow> nat result \<times> conversation_tables \<times> 'k" where
  "purge_job sha256 adelete eraser now keep_days s = (case s of (t, m) \<Rightarrow>
     case purge_expired now keep_days t of (n, affected, t') \<Rightarrow>
     case (if eraser then erase_checkpoints sha256 adelete affected m else (Inr (), m)) of
       (Inl e, m') \<Rightarrow> (Inl e, t, m')
     | (Inr _, m') \<Rightarrow> (Inr n, t', m'))"

definition affected_threads :: "(8 word list \<Rightarrow> string) \<Rightarrow> (uuid \<times> uuid) list \<Rightarrow> string set" where
  "affected_threads sha256 cs = (\<Union>(owner, conversation) \<in> set cs. set (conversation_threads sha256 owner conversation))"

lemma delete_threads_stored:
  assumes "saver_deletes adelete stored" and "delete_threads adelete ts m = (r, m')"
  shows "(\<forall>t. t \<notin> set ts \<longrightarrow> stored m' t = stored m t) \<and> (\<forall>t. stored m' t = stored m t \<or> stored m' t = None)
    \<and> (\<forall>u. r = Inr u \<longrightarrow> (\<forall>t \<in> set ts. stored m' t = None))"
  using assms(2)
proof (induction ts arbitrary: m)
  case (Cons t ts)
  obtain r1 m1 where one: "adelete t m = (r1, m1)" by fastforce
  have eff: "stored m1 = (stored m)(t := None) \<or> (\<exists>e. r1 = Inl e) \<and> stored m1 = stored m"
    using assms(1)[unfolded saver_deletes_def, rule_format, of m t] one by (auto split: sum.splits)
  show ?case
  proof (cases r1)
    case (Inl e)
    then show ?thesis using Cons.prems one eff by (auto split: if_splits)
  next
    case (Inr u)
    then have rest: "delete_threads adelete ts m1 = (r, m')" and t: "stored m1 = (stored m)(t := None)"
      using Cons.prems one eff by auto
    note ih = Cons.IH[OF rest, unfolded t]
    have "stored m' t = None" using ih by (metis fun_upd_same)
    moreover have "\<And>x. x \<noteq> t \<Longrightarrow> ((stored m)(t := None)) x = stored m x" by simp
    ultimately show ?thesis using ih by (metis list.set_cases list.set_intros set_ConsD)
  qed
qed simp

lemma erase_checkpoints_stored:
  assumes "saver_deletes adelete stored"
  shows "erase_checkpoints sha adelete cs m = (r, m') \<Longrightarrow>
     (\<forall>t. t \<notin> affected_threads sha cs \<longrightarrow> stored m' t = stored m t) \<and> (\<forall>t. stored m' t = stored m t \<or> stored m' t = None)
     \<and> (\<forall>u. r = Inr u \<longrightarrow> (\<forall>t \<in> affected_threads sha cs. stored m' t = None))"
proof (induction cs arbitrary: m)
  case Nil
  then show ?case by (simp add: affected_threads_def)
next
  case (Cons x cs)
  obtain owner c where x: "x = (owner, c)" by (cases x)
  have threads: "affected_threads sha (x # cs) = set (conversation_threads sha owner c) \<union> affected_threads sha cs"
    by (simp add: affected_threads_def x)
  obtain r1 m1 where one: "erase_conversation sha adelete owner c m = (r1, m1)" by fastforce
  note eff = delete_threads_stored[OF assms one[unfolded erase_conversation_def]]
  show ?case
  proof (cases r1)
    case (Inl e)
    then show ?thesis using Cons.prems one eff x unfolding threads by auto
  next
    case (Inr u)
    then have "erase_checkpoints sha adelete cs m1 = (r, m')" using Cons.prems one x by simp
    note ih = Cons.IH[OF this]
    show ?thesis unfolding threads using ih eff Inr by (metis Un_iff)
  qed
qed

lemma derive_thread_id_eq:
  assumes "derive_thread_id sha u c = derive_thread_id sha v d"
  shows "(u, c) = (v, d) \<or> (\<exists>x y. x \<noteq> y \<and> length x = length y \<and> sha x = sha y)"
proof (cases "(u, c) = (v, d)")
  case False
  let ?x = "THREAD_ID_DOMAIN @ uuid_bytes u @ uuid_bytes c" and ?y = "THREAD_ID_DOMAIN @ uuid_bytes v @ uuid_bytes d"
  have "?x \<noteq> ?y" using False thread_input_inj by blast
  moreover have "sha ?x = sha ?y" using assms by (simp add: derive_thread_id_def)
  moreover have "length ?x = length ?y" by simp
  ultimately show ?thesis by blast
qed simp

lemma thread_not_affected:
  assumes "(u, c) \<notin> set cs"
  shows "derive_thread_id sha u c \<notin> affected_threads sha cs \<or> (\<exists>x y. x \<noteq> y \<and> length x = length y \<and> sha x = sha y)"
proof (rule ccontr)
  assume no: "\<not> ?thesis"
  then obtain v d where vd: "(v, d) \<in> set cs" "derive_thread_id sha u c \<in> set (conversation_threads sha v d)"
    by (auto simp: affected_threads_def)
  have "uuid_str d \<noteq> derive_thread_id sha u c" using uuid_str_no_prefix by (simp add: derive_thread_id_def)
  then have "derive_thread_id sha u c = derive_thread_id sha v d" using vd(2) by (simp add: conversation_threads_def)
  then show False using derive_thread_id_eq no vd(1) assms by blast
qed

lemma purge_job_effect:
  assumes "saver_deletes adelete stored" and "purge_expired now keep t = (n, affected, t')"
    and "purge_job sha adelete True now keep (t, m) = (r, t1, m1)"
  shows "(case r of Inr k \<Rightarrow> k = n \<and> t1 = t' \<and> stored m1 = (\<lambda>x. if x \<in> affected_threads sha affected then None else stored m x)
      | Inl e \<Rightarrow> t1 = t)
    \<and> (\<forall>x. x \<notin> affected_threads sha affected \<longrightarrow> stored m1 x = stored m x)"
proof -
  obtain r2 m2 where er: "erase_checkpoints sha adelete affected m = (r2, m2)" by fastforce
  note eff = erase_checkpoints_stored[OF assms(1) er]
  have job: "r = (case r2 of Inl e \<Rightarrow> Inl e | Inr _ \<Rightarrow> Inr n)" "t1 = (case r2 of Inl e \<Rightarrow> t | Inr _ \<Rightarrow> t')" "m1 = m2"
    using assms(2,3) er by (auto simp: purge_job_def split: sum.splits)
  show ?thesis using eff by (cases r2) (auto simp: job fun_eq_iff)
qed

text \<open>C20. Retention and checkpoints stay together: a purge that succeeds has erased every checkpoint thread of the
  conversations that lost turns or went, also under the old identifier, and commits the purged tables; one
  that fails leaves the tables as they were, and a later attempt that succeeds ends as if nothing had failed;
  in both cases the checkpoint of any other conversation or owner is untouched, unless SHA-256 collides.\<close>

theorem purge_with_checkpoints:
  assumes "saver_deletes adelete stored" and "purge_expired now keep t = (n, affected, t')"
    and "purge_job sha adelete True now keep (t, m) = (r, t1, m1)"
    and "erased = (\<lambda>thread. if thread \<in> affected_threads sha affected then None else stored m thread)"
  shows "(case r of
        Inr k \<Rightarrow> k = n \<and> t1 = t' \<and> stored m1 = erased
      | Inl e \<Rightarrow> t1 = t \<and> (\<forall>k t2 m2. purge_job sha adelete True now keep (t1, m1) = (Inr k, t2, m2)
          \<longrightarrow> k = n \<and> t2 = t' \<and> stored m2 = erased))
    \<and> ((u, c) \<notin> set affected \<longrightarrow> stored m1 (derive_thread_id sha u c) = stored m (derive_thread_id sha u c)
         \<or> (\<exists>x y. x \<noteq> y \<and> length x = length y \<and> sha x = sha y))"
proof -
  note eff = purge_job_effect[OF assms(1,2,3)]
  have again: "k = n \<and> t2 = t' \<and> stored m2 = erased"
    if "purge_job sha adelete True now keep (t, m1) = (Inr k, t2, m2)" for k t2 m2
    using purge_job_effect[OF assms(1,2) that] eff assms(4) by (auto simp: fun_eq_iff)
  have "(u, c) \<notin> set affected \<longrightarrow> stored m1 (derive_thread_id sha u c) = stored m (derive_thread_id sha u c)
         \<or> (\<exists>x y. x \<noteq> y \<and> length x = length y \<and> sha x = sha y)"
    using thread_not_affected[of u c affected sha] eff by blast
  then show ?thesis using eff again assms(4) by (cases r) auto
qed

text \<open>A saver that fails on one thread.\<close>

definition sample_saver :: "string \<Rightarrow> (string \<Rightarrow> checkpoint option) \<Rightarrow> unit result \<times> (string \<Rightarrow> checkpoint option)" where
  "sample_saver t m = (if t = ''assistant:v1:x'' then (Inl (ExternalErr ''down''), m) else (Inr (), m(t := None)))"

lemma sample_saver_deletes: "saver_deletes sample_saver (\<lambda>m. m)"
  by (simp add: saver_deletes_def sample_saver_def)

theorem purge_with_checkpoints_witness:
  "\<exists>m1. purge_job (\<lambda>_. ''x'') sample_saver True (timedelta_days 40) 60 (sample_rows, \<lambda>_. Some empty_checkpoint)
      = (Inl (ExternalErr ''down''), sample_rows, m1)"
proof -
  obtain n affected t' where p: "purge_expired (timedelta_days 40) 60 sample_rows = (n, affected, t')" using prod_cases3 by blast
  obtain r t1 m1 where j: "purge_job (\<lambda>_. ''x'') sample_saver True (timedelta_days 40) 60
      (sample_rows, \<lambda>_. Some empty_checkpoint) = (r, t1, m1)"
    using prod_cases3 by blast
  have "set affected \<noteq> {}"
    unfolding purge_effect(5)[OF sample_rows_ok p] sample_rows_expired(1) using sample_rows_expired(2) by simp
  then have "r = Inl (ExternalErr ''down'')" using j p by (cases affected)
    (auto simp: purge_job_def erase_conversation_def conversation_threads_def derive_thread_id_def sample_saver_def THREAD_ID_PREFIX_def)
  then show ?thesis using purge_with_checkpoints[OF sample_saver_deletes p j refl] j by auto
qed

end
