(* ===== verification/Memory_Jobs.thy ===== *)
theory Memory_Jobs
  imports Memory_Records Checkpoints
begin

section \<open>The vector index and the jobs that keep it in step with the records\<close>

text \<open>
  \<open>PineconeVectorIndex\<close>, \<open>VectorSyncWorker.sync_once\<close>, \<open>MemoryRetentionJob.purge_once\<close>,
  \<open>ReconciliationJob.reconcile_once\<close> and \<open>UserMemoryEraser.erase_user_memory\<close> of
  \<open>src/app/modules/assistant/infrastructure/conversation_memory/long_term\<close>. The index of the Pinecone
  client and the embedding are parameters. A job reads its rows under a lock that other jobs skip, so one
  run works on the rows it selected; several transactions of one run are separate steps.
\<close>

subsection \<open>The client of the index\<close>

record 'e vector_record =
  vr_id :: string
  vr_values :: 'e
  vr_metadata :: dict

record ('e, 'v) pinecone =
  px_upsert :: "'e vector_record list \<Rightarrow> string \<Rightarrow> 'v \<Rightarrow> unit result \<times> 'v"
  px_query :: "string \<Rightarrow> 'e \<Rightarrow> nat \<Rightarrow> (string \<times> string) list \<Rightarrow> 'v \<Rightarrow> string list result"
  px_fetch :: "string list \<Rightarrow> string \<Rightarrow> 'v \<Rightarrow> string list result"
  px_list :: "string \<Rightarrow> 'v \<Rightarrow> string list list result"
  px_delete :: "string list \<Rightarrow> string \<Rightarrow> 'v \<Rightarrow> unit result \<times> 'v"

definition index_upsert :: "('e, 'v) pinecone \<Rightarrow> string \<Rightarrow> 'e vector_record list \<Rightarrow> 'v \<Rightarrow> unit result \<times> 'v" where
  "index_upsert px namespace records v = px_upsert px records namespace v"

definition index_query_ids :: "('e, 'v) pinecone \<Rightarrow> string \<Rightarrow> 'e \<Rightarrow> int \<Rightarrow> (string \<times> string) list \<Rightarrow> 'v \<Rightarrow> string list result" where
  "index_query_ids px namespace values limit metadata_filter v =
     (if limit \<le> 0 then Inr [] else px_query px namespace values (nat limit) metadata_filter v)"

definition index_fetch_ids :: "('e, 'v) pinecone \<Rightarrow> string \<Rightarrow> string list \<Rightarrow> 'v \<Rightarrow> string set result" where
  "index_fetch_ids px namespace ids v = rmap set (px_fetch px ids namespace v)"

definition index_list_ids :: "('e, 'v) pinecone \<Rightarrow> string \<Rightarrow> 'v \<Rightarrow> string list result" where
  "index_list_ids px namespace v = rmap (\<lambda>pages. remdups (concat pages)) (px_list px namespace v)"

definition index_delete_ids :: "('e, 'v) pinecone \<Rightarrow> string \<Rightarrow> string list \<Rightarrow> 'v \<Rightarrow> unit result \<times> 'v" where
  "index_delete_ids px namespace ids v = (if ids = [] then (Inr (), v) else px_delete px ids namespace v)"

text \<open>
  What the jobs rely on: an upsert adds the given identifiers to its namespace, a delete removes them, a
  failed call has done a part of its work, a listing names what the namespace holds. \<open>held v ns\<close> is the
  set of identifiers that the index in state \<open>v\<close> holds in \<open>ns\<close>.
\<close>

definition upsert_law :: "('e, 'v) pinecone \<Rightarrow> ('v \<Rightarrow> string \<Rightarrow> string set) \<Rightarrow> bool" where
  "upsert_law px held \<longleftrightarrow> (\<forall>records ns v r v' ns'. px_upsert px records ns v = (r, v') \<longrightarrow>
     held v ns' \<subseteq> held v' ns' \<and> held v' ns' \<subseteq> held v ns' \<union> (if ns' = ns then vr_id ` set records else {})
     \<and> (r = Inr () \<longrightarrow> vr_id ` set records \<subseteq> held v' ns))"

definition delete_law :: "('e, 'v) pinecone \<Rightarrow> ('v \<Rightarrow> string \<Rightarrow> string set) \<Rightarrow> bool" where
  "delete_law px held \<longleftrightarrow> (\<forall>ids ns v r v' ns'. px_delete px ids ns v = (r, v') \<longrightarrow>
     held v' ns' \<subseteq> held v ns' \<and> held v ns' - (if ns' = ns then set ids else {}) \<subseteq> held v' ns'
     \<and> (r = Inr () \<longrightarrow> held v' ns \<inter> set ids = {}))"

definition list_law :: "('e, 'v) pinecone \<Rightarrow> ('v \<Rightarrow> string \<Rightarrow> string set) \<Rightarrow> bool" where
  "list_law px held \<longleftrightarrow> (\<forall>ns v pages. px_list px ns v = Inr pages \<longrightarrow> set (concat pages) = held v ns)"

definition pinecone_ok :: "('e, 'v) pinecone \<Rightarrow> ('v \<Rightarrow> string \<Rightarrow> string set) \<Rightarrow> bool" where
  "pinecone_ok px held \<longleftrightarrow> upsert_law px held \<and> delete_law px held \<and> list_law px held"

subsection \<open>Synchronisation\<close>

definition memory_metadata :: "memory_row \<Rightarrow> dict" where
  "memory_metadata r = [(''kind'', PStr (mr_kind r)),
     (''owner_user_id'', opt_str (map_option uuid_str (mr_owner r))),
     (''site_code'', opt_str (mr_site r)),
     (''required_permissions'', PList (map PStr (mr_permissions r))),
     (''source_document_id'', opt_str (map_option uuid_str (mr_document r))),
     (''memory_record_id'', PStr (uuid_str (mr_id r))),
     (''created_at_epoch'', PInt (mr_created_at r div 1000000))]"

definition unsynced_batch :: "nat \<Rightarrow> memory_row list \<Rightarrow> memory_row list" where
  "unsynced_batch n rows = take n (sort_key mr_created_at (filter (\<lambda>r. mr_synced_at r = None \<and> live r) rows))"

text \<open>\<open>0.05 * 2 ** n\<close> converts \<open>2 ** n\<close> to a float, which fails from \<open>n = 1024\<close> on.\<close>

definition backoff_fails :: "nat \<Rightarrow> bool" where
  "backoff_fails n \<longleftrightarrow> 1024 \<le> n"

definition overflow_error :: exc where
  "overflow_error = ExternalErr ''OverflowError''"

definition write_row :: "memory_row \<Rightarrow> memory_row list \<Rightarrow> memory_row list" where
  "write_row r rows = map (\<lambda>q. if mr_id q = mr_id r then r else q) rows"

definition sync_record ::
  "('e, 'v) pinecone \<Rightarrow> (string \<Rightarrow> 'e result) \<Rightarrow> (exc \<Rightarrow> string) \<Rightarrow> (uuid \<Rightarrow> datetime) \<Rightarrow> memory_row \<Rightarrow> 'v \<Rightarrow> memory_row result \<times> 'v" where
  "sync_record px embedding message clock r v =
     (case (case embedding (mr_content r) of
         Inl e \<Rightarrow> (Inl e, v)
       | Inr values \<Rightarrow> index_upsert px (mr_namespace r)
           [\<lparr>vr_id = mr_vector_id r, vr_values = values, vr_metadata = memory_metadata r\<rparr>] v) of
       (Inr _, v') \<Rightarrow> (Inr (r\<lparr>mr_synced_at := Some (clock (mr_id r)), mr_last_error := None\<rparr>), v')
     | (Inl e, v') \<Rightarrow> (if backoff_fails (Suc (mr_retry_count r)) then (Inl overflow_error, v')
         else (Inr (r\<lparr>mr_retry_count := Suc (mr_retry_count r), mr_last_error := Some (take 4000 (message e))\<rparr>), v')))"

fun sync_records ::
  "('e, 'v) pinecone \<Rightarrow> (string \<Rightarrow> 'e result) \<Rightarrow> (exc \<Rightarrow> string) \<Rightarrow> (uuid \<Rightarrow> datetime) \<Rightarrow> memory_row list
     \<Rightarrow> memory_row list \<Rightarrow> 'v \<Rightarrow> memory_row list result \<times> 'v" where
  "sync_records px embedding message clock [] rows v = (Inr rows, v)"
| "sync_records px embedding message clock (r # batch) rows v = (case sync_record px embedding message clock r v of
      (Inl e, v') \<Rightarrow> (Inl e, v')
    | (Inr r', v') \<Rightarrow> sync_records px embedding message clock batch (write_row r' rows) v')"

text \<open>The records are committed together after the last one; an error that leaves the loop rolls them back.\<close>

definition sync_once ::
  "('e, 'v) pinecone \<Rightarrow> (string \<Rightarrow> 'e result) \<Rightarrow> (exc \<Rightarrow> string) \<Rightarrow> (uuid \<Rightarrow> datetime) \<Rightarrow> nat
     \<Rightarrow> memory_row list \<times> 'v \<Rightarrow> nat result \<times> memory_row list \<times> 'v" where
  "sync_once px embedding message clock batch_size s = (case s of (rows, v) \<Rightarrow>
     let batch = unsynced_batch batch_size rows in
     (case sync_records px embedding message clock batch rows v of
        (Inl e, v') \<Rightarrow> (Inl e, rows, v')
      | (Inr rows', v') \<Rightarrow> (Inr (length batch), rows', v')))"

subsection \<open>Deletion by namespace\<close>

fun add_to_group :: "'k \<Rightarrow> 'a \<Rightarrow> ('k \<times> 'a list) list \<Rightarrow> ('k \<times> 'a list) list" where
  "add_to_group k x [] = [(k, [x])]"
| "add_to_group k x ((j, xs) # groups) = (if j = k then (j, xs @ [x]) # groups else (j, xs) # add_to_group k x groups)"

definition grouped :: "('r \<Rightarrow> 'k) \<Rightarrow> ('r \<Rightarrow> 'a) \<Rightarrow> 'r list \<Rightarrow> ('k \<times> 'a list) list" where
  "grouped key val rows = foldl (\<lambda>groups r. add_to_group (key r) (val r) groups) [] rows"

fun delete_groups :: "('e, 'v) pinecone \<Rightarrow> (string \<times> string list) list \<Rightarrow> 'v \<Rightarrow> nat result \<times> 'v" where
  "delete_groups px [] v = (Inr 0, v)"
| "delete_groups px ((namespace, ids) # groups) v = (case index_delete_ids px namespace ids v of
      (Inl e, v') \<Rightarrow> (Inl e, v')
    | (Inr _, v') \<Rightarrow> (case delete_groups px groups v' of
        (Inl e, v'') \<Rightarrow> (Inl e, v'')
      | (Inr n, v'') \<Rightarrow> (Inr (length ids + n), v'')))"

text \<open>A record that a candidate points to cannot be deleted: the foreign key has no \<open>ON DELETE\<close>.\<close>

definition delete_memories :: "uuid set \<Rightarrow> candidate_row list \<Rightarrow> memory_row list \<Rightarrow> memory_row list result" where
  "delete_memories ids candidates rows =
     (if list_ex (\<lambda>c. list_ex (\<lambda>r. mr_id r \<in> ids \<and> cr_promoted c = Some (mr_id r)) rows) candidates then Inl integrity_error
      else Inr (filter (\<lambda>r. mr_id r \<notin> ids) rows))"

subsection \<open>Retention\<close>

definition memory_expired :: "datetime \<Rightarrow> memory_row \<Rightarrow> bool" where
  "memory_expired now r \<longleftrightarrow> live r \<and> (case mr_expires_at r of None \<Rightarrow> False | Some e \<Rightarrow> e < now)"

definition soft_delete_expired :: "datetime \<Rightarrow> nat \<Rightarrow> memory_row list \<Rightarrow> nat \<times> memory_row list" where
  "soft_delete_expired now n rows =
     (let batch = take n (sort_key mr_created_at (filter (memory_expired now) rows)) in
      (length batch, map (\<lambda>r. if mr_id r \<in> mr_id ` set batch then r\<lparr>mr_deleted_at := Some now\<rparr> else r) rows))"

definition soft_deleted_batch :: "nat \<Rightarrow> memory_row list \<Rightarrow> memory_row list" where
  "soft_deleted_batch n rows = take n (sort_key (\<lambda>r. (the (mr_deleted_at r), mr_id r)) (filter (\<lambda>r. \<not> live r) rows))"

definition delete_soft_deleted_batch ::
  "('e, 'v) pinecone \<Rightarrow> nat \<Rightarrow> candidate_row list \<Rightarrow> memory_row list \<times> 'v \<Rightarrow> (nat \<times> nat) result \<times> memory_row list \<times> 'v" where
  "delete_soft_deleted_batch px n candidates s = (case s of (rows, v) \<Rightarrow>
     let batch = soft_deleted_batch n rows in
     if batch = [] then (Inr (0, 0), rows, v)
     else (case delete_groups px (grouped mr_namespace mr_vector_id batch) v of
        (Inl e, v') \<Rightarrow> (Inl e, rows, v')
      | (Inr vectors, v') \<Rightarrow>
          let ids = concat (map snd (grouped mr_namespace mr_id batch)) in
          if ids = [] then (Inr (0, vectors), rows, v')
          else (case delete_memories (set ids) candidates rows of
              Inl e \<Rightarrow> (Inl e, rows, v')
            | Inr rows' \<Rightarrow> (Inr (length ids, vectors), rows', v'))))"

definition delete_expired_candidates :: "datetime \<Rightarrow> nat \<Rightarrow> candidate_row list \<Rightarrow> nat \<times> candidate_row list" where
  "delete_expired_candidates now n candidates =
     (let batch = take n (sort_key cr_created_at (filter (\<lambda>c. cr_expires_at c < now) candidates)) in
      (length batch, filter (\<lambda>c. cr_id c \<notin> cr_id ` set batch) candidates))"

record memory_retention_result =
  mrr_soft_deleted :: nat
  mrr_hard_deleted :: nat
  mrr_vectors :: nat
  mrr_candidates :: nat

text \<open>Each of the three steps commits on its own: a failure keeps what the steps before it did.\<close>

definition purge_once ::
  "('e, 'v) pinecone \<Rightarrow> nat \<Rightarrow> datetime \<Rightarrow> memory_row list \<times> candidate_row list \<times> 'v
     \<Rightarrow> memory_retention_result result \<times> memory_row list \<times> candidate_row list \<times> 'v" where
  "purge_once px n now s = (case s of (rows, candidates, v) \<Rightarrow>
     case soft_delete_expired now n rows of (soft, rows1) \<Rightarrow>
     (case delete_soft_deleted_batch px n candidates (rows1, v) of
        (Inl e, rows2, v') \<Rightarrow> (Inl e, rows2, candidates, v')
      | (Inr (hard, vectors), rows2, v') \<Rightarrow>
          (case delete_expired_candidates now n candidates of (gone, candidates') \<Rightarrow>
             (Inr \<lparr>mrr_soft_deleted = soft, mrr_hard_deleted = hard, mrr_vectors = vectors, mrr_candidates = gone\<rparr>,
              rows2, candidates', v'))))"

subsection \<open>Reconciliation\<close>

definition active_ids :: "memory_row list \<Rightarrow> string \<Rightarrow> string set" where
  "active_ids rows namespace = mr_vector_id ` {r \<in> set rows. live r \<and> mr_namespace r = namespace}"

text \<open>The identifiers are read from the records first; other transactions may commit before the index is
  listed, so \<open>seen\<close> is the table as it was read.\<close>

fun reconcile :: "('e, 'v) pinecone \<Rightarrow> memory_row list \<Rightarrow> string list \<Rightarrow> 'v \<Rightarrow> nat result \<times> 'v" where
  "reconcile px seen [] v = (Inr 0, v)"
| "reconcile px seen (namespace # namespaces) v = (case index_list_ids px namespace v of
      Inl e \<Rightarrow> (Inl e, v)
    | Inr listed \<Rightarrow>
        let orphans = sort (filter (\<lambda>i. i \<notin> active_ids seen namespace) listed) in
        (case (if orphans = [] then (Inr (), v) else index_delete_ids px namespace orphans v) of
           (Inl e, v') \<Rightarrow> (Inl e, v')
         | (Inr _, v') \<Rightarrow> (case reconcile px seen namespaces v' of
             (Inl e, v'') \<Rightarrow> (Inl e, v'')
           | (Inr n, v'') \<Rightarrow> (Inr (length orphans + n), v''))))"

subsection \<open>Erasure of a user\<close>

record ('k, 'v) user_memory =
  um_tables :: conversation_tables
  um_rows :: "memory_row list"
  um_candidates :: "candidate_row list"
  um_checkpoints :: 'k
  um_index :: 'v

record erase_result =
  er_records :: nat
  er_vectors :: nat
  er_turns :: nat
  er_conversations :: nat

definition erasable :: "uuid \<Rightarrow> conversation_tables \<Rightarrow> memory_row list \<Rightarrow> memory_row list" where
  "erasable u t rows = (let turn_ids = tw_id ` set (filter (\<lambda>r. tw_owner r = u) (cvt_turns t)) in
     filter (\<lambda>r. live r \<and> (mr_owner r = Some u \<or> list_ex (\<lambda>i. i \<in> turn_ids) (mr_turn_ids r))) rows)"

text \<open>The second transaction: records, turns, checkpoints, conversations; deleting a conversation deletes its
  turns and evidence. The index calls come before it.\<close>

definition erase_tables ::
  "(8 word list \<Rightarrow> string) \<Rightarrow> (string \<Rightarrow> 'k \<Rightarrow> unit result \<times> 'k) \<Rightarrow> bool \<Rightarrow> uuid \<Rightarrow> memory_row list \<Rightarrow> nat
     \<Rightarrow> ('k, 'v) user_memory \<Rightarrow> erase_result result \<times> ('k, 'v) user_memory" where
  "erase_tables sha256 adelete eraser u matched vectors s =
     (case (if matched = [] then Inr (um_rows s) else delete_memories (mr_id ` set matched) (um_candidates s) (um_rows s)) of
        Inl e \<Rightarrow> (Inl e, s)
      | Inr rows \<Rightarrow>
        let t = um_tables s;
            turn_ids = map tw_id (filter (\<lambda>r. tw_owner r = u) (cvt_turns t));
            ids = map cv_id (filter (\<lambda>r. cv_owner r = u) (cvt_conversations t));
            t' = t\<lparr>cvt_turns := filter (\<lambda>r. tw_id r \<notin> set turn_ids \<and> tw_conversation r \<notin> set ids) (cvt_turns t),
                cvt_evidence := filter (\<lambda>r. ew_conversation r \<notin> set ids) (cvt_evidence t),
                cvt_conversations := filter (\<lambda>r. cv_id r \<notin> set ids) (cvt_conversations t)\<rparr> in
        (case (if eraser then erase_checkpoints sha256 adelete (map (Pair u) (sort ids)) (um_checkpoints s)
               else (Inr (), um_checkpoints s)) of
           (Inl e, m) \<Rightarrow> (Inl e, s\<lparr>um_checkpoints := m\<rparr>)
         | (Inr _, m) \<Rightarrow> (Inr \<lparr>er_records = length matched, er_vectors = vectors, er_turns = length turn_ids,
               er_conversations = length ids\<rparr>, s\<lparr>um_tables := t', um_rows := rows, um_checkpoints := m\<rparr>)))"

definition erase_user_memory ::
  "(8 word list \<Rightarrow> string) \<Rightarrow> (string \<Rightarrow> 'k \<Rightarrow> unit result \<times> 'k) \<Rightarrow> bool \<Rightarrow> ('e, 'v) pinecone \<Rightarrow> uuid
     \<Rightarrow> ('k, 'v) user_memory \<Rightarrow> erase_result result \<times> ('k, 'v) user_memory" where
  "erase_user_memory sha256 adelete eraser px u s =
     (let matched = erasable u (um_tables s) (um_rows s) in
      case delete_groups px (grouped mr_namespace mr_vector_id matched) (um_index s) of
        (Inl e, v) \<Rightarrow> (Inl e, s\<lparr>um_index := v\<rparr>)
      | (Inr vectors, v) \<Rightarrow> erase_tables sha256 adelete eraser u matched vectors (s\<lparr>um_index := v\<rparr>))"

subsection \<open>Effect on the index\<close>

lemma pinecone_upsert:
  assumes "pinecone_ok px held" and "px_upsert px records ns v = (r, v')"
  shows "held v ns' \<subseteq> held v' ns'" and "held v' ns' \<subseteq> held v ns' \<union> (if ns' = ns then vr_id ` set records else {})"
    and "r = Inr () \<Longrightarrow> vr_id ` set records \<subseteq> held v' ns"
proof -
  have "upsert_law px held" using assms(1) by (simp add: pinecone_ok_def)
  note one = this[unfolded upsert_law_def, rule_format, OF assms(2)]
  show "held v ns' \<subseteq> held v' ns'" "held v' ns' \<subseteq> held v ns' \<union> (if ns' = ns then vr_id ` set records else {})"
      "r = Inr () \<Longrightarrow> vr_id ` set records \<subseteq> held v' ns"
    using one[of ns'] by simp_all
qed

lemma pinecone_delete:
  assumes "pinecone_ok px held" and "px_delete px ids ns v = (r, v')"
  shows "held v' ns' \<subseteq> held v ns'" and "held v ns' - (if ns' = ns then set ids else {}) \<subseteq> held v' ns'"
    and "r = Inr () \<Longrightarrow> held v' ns \<inter> set ids = {}"
proof -
  have "delete_law px held" using assms(1) by (simp add: pinecone_ok_def)
  note one = this[unfolded delete_law_def, rule_format, OF assms(2)]
  show "held v' ns' \<subseteq> held v ns'" "held v ns' - (if ns' = ns then set ids else {}) \<subseteq> held v' ns'"
      "r = Inr () \<Longrightarrow> held v' ns \<inter> set ids = {}"
    using one[of ns'] by simp_all
qed

lemma pinecone_list: "pinecone_ok px held \<Longrightarrow> px_list px ns v = Inr pages \<Longrightarrow> set (concat pages) = held v ns"
  by (simp add: pinecone_ok_def list_law_def)

lemma index_delete:
  assumes "pinecone_ok px held" and "index_delete_ids px ns ids v = (r, v')"
  shows "held v' ns' \<subseteq> held v ns' \<and> held v ns' - (if ns' = ns then set ids else {}) \<subseteq> held v' ns'
    \<and> (r = Inr () \<longrightarrow> held v' ns \<inter> set ids = {})"
proof (cases "ids = []")
  case False
  then have d: "px_delete px ids ns v = (r, v')" using assms(2) by (simp add: index_delete_ids_def)
  show ?thesis by (intro conjI impI pinecone_delete[OF assms(1) d])
qed (use assms(2) in \<open>simp add: index_delete_ids_def\<close>)

definition group_ids :: "('k \<times> 'a list) list \<Rightarrow> 'k \<Rightarrow> 'a set" where
  "group_ids groups ns = \<Union> (set ` snd ` {g \<in> set groups. fst g = ns})"

lemma group_ids_Cons [simp]: "group_ids ((k, xs) # groups) ns = (if k = ns then set xs else {}) \<union> group_ids groups ns"
  by (auto simp: group_ids_def)

lemma group_ids_Nil [simp]: "group_ids [] ns = {}"
  by (simp add: group_ids_def)

lemma group_ids_add: "group_ids (add_to_group k x groups) ns = group_ids groups ns \<union> (if k = ns then {x} else {})"
proof (induction groups)
  case (Cons g groups)
  then show ?case by (cases g; cases "fst g = k"; cases "k = ns") (simp_all add: Un_assoc)
qed simp

lemma group_ids_grouped: "group_ids (grouped key val rows) ns = val ` {r \<in> set rows. key r = ns}"
proof (induction rows rule: rev_induct)
  case (snoc r rows)
  then show ?case by (auto simp: grouped_def group_ids_add)
qed (simp add: grouped_def)

lemma delete_groups_effect:
  assumes "pinecone_ok px held" and "delete_groups px groups v = (r, v')"
  shows "held v' ns \<subseteq> held v ns \<and> held v ns - group_ids groups ns \<subseteq> held v' ns
    \<and> (\<forall>n. r = Inr n \<longrightarrow> held v' ns = held v ns - group_ids groups ns)"
  using assms(2)
proof (induction groups arbitrary: v r)
  case (Cons g groups)
  obtain k ids where g: "g = (k, ids)" by fastforce
  obtain r1 v1 where one: "index_delete_ids px k ids v = (r1, v1)" by fastforce
  note eff = index_delete[OF assms(1) one, of ns]
  show ?case
  proof (cases r1)
    case (Inl e)
    then show ?thesis using Cons.prems one eff g by (auto split: if_splits)
  next
    case (Inr u)
    then obtain r2 where rest: "delete_groups px groups v1 = (r2, v')" and r: "r = Inr n \<Longrightarrow> \<exists>m. r2 = Inr m" for n
      using Cons.prems one g by (cases "delete_groups px groups v1") (auto split: sum.splits)
    note ih = Cons.IH[OF rest]
    have gone: "held v1 k \<inter> set ids = {}" using index_delete[OF assms(1) one, of k] Inr by simp
    have sub: "held v' ns \<subseteq> held v1 ns" "held v1 ns - group_ids groups ns \<subseteq> held v' ns"
        "held v1 ns \<subseteq> held v ns" "held v ns - (if ns = k then set ids else {}) \<subseteq> held v1 ns"
      using ih eff by simp_all
    have "held v' ns = held v ns - group_ids (g # groups) ns" if "r = Inr n" for n
    proof -
      have "held v' ns = held v1 ns - group_ids groups ns" using r[OF that] ih by blast
      then show ?thesis using sub(3,4) gone g by (cases "k = ns") auto
    qed
    moreover have "held v ns - group_ids (g # groups) ns \<subseteq> held v' ns" using sub(2,4) g by (cases "k = ns") auto
    ultimately show ?thesis using sub(1,3) by blast
  qed
qed auto

subsection \<open>The index follows the records\<close>

text \<open>Every live, synced record has its vector, and every vector belongs to a record.\<close>

definition index_matches :: "memory_row list \<Rightarrow> (string \<Rightarrow> string set) \<Rightarrow> bool" where
  "index_matches rows h \<longleftrightarrow> (\<forall>r \<in> set rows. live r \<and> mr_synced_at r \<noteq> None \<longrightarrow> mr_vector_id r \<in> h (mr_namespace r))
     \<and> (\<forall>ns. h ns \<subseteq> mr_vector_id ` {r \<in> set rows. mr_namespace r = ns})"

definition memory_ok :: "memory_row list \<Rightarrow> (string \<Rightarrow> string set) \<Rightarrow> bool" where
  "memory_ok rows h \<longleftrightarrow> records_ok rows \<and> index_matches rows h"

text \<open>What a change of a stored record may not change.\<close>

definition same_keys :: "memory_row \<Rightarrow> memory_row \<Rightarrow> bool" where
  "same_keys r q \<longleftrightarrow> mr_id q = mr_id r \<and> mr_vector_id q = mr_vector_id r \<and> mr_namespace q = mr_namespace r
     \<and> mr_owner q = mr_owner r \<and> mr_kind q = mr_kind r \<and> mr_sha q = mr_sha r \<and> (live q \<longrightarrow> live r)"

lemma vectors_of_map:
  assumes "\<And>r. mr_vector_id (f r) = mr_vector_id r \<and> mr_namespace (f r) = mr_namespace r"
  shows "mr_vector_id ` {r \<in> set (map f rows). mr_namespace r = ns} = mr_vector_id ` {r \<in> set rows. mr_namespace r = ns}"
proof -
  have "{r \<in> set (map f rows). mr_namespace r = ns} = f ` {r \<in> set rows. mr_namespace r = ns}" using assms by auto
  then show ?thesis using assms by (simp add: image_image)
qed

lemma memory_ok_map:
  assumes ok: "memory_ok rows h" and keys: "\<And>r. same_keys r (f r)" and grows: "\<And>ns. h ns \<subseteq> h' ns"
    and bound: "\<And>ns. h' ns \<subseteq> mr_vector_id ` {r \<in> set rows. mr_namespace r = ns}"
    and synced: "\<And>r. r \<in> set rows \<Longrightarrow> live (f r) \<Longrightarrow> mr_synced_at (f r) \<noteq> None \<Longrightarrow> mr_synced_at r = None \<Longrightarrow>
        mr_vector_id r \<in> h' (mr_namespace r)"
  shows "memory_ok (map f rows) h'"
proof -
  have k: "mr_id (f r) = mr_id r" "mr_vector_id (f r) = mr_vector_id r" "mr_namespace (f r) = mr_namespace r"
      "mr_owner (f r) = mr_owner r" "mr_kind (f r) = mr_kind r" "mr_sha (f r) = mr_sha r" "live (f r) \<Longrightarrow> live r" for r
    using keys[of r] by (simp_all add: same_keys_def)
  have "records_ok (map f rows)"
    by (rule records_ok_map) (use ok k in \<open>simp_all add: memory_ok_def\<close>)
  moreover have "mr_vector_id (f r) \<in> h' (mr_namespace (f r))"
    if "r \<in> set rows" "live (f r)" "mr_synced_at (f r) \<noteq> None" for r
  proof (cases "mr_synced_at r = None")
    case False
    then have "mr_vector_id r \<in> h (mr_namespace r)" using ok that(1) k(7)[OF that(2)] by (auto simp: memory_ok_def index_matches_def)
    then show ?thesis using grows k by auto
  qed (use synced[OF that] k in simp)
  moreover have "h' ns \<subseteq> mr_vector_id ` {r \<in> set (map f rows). mr_namespace r = ns}" for ns
    using bound[of ns] vectors_of_map[of f rows ns] k by simp
  ultimately show ?thesis by (auto simp: memory_ok_def index_matches_def)
qed

lemma memory_ok_bound: "memory_ok rows h \<Longrightarrow> h ns \<subseteq> mr_vector_id ` {r \<in> set rows. mr_namespace r = ns}"
  by (simp add: memory_ok_def index_matches_def)

lemma memory_ok_id: "memory_ok rows h \<Longrightarrow> r \<in> set rows \<Longrightarrow> q \<in> set rows \<Longrightarrow> mr_id r = mr_id q \<Longrightarrow> r = q"
  by (auto simp: memory_ok_def records_ok_def distinct_map inj_on_def)

lemma memory_ok_vector: "memory_ok rows h \<Longrightarrow> r \<in> set rows \<Longrightarrow> q \<in> set rows \<Longrightarrow> mr_vector_id r = mr_vector_id q \<Longrightarrow> r = q"
  by (auto simp: memory_ok_def records_ok_def distinct_map inj_on_def)

lemma memory_ok_grow:
  assumes "memory_ok rows h" and "\<And>ns. h ns \<subseteq> h' ns" and "\<And>ns. h' ns \<subseteq> mr_vector_id ` {r \<in> set rows. mr_namespace r = ns}"
  shows "memory_ok rows h'"
  using memory_ok_map[OF assms(1) _ assms(2,3), of "\<lambda>r. r"] by (simp add: same_keys_def)

text \<open>Records and vectors that leave.\<close>

lemma memory_ok_shrink:
  assumes ok: "memory_ok rows h"
    and keep: "\<And>r. r \<in> set rows \<Longrightarrow> P r \<Longrightarrow> live r \<Longrightarrow> mr_vector_id r \<in> h (mr_namespace r) \<Longrightarrow> mr_vector_id r \<in> h' (mr_namespace r)"
    and sub: "\<And>ns. h' ns \<subseteq> h ns" and gone: "\<And>r. r \<in> set rows \<Longrightarrow> \<not> P r \<Longrightarrow> mr_vector_id r \<notin> h' (mr_namespace r)"
  shows "memory_ok (filter P rows) h'"
proof -
  have "h' ns \<subseteq> mr_vector_id ` {r \<in> set (filter P rows). mr_namespace r = ns}" for ns
  proof
    fix i assume i: "i \<in> h' ns"
    then obtain r where r: "r \<in> set rows" "mr_namespace r = ns" "i = mr_vector_id r"
      using sub memory_ok_bound[OF ok, of ns] by blast
    then have "P r" using gone i by blast
    then show "i \<in> mr_vector_id ` {r \<in> set (filter P rows). mr_namespace r = ns}" using r by auto
  qed
  then show ?thesis using ok keep records_ok_filter[of rows P] by (auto simp: memory_ok_def index_matches_def)
qed

lemma sync_record_held:
  assumes "pinecone_ok px held" and "sync_record px embedding message clock r v = (res, v')"
  shows "held v ns \<subseteq> held v' ns" and "held v' ns \<subseteq> held v ns \<union> (if mr_namespace r = ns then {mr_vector_id r} else {})"
    and "res = Inr q \<Longrightarrow> same_keys r q \<and> (mr_synced_at q \<noteq> None \<longrightarrow> mr_synced_at r \<noteq> None \<or> mr_vector_id r \<in> held v' (mr_namespace r))"
proof -
  have "held v ns \<subseteq> held v' ns \<and> held v' ns \<subseteq> held v ns \<union> (if mr_namespace r = ns then {mr_vector_id r} else {})
    \<and> (\<forall>q. res = Inr q \<longrightarrow> same_keys r q \<and> (mr_synced_at q \<noteq> None \<longrightarrow> mr_synced_at r \<noteq> None \<or> mr_vector_id r \<in> held v' (mr_namespace r)))"
  proof (cases "embedding (mr_content r)")
    case (Inl e)
    then show ?thesis using assms(2) by (auto simp: sync_record_def same_keys_def live_def split: if_splits)
  next
    case (Inr xs)
    let ?records = "[\<lparr>vr_id = mr_vector_id r, vr_values = xs, vr_metadata = memory_metadata r\<rparr>]"
    obtain r1 v1 where one: "px_upsert px ?records (mr_namespace r) v = (r1, v1)" by fastforce
    have "v' = v1" using Inr one assms(2) by (auto simp: sync_record_def index_upsert_def split: sum.splits if_splits)
    moreover have "same_keys r q \<and> (mr_synced_at q \<noteq> None \<longrightarrow> mr_synced_at r \<noteq> None \<or> r1 = Inr ())" if "res = Inr q" for q
      using that Inr one assms(2)
      by (auto simp: sync_record_def index_upsert_def same_keys_def live_def split: sum.splits if_splits)
    ultimately show ?thesis using pinecone_upsert(1,2)[OF assms(1) one, of ns] pinecone_upsert(3)[OF assms(1) one] by (auto split: if_splits)
  qed
  then show "held v ns \<subseteq> held v' ns" and "held v' ns \<subseteq> held v ns \<union> (if mr_namespace r = ns then {mr_vector_id r} else {})"
    and "res = Inr q \<Longrightarrow> same_keys r q \<and> (mr_synced_at q \<noteq> None \<longrightarrow> mr_synced_at r \<noteq> None \<or> mr_vector_id r \<in> held v' (mr_namespace r))"
    by blast+
qed

lemma write_row_eq:
  assumes ok: "memory_ok rows h" and r: "r \<in> set rows" and keys: "same_keys r q"
  shows "write_row q rows = map (\<lambda>p. if p = r then q else p) rows"
proof -
  have only: "p = r" if "p \<in> set rows" "mr_id p = mr_id q" for p
    using that memory_ok_id[OF ok that(1) r] keys by (simp add: same_keys_def)
  show ?thesis
    unfolding write_row_def by (rule map_cong[OF refl]) (use only keys in \<open>auto simp: same_keys_def\<close>)
qed

lemma write_row_keeps:
  assumes ok: "memory_ok rows h" and r: "r \<in> set rows" and keys: "same_keys r q"
    and synced: "mr_synced_at q \<noteq> None \<longrightarrow> mr_synced_at r \<noteq> None \<or> mr_vector_id r \<in> h' (mr_namespace r)"
    and held: "\<And>ns. h ns \<subseteq> h' ns" "\<And>ns. h' ns \<subseteq> h ns \<union> (if mr_namespace r = ns then {mr_vector_id r} else {})"
  shows "memory_ok (write_row q rows) h'"
proof -
  note rows = write_row_eq[OF ok r keys]
  have bound: "h' ns \<subseteq> mr_vector_id ` {r \<in> set rows. mr_namespace r = ns}" for ns
    using held(2)[of ns] memory_ok_bound[OF ok, of ns] r by (auto split: if_splits)
  show ?thesis unfolding rows
  proof (rule memory_ok_map[OF ok _ held(1) bound])
    show "same_keys p (if p = r then q else p)" for p using keys by (simp add: same_keys_def)
    show "mr_vector_id p \<in> h' (mr_namespace p)"
      if "mr_synced_at (if p = r then q else p) \<noteq> None" "mr_synced_at p = None" for p
      using that synced by (cases "p = r") auto
  qed
qed

lemma write_row_others: "p \<in> set rows \<Longrightarrow> mr_id p \<noteq> mr_id q \<Longrightarrow> p \<in> set (write_row q rows)"
  by (auto simp: write_row_def image_iff intro!: bexI[of _ p])

lemma sync_records_effect:
  assumes px: "pinecone_ok px held" and "sync_records px embedding message clock batch rows v = (res, v')"
    and "memory_ok rows (held v)" and "set batch \<subseteq> set rows" and "distinct (map mr_id batch)"
  shows "(\<forall>ns. held v ns \<subseteq> held v' ns \<and> held v' ns \<subseteq> mr_vector_id ` {r \<in> set rows. mr_namespace r = ns})
    \<and> (\<forall>rows'. res = Inr rows' \<longrightarrow> memory_ok rows' (held v') \<and> map mr_id rows' = map mr_id rows)"
  using assms(2-)
proof (induction batch arbitrary: rows v)
  case Nil
  then show ?case by (auto dest: memory_ok_bound)
next
  case (Cons r batch)
  obtain r1 v1 where one: "sync_record px embedding message clock r v = (r1, v1)" by fastforce
  note eff = sync_record_held[OF px one]
  have r: "r \<in> set rows" using Cons.prems by simp
  have bound: "held v1 ns \<subseteq> mr_vector_id ` {r \<in> set rows. mr_namespace r = ns}" for ns
    using eff(2)[of ns] memory_ok_bound[OF Cons.prems(2), of ns] r by (auto split: if_splits)
  show ?case
  proof (cases r1)
    case (Inl e)
    then show ?thesis using Cons.prems(1) one eff bound by auto
  next
    case (Inr q)
    then have rest: "sync_records px embedding message clock batch (write_row q rows) v1 = (res, v')" using Cons.prems(1) one by simp
    have keys: "same_keys r q" using eff(3)[OF Inr] by simp
    have ok: "memory_ok (write_row q rows) (held v1)"
      by (rule write_row_keeps[OF Cons.prems(2) r keys]) (use eff(1,2) eff(3)[OF Inr] in auto)
    have id: "mr_id q = mr_id r" using keys by (simp add: same_keys_def)
    have sub: "set batch \<subseteq> set (write_row q rows)"
    proof
      fix x assume x: "x \<in> set batch"
      then have "mr_id x \<noteq> mr_id q" using Cons.prems(4) id by (auto simp: image_iff)
      then show "x \<in> set (write_row q rows)" using x Cons.prems(3) by (auto intro: write_row_others)
    qed
    have ns: "mr_vector_id ` {p \<in> set (write_row q rows). mr_namespace p = ns} = mr_vector_id ` {p \<in> set rows. mr_namespace p = ns}" for ns
      unfolding write_row_eq[OF Cons.prems(2) r keys] by (rule vectors_of_map) (use keys in \<open>simp add: same_keys_def\<close>)
    have ids: "map mr_id (write_row q rows) = map mr_id rows" by (simp add: write_row_def)
    note ih = Cons.IH[OF rest ok sub] 
    show ?thesis using ih Cons.prems(4) eff(1) ids unfolding ns by (auto; blast)
  qed
qed

lemma batch_member: "r \<in> set (take n (sort_key k (filter P rows))) \<Longrightarrow> r \<in> set rows \<and> P r"
  by (drule set_take_sub) simp

lemma distinct_batch:
  assumes "distinct (map f rows)"
  shows "distinct (map f (take n (sort_key k (filter P rows))))"
proof -
  have "inj_on f (set rows)" "distinct rows" using assms by (auto simp: distinct_map)
  then show ?thesis unfolding distinct_map
    by (auto intro!: distinct_take elim: inj_on_subset dest: batch_member simp: subset_iff)
qed

lemma sync_once_keeps:
  assumes "pinecone_ok px held" and "memory_ok rows (held v)" and "sync_once px embedding message clock n (rows, v) = (res, rows', v')"
  shows "memory_ok rows' (held v')"
proof -
  obtain r1 v1 where one: "sync_records px embedding message clock (unsynced_batch n rows) rows v = (r1, v1)" by fastforce
  have "set (unsynced_batch n rows) \<subseteq> set rows" unfolding unsynced_batch_def by (rule subsetI) (drule batch_member, simp)
  moreover have "distinct (map mr_id (unsynced_batch n rows))"
    using assms(2) unfolding unsynced_batch_def by (auto simp: memory_ok_def records_ok_def intro: distinct_batch)
  ultimately have eff: "\<And>ns. held v ns \<subseteq> held v1 ns" "\<And>ns. held v1 ns \<subseteq> mr_vector_id ` {r \<in> set rows. mr_namespace r = ns}"
      "\<And>rows'. r1 = Inr rows' \<Longrightarrow> memory_ok rows' (held v1)"
    using sync_records_effect[OF assms(1) one assms(2)] by blast+
  show ?thesis using assms(3) one eff(3) memory_ok_grow[OF assms(2) eff(1,2)]
    by (auto simp: sync_once_def Let_def split: sum.splits)
qed

lemma soft_delete_keeps:
  assumes "memory_ok rows h" and "soft_delete_expired now n rows = (k, rows')"
  shows "memory_ok rows' h"
proof -
  let ?gone = "mr_id ` set (take n (sort_key mr_created_at (filter (memory_expired now) rows)))"
  have "rows' = map (\<lambda>r. if mr_id r \<in> ?gone then r\<lparr>mr_deleted_at := Some now\<rparr> else r) rows"
    using assms(2) by (simp add: soft_delete_expired_def Let_def)
  moreover have "memory_ok (map (\<lambda>r. if mr_id r \<in> ?gone then r\<lparr>mr_deleted_at := Some now\<rparr> else r) rows) h"
    by (rule memory_ok_map[OF assms(1) _ subset_refl memory_ok_bound[OF assms(1)]]) (simp_all add: same_keys_def live_def split: if_splits)
  ultimately show ?thesis by simp
qed

text \<open>Deleting a batch: the vectors of the records go before the records.\<close>

lemma vectors_deleted:
  assumes px: "pinecone_ok px held" and ok: "memory_ok rows (held v)" and sub: "set batch \<subseteq> set rows"
    and del: "delete_groups px (grouped mr_namespace mr_vector_id batch) v = (Inr k, v')"
  shows "memory_ok (filter (\<lambda>r. r \<notin> set batch) rows) (held v')"
    and "held v' ns = held v ns - mr_vector_id ` {r \<in> set batch. mr_namespace r = ns}"
proof -
  have eff: "held v' ns = held v ns - mr_vector_id ` {r \<in> set batch. mr_namespace r = ns}" for ns
    using delete_groups_effect[OF px del, of ns] by (simp add: group_ids_grouped)
  then show "held v' ns = held v ns - mr_vector_id ` {r \<in> set batch. mr_namespace r = ns}" .
  have "mr_vector_id r \<in> held v' (mr_namespace r)"
    if "r \<in> set rows" "r \<notin> set batch" "mr_vector_id r \<in> held v (mr_namespace r)" for r
    using that memory_ok_vector[OF ok that(1)] sub eff by blast
  then show "memory_ok (filter (\<lambda>r. r \<notin> set batch) rows) (held v')"
    by (intro memory_ok_shrink[OF ok]) (auto simp: eff)
qed

lemma vectors_partly_deleted:
  assumes px: "pinecone_ok px held" and ok: "memory_ok rows (held v)"
    and sub: "set batch \<subseteq> {r \<in> set rows. \<not> live r}"
    and del: "delete_groups px (grouped mr_namespace mr_vector_id batch) v = (res, v')"
  shows "memory_ok rows (held v')"
proof -
  have eff: "held v' ns \<subseteq> held v ns" "held v ns - mr_vector_id ` {r \<in> set batch. mr_namespace r = ns} \<subseteq> held v' ns" for ns
    using delete_groups_effect[OF px del, of ns] by (simp_all add: group_ids_grouped)
  have "mr_vector_id r \<in> held v' (mr_namespace r)"
    if "r \<in> set rows" "live r" "mr_vector_id r \<in> held v (mr_namespace r)" for r
    using that memory_ok_vector[OF ok that(1)] sub eff by blast
  then have "memory_ok (filter (\<lambda>_. True) rows) (held v')"
    by (intro memory_ok_shrink[OF ok]) (use eff in auto)
  then show ?thesis by simp
qed

lemma delete_memories_batch:
  assumes ok: "memory_ok rows h" and sub: "set batch \<subseteq> set rows"
    and del: "delete_memories (mr_id ` set batch) candidates rows = Inr rows'"
  shows "rows' = filter (\<lambda>r. r \<notin> set batch) rows"
proof -
  have "mr_id r \<in> mr_id ` set batch \<longleftrightarrow> r \<in> set batch" if "r \<in> set rows" for r
    using memory_ok_id[OF ok that] sub by blast
  then show ?thesis using del by (auto simp: delete_memories_def split: if_splits intro!: filter_cong)
qed

lemma group_ids_Union: "set (concat (map snd groups)) = (\<Union>ns. group_ids groups ns)"
  by (auto simp: group_ids_def)

lemma ids_of_groups: "set (concat (map snd (grouped key val rows))) = val ` set rows"
  unfolding group_ids_Union group_ids_grouped by auto

lemma delete_soft_deleted_keeps:
  assumes px: "pinecone_ok px held" and ok: "memory_ok rows (held v)"
    and run: "delete_soft_deleted_batch px n candidates (rows, v) = (res, rows', v')"
  shows "memory_ok rows' (held v')"
proof (cases "soft_deleted_batch n rows = []")
  case False
  define batch where "batch = soft_deleted_batch n rows"
  define ids where "ids = concat (map snd (grouped mr_namespace mr_id batch))"
  have sub: "set batch \<subseteq> {r \<in> set rows. \<not> live r}"
    unfolding batch_def soft_deleted_batch_def by (rule subsetI) (drule batch_member, simp)
  obtain r1 v1 where del: "delete_groups px (grouped mr_namespace mr_vector_id batch) v = (r1, v1)" by fastforce
  have ids: "set ids = mr_id ` set batch" unfolding ids_def by (rule ids_of_groups)
  then have ne: "ids \<noteq> []" using False batch_def by auto
  note part = vectors_partly_deleted[OF px ok sub del]
  have run': "(case r1 of Inl e \<Rightarrow> (Inl e, rows, v1)
      | Inr vectors \<Rightarrow> (case delete_memories (mr_id ` set batch) candidates rows of
            Inl e \<Rightarrow> (Inl e, rows, v1) | Inr rows1 \<Rightarrow> (Inr (length ids, vectors), rows1, v1))) = (res, rows', v')"
    using run False del ne ids
    by (simp add: delete_soft_deleted_batch_def Let_def batch_def[symmetric] ids_def[symmetric] split: sum.splits)
  show ?thesis
  proof (cases "\<exists>k rows1. r1 = Inr k \<and> delete_memories (mr_id ` set batch) candidates rows = Inr rows1")
    case True
    then obtain k rows1 where both: "r1 = Inr k" "delete_memories (mr_id ` set batch) candidates rows = Inr rows1" by blast
    have sub': "set batch \<subseteq> set rows" using sub by auto
    have "rows1 = filter (\<lambda>r. r \<notin> set batch) rows" by (rule delete_memories_batch[OF ok sub' both(2)])
    then show ?thesis using run' both vectors_deleted(1)[OF px ok sub' del[unfolded both(1)]] by simp
  next
    case False
    then have "rows' = rows" "v' = v1" using run' by (auto split: sum.splits)
    then show ?thesis using part by simp
  qed
qed (use run ok in \<open>simp add: delete_soft_deleted_batch_def\<close>)

lemma reconcile_effect:
  assumes "pinecone_ok px held" and "reconcile px seen namespaces v = (res, v')"
  shows "held v' ns \<subseteq> held v ns \<and> held v ns \<inter> active_ids seen ns \<subseteq> held v' ns \<and> (ns \<notin> set namespaces \<longrightarrow> held v' ns = held v ns)
    \<and> (\<forall>n. res = Inr n \<longrightarrow> ns \<in> set namespaces \<longrightarrow> held v' ns = held v ns \<inter> active_ids seen ns)"
  using assms(2)
proof (induction namespaces arbitrary: v res)
  case (Cons k namespaces)
  show ?case
  proof (cases "px_list px k v")
    case (Inl e)
    then show ?thesis using Cons.prems by (auto simp: index_list_ids_def)
  next
    case (Inr pages)
    define orphans where "orphans = sort (filter (\<lambda>i. i \<notin> active_ids seen k) (remdups (concat pages)))"
    obtain r1 v1 where one: "index_delete_ids px k orphans v = (r1, v1)" by fastforce
    have run: "(case r1 of Inl e \<Rightarrow> (Inl e, v1) | Inr _ \<Rightarrow> (case reconcile px seen namespaces v1 of
        (Inl e, v2) \<Rightarrow> (Inl e, v2) | (Inr n, v2) \<Rightarrow> (Inr (length orphans + n), v2))) = (res, v')"
      using Cons.prems Inr one
      by (cases "orphans = []") (auto simp: index_list_ids_def orphans_def[symmetric] Let_def index_delete_ids_def)
    have listed: "set orphans = held v k - active_ids seen k"
      using pinecone_list[OF assms(1) Inr] by (auto simp: orphans_def)
    note del = index_delete[OF assms(1) one]
    have first: "held v1 ns \<subseteq> held v ns" "held v ns \<inter> active_ids seen ns \<subseteq> held v1 ns" "ns \<noteq> k \<Longrightarrow> held v1 ns = held v ns"
        "r1 = Inr () \<Longrightarrow> held v1 k = held v k \<inter> active_ids seen k"
      using del[of ns] del[of k] listed by (auto split: if_splits)
    show ?thesis
    proof (cases r1)
      case (Inl e)
      then show ?thesis using run first by auto
    next
      case (Inr u)
      then obtain r2 where rest: "reconcile px seen namespaces v1 = (r2, v')" and r: "res = Inr n \<Longrightarrow> \<exists>m. r2 = Inr m" for n
        using run by (cases "reconcile px seen namespaces v1") (auto split: sum.splits)
      have "held v' ns = held v ns \<inter> active_ids seen ns" if "res = Inr n" "ns \<in> set (k # namespaces)" for n
        using r[OF that(1)] that(2) Cons.IH[OF rest] first Inr by (cases "ns = k"; cases "ns \<in> set namespaces") auto
      then show ?thesis using Cons.IH[OF rest] first by (cases "ns = k") auto
    qed
  qed
qed auto

lemma reconcile_keeps:
  assumes px: "pinecone_ok px held" and ok: "memory_ok rows (held v)" and run: "reconcile px rows namespaces v = (res, v')"
  shows "memory_ok rows (held v')"
proof -
  note eff = reconcile_effect[OF px run]
  have "mr_vector_id r \<in> held v' (mr_namespace r)" if "r \<in> set rows" "live r" "mr_vector_id r \<in> held v (mr_namespace r)" for r
  proof -
    have "mr_vector_id r \<in> active_ids rows (mr_namespace r)" using that by (auto simp: active_ids_def)
    then show ?thesis using eff[of "mr_namespace r"] that(3) by blast
  qed
  then have "memory_ok (filter (\<lambda>_. True) rows) (held v')"
    by (intro memory_ok_shrink[OF ok]) (use eff in auto)
  then show ?thesis by simp
qed

text \<open>Recording adds a row that has no vector yet.\<close>

lemma insert_memory_ok:
  assumes ok: "memory_ok rows h" and ins: "insert_memory r rows = Inr rows'" and new: "mr_synced_at r = None"
  shows "memory_ok rows' h"
proof -
  have "rows' = rows @ [r]" using ins by (simp add: insert_memory_Inr)
  moreover have "records_ok rows'" using insert_memory_keeps[OF _ ins] ok by (simp add: memory_ok_def)
  ultimately show ?thesis using ok new by (fastforce simp: memory_ok_def index_matches_def)
qed

lemma record_memory_keeps: "memory_ok rows h \<Longrightarrow> record_memory p i now w rows = Inr (j, rows') \<Longrightarrow> memory_ok rows' h"
  by (auto simp: record_memory_def rbind_Inr_iff rmap_Inr_iff memory_row_of_def intro: insert_memory_ok)

lemma merge_keeps: "memory_ok rows h \<Longrightarrow> memory_ok (merge_turn_ids i turns rows) h"
  unfolding merge_turn_ids_def
  by (rule memory_ok_map[OF _ _ subset_refl memory_ok_bound]) (simp_all add: same_keys_def live_def split: if_splits)

lemma record_fact_cases:
  assumes "record_or_get_user_fact p i now w seen rows = Inr (jc, rows')"
  shows "rows' = rows \<or> (\<exists>j. rows' = merge_turn_ids j (mw_turn_ids w) rows)
      \<or> (\<exists>s. insert_memory (memory_row_of p i now (strip (mw_content w)) (content_hash p (mw_content w)) s w) rows = Inr rows')"
proof (cases "existing_fact p w seen")
  case (Some r)
  then show ?thesis using assms by (auto simp: record_or_get_user_fact_def split: if_splits)
next
  case None
  then obtain s where ns: "namespace_for p (mw_kind w) = Inr s"
    using assms by (cases "namespace_for p (mw_kind w)") (auto simp: record_or_get_user_fact_def split: if_splits)
  show ?thesis
  proof (cases "insert_memory (memory_row_of p i now (strip (mw_content w)) (content_hash p (mw_content w)) s w) rows")
    case (Inl e)
    then show ?thesis using None ns assms
      by (cases "existing_fact p w rows") (auto simp: record_or_get_user_fact_def split: if_splits)
  next
    case (Inr new)
    then have "rows' = new" using None ns assms by (auto simp: record_or_get_user_fact_def split: if_splits)
    then show ?thesis using Inr by blast
  qed
qed

lemma record_fact_keeps:
  "memory_ok rows h \<Longrightarrow> record_or_get_user_fact p i now w seen rows = Inr (jc, rows') \<Longrightarrow> memory_ok rows' h"
  using record_fact_cases[of p i now w seen rows jc rows'] by (auto intro: insert_memory_ok merge_keeps simp: memory_row_of_def)

lemma purge_once_keeps:
  assumes px: "pinecone_ok px held" and ok: "memory_ok rows (held v)"
    and run: "purge_once px n now (rows, candidates, v) = (res, rows', candidates', v')"
  shows "memory_ok rows' (held v')"
proof -
  obtain k rows1 where soft: "soft_delete_expired now n rows = (k, rows1)" by fastforce
  obtain r2 rows2 v2 where hard: "delete_soft_deleted_batch px n candidates (rows1, v) = (r2, rows2, v2)" using prod_cases3 by blast
  have "rows' = rows2 \<and> v' = v2" using run soft hard
    by (simp add: purge_once_def split: sum.splits prod.splits)
  then show ?thesis using delete_soft_deleted_keeps[OF px soft_delete_keeps[OF ok soft] hard] by simp
qed

subsection \<open>Any order of the jobs\<close>

text \<open>The transactions that touch the records and the index, each as one event; a failed event leaves what it
  did before the failure.\<close>

datatype memory_event =
    Record_Event uuid datetime memory_write
  | Fact_Event uuid datetime memory_write
  | Sync_Event "uuid \<Rightarrow> datetime" nat
  | Retention_Event nat datetime
  | Reconcile_Event "string list"

type_synonym 'v memory_state = "memory_row list \<times> candidate_row list \<times> 'v"

fun memory_step ::
  "('e, 'v) pinecone \<Rightarrow> (string \<Rightarrow> 'e result) \<Rightarrow> (exc \<Rightarrow> string) \<Rightarrow> memory_repository \<Rightarrow> 'v memory_state \<Rightarrow> memory_event \<Rightarrow> 'v memory_state" where
  "memory_step px embedding message p (rows, cs, v) (Record_Event i now w) =
     (case record_memory p i now w rows of Inl _ \<Rightarrow> (rows, cs, v) | Inr (_, rows') \<Rightarrow> (rows', cs, v))"
| "memory_step px embedding message p (rows, cs, v) (Fact_Event i now w) =
     (case record_or_get_user_fact p i now w rows rows of Inl _ \<Rightarrow> (rows, cs, v) | Inr (_, rows') \<Rightarrow> (rows', cs, v))"
| "memory_step px embedding message p (rows, cs, v) (Sync_Event clock n) =
     (case sync_once px embedding message clock n (rows, v) of (_, rows', v') \<Rightarrow> (rows', cs, v'))"
| "memory_step px embedding message p (rows, cs, v) (Retention_Event n now) =
     (case purge_once px n now (rows, cs, v) of (_, rows', cs', v') \<Rightarrow> (rows', cs', v'))"
| "memory_step px embedding message p (rows, cs, v) (Reconcile_Event namespaces) =
     (case reconcile px rows namespaces v of (_, v') \<Rightarrow> (rows, cs, v'))"

lemma memory_step_keeps:
  assumes px: "pinecone_ok px held" and "memory_ok rows (held v)"
    and "memory_step px embedding message p (rows, cs, v) e = (rows', cs', v')"
  shows "memory_ok rows' (held v')"
proof (cases e)
  case (Record_Event i now w)
  then show ?thesis using assms by (auto split: sum.splits dest: record_memory_keeps)
next
  case (Fact_Event i now w)
  then show ?thesis using assms by (auto split: sum.splits dest: record_fact_keeps)
next
  case (Sync_Event clock n)
  then show ?thesis using assms sync_once_keeps[OF px assms(2)] by (auto split: prod.splits)
next
  case (Retention_Event n now)
  then show ?thesis using assms purge_once_keeps[OF px assms(2)] by (auto split: prod.splits)
next
  case (Reconcile_Event namespaces)
  then show ?thesis using assms reconcile_keeps[OF px assms(2)] by (auto split: prod.splits)
qed

lemma memory_steps_keep:
  assumes px: "pinecone_ok px held"
  shows "memory_ok rows (held v) \<Longrightarrow> foldl (memory_step px embedding message p) (rows, cs, v) es = (rows', cs', v')
    \<Longrightarrow> memory_ok rows' (held v')"
proof (induction es arbitrary: rows cs v)
  case (Cons e es)
  obtain rows1 cs1 v1 where one: "memory_step px embedding message p (rows, cs, v) e = (rows1, cs1, v1)" using prod_cases3 by blast
  show ?case using Cons.IH[OF memory_step_keeps[OF px Cons.prems(1) one]] Cons.prems(2) one by simp
qed simp

text \<open>C24. The index follows the records: after any order of recordings, promotions, synchronisations, retention runs and
  reconciliations, with calls of the index that may fail half-way, every live record that is marked as synced has its
  vector in the index, every vector belongs to a record, and no fact of a user has two live records.\<close>

theorem index_follows_records:
  assumes "pinecone_ok px held" and "\<And>ns. held v0 ns = {}"
    and "foldl (memory_step px embedding message p) ([], [], v0) events = (rows, candidates, v)"
  shows "(\<forall>r \<in> set rows. live r \<and> mr_synced_at r \<noteq> None \<longrightarrow> mr_vector_id r \<in> held v (mr_namespace r))
    \<and> (\<forall>ns. \<forall>i \<in> held v ns. \<exists>r \<in> set rows. mr_vector_id r = i \<and> mr_namespace r = ns)
    \<and> (\<forall>r \<in> set rows. \<forall>q \<in> set rows. same_fact r q \<or> mr_vector_id r = mr_vector_id q \<longrightarrow> r = q)"
proof -
  have "memory_ok [] (held v0)" by (simp add: memory_ok_def records_ok_def index_matches_def assms(2))
  from memory_steps_keep[OF assms(1) this assms(3)] have ok: "memory_ok rows (held v)" .
  have "\<exists>r \<in> set rows. mr_vector_id r = i \<and> mr_namespace r = ns" if "i \<in> held v ns" for i ns
    using memory_ok_bound[OF ok, of ns] that by auto
  moreover have "r = q" if "r \<in> set rows" "q \<in> set rows" "same_fact r q \<or> mr_vector_id r = mr_vector_id q" for r q
    using that ok memory_ok_vector[OF ok that(1,2)] by (auto simp: memory_ok_def records_ok_def)
  ultimately show ?thesis using ok by (auto simp: memory_ok_def index_matches_def)
qed

text \<open>An index that keeps pairs of namespace and identifier, and an embedding.\<close>

definition sample_index :: "(nat, (string \<times> string) list) pinecone" where
  "sample_index = \<lparr>px_upsert = (\<lambda>records ns v. (Inr (), v @ map (\<lambda>r. (ns, vr_id r)) records)),
     px_query = (\<lambda>ns _ n _ v. Inr (take n (map snd (filter (\<lambda>e. fst e = ns) v)))),
     px_fetch = (\<lambda>ids ns v. Inr (filter (\<lambda>i. (ns, i) \<in> set v) ids)),
     px_list = (\<lambda>ns v. Inr [map snd (filter (\<lambda>e. fst e = ns) v)]),
     px_delete = (\<lambda>ids ns v. (Inr (), filter (\<lambda>e. \<not> (fst e = ns \<and> snd e \<in> set ids)) v))\<rparr>"

definition sample_held :: "(string \<times> string) list \<Rightarrow> string \<Rightarrow> string set" where
  "sample_held v ns = snd ` {e \<in> set v. fst e = ns}"

lemma sample_index_ok: "pinecone_ok sample_index sample_held"
proof -
  have "upsert_law sample_index sample_held" by (auto simp: upsert_law_def sample_index_def sample_held_def image_iff)
  moreover have "delete_law sample_index sample_held" by (auto simp: delete_law_def sample_index_def sample_held_def image_iff)
  moreover have "list_law sample_index sample_held" by (auto simp: list_law_def sample_index_def sample_held_def)
  ultimately show ?thesis by (simp add: pinecone_ok_def)
qed

definition sample_write :: memory_write where
  "sample_write = \<lparr>mw_kind = ''document_chunk'', mw_content = ''manual'', mw_owner = None, mw_site = None,
     mw_permissions = [], mw_turn_ids = [], mw_document = Some 9, mw_expires_at = None\<rparr>"

definition sample_events :: "memory_event list" where
  "sample_events = [Record_Event 1 0 sample_write, Sync_Event (\<lambda>_. 5) 10, Reconcile_Event [''documents'']]"

lemma active_ids_simps [simp]: "active_ids [] ns = {}"
    "active_ids (r # rows) ns = (if live r \<and> mr_namespace r = ns then insert (mr_vector_id r) (active_ids rows ns) else active_ids rows ns)"
  by (auto simp: active_ids_def)

lemma sample_memory:
  "foldl (memory_step sample_index (\<lambda>_. Inr 0) (\<lambda>_. '''') sample_repository) ([], [], []) sample_events
    = ([(memory_row_of sample_repository 1 0 ''manual'' ''manual'' ''documents'' sample_write)\<lparr>mr_synced_at := Some 5\<rparr>], [],
       [(''documents'', uuid_str 1)])"
  by (simp add: sample_events_def record_memory_def namespace_for_def insert_memory_def sample_repository_def sample_write_def
      sync_once_def unsynced_batch_def live_def memory_row_of_def sync_record_def index_upsert_def sample_index_def write_row_def
      index_list_ids_def)

theorem index_follows_records_witness:
  "\<exists>rows candidates v. foldl (memory_step sample_index (\<lambda>_. Inr 0) (\<lambda>_. '''') sample_repository) ([], [], []) sample_events = (rows, candidates, v)
    \<and> uuid_str 1 \<in> sample_held v ''documents'' \<and> uuid_str 2 \<notin> sample_held v ''documents''"
proof -
  from index_follows_records[OF sample_index_ok _ sample_memory] sample_memory show ?thesis
    by (auto simp: sample_held_def memory_row_of_def live_def sample_repository_def)
qed

text \<open>A reconciliation that read the records before another worker recorded and synchronised one removes its vector, and
  no later synchronisation puts it back: the record stays marked as synced.\<close>

lemma reconcile_races_sync:
  fixes r :: memory_row
  defines "r \<equiv> (memory_row_of sample_repository 1 0 ''manual'' ''manual'' ''documents'' sample_write)\<lparr>mr_synced_at := Some 5\<rparr>"
  shows "reconcile sample_index [] [''documents''] [(''documents'', uuid_str 1)] = (Inr 1, [])"
    and "live r \<and> mr_synced_at r = Some 5" and "unsynced_batch n [r] = []"
  by (simp_all add: r_def index_list_ids_def sample_index_def index_delete_ids_def live_def memory_row_of_def
      unsynced_batch_def)

text \<open>The backoff of the 1024th failure overflows, and the exception leaves the loop.\<close>

lemma backoff_stops_sync:
  assumes "embedding (mr_content r) = Inl e" and "1023 \<le> mr_retry_count r" and "unsynced_batch n rows = r # rest"
  shows "sync_once px embedding message clock n (rows, v) = (Inl overflow_error, rows, v)"
  using assms by (simp add: sync_once_def sync_record_def backoff_fails_def)

subsection \<open>Complete erasure\<close>

definition owned_ids :: "uuid \<Rightarrow> conversation_tables \<Rightarrow> uuid set" where
  "owned_ids u t = cv_id ` {r \<in> set (cvt_conversations t). cv_owner r = u}"

text \<open>The tables without a user.\<close>

definition tables_without :: "uuid \<Rightarrow> conversation_tables \<Rightarrow> conversation_tables \<Rightarrow> bool" where
  "tables_without u t t' \<longleftrightarrow> cvt_conversations t' = filter (\<lambda>r. cv_id r \<notin> owned_ids u t) (cvt_conversations t)
     \<and> cvt_turns t' = filter (\<lambda>r. tw_id r \<notin> tw_id ` {q \<in> set (cvt_turns t). tw_owner q = u} \<and> tw_conversation r \<notin> owned_ids u t) (cvt_turns t)
     \<and> cvt_evidence t' = filter (\<lambda>r. ew_conversation r \<notin> owned_ids u t) (cvt_evidence t)"

definition owned_threads :: "(8 word list \<Rightarrow> string) \<Rightarrow> uuid \<Rightarrow> conversation_tables \<Rightarrow> string set" where
  "owned_threads sha u t = affected_threads sha (map (Pair u) (sort (map cv_id (filter (\<lambda>r. cv_owner r = u) (cvt_conversations t)))))"

lemma set_owned: "set (map cv_id (filter (\<lambda>r. cv_owner r = u) (cvt_conversations t))) = owned_ids u t"
  by (simp add: owned_ids_def)

lemma erase_tables_effect:
  assumes saver: "saver_deletes adelete stored" and run: "erase_tables sha adelete True u matched k s = (res, s')"
  shows "case res of
      Inl _ \<Rightarrow> um_tables s' = um_tables s \<and> um_rows s' = um_rows s \<and> um_candidates s' = um_candidates s \<and> um_index s' = um_index s
    | Inr result \<Rightarrow> er_records result = length matched \<and> um_index s' = um_index s \<and> um_candidates s' = um_candidates s
        \<and> um_rows s' = filter (\<lambda>r. mr_id r \<notin> mr_id ` set matched) (um_rows s)
        \<and> stored (um_checkpoints s') = (\<lambda>t. if t \<in> owned_threads sha u (um_tables s) then None else stored (um_checkpoints s) t)
        \<and> tables_without u (um_tables s) (um_tables s')"
proof -
  define kept where "kept = (if matched = [] then Inr (um_rows s) else delete_memories (mr_id ` set matched) (um_candidates s) (um_rows s))"
  obtain r2 m2 where chk: "erase_checkpoints sha adelete
      (map (Pair u) (sort (map cv_id (filter (\<lambda>r. cv_owner r = u) (cvt_conversations (um_tables s)))))) (um_checkpoints s) = (r2, m2)" by fastforce
  note run' = run[unfolded erase_tables_def Let_def kept_def[symmetric] chk if_True prod.case]
  show ?thesis
  proof (cases kept; cases r2)
    fix rows x assume *: "kept = Inr rows" "r2 = Inr x"
    have rows: "rows = filter (\<lambda>r. mr_id r \<notin> mr_id ` set matched) (um_rows s)"
      using *(1) by (auto simp: kept_def delete_memories_def split: if_splits)
    have st: "stored m2 = (\<lambda>t. if t \<in> owned_threads sha u (um_tables s) then None else stored (um_checkpoints s) t)"
      using erase_checkpoints_stored[OF saver chk] *(2) by (auto simp: fun_eq_iff owned_threads_def)
    have turns: "set (map tw_id (filter (\<lambda>r. tw_owner r = u) (cvt_turns (um_tables s)))) = tw_id ` {q \<in> set (cvt_turns (um_tables s)). tw_owner q = u}"
      by simp
    show ?thesis using run' st rows unfolding * set_owned turns by (auto simp: tables_without_def)
  qed (use run' in auto)
qed

lemma erase_effect:
  assumes px: "pinecone_ok px held" and saver: "saver_deletes adelete stored"
    and run: "erase_user_memory sha adelete True px u s = (res, s')"
  defines "matched \<equiv> erasable u (um_tables s) (um_rows s)"
  shows "case res of Inl _ \<Rightarrow> um_tables s' = um_tables s \<and> um_rows s' = um_rows s \<and> um_candidates s' = um_candidates s
    | Inr result \<Rightarrow> er_records result = length matched \<and> um_candidates s' = um_candidates s
      \<and> (\<forall>ns. held (um_index s') ns = held (um_index s) ns - mr_vector_id ` {r \<in> set matched. mr_namespace r = ns})
      \<and> um_rows s' = filter (\<lambda>r. mr_id r \<notin> mr_id ` set matched) (um_rows s)
      \<and> stored (um_checkpoints s') = (\<lambda>t. if t \<in> owned_threads sha u (um_tables s) then None else stored (um_checkpoints s) t)
      \<and> tables_without u (um_tables s) (um_tables s')"
proof -
  obtain r1 v1 where del: "delete_groups px (grouped mr_namespace mr_vector_id matched) (um_index s) = (r1, v1)" by fastforce
  note run' = run[unfolded erase_user_memory_def Let_def matched_def[symmetric] del prod.case]
  show ?thesis
  proof (cases r1)
    case (Inr k)
    then have "erase_tables sha adelete True u matched k (s\<lparr>um_index := v1\<rparr>) = (res, s')" using run' by simp
    note eff = erase_tables_effect[OF saver this]
    have gone: "held v1 ns = held (um_index s) ns - mr_vector_id ` {r \<in> set matched. mr_namespace r = ns}" for ns
      using delete_groups_effect[OF px del, of ns] Inr by (simp add: group_ids_grouped)
    show ?thesis using eff gone by (cases res) (simp_all cong: if_cong)
  qed (use run' in auto)
qed

lemma owned_ids_iff:
  assumes "conversations_ok t" and "db_owner t c = Some w"
  shows "c \<in> owned_ids u t \<longleftrightarrow> w = u"
proof -
  obtain r where r: "r \<in> set (cvt_conversations t)" "cv_id r = c" "cv_owner r = w"
    using assms(2) by (auto simp: db_owner_def dest: find_conversation_Some)
  have "q = r" if "q \<in> set (cvt_conversations t)" "cv_id q = c" for q
    using that r assms(1) by (auto simp: conversations_ok_def tables_upto_def keys_distinct_def distinct_map inj_on_def)
  moreover have "c \<in> owned_ids u t \<longleftrightarrow> (\<exists>q \<in> set (cvt_conversations t). cv_id q = c \<and> cv_owner q = u)"
    by (auto simp: owned_ids_def)
  ultimately show ?thesis using r by metis
qed

lemma tables_without_owner:
  assumes ok: "conversations_ok t" and "tables_without u t t'"
  shows "cvt_conversations t' = filter (\<lambda>r. cv_owner r \<noteq> u) (cvt_conversations t)"
    and "cvt_turns t' = filter (\<lambda>r. tw_owner r \<noteq> u) (cvt_turns t)"
    and "cvt_evidence t' = filter (\<lambda>r. ew_owner r \<noteq> u) (cvt_evidence t)"
proof -
  note eqs = assms(2)[unfolded tables_without_def, THEN conjunct1] assms(2)[unfolded tables_without_def, THEN conjunct2, THEN conjunct1]
    assms(2)[unfolded tables_without_def, THEN conjunct2, THEN conjunct2]
  have keys: "inj_on cv_id (set (cvt_conversations t))" "inj_on tw_id (set (cvt_turns t))"
      and owned: "\<And>r. r \<in> set (cvt_turns t) \<Longrightarrow> db_owner t (tw_conversation r) = Some (tw_owner r)"
        "\<And>r. r \<in> set (cvt_evidence t) \<Longrightarrow> db_owner t (ew_conversation r) = Some (ew_owner r)"
    using ok by (auto simp: conversations_ok_def tables_upto_def keys_distinct_def distinct_map rows_owned_def evidence_owned_def)
  have "cv_id r \<notin> owned_ids u t \<longleftrightarrow> cv_owner r \<noteq> u" if "r \<in> set (cvt_conversations t)" for r
    using that keys(1) by (auto simp: owned_ids_def inj_on_def)
  then show "cvt_conversations t' = filter (\<lambda>r. cv_owner r \<noteq> u) (cvt_conversations t)"
    unfolding eqs by (intro filter_cong refl)
  have "tw_id r \<notin> tw_id ` {q \<in> set (cvt_turns t). tw_owner q = u} \<and> tw_conversation r \<notin> owned_ids u t \<longleftrightarrow> tw_owner r \<noteq> u"
    if "r \<in> set (cvt_turns t)" for r
    using that keys(2) owned_ids_iff[OF ok owned(1)[OF that], of u] by (auto simp: inj_on_def)
  then show "cvt_turns t' = filter (\<lambda>r. tw_owner r \<noteq> u) (cvt_turns t)"
    unfolding eqs by (intro filter_cong refl)
  have "ew_conversation r \<notin> owned_ids u t \<longleftrightarrow> ew_owner r \<noteq> u" if "r \<in> set (cvt_evidence t)" for r
    using owned_ids_iff[OF ok owned(2)[OF that], of u] by auto
  then show "cvt_evidence t' = filter (\<lambda>r. ew_owner r \<noteq> u) (cvt_evidence t)"
    unfolding eqs by (intro filter_cong refl)
qed

text \<open>A live record is about a user when the user owns it or it was drawn from a turn of the user.\<close>

definition about_user :: "uuid \<Rightarrow> conversation_tables \<Rightarrow> memory_row \<Rightarrow> bool" where
  "about_user u t r \<longleftrightarrow> live r \<and> (mr_owner r = Some u \<or> (\<exists>q \<in> set (cvt_turns t). tw_owner q = u \<and> tw_id q \<in> set (mr_turn_ids r)))"

lemma erasable_about: "erasable u t rows = filter (about_user u t) rows"
  unfolding erasable_def Let_def about_user_def by (rule filter_cong) (auto simp: list_ex_iff)


text \<open>While a candidate points to a record of the user, the erasure raises after it has deleted the vectors: the user's
  data stays, and the records that stay marked as synced have lost their vectors.\<close>

lemma erasure_blocked:
  assumes "pinecone_ok px held" and "delete_groups px (grouped mr_namespace mr_vector_id (erasable u (um_tables s) (um_rows s))) (um_index s) = (Inr k, v)"
    and "r \<in> set (um_rows s)" and "about_user u (um_tables s) r" and "c \<in> set (um_candidates s)" and "cr_promoted c = Some (mr_id r)"
  shows "erase_user_memory sha adelete eraser px u s = (Inl integrity_error, s\<lparr>um_index := v\<rparr>)"
    and "mr_vector_id r \<notin> held v (mr_namespace r)"
proof -
  have r: "r \<in> set (erasable u (um_tables s) (um_rows s))" using assms(3,4) by (simp add: erasable_about)
  then have ne: "erasable u (um_tables s) (um_rows s) \<noteq> []" by auto
  have "delete_memories (mr_id ` set (erasable u (um_tables s) (um_rows s))) (um_candidates s) (um_rows s) = Inl integrity_error"
    using r assms(3,5,6) unfolding delete_memories_def list_ex_iff by auto
  then show "erase_user_memory sha adelete eraser px u s = (Inl integrity_error, s\<lparr>um_index := v\<rparr>)"
    using assms(2) ne by (simp add: erase_user_memory_def erase_tables_def)
  show "mr_vector_id r \<notin> held v (mr_namespace r)"
    using delete_groups_effect[OF assms(1,2), of "mr_namespace r"] r by (auto simp: group_ids_grouped)
qed

definition free_saver :: "string \<Rightarrow> (string \<Rightarrow> checkpoint option) \<Rightarrow> unit result \<times> (string \<Rightarrow> checkpoint option)" where
  "free_saver t m = (Inr (), m(t := None))"

lemma free_saver_deletes: "saver_deletes free_saver (\<lambda>m. m)"
  by (simp add: saver_deletes_def free_saver_def)

lemma free_saver_total: "\<exists>m'. erase_checkpoints sha free_saver cs m = (Inr (), m')"
proof (induction cs arbitrary: m)
  case (Cons c cs)
  then show ?case by (cases c) (simp add: erase_conversation_def conversation_threads_def free_saver_def)
qed simp

definition sample_memory_row :: memory_row where
  "sample_memory_row = (memory_row_of sample_repository 1 0 ''likes pumps'' ''likes pumps'' ''users'' (sample_fact ''likes pumps'' 21))
     \<lparr>mr_owner := Some 8, mr_synced_at := Some 5\<rparr>"

definition sample_user_memory :: "(string \<Rightarrow> checkpoint option, (string \<times> string) list) user_memory" where
  "sample_user_memory = \<lparr>um_tables = sample_rows, um_rows = [sample_memory_row], um_candidates = [],
     um_checkpoints = (\<lambda>_. None), um_index = [(''users'', uuid_str 1)]\<rparr>"

lemma sample_memory_row_values: "live sample_memory_row" "mr_owner sample_memory_row = Some 8" "mr_namespace sample_memory_row = ''users''"
    "mr_vector_id sample_memory_row = uuid_str 1" "mr_synced_at sample_memory_row = Some 5"
  by (simp_all add: sample_memory_row_def memory_row_of_def live_def)

lemma sample_user_memory_ok: "memory_ok (um_rows sample_user_memory) (sample_held (um_index sample_user_memory))"
  by (auto simp: memory_ok_def records_ok_def index_matches_def sample_user_memory_def sample_held_def sample_memory_row_values image_iff)

lemma sample_erasure: "\<exists>result s'. erase_user_memory (\<lambda>_. ''x'') free_saver True sample_index 8 sample_user_memory = (Inr result, s')"
proof -
  have about: "erasable 8 sample_rows [sample_memory_row] = [sample_memory_row]"
    by (simp add: erasable_about about_user_def sample_memory_row_values)
  obtain m where m: "erase_checkpoints (\<lambda>_. ''x'') free_saver
      (map (Pair 8) (sort (map cv_id (filter (\<lambda>r. cv_owner r = 8) (cvt_conversations sample_rows))))) (\<lambda>_. None) = (Inr (), m)"
    using free_saver_total by blast
  have "delete_groups sample_index (grouped mr_namespace mr_vector_id [sample_memory_row]) [(''users'', uuid_str 1)] = (Inr 1, [])"
    by (simp add: grouped_def sample_memory_row_values index_delete_ids_def sample_index_def)
  then show ?thesis
    by (simp add: erase_user_memory_def sample_user_memory_def about Let_def erase_tables_def delete_memories_def m)
qed


end
