(* ===== verification/Documents.thy ===== *)
theory Documents
  imports Memory_Jobs
begin

section \<open>Document upload and the outbox\<close>

text \<open>
  The upload path of \<open>src/app/modules/documents\<close>: the router's guards (\<open>presentation/router.py\<close>), the use
  case \<open>UploadDocument\<close> (\<open>application/use_cases.py\<close>) with its entity and event, the repositories and the
  unit of work, the storage of \<open>infrastructure/blob_storage.py\<close>, the outbox publisher
  (\<open>infrastructure/outbox_publisher.py\<close>) and the Kafka publisher (\<open>src/app/shared/messaging/kafka\<close>). The
  Azure client, the Kafka producer, SHA-256 and JSON text are parameters.
\<close>

type_synonym bytes = "8 word list"

subsection \<open>The entity\<close>

record document =
  dc_id :: uuid
  dc_filename :: string
  dc_content_type :: string
  dc_size :: nat
  dc_sha :: string
  dc_container :: string
  dc_blob_name :: string
  dc_blob_url :: string
  dc_etag :: string
  dc_status :: string
  dc_site :: "string option"
  dc_created_at :: datetime
  dc_key :: "string option"

record blob_upload_result =
  bu_container :: string
  bu_blob_name :: string
  bu_url :: string
  bu_etag :: string

definition create_document ::
  "uuid \<Rightarrow> datetime \<Rightarrow> string \<Rightarrow> string \<Rightarrow> nat \<Rightarrow> string \<Rightarrow> blob_upload_result \<Rightarrow> string option \<Rightarrow> string option \<Rightarrow> document" where
  "create_document i now filename content_type size_bytes sha blob site key = \<lparr>dc_id = i, dc_filename = strip filename,
     dc_content_type = lower (strip content_type), dc_size = size_bytes, dc_sha = sha, dc_container = bu_container blob,
     dc_blob_name = bu_blob_name blob, dc_blob_url = bu_url blob, dc_etag = bu_etag blob, dc_status = ''queued'',
     dc_site = map_option strip site, dc_created_at = now, dc_key = key\<rparr>"

record uploaded_document =
  ud_id :: uuid
  ud_filename :: string
  ud_content_type :: string
  ud_size :: nat
  ud_sha :: string
  ud_blob_url :: string
  ud_status :: string
  ud_created_at :: datetime

definition uploaded_from :: "document \<Rightarrow> uploaded_document" where
  "uploaded_from d = \<lparr>ud_id = dc_id d, ud_filename = dc_filename d, ud_content_type = dc_content_type d, ud_size = dc_size d,
     ud_sha = dc_sha d, ud_blob_url = dc_blob_url d, ud_status = dc_status d, ud_created_at = dc_created_at d\<rparr>"

record document_uploaded =
  ev_document_id :: uuid
  ev_container :: string
  ev_blob_name :: string
  ev_blob_url :: string
  ev_content_type :: string
  ev_size :: nat
  ev_sha :: string
  ev_uploaded_at :: datetime
  ev_request_id :: "string option"

definition event_of :: "document \<Rightarrow> string option \<Rightarrow> document_uploaded" where
  "event_of d request_id = \<lparr>ev_document_id = dc_id d, ev_container = dc_container d, ev_blob_name = dc_blob_name d,
     ev_blob_url = dc_blob_url d, ev_content_type = dc_content_type d, ev_size = dc_size d, ev_sha = dc_sha d,
     ev_uploaded_at = dc_created_at d, ev_request_id = request_id\<rparr>"

definition event_dict :: "document_uploaded \<Rightarrow> dict" where
  "event_dict e = [(''event_type'', PStr ''document.uploaded''), (''event_version'', PInt 1),
     (''document_id'', PStr (uuid_str (ev_document_id e))), (''blob_container'', PStr (ev_container e)),
     (''blob_name'', PStr (ev_blob_name e)), (''blob_url'', PStr (ev_blob_url e)), (''content_type'', PStr (ev_content_type e)),
     (''size_bytes'', PInt (int (ev_size e))), (''sha256_hex'', PStr (ev_sha e)),
     (''uploaded_at'', PStr (isoformat (ev_uploaded_at e))), (''request_id'', opt_str (ev_request_id e))]"

subsection \<open>Tables and repositories\<close>

record document_row = document +
  dr_error :: "string option"

record outbox_row =
  ob_id :: nat
  ob_topic :: string
  ob_key :: string
  ob_payload :: dict
  ob_headers :: "(string \<times> string) list"
  ob_retries :: nat
  ob_error :: "string option"
  ob_published :: "datetime option"
  ob_ingested :: "datetime option"
  ob_created :: datetime

text \<open>The identifier of an outbox row comes from a sequence that a rollback does not turn back.\<close>

record document_tables =
  dt_documents :: "document_row list"
  dt_outbox :: "outbox_row list"
  dt_next :: nat

definition get_by_idempotency_key :: "string \<Rightarrow> document_tables \<Rightarrow> document option" where
  "get_by_idempotency_key key t = map_option document.truncate (List.find (\<lambda>r. dc_key r = Some key) (dt_documents t))"

definition add_document :: "document \<Rightarrow> document_tables \<Rightarrow> document_tables result" where
  "add_document d t = (if list_ex (\<lambda>r. dc_id r = dc_id d \<or> dc_key d \<noteq> None \<and> dc_key r = dc_key d) (dt_documents t)
     then Inl integrity_error
     else Inr (t\<lparr>dt_documents := dt_documents t @ [document.extend d (document_row.fields None)]\<rparr>))"

definition add_outbox :: "string \<Rightarrow> string \<Rightarrow> dict \<Rightarrow> (string \<times> string) list \<Rightarrow> datetime \<Rightarrow> document_tables \<Rightarrow> document_tables" where
  "add_outbox topic key payload headers created t = t\<lparr>dt_next := dt_next t + 1,
     dt_outbox := dt_outbox t @ [\<lparr>ob_id = dt_next t, ob_topic = topic, ob_key = key, ob_payload = payload, ob_headers = headers,
       ob_retries = 0, ob_error = None, ob_published = None, ob_ingested = None, ob_created = created\<rparr>]\<rparr>"

definition rolled_back :: "document_tables \<Rightarrow> document_tables \<Rightarrow> document_tables" where
  "rolled_back t t' = t\<lparr>dt_next := dt_next t'\<rparr>"

subsection \<open>Blob storage\<close>

record 'b azure =
  az_create_container :: "string \<Rightarrow> 'b \<Rightarrow> unit result \<times> 'b"
  az_upload :: "string \<Rightarrow> string \<Rightarrow> bytes \<Rightarrow> string \<Rightarrow> (string \<times> string) list \<Rightarrow> 'b \<Rightarrow> (string \<times> string option) result \<times> 'b"
  az_download :: "string \<Rightarrow> string \<Rightarrow> 'b \<Rightarrow> bytes result"

definition resource_exists :: exc where
  "resource_exists = ExternalErr ''ResourceExistsError''"

text \<open>\<open>with suppress(X)\<close>.\<close>

definition suppress :: "exc \<Rightarrow> unit result \<Rightarrow> unit result" where
  "suppress x r = (case r of Inl e \<Rightarrow> (if e = x then Inr () else Inl e) | Inr _ \<Rightarrow> Inr ())"

definition blob_name :: "datetime \<Rightarrow> uuid \<Rightarrow> string \<Rightarrow> string" where
  "blob_name now i filename = (case civil_from_days (now div microseconds_per_day) of (y, m, d) \<Rightarrow>
     pad_nat 4 y @ ''/'' @ pad_nat 2 m @ ''/'' @ pad_nat 2 d @ ''/'' @ uuid_str i @ ''_'' @
     replace_char (CHR 0x5C) ''_'' (replace_char (CHR ''/'') ''_'' filename))"

definition upload_blob ::
  "'b azure \<Rightarrow> string \<Rightarrow> datetime \<Rightarrow> uuid \<Rightarrow> string \<Rightarrow> string \<Rightarrow> bytes \<Rightarrow> string \<Rightarrow> 'b \<Rightarrow> blob_upload_result result \<times> 'b" where
  "upload_blob az container now i filename content_type payload sha b =
     (case az_create_container az container b of (created, b1) \<Rightarrow>
      (case suppress resource_exists created of
        Inl e \<Rightarrow> (Inl e, b1)
      | Inr _ \<Rightarrow> (case az_upload az container (blob_name now i filename) payload content_type [(''sha256'', sha)] b1 of
          (Inl e, b2) \<Rightarrow> (Inl e, b2)
        | (Inr (url, etag), b2) \<Rightarrow> (Inr \<lparr>bu_container = container, bu_blob_name = blob_name now i filename, bu_url = url,
            bu_etag = (case etag of None \<Rightarrow> '''' | Some s \<Rightarrow> s)\<rparr>, b2))))"

definition download_blob :: "'b azure \<Rightarrow> string \<Rightarrow> string \<Rightarrow> 'b \<Rightarrow> bytes result" where
  "download_blob az container name b = az_download az container name b"

subsection \<open>The use case\<close>

record upload_command =
  uc_filename :: string
  uc_content_type :: string
  uc_bytes :: bytes
  uc_request_id :: "string option"
  uc_key :: "string option"

type_synonym 'b blob_port = "uuid \<Rightarrow> string \<Rightarrow> string \<Rightarrow> bytes \<Rightarrow> string \<Rightarrow> 'b \<Rightarrow> blob_upload_result result \<times> 'b"

definition storage_upload_failed :: exc where
  "storage_upload_failed = DomainErr ''storage_upload_failed'' ''blob upload failed''"

definition document_already_exists :: exc where
  "document_already_exists = DomainErr ''document_already_exists'' ''idempotency key already used''"

definition outbox_headers :: "(string \<times> string) list" where
  "outbox_headers = [(''event_type'', ''document.uploaded''), (''event_version'', ''1''), (''content_type'', ''application/json'')]"

text \<open>The unit of work: the key is looked up only when it is not empty; a failed flush or commit rolls back. \<open>commit\<close>
  is what the commit of the session answers.\<close>

definition store_upload ::
  "string \<Rightarrow> unit result \<Rightarrow> upload_command \<Rightarrow> document \<Rightarrow> document_tables \<Rightarrow> unit result \<times> document_tables" where
  "store_upload topic commit c d t =
     (if (case uc_key c of None \<Rightarrow> False | Some key \<Rightarrow> key \<noteq> [] \<and> get_by_idempotency_key key t \<noteq> None)
      then (Inl document_already_exists, t)
      else (case add_document d t of
          Inl e \<Rightarrow> (Inl e, t)
        | Inr t1 \<Rightarrow>
          let t2 = add_outbox topic (uuid_str (dc_id d)) (event_dict (event_of d (uc_request_id c))) outbox_headers (dc_created_at d) t1 in
          (case commit of Inl e \<Rightarrow> (Inl e, rolled_back t t2) | Inr _ \<Rightarrow> (Inr (), t2))))"

definition execute_upload ::
  "(bytes \<Rightarrow> string) \<Rightarrow> 'b blob_port \<Rightarrow> string \<Rightarrow> unit result \<Rightarrow> uuid \<Rightarrow> datetime \<Rightarrow> upload_command \<Rightarrow> document_tables \<times> 'b
     \<Rightarrow> uploaded_document result \<times> document_tables \<times> 'b" where
  "execute_upload sha256 upload topic commit i now c s = (case s of (t, b) \<Rightarrow>
     let checksum = sha256 (uc_bytes c) in
     (case upload i (uc_filename c) (uc_content_type c) (uc_bytes c) checksum b of
        (Inl _, b') \<Rightarrow> (Inl storage_upload_failed, t, b')
      | (Inr blob, b') \<Rightarrow>
        let d = create_document i now (uc_filename c) (uc_content_type c) (length (uc_bytes c)) checksum blob None (uc_key c) in
        (case store_upload topic commit c d t of
           (Inl e, t') \<Rightarrow> (Inl e, t', b')
         | (Inr _, t') \<Rightarrow> (Inr (uploaded_from d), t', b'))))"

subsection \<open>The router\<close>

record upload_policy =
  up_max_bytes :: nat
  up_content_types :: "string list"

definition document_too_large :: exc where
  "document_too_large = DomainErr ''document_too_large'' ''uploaded file exceeds max size''"

definition unsupported_content_type :: exc where
  "unsupported_content_type = DomainErr ''document_unsupported_content_type'' ''unsupported content type''"

text \<open>The file is read in pieces of at most \<open>n\<close> bytes (\<open>1024 * 1024\<close> in the router).\<close>

function read_limited :: "nat \<Rightarrow> nat \<Rightarrow> bytes \<Rightarrow> nat \<Rightarrow> bytes result" where
  "read_limited n max_bytes rest sofar = (let chunk = take n rest in
     if chunk = [] then Inr []
     else if sofar + length chunk > max_bytes then Inl document_too_large
     else rmap (\<lambda>more. chunk @ more) (read_limited n max_bytes (drop n rest) (sofar + length chunk)))"
  by pat_completeness auto
termination by (relation "measure (\<lambda>(n, _, rest, _). length rest)") (auto simp: min_def split: if_splits)

declare read_limited.simps [simp del]

definition READ_SIZE :: nat where
  "READ_SIZE = 1048576"

text \<open>\<open>upload_document\<close>: \<open>None\<close> for the policy when the module is not configured.\<close>

definition upload_document ::
  "(bytes \<Rightarrow> string) \<Rightarrow> 'b blob_port \<Rightarrow> string \<Rightarrow> unit result \<Rightarrow> uuid \<Rightarrow> datetime \<Rightarrow> upload_policy option \<Rightarrow> string option \<Rightarrow> string option
     \<Rightarrow> bytes \<Rightarrow> string option \<Rightarrow> string option \<Rightarrow> document_tables \<times> 'b \<Rightarrow> uploaded_document result \<times> document_tables \<times> 'b" where
  "upload_document sha256 upload topic commit i now policy filename file_content_type file request_id key s = (case s of (t, b) \<Rightarrow>
     (case policy of
        None \<Rightarrow> (Inl (HTTPErr 503 ''Document upload is not configured''), t, b)
      | Some p \<Rightarrow>
        let content_type = (case file_content_type of None \<Rightarrow> ''application/octet-stream''
              | Some x \<Rightarrow> if x = [] then ''application/octet-stream'' else x) in
        if content_type \<notin> set (up_content_types p) then (Inl unsupported_content_type, t, b)
        else (case read_limited READ_SIZE (up_max_bytes p) file 0 of
            Inl e \<Rightarrow> (Inl e, t, b)
          | Inr payload \<Rightarrow> execute_upload sha256 upload topic commit i now
              \<lparr>uc_filename = (case filename of None \<Rightarrow> ''uploaded-file'' | Some f \<Rightarrow> if f = [] then ''uploaded-file'' else f),
               uc_content_type = content_type, uc_bytes = payload, uc_request_id = request_id, uc_key = key\<rparr> (t, b))))"

subsection \<open>The Kafka publisher\<close>

datatype produce_outcome = Produced | Buffer_Full | Produce_Failed exc

text \<open>The producer of the Kafka client: \<open>ka_delivery\<close> is what the delivery callback has reported so far.\<close>

record 'q kafka =
  ka_produce :: "string \<Rightarrow> string \<Rightarrow> string \<Rightarrow> (string \<times> string) list \<Rightarrow> 'q \<Rightarrow> produce_outcome \<times> 'q"
  ka_poll :: "'q \<Rightarrow> 'q"
  ka_delivery :: "'q \<Rightarrow> string option option"

definition buffer_error :: exc where
  "buffer_error = ExternalErr ''BufferError''"

fun produce_attempts ::
  "'q kafka \<Rightarrow> nat \<Rightarrow> string \<Rightarrow> string \<Rightarrow> string \<Rightarrow> (string \<times> string) list \<Rightarrow> 'q \<Rightarrow> unit result \<times> 'q" where
  "produce_attempts ka 0 topic key payload headers q = (Inr (), q)"
| "produce_attempts ka (Suc left) topic key payload headers q = (case ka_produce ka topic key payload headers q of
      (Produced, q') \<Rightarrow> (Inr (), q')
    | (Buffer_Full, q') \<Rightarrow> (if left = 0 then (Inl buffer_error, q') else produce_attempts ka left topic key payload headers q')
    | (Produce_Failed e, q') \<Rightarrow> (Inl e, q'))"

partial_function (option) await_delivery :: "'q kafka \<Rightarrow> 'q \<Rightarrow> (unit result \<times> 'q) option" where
  "await_delivery ka q = (case ka_delivery ka q of
      None \<Rightarrow> await_delivery ka (ka_poll ka q)
    | Some None \<Rightarrow> Some (Inr (), q)
    | Some (Some err) \<Rightarrow> Some (Inl (RuntimeErr (''kafka delivery failed: '' @ err)), q))"

definition kafka_publish ::
  "(dict \<Rightarrow> string) \<Rightarrow> 'q kafka \<Rightarrow> string \<Rightarrow> string \<Rightarrow> dict \<Rightarrow> (string \<times> string) list \<Rightarrow> 'q \<Rightarrow> (unit result \<times> 'q) option" where
  "kafka_publish json ka topic key payload headers q =
     (case produce_attempts ka 6 topic key (json payload) headers q of
        (Inl e, q') \<Rightarrow> Some (Inl e, q')
      | (Inr _, q') \<Rightarrow> await_delivery ka q')"

subsection \<open>The outbox publisher\<close>

type_synonym 'q publish = "string \<Rightarrow> string \<Rightarrow> dict \<Rightarrow> (string \<times> string) list \<Rightarrow> 'q \<Rightarrow> unit result \<times> 'q"

definition unpublished_batch :: "nat \<Rightarrow> nat \<Rightarrow> outbox_row list \<Rightarrow> outbox_row list" where
  "unpublished_batch n max_retries rows = take n (sort_key ob_id (filter (\<lambda>r. ob_published r = None \<and> ob_retries r < max_retries) rows))"

definition publish_row :: "'q publish \<Rightarrow> (exc \<Rightarrow> string) \<Rightarrow> (nat \<Rightarrow> datetime) \<Rightarrow> outbox_row \<Rightarrow> 'q \<Rightarrow> outbox_row result \<times> 'q" where
  "publish_row publish message clock r q = (case publish (ob_topic r) (ob_key r) (ob_payload r) (ob_headers r) q of
      (Inr _, q') \<Rightarrow> (Inr (r\<lparr>ob_published := Some (clock (ob_id r)), ob_error := None\<rparr>), q')
    | (Inl e, q') \<Rightarrow> (if backoff_fails (Suc (ob_retries r)) then (Inl overflow_error, q')
        else (Inr (r\<lparr>ob_retries := Suc (ob_retries r), ob_error := Some (take 4000 (message e))\<rparr>), q')))"

definition write_outbox :: "outbox_row \<Rightarrow> outbox_row list \<Rightarrow> outbox_row list" where
  "write_outbox r rows = map (\<lambda>q. if ob_id q = ob_id r then r else q) rows"

fun publish_rows ::
  "'q publish \<Rightarrow> (exc \<Rightarrow> string) \<Rightarrow> (nat \<Rightarrow> datetime) \<Rightarrow> outbox_row list \<Rightarrow> outbox_row list \<Rightarrow> 'q \<Rightarrow> outbox_row list result \<times> 'q" where
  "publish_rows publish message clock [] rows q = (Inr rows, q)"
| "publish_rows publish message clock (r # batch) rows q = (case publish_row publish message clock r q of
      (Inl e, q') \<Rightarrow> (Inl e, q')
    | (Inr r', q') \<Rightarrow> publish_rows publish message clock batch (write_outbox r' rows) q')"

text \<open>A failed commit, as an exception that leaves the loop, rolls the rows back; what was published stays published.\<close>

definition publish_batch ::
  "'q publish \<Rightarrow> (exc \<Rightarrow> string) \<Rightarrow> (nat \<Rightarrow> datetime) \<Rightarrow> nat \<Rightarrow> nat \<Rightarrow> unit result \<Rightarrow> outbox_row list \<times> 'q \<Rightarrow> nat result \<times> outbox_row list \<times> 'q" where
  "publish_batch publish message clock n max_retries commit s = (case s of (rows, q) \<Rightarrow>
     let batch = unpublished_batch n max_retries rows in
     if batch = [] then (Inr 0, rows, q)
     else (case publish_rows publish message clock batch rows q of
        (Inl e, q') \<Rightarrow> (Inl e, rows, q')
      | (Inr rows', q') \<Rightarrow> (case commit of Inl e \<Rightarrow> (Inl e, rows, q') | Inr _ \<Rightarrow> (Inr (length batch), rows', q'))))"

subsection \<open>The size limit\<close>

lemma read_limited_eq:
  "0 < n \<Longrightarrow> read_limited n max_bytes rest sofar =
    (if sofar + length rest \<le> max_bytes \<or> rest = [] then Inr rest else Inl document_too_large)"
proof (induction n max_bytes rest sofar rule: read_limited.induct)
  case (1 n max_bytes rest sofar)
  show ?case
  proof (cases "rest = []")
    case False
    then have chunk: "take n rest \<noteq> []" using 1 by simp
    have len: "length (take n rest) + length (drop n rest) = length rest" by simp
    show ?thesis
    proof (cases "sofar + length (take n rest) > max_bytes")
      case True
      then show ?thesis using chunk len False by (subst read_limited.simps) (simp add: Let_def)
    next
      case le: False
      note ih = 1(1)[OF refl chunk le 1(2)]
      have "read_limited n max_bytes rest sofar = rmap (\<lambda>more. take n rest @ more) (read_limited n max_bytes (drop n rest) (sofar + length (take n rest)))"
        using chunk le by (subst read_limited.simps) (simp add: Let_def)
      also have "\<dots> = (if sofar + length rest \<le> max_bytes then Inr rest else Inl document_too_large)"
        unfolding ih using le len by auto
      finally show ?thesis using False by simp
    qed
  qed (simp add: read_limited.simps)
qed

subsection \<open>What an upload leaves behind\<close>

text \<open>The keys of the tables: document identifiers, idempotency keys, outbox identifiers.\<close>

definition keys_unique :: "document_row list \<Rightarrow> bool" where
  "keys_unique rows \<longleftrightarrow> (\<forall>r \<in> set rows. \<forall>q \<in> set rows. dc_key r \<noteq> None \<and> dc_key r = dc_key q \<longrightarrow> r = q)"

definition documents_ok :: "document_tables \<Rightarrow> bool" where
  "documents_ok t \<longleftrightarrow> distinct (map dc_id (dt_documents t)) \<and> distinct (map ob_id (dt_outbox t))
     \<and> (\<forall>r \<in> set (dt_outbox t). ob_id r < dt_next t)
     \<and> keys_unique (dt_documents t)"

definition uploaded_row :: "document \<Rightarrow> document_row" where
  "uploaded_row d = document.extend d (document_row.fields None)"

definition outbox_row_of :: "string \<Rightarrow> nat \<Rightarrow> document \<Rightarrow> string option \<Rightarrow> outbox_row" where
  "outbox_row_of topic i d request_id = \<lparr>ob_id = i, ob_topic = topic, ob_key = uuid_str (dc_id d),
     ob_payload = event_dict (event_of d request_id), ob_headers = outbox_headers, ob_retries = 0, ob_error = None,
     ob_published = None, ob_ingested = None, ob_created = dc_created_at d\<rparr>"

lemma uploaded_row_fields [simp]: "dc_id (uploaded_row d) = dc_id d" "dc_key (uploaded_row d) = dc_key d"
    "dc_site (uploaded_row d) = dc_site d" "dc_status (uploaded_row d) = dc_status d" "document.truncate (uploaded_row d) = d"
  by (simp_all add: uploaded_row_def document.defs document_row.defs)

lemma add_document_Inr: "add_document d t = Inr t' \<longleftrightarrow> t' = t\<lparr>dt_documents := dt_documents t @ [uploaded_row d]\<rparr>
    \<and> (\<forall>r \<in> set (dt_documents t). dc_id r \<noteq> dc_id d \<and> (dc_key d \<noteq> None \<longrightarrow> dc_key r \<noteq> dc_key d))"
  by (auto simp: add_document_def list_ex_iff uploaded_row_def)

definition key_used :: "string option \<Rightarrow> document_tables \<Rightarrow> bool" where
  "key_used key t \<longleftrightarrow> key \<noteq> None \<and> (\<exists>r \<in> set (dt_documents t). dc_key r = key)"

lemma get_by_key_used: "get_by_idempotency_key key t = None \<longleftrightarrow> \<not> key_used (Some key) t"
  by (auto simp: get_by_idempotency_key_def key_used_def find_None_iff)

lemma key_used_None [simp]: "\<not> key_used None t"
  by (simp add: key_used_def)

lemma store_upload_effect:
  assumes "store_upload topic commit c d t = (res, t')" and "dc_key d = uc_key c"
  shows "case res of Inl e \<Rightarrow> dt_documents t' = dt_documents t \<and> dt_outbox t' = dt_outbox t \<and> dt_next t \<le> dt_next t'
      \<and> (key_used (uc_key c) t \<longrightarrow> e = (if uc_key c = Some [] then integrity_error else document_already_exists))
    | Inr _ \<Rightarrow> \<not> key_used (uc_key c) t \<and> dc_id d \<notin> dc_id ` set (dt_documents t)
        \<and> dt_documents t' = dt_documents t @ [uploaded_row d]
        \<and> dt_outbox t' = dt_outbox t @ [outbox_row_of topic (dt_next t) d (uc_request_id c)] \<and> dt_next t' = dt_next t + 1"
proof (cases "uc_key c = None \<or> uc_key c = Some [] \<or> \<not> key_used (uc_key c) t")
  case False
  then have "store_upload topic commit c d t = (Inl document_already_exists, t)"
    by (auto simp: store_upload_def get_by_key_used split: option.splits)
  then show ?thesis using assms False by auto
next
  case True
  then have run: "(case add_document d t of Inl e \<Rightarrow> (Inl e, t)
        | Inr t1 \<Rightarrow>
          let t2 = add_outbox topic (uuid_str (dc_id d)) (event_dict (event_of d (uc_request_id c))) outbox_headers (dc_created_at d) t1 in
          (case commit of Inl e \<Rightarrow> (Inl e, rolled_back t t2) | Inr _ \<Rightarrow> (Inr (), t2))) = (res, t')"
    using assms(1) by (auto simp: store_upload_def get_by_key_used split: option.splits)
  show ?thesis
  proof (cases "add_document d t")
    case (Inl e)
    then show ?thesis using run True by (auto simp: add_document_def split: if_splits)
  next
    case (Inr t1)
    then have "\<not> key_used (uc_key c) t" "dc_id d \<notin> dc_id ` set (dt_documents t)"
      using assms(2) by (auto simp: add_document_Inr key_used_def)
    then show ?thesis using run Inr
      by (cases commit) (auto simp: add_document_Inr Let_def add_outbox_def outbox_row_of_def rolled_back_def)
  qed
qed

lemma store_upload_ok:
  assumes ok: "documents_ok t" and run: "store_upload topic commit c d t = (res, t')" and key: "dc_key d = uc_key c"
  shows "documents_ok t'"
proof (cases res)
  case (Inl e)
  then show ?thesis using ok store_upload_effect[OF run key] by (auto simp: documents_ok_def)
next
  case (Inr x)
  then have eff: "\<not> key_used (uc_key c) t" "dc_id d \<notin> dc_id ` set (dt_documents t)" "dt_documents t' = dt_documents t @ [uploaded_row d]"
      "dt_outbox t' = dt_outbox t @ [outbox_row_of topic (dt_next t) d (uc_request_id c)]" "dt_next t' = dt_next t + 1"
    using store_upload_effect[OF run key] by simp_all
  have "dc_key r \<noteq> dc_key d" if "r \<in> set (dt_documents t)" "dc_key d \<noteq> None" for r
    using eff(1) that key by (auto simp: key_used_def)
  then have "keys_unique (dt_documents t')"
    using ok eff(3) unfolding documents_ok_def keys_unique_def by (simp only: set_append ball_Un, simp) (metis option.distinct(1))
  moreover have new: "ob_id r < dt_next t" if "r \<in> set (dt_outbox t)" for r using ok that by (auto simp: documents_ok_def)
  then have "dt_next t \<notin> ob_id ` set (dt_outbox t)" by (metis imageE less_irrefl)
  then have "distinct (map ob_id (dt_outbox t'))" "\<forall>r \<in> set (dt_outbox t'). ob_id r < dt_next t'"
    using ok eff(4,5) new by (auto simp: documents_ok_def outbox_row_of_def less_Suc_eq)
  ultimately show ?thesis using ok eff(2,3) by (simp add: documents_ok_def)
qed


definition no_documents :: document_tables where
  "no_documents = \<lparr>dt_documents = [], dt_outbox = [], dt_next = 0\<rparr>"

lemma no_documents_ok: "documents_ok no_documents"
  by (simp add: documents_ok_def no_documents_def keys_unique_def)

definition sample_port :: "nat blob_port" where
  "sample_port i filename content_type payload sha b =
     (Inr \<lparr>bu_container = ''documents'', bu_blob_name = filename, bu_url = ''https://blob'', bu_etag = ''e''\<rparr>, b + 1)"

definition text_policy :: upload_policy where
  "text_policy = \<lparr>up_max_bytes = 4, up_content_types = [''text/plain'']\<rparr>"

lemma sample_upload: "\<exists>answer t'. upload_document (\<lambda>_. ''sha'') sample_port ''documents'' (Inr ()) 5 0 (Some text_policy) (Some ''a.txt'')
      (Some ''text/plain'') [104, 105] None (Some ''k1'') (no_documents, 0) = (Inr answer, t', 1)"
proof -
  have n: "0 < READ_SIZE" by (simp add: READ_SIZE_def)
  show ?thesis
    by (simp add: upload_document_def text_policy_def read_limited_eq[OF n] execute_upload_def sample_port_def store_upload_def
        get_by_idempotency_key_def no_documents_def add_document_def create_document_def Let_def)
qed


text \<open>The blob is stored before the idempotency key is looked up: a repeated upload fails and leaves another blob.\<close>

lemma repeated_upload_stores_blob:
  assumes "key_used key t" and "key \<noteq> Some []" and "upload i f x file (sha256 file) b = (Inr blob, b')"
  shows "execute_upload sha256 upload topic commit i now \<lparr>uc_filename = f, uc_content_type = x, uc_bytes = file, uc_request_id = q, uc_key = key\<rparr> (t, b)
    = (Inl document_already_exists, t, b')"
  using assms by (cases key) (auto simp: execute_upload_def store_upload_def get_by_key_used Let_def)

text \<open>An empty key is not looked up but stored: the second upload with an empty key hits the unique constraint.\<close>

lemma empty_key_conflicts:
  assumes "key_used (Some []) t" and "upload i f x file (sha256 file) b = (Inr blob, b')"
  shows "execute_upload sha256 upload topic commit i now \<lparr>uc_filename = f, uc_content_type = x, uc_bytes = file, uc_request_id = q, uc_key = Some []\<rparr> (t, b)
    = (Inl integrity_error, t, b')"
  using assms by (auto simp: execute_upload_def store_upload_def add_document_def create_document_def key_used_def list_ex_iff Let_def)

text \<open>The size limit is exact: reading in pieces returns the whole file when it has at most the allowed number of bytes
  and fails as too large otherwise, whatever the position of the piece boundaries.\<close>

theorem upload_limit_exact:
  "read_limited READ_SIZE max_bytes file 0 = (if length file \<le> max_bytes then Inr file else Inl document_too_large)"
  by (subst read_limited_eq) (auto simp: READ_SIZE_def)

subsection \<open>Delivery\<close>

type_synonym sent_message = "string \<times> string \<times> dict \<times> (string \<times> string) list"

definition message_of :: "outbox_row \<Rightarrow> sent_message" where
  "message_of r = (ob_topic r, ob_key r, ob_payload r, ob_headers r)"

text \<open>What is relied on of a publisher: a call that returns has appended its message to what the broker accepted, one
  that raises may have.\<close>

definition publisher_law :: "'q publish \<Rightarrow> ('q \<Rightarrow> sent_message list) \<Rightarrow> bool" where
  "publisher_law publish accepted \<longleftrightarrow> (\<forall>topic key payload headers q r q'. publish topic key payload headers q = (r, q') \<longrightarrow>
     accepted q' = accepted q @ [(topic, key, payload, headers)] \<or> r \<noteq> Inr () \<and> accepted q' = accepted q)"

definition same_message :: "outbox_row \<Rightarrow> outbox_row \<Rightarrow> bool" where
  "same_message r r' \<longleftrightarrow> ob_id r' = ob_id r \<and> message_of r' = message_of r \<and> ob_ingested r' = ob_ingested r \<and> ob_created r' = ob_created r
     \<and> ob_retries r \<le> ob_retries r'"

definition delivered :: "nat \<Rightarrow> outbox_row list \<Rightarrow> sent_message list \<Rightarrow> bool" where
  "delivered max_retries rows accepted \<longleftrightarrow>
     (\<forall>r \<in> set rows. (ob_published r \<noteq> None \<longrightarrow> message_of r \<in> set accepted) \<and> ob_retries r \<le> max_retries)
     \<and> set accepted \<subseteq> message_of ` set rows"

lemma publish_row_effect:
  assumes "publisher_law publish accepted" and "publish_row publish message clock r q = (res, q')"
  shows "set (accepted q) \<subseteq> set (accepted q') \<and> set (accepted q') \<subseteq> insert (message_of r) (set (accepted q))
    \<and> (\<forall>r'. res = Inr r' \<longrightarrow> same_message r r' \<and> ob_retries r' \<le> Suc (ob_retries r)
        \<and> (ob_published r' \<noteq> None \<longrightarrow> ob_published r \<noteq> None \<or> message_of r' \<in> set (accepted q')))"
proof -
  obtain r1 q1 where one: "publish (ob_topic r) (ob_key r) (ob_payload r) (ob_headers r) q = (r1, q1)" by fastforce
  have law: "accepted q1 = accepted q @ [message_of r] \<or> r1 \<noteq> Inr () \<and> accepted q1 = accepted q"
    using assms(1)[unfolded publisher_law_def, rule_format, OF one] by (simp add: message_of_def)
  show ?thesis using assms(2) one law
    by (cases r1) (auto simp: publish_row_def same_message_def message_of_def split: if_splits)
qed

lemma write_outbox_eq:
  assumes "distinct (map ob_id rows)" and "r \<in> set rows" and "ob_id r' = ob_id r"
  shows "write_outbox r' rows = map (\<lambda>q. if q = r then r' else q) rows"
proof -
  have "ob_id q = ob_id r' \<longleftrightarrow> q = r" if "q \<in> set rows" for q
    using assms that by (auto simp: distinct_map inj_on_def)
  then show ?thesis by (simp add: write_outbox_def)
qed

lemma same_message_refl [simp]: "same_message r r"
  by (simp add: same_message_def)

lemma same_messages_trans: "list_all2 same_message xs ys \<Longrightarrow> list_all2 same_message ys zs \<Longrightarrow> list_all2 same_message xs zs"
  by (rule list_all2_trans[of same_message same_message same_message]) (auto simp: same_message_def)

lemma same_messages_ids: "list_all2 same_message xs ys \<Longrightarrow> map ob_id ys = map ob_id xs \<and> map message_of ys = map message_of xs"
  by (induction rule: list_all2_induct) (simp_all add: same_message_def)

lemma same_elements: "map f xs = map f ys \<Longrightarrow> f ` set xs = f ` set ys"
  by (drule arg_cong[where f = set]) (simp only: set_map)

lemma delivered_write:
  assumes del: "delivered k rows A" and r: "r \<in> set rows" and same: "same_message r r'" and bound: "ob_retries r' \<le> k"
    and pub: "ob_published r' \<noteq> None \<longrightarrow> ob_published r \<noteq> None \<or> message_of r' \<in> set A'"
    and acc: "set A \<subseteq> set A'" "set A' \<subseteq> insert (message_of r) (set A)"
  shows "delivered k (map (\<lambda>p. if p = r then r' else p) rows) A'"
proof -
  have msg: "message_of r' = message_of r" using same by (simp add: same_message_def)
  then have "map message_of (map (\<lambda>p. if p = r then r' else p) rows) = map message_of rows" by simp
  then have msgs: "message_of ` set (map (\<lambda>p. if p = r then r' else p) rows) = message_of ` set rows"
    by (rule same_elements)
  have old: "ob_published p \<noteq> None \<Longrightarrow> message_of p \<in> set A" "ob_retries p \<le> k" if "p \<in> set rows" for p
    using del that by (auto simp: delivered_def)
  have "set A \<subseteq> message_of ` set rows" using del by (simp add: delivered_def)
  then have bounds: "set A' \<subseteq> message_of ` set rows" using acc(2) r by blast
  have "(ob_published p \<noteq> None \<longrightarrow> message_of p \<in> set A') \<and> ob_retries p \<le> k"
    if "p \<in> set (map (\<lambda>p. if p = r then r' else p) rows)" for p
  proof (cases "p = r'")
    case True
    then show ?thesis using bound pub msg old(1)[OF r] acc(1) by auto
  next
    case False
    then have "p \<in> set rows" using that by (auto split: if_splits)
    then show ?thesis using old acc(1) by auto
  qed
  then show ?thesis unfolding delivered_def msgs using bounds by (intro conjI ballI) blast+
qed

lemma publish_rows_effect:
  assumes law: "publisher_law publish accepted" and "publish_rows publish message clock batch rows q = (res, q')"
    and "delivered k rows (accepted q)" and "distinct (map ob_id rows)" and "set batch \<subseteq> {r \<in> set rows. ob_retries r < k}"
    and "distinct (map ob_id batch)"
  shows "set (accepted q) \<subseteq> set (accepted q') \<and> set (accepted q') \<subseteq> message_of ` set rows
    \<and> (\<forall>rows'. res = Inr rows' \<longrightarrow> delivered k rows' (accepted q') \<and> list_all2 same_message rows rows')"
  using assms(2-)
proof (induction batch arbitrary: rows q)
  case Nil
  then show ?case by (auto simp: delivered_def list_all2_same)
next
  case (Cons r batch)
  obtain r1 q1 where one: "publish_row publish message clock r q = (r1, q1)" by fastforce
  have eff: "set (accepted q) \<subseteq> set (accepted q1)" "set (accepted q1) \<subseteq> insert (message_of r) (set (accepted q))"
      "\<And>r'. r1 = Inr r' \<Longrightarrow> same_message r r' \<and> ob_retries r' \<le> Suc (ob_retries r)
        \<and> (ob_published r' \<noteq> None \<longrightarrow> ob_published r \<noteq> None \<or> message_of r' \<in> set (accepted q1))"
    using publish_row_effect[OF law one] by blast+
  have r: "r \<in> set rows" "ob_retries r < k" using Cons.prems(4) by auto
  show ?case
  proof (cases r1)
    case (Inl e)
    then show ?thesis using Cons.prems(1,2) one eff(1,2) r by (auto simp: delivered_def)
  next
    case (Inr r')
    let ?rows = "map (\<lambda>p. if p = r then r' else p) rows"
    have same: "same_message r r'" using eff(3)[OF Inr] by simp
    have w: "write_outbox r' rows = ?rows"
      by (rule write_outbox_eq[OF Cons.prems(3) r(1)]) (use same in \<open>simp add: same_message_def\<close>)
    have rest: "publish_rows publish message clock batch ?rows q1 = (res, q')" using Cons.prems(1) one Inr w by simp
    have step: "list_all2 same_message rows ?rows" using same by (simp add: list_all2_map2 list_all2_same)
    have ok: "delivered k ?rows (accepted q1)"
      by (rule delivered_write[OF Cons.prems(2) r(1) same _ _ eff(1,2)]) (use eff(3)[OF Inr] r(2) in auto)
    have "r \<notin> set batch" using Cons.prems(5) by auto
    then have sub: "set batch \<subseteq> {p \<in> set ?rows. ob_retries p < k}" using Cons.prems(4) by (auto simp: image_iff)
    have ids: "map ob_id ?rows = map ob_id rows" "map message_of ?rows = map message_of rows" using same_messages_ids[OF step] by simp_all
    have "message_of ` set ?rows = message_of ` set rows" using ids(2) by (rule same_elements)
    moreover have "distinct (map ob_id ?rows)" "distinct (map ob_id batch)" using Cons.prems(3,5) by (simp_all only: ids(1) list.map distinct.simps)
    note ih = Cons.IH[OF rest ok this(1) sub this(2)]
    ultimately show ?thesis using ih eff(1) same_messages_trans[OF step] by auto
  qed
qed

datatype outbox_event =
    Upload_Event uuid datetime upload_command string blob_upload_result "unit result"
  | Publish_Event "nat \<Rightarrow> datetime" nat "unit result"

definition publish_step ::
  "'q publish \<Rightarrow> (exc \<Rightarrow> string) \<Rightarrow> (nat \<Rightarrow> datetime) \<Rightarrow> nat \<Rightarrow> nat \<Rightarrow> unit result \<Rightarrow> document_tables \<times> 'q \<Rightarrow> document_tables \<times> 'q" where
  "publish_step publish message clock n max_retries commit s = (case s of (t, q) \<Rightarrow>
     (case publish_batch publish message clock n max_retries commit (dt_outbox t, q) of (_, rows, q') \<Rightarrow> (t\<lparr>dt_outbox := rows\<rparr>, q')))"

fun outbox_step ::
  "'q publish \<Rightarrow> (exc \<Rightarrow> string) \<Rightarrow> string \<Rightarrow> nat \<Rightarrow> document_tables \<times> 'q \<Rightarrow> outbox_event \<Rightarrow> document_tables \<times> 'q" where
  "outbox_step publish message topic max_retries (t, q) (Upload_Event i now c sha blob commit) =
     (snd (store_upload topic commit c (create_document i now (uc_filename c) (uc_content_type c) (length (uc_bytes c)) sha blob None (uc_key c)) t), q)"
| "outbox_step publish message topic max_retries s (Publish_Event clock n commit) = publish_step publish message clock n max_retries commit s"

definition outbox_ok :: "nat \<Rightarrow> document_tables \<Rightarrow> sent_message list \<Rightarrow> bool" where
  "outbox_ok max_retries t A \<longleftrightarrow> documents_ok t \<and> delivered max_retries (dt_outbox t) A
     \<and> map ob_key (dt_outbox t) = map (\<lambda>r. uuid_str (dc_id r)) (dt_documents t)"

lemma unpublished_batch_sub: "set (unpublished_batch n k rows) \<subseteq> {r \<in> set rows. ob_retries r < k}"
  unfolding unpublished_batch_def by (rule subsetI) (drule batch_member, simp)

lemma publish_batch_effect:
  assumes law: "publisher_law publish accepted" and del: "delivered k rows (accepted q)" and ids: "distinct (map ob_id rows)"
    and run: "publish_batch publish message clock n k commit (rows, q) = (res, rows', q')"
  shows "delivered k rows' (accepted q') \<and> list_all2 same_message rows rows' \<and> set (accepted q) \<subseteq> set (accepted q')"
proof (cases "unpublished_batch n k rows = []")
  case True
  then show ?thesis using run del by (simp add: publish_batch_def list_all2_same)
next
  case False
  obtain r1 q1 where one: "publish_rows publish message clock (unpublished_batch n k rows) rows q = (r1, q1)" by fastforce
  have "distinct (map ob_id (unpublished_batch n k rows))" using ids unfolding unpublished_batch_def by (rule distinct_batch)
  note eff = publish_rows_effect[OF law one del ids unpublished_batch_sub this]
  have undone: "delivered k rows (accepted q1)" using del eff by (auto simp: delivered_def)
  have q: "q' = q1" and cases: "rows' = rows \<or> r1 = Inr rows'"
    using run False one by (auto simp: publish_batch_def Let_def split: sum.splits)
  from cases show ?thesis
  proof
    assume "rows' = rows"
    then show ?thesis using undone eff q by (simp add: list_all2_same)
  next
    assume "r1 = Inr rows'"
    then show ?thesis using eff q by blast
  qed
qed

lemma same_messages_keys: "list_all2 same_message xs ys \<Longrightarrow> map ob_key ys = map ob_key xs"
  by (induction rule: list_all2_induct) (auto simp: same_message_def message_of_def)

lemma outbox_step_ok:
  assumes law: "publisher_law publish accepted" and ok: "outbox_ok k t (accepted q)"
    and step: "outbox_step publish message topic k (t, q) e = (t', q')"
  shows "outbox_ok k t' (accepted q') \<and> set (accepted q) \<subseteq> set (accepted q')"
proof (cases e)
  case (Upload_Event i now c sha blob commit)
  define d where "d = create_document i now (uc_filename c) (uc_content_type c) (length (uc_bytes c)) sha blob None (uc_key c)"
  have key: "dc_key d = uc_key c" by (simp add: d_def create_document_def)
  obtain res where run: "store_upload topic commit c d t = (res, t')" and q: "q' = q"
    using step Upload_Event by (cases "store_upload topic commit c d t") (simp add: d_def)
  note eff = store_upload_effect[OF run key] and keep = store_upload_ok[OF _ run key]
  show ?thesis
  proof (cases res)
    case (Inl x)
    then show ?thesis using ok eff keep q by (simp add: outbox_ok_def)
  next
    case (Inr x)
    then show ?thesis using ok eff keep q by (auto simp: outbox_ok_def delivered_def outbox_row_of_def)
  qed
next
  case (Publish_Event clock n commit)
  obtain res rows where run: "publish_batch publish message clock n k commit (dt_outbox t, q) = (res, rows, q')" and t: "t' = t\<lparr>dt_outbox := rows\<rparr>"
    using step Publish_Event by (auto simp: publish_step_def split: prod.splits)
  have ids: "distinct (map ob_id (dt_outbox t))" using ok by (simp add: outbox_ok_def documents_ok_def)
  have "delivered k (dt_outbox t) (accepted q)" using ok by (simp add: outbox_ok_def)
  note eff = publish_batch_effect[OF law this ids run]
  then have "map ob_id rows = map ob_id (dt_outbox t)" "map ob_key rows = map ob_key (dt_outbox t)"
    using same_messages_ids same_messages_keys by blast+
  moreover from this(1) have "ob_id ` set rows = ob_id ` set (dt_outbox t)" by (rule same_elements)
  then have "\<forall>r \<in> set rows. ob_id r < dt_next t" using ok unfolding outbox_ok_def documents_ok_def by (metis imageE imageI)
  moreover have "documents_ok t'" using ok t ids \<open>map ob_id rows = map ob_id (dt_outbox t)\<close> calculation(3)
    unfolding outbox_ok_def documents_ok_def by auto
  ultimately show ?thesis using ok eff t by (simp add: outbox_ok_def)
qed

lemma outbox_steps_ok:
  assumes law: "publisher_law publish accepted"
  shows "outbox_ok k t (accepted q) \<Longrightarrow> foldl (outbox_step publish message topic k) (t, q) es = (t', q') \<Longrightarrow> outbox_ok k t' (accepted q')"
proof (induction es arbitrary: t q)
  case (Cons e es)
  obtain t1 q1 where one: "outbox_step publish message topic k (t, q) e = (t1, q1)" by fastforce
  show ?case using Cons.IH[OF conjunct1[OF outbox_step_ok[OF law Cons.prems(1) one]]] Cons.prems(2) one by simp
qed simp

text \<open>C28. The outbox delivers at least once and announces nothing else: after any sequence of uploads and publishing rounds,
  with sends that may fail or fail after the broker took the message and commits that may fail, every row marked as
  published is with the broker, every message the broker took comes from a stored row, each stored document has exactly
  one row, in order, and no row is tried more often than allowed.\<close>

theorem outbox_delivers:
  assumes "publisher_law publish accepted" and "accepted q0 = []"
    and "foldl (outbox_step publish message topic max_retries) (no_documents, q0) events = (t, q)"
  shows "(\<forall>r \<in> set (dt_outbox t). ob_published r \<noteq> None \<longrightarrow> message_of r \<in> set (accepted q))
    \<and> set (accepted q) \<subseteq> message_of ` set (dt_outbox t)
    \<and> map ob_key (dt_outbox t) = map (\<lambda>r. uuid_str (dc_id r)) (dt_documents t)
    \<and> (\<forall>r \<in> set (dt_outbox t). ob_retries r \<le> max_retries)
    \<and> distinct (map dc_id (dt_documents t)) \<and> distinct (map ob_key (dt_outbox t))"
proof -
  have "outbox_ok max_retries no_documents (accepted q0)"
    using no_documents_ok assms(2) by (simp add: outbox_ok_def delivered_def) (simp add: no_documents_def)
  from outbox_steps_ok[OF assms(1) this assms(3)] have ok: "outbox_ok max_retries t (accepted q)" .
  then have "distinct (map uuid_str (map dc_id (dt_documents t)))"
    by (subst distinct_map) (auto simp: outbox_ok_def documents_ok_def inj_on_def)
  then have "distinct (map ob_key (dt_outbox t))" using ok by (simp add: outbox_ok_def o_def)
  then show ?thesis using ok by (auto simp: outbox_ok_def documents_ok_def delivered_def)
qed

text \<open>A broker that takes the first message and then reports a timeout.\<close>

definition flaky_publish :: "sent_message list publish" where
  "flaky_publish topic key payload headers q =
     (if q = [] then Inl (RuntimeErr ''timeout'') else Inr (), q @ [(topic, key, payload, headers)])"

definition sample_outbox_events :: "outbox_event list" where
  "sample_outbox_events = [Upload_Event 5 0 \<lparr>uc_filename = ''a.txt'', uc_content_type = ''text/plain'', uc_bytes = [104],
       uc_request_id = None, uc_key = None\<rparr> ''sha'' \<lparr>bu_container = ''documents'', bu_blob_name = ''a'', bu_url = ''u'', bu_etag = ''e''\<rparr> (Inr ()),
     Publish_Event (\<lambda>_. 1) 10 (Inr ()), Publish_Event (\<lambda>_. 2) 10 (Inr ())]"

lemma flaky_publish_law: "publisher_law flaky_publish (\<lambda>q. q)"
  by (simp add: publisher_law_def flaky_publish_def)

theorem outbox_delivers_witness:
  "\<exists>t q. foldl (outbox_step flaky_publish (\<lambda>_. ''timeout'') ''documents'' 3) (no_documents, []) sample_outbox_events = (t, q)
    \<and> map ob_published (dt_outbox t) = [Some 2] \<and> map ob_retries (dt_outbox t) = [1] \<and> length q = 2
    \<and> set q \<subseteq> message_of ` set (dt_outbox t)"
proof -
  obtain t q where run: "foldl (outbox_step flaky_publish (\<lambda>_. ''timeout'') ''documents'' 3) (no_documents, []) sample_outbox_events = (t, q)"
    by fastforce
  have "map ob_published (dt_outbox t) = [Some 2]" "map ob_retries (dt_outbox t) = [1]" "length q = 2"
    using run by (auto simp: sample_outbox_events_def store_upload_def add_document_def no_documents_def create_document_def add_outbox_def Let_def
        publish_step_def publish_batch_def unpublished_batch_def publish_row_def flaky_publish_def backoff_fails_def write_outbox_def)
  moreover have "set q \<subseteq> message_of ` set (dt_outbox t)"
    using outbox_delivers[OF flaky_publish_law refl run] by (elim conjE)
  ultimately show ?thesis using run by (intro exI conjI)
qed

subsection \<open>Draining the outbox\<close>

definition pending :: "nat \<Rightarrow> outbox_row list \<Rightarrow> outbox_row list" where
  "pending k rows = sort_key ob_id (filter (\<lambda>r. ob_published r = None \<and> ob_retries r < k) rows)"

lemma unpublished_pending: "unpublished_batch n k rows = take n (pending k rows)"
  by (simp add: unpublished_batch_def pending_def)

definition mark_published :: "(nat \<Rightarrow> datetime) \<Rightarrow> outbox_row list \<Rightarrow> outbox_row list \<Rightarrow> outbox_row list" where
  "mark_published clock batch rows = map (\<lambda>r. if r \<in> set batch then r\<lparr>ob_published := Some (clock (ob_id r)), ob_error := None\<rparr> else r) rows"

lemma mark_published_ids [simp]: "map ob_id (mark_published clock batch rows) = map ob_id rows"
  by (simp add: mark_published_def)

lemma publish_rows_success:
  assumes "\<And>topic key payload headers q. fst (publish topic key payload headers q) = Inr ()"
    and "distinct (map ob_id rows)" and "set batch \<subseteq> set rows" and "distinct batch" and "\<forall>r \<in> set batch. ob_published r = None"
  shows "\<exists>q'. publish_rows publish message clock batch rows q = (Inr (mark_published clock batch rows), q')"
  using assms(2-)
proof (induction batch arbitrary: rows q)
  case Nil
  then show ?case by (simp add: mark_published_def)
next
  case (Cons r batch)
  let ?r = "r\<lparr>ob_published := Some (clock (ob_id r)), ob_error := None\<rparr>"
  obtain q1 where one: "publish (ob_topic r) (ob_key r) (ob_payload r) (ob_headers r) q = (Inr (), q1)"
    using assms(1) by (metis prod.collapse)
  have w: "write_outbox ?r rows = map (\<lambda>p. if p = r then ?r else p) rows"
    by (rule write_outbox_eq[OF Cons.prems(1)]) (use Cons.prems(2) in auto)
  have ids: "map ob_id (write_outbox ?r rows) = map ob_id rows" by (simp add: write_outbox_def)
  have new: "?r \<notin> set batch" using Cons.prems(4) by auto
  have "set batch \<subseteq> set (write_outbox ?r rows)" using Cons.prems(2,3) unfolding w by (auto simp: image_iff)
  moreover have "mark_published clock batch (write_outbox ?r rows) = mark_published clock (r # batch) rows"
    unfolding w mark_published_def map_map using new Cons.prems(3) by (intro map_cong refl) (auto simp del: mark_published_def)
  ultimately show ?case using Cons.IH[of "write_outbox ?r rows" q1] Cons.prems ids one by (simp add: publish_row_def)
qed

lemma filter_marked: "filter (\<lambda>r. ob_published r = None \<and> ob_retries r < k) (mark_published clock batch rows)
    = filter (\<lambda>r. r \<notin> set batch) (filter (\<lambda>r. ob_published r = None \<and> ob_retries r < k) rows)"
  by (induction rows) (auto simp: mark_published_def)

lemma filter_not_taken: "distinct xs \<Longrightarrow> filter (\<lambda>x. x \<notin> set (take n xs)) xs = drop n xs"
proof -
  assume "distinct xs"
  then have disj: "set (take n xs) \<inter> set (drop n xs) = {}" by (rule set_take_disj_set_drop_if_distinct) simp
  have "filter (\<lambda>x. x \<notin> set (take n xs)) (take n xs @ drop n xs) = drop n xs"
    unfolding filter_append using disj by (auto simp: filter_id_conv filter_empty_conv)
  then show ?thesis by simp
qed

lemma pending_marked:
  assumes "distinct (map ob_id rows)"
  shows "pending k (mark_published clock (take n (pending k rows)) rows) = drop n (pending k rows)"
proof -
  have "distinct rows" using assms by (simp add: distinct_map)
  then have "distinct (pending k rows)" by (simp add: pending_def)
  note drop = filter_not_taken[OF this, of n]
  have "sort_key ob_id (filter (\<lambda>r. r \<notin> set batch) (filter (\<lambda>r. ob_published r = None \<and> ob_retries r < k) rows))
      = filter (\<lambda>r. r \<notin> set batch) (pending k rows)" for batch
    unfolding pending_def by (rule filter_sort[symmetric])
  then show ?thesis
    unfolding pending_def[of k "mark_published clock (take n (pending k rows)) rows"] filter_marked by (simp only: drop)
qed

fun publish_rounds ::
  "'q publish \<Rightarrow> (exc \<Rightarrow> string) \<Rightarrow> (nat \<Rightarrow> datetime) \<Rightarrow> nat \<Rightarrow> nat \<Rightarrow> nat \<Rightarrow> outbox_row list \<times> 'q \<Rightarrow> outbox_row list \<times> 'q" where
  "publish_rounds publish message clock n k 0 s = s"
| "publish_rounds publish message clock n k (Suc m) s =
     publish_rounds publish message clock n k m (snd (publish_batch publish message clock n k (Inr ()) s))"

lemma publish_round:
  assumes "\<And>topic key payload headers q. fst (publish topic key payload headers q) = Inr ()" and ids: "distinct (map ob_id rows)"
  shows "\<exists>rows' q'. publish_batch publish message clock n k (Inr ()) (rows, q) = (Inr (length (take n (pending k rows))), rows', q')
    \<and> pending k rows' = drop n (pending k rows) \<and> map ob_id rows' = map ob_id rows"
proof (cases "unpublished_batch n k rows = []")
  case True
  then have none: "take n (pending k rows) = []" by (simp add: unpublished_pending)
  then have "drop n (pending k rows) = pending k rows" by (metis append_Nil append_take_drop_id)
  then show ?thesis using True none by (auto simp: publish_batch_def)
next
  case False
  have sub: "set (unpublished_batch n k rows) \<subseteq> set rows" "\<forall>r \<in> set (unpublished_batch n k rows). ob_published r = None"
    unfolding unpublished_batch_def by (auto dest: batch_member)
  have dist: "distinct (unpublished_batch n k rows)" using ids by (simp add: unpublished_batch_def distinct_map)
  obtain q' where "publish_rows publish message clock (unpublished_batch n k rows) rows q
      = (Inr (mark_published clock (unpublished_batch n k rows) rows), q')"
    using publish_rows_success[of publish rows "unpublished_batch n k rows" message clock q, OF assms(1) ids sub(1) dist sub(2)] by blast
  then have "publish_batch publish message clock n k (Inr ()) (rows, q)
      = (Inr (length (take n (pending k rows))), mark_published clock (take n (pending k rows)) rows, q')"
    using False by (simp add: publish_batch_def Let_def unpublished_pending del: length_take)
  then show ?thesis using pending_marked[OF ids] by (auto simp del: length_take)
qed

text \<open>C29. The outbox drains: while the broker takes every message and commits succeed, each round publishes the oldest rows
  that are left, so that after \<open>m\<close> rounds of batches of \<open>n\<close> with \<open>m * n\<close> at least the number of pending rows, every
  row is published except those that had used up their retries.\<close>

theorem outbox_drains:
  assumes "\<And>topic key payload headers q. fst (publish topic key payload headers q) = Inr ()"
    and "distinct (map ob_id rows)" and "length (pending k rows) \<le> m * n"
    and "publish_rounds publish message clock n k m (rows, q) = (rows', q')"
  shows "\<forall>r \<in> set rows'. ob_published r \<noteq> None \<or> k \<le> ob_retries r"
proof -
  have "pending k rows' = drop (m * n) (pending k rows)"
    using assms(2,4)
  proof (induction m arbitrary: rows q)
    case (Suc m)
    from publish_round[where publish = publish and message = message and clock = clock and n = n and k = k and q = q, OF assms(1) Suc.prems(1)]
    obtain rows1 q1 where all: "publish_batch publish message clock n k (Inr ()) (rows, q) = (Inr (length (take n (pending k rows))), rows1, q1)
        \<and> pending k rows1 = drop n (pending k rows) \<and> map ob_id rows1 = map ob_id rows"
      by (elim exE)
    note one = all[THEN conjunct1] all[THEN conjunct2, THEN conjunct1] all[THEN conjunct2, THEN conjunct2]
    have "publish_rounds publish message clock n k m (rows1, q1) = (rows', q')"
      using Suc.prems(2) unfolding publish_rounds.simps one(1) snd_conv .
    moreover have "distinct (map ob_id rows1)" using one(3) Suc.prems(1) by simp
    ultimately have "pending k rows' = drop (m * n) (pending k rows1)" by (intro Suc.IH)
    then show ?case using one(2) by (simp add: add.commute)
  qed simp
  then have "pending k rows' = []" using assms(3) by simp
  moreover have "set (pending k rows') = {r \<in> set rows'. ob_published r = None \<and> ob_retries r < k}" by (simp add: pending_def)
  ultimately have "{r \<in> set rows'. ob_published r = None \<and> ob_retries r < k} = {}" by simp
  then have "\<not> (ob_published r = None \<and> ob_retries r < k)" if "r \<in> set rows'" for r using that by blast
  then show ?thesis by (simp add: not_less) 
qed

definition reliable_publish :: "sent_message list publish" where
  "reliable_publish topic key payload headers q = (Inr (), q @ [(topic, key, payload, headers)])"

definition sample_outbox_row :: outbox_row where
  "sample_outbox_row = \<lparr>ob_id = 0, ob_topic = ''documents'', ob_key = uuid_str 5, ob_payload = [], ob_headers = outbox_headers,
     ob_retries = 1, ob_error = Some ''timeout'', ob_published = None, ob_ingested = None, ob_created = 0\<rparr>"

theorem outbox_drains_witness:
  "\<exists>r q y. publish_rounds reliable_publish (\<lambda>_. '''') (\<lambda>_. 2) 10 3 1 ([sample_outbox_row], []) = ([r], q) \<and> ob_published r = Some y"
proof -
  obtain r q where run: "publish_rounds reliable_publish (\<lambda>_. '''') (\<lambda>_. 2) 10 3 1 ([sample_outbox_row], []) = ([r], q)" "ob_retries r = 1"
    by (simp add: publish_batch_def unpublished_batch_def sample_outbox_row_def Let_def publish_row_def reliable_publish_def write_outbox_def)
  have "length (pending 3 [sample_outbox_row]) \<le> 1 * 10" by (simp add: pending_def)
  from outbox_drains[of reliable_publish, OF _ _ this run(1)] have "ob_published r \<noteq> None"
    using run(2) by (auto simp: reliable_publish_def)
  then show ?thesis using run(1) by auto
qed

end
