(* ===== verification/Ingestion.thy ===== *)
theory Ingestion
  imports Documents
begin

section \<open>Ingestion of documents into memory\<close>

text \<open>
  \<open>TextExtractor\<close>, \<open>TokenChunker\<close> and \<open>DocumentIngestionConsumer.ingest_once\<close> of
  \<open>src/app/modules/documents/infrastructure/ingestion\<close>. Decoding, the PDF and DOCX readers and the tokenizer
  are parameters. The chunks are recorded by \<open>MemoryRecordRepository.record\<close>, which commits each in a session of
  its own; the marks on documents and events commit together at the end.
\<close>

subsection \<open>Text\<close>

record text_readers =
  tr_decode :: "bytes \<Rightarrow> string result"
  tr_pdf :: "bytes \<Rightarrow> string option list result"
  tr_docx :: "bytes \<Rightarrow> string list result"

definition extraction_failed :: string where
  "extraction_failed = ''Document text extraction failed''"

definition DOCX_TYPE :: string where
  "DOCX_TYPE = ''application/vnd.openxmlformats-officedocument.wordprocessingml.document''"

text \<open>The left side of the sum is a \<open>TextExtractionError\<close> with its message.\<close>

definition extract_text :: "text_readers \<Rightarrow> string \<Rightarrow> bytes \<Rightarrow> string + string" where
  "extract_text readers content_type payload =
     (if content_type = ''text/plain'' \<or> content_type = ''text/markdown'' then
        (case tr_decode readers payload of Inl _ \<Rightarrow> Inl extraction_failed | Inr text \<Rightarrow> Inr text)
      else if content_type = ''application/pdf'' then
        (case tr_pdf readers payload of Inl _ \<Rightarrow> Inl extraction_failed
         | Inr pages \<Rightarrow> Inr (join newline (map (\<lambda>p. case p of None \<Rightarrow> '''' | Some s \<Rightarrow> s) pages)))
      else if content_type = DOCX_TYPE then
        (case tr_docx readers payload of Inl _ \<Rightarrow> Inl extraction_failed | Inr paragraphs \<Rightarrow> Inr (join newline paragraphs))
      else Inl (''Unsupported document content type: '' @ content_type))"

subsection \<open>Chunks\<close>

record 'k tokenizer =
  tk_encode :: "string \<Rightarrow> 'k list"
  tk_decode :: "'k list \<Rightarrow> string"

text \<open>\<open>range(0, n, step)\<close> and the windows \<open>tokens[start : start + size]\<close>.\<close>

definition range_from_zero :: "nat \<Rightarrow> int \<Rightarrow> nat list result" where
  "range_from_zero n step = (if step = 0 then Inl (ValueErr ''range() arg 3 must not be zero'')
     else if step < 0 then Inr []
     else Inr (map (\<lambda>k. k * nat step) [0..<(n + nat step - 1) div nat step]))"

definition window :: "nat \<Rightarrow> 'k list \<Rightarrow> nat \<Rightarrow> 'k list" where
  "window size_tokens tokens start = take size_tokens (drop start tokens)"

definition chunk_text :: "'k tokenizer \<Rightarrow> nat \<Rightarrow> nat \<Rightarrow> string \<Rightarrow> string list result" where
  "chunk_text tk chunk_tokens overlap_tokens text =
     (let tokens = tk_encode tk text in
      if tokens = [] then Inr []
      else rmap (\<lambda>starts. map (\<lambda>s. strip (tk_decode tk (window chunk_tokens tokens s)))
             (filter (\<lambda>s. strip (tk_decode tk (window chunk_tokens tokens s)) \<noteq> []) starts))
           (range_from_zero (length tokens) (int chunk_tokens - int overlap_tokens)))"

subsection \<open>The consumer\<close>

record ('b, 'k) ingestion =
  in_azure :: "'b azure"
  in_readers :: text_readers
  in_tokenizer :: "'k tokenizer"
  in_chunk_tokens :: nat
  in_overlap_tokens :: nat
  in_repository :: memory_repository
  in_batch :: nat
  in_topic :: string
  in_fresh :: "nat \<Rightarrow> uuid"
  in_clock :: "nat \<Rightarrow> datetime"

definition chunk_write :: "document_row \<Rightarrow> string \<Rightarrow> memory_write" where
  "chunk_write d chunk = \<lparr>mw_kind = ''document_chunk'', mw_content = chunk, mw_owner = None, mw_site = dc_site d,
     mw_permissions = [permission_value DOCUMENTS_READ], mw_turn_ids = [], mw_document = Some (dc_id d), mw_expires_at = None\<rparr>"

text \<open>The records and the number of identifiers and times read so far.\<close>

type_synonym recording = "memory_row list \<times> nat"

fun record_chunks :: "('b, 'k) ingestion \<Rightarrow> document_row \<Rightarrow> string list \<Rightarrow> recording \<Rightarrow> unit result \<times> recording" where
  "record_chunks g d [] s = (Inr (), s)"
| "record_chunks g d (chunk # chunks) (rows, n) =
     (case record_memory (in_repository g) (in_fresh g n) (in_clock g n) (chunk_write d chunk) rows of
        Inl e \<Rightarrow> (Inl e, rows, n + 1)
      | Inr (_, rows') \<Rightarrow> record_chunks g d chunks (rows', n + 1))"

definition set_document :: "uuid \<Rightarrow> string \<Rightarrow> string option \<Rightarrow> document_tables \<Rightarrow> document_tables" where
  "set_document i status err t = t\<lparr>dt_documents :=
     map (\<lambda>d. if dc_id d = i then d\<lparr>dc_status := status, dr_error := err\<rparr> else d) (dt_documents t)\<rparr>"

definition set_ingested :: "nat \<Rightarrow> datetime \<Rightarrow> document_tables \<Rightarrow> document_tables" where
  "set_ingested i at_time t = t\<lparr>dt_outbox := map (\<lambda>r. if ob_id r = i then r\<lparr>ob_ingested := Some at_time\<rparr> else r) (dt_outbox t)\<rparr>"

text \<open>One event: how many documents it processed, the tables of the session and the records.\<close>

definition ingest_event ::
  "('b, 'k) ingestion \<Rightarrow> 'b \<Rightarrow> outbox_row \<Rightarrow> document_tables \<times> recording \<Rightarrow> nat result \<times> document_tables \<times> recording" where
  "ingest_event g b event s = (case s of (t, rows, n) \<Rightarrow>
     (case parse_uuid (ob_key event) of
        Inl e \<Rightarrow> (Inl e, t, rows, n)
      | Inr i \<Rightarrow>
        (case List.find (\<lambda>d. dc_id d = i) (dt_documents t) of
           None \<Rightarrow> (Inr 0, set_ingested (ob_id event) (in_clock g n) t, rows, n + 1)
         | Some d \<Rightarrow>
           (case download_blob (in_azure g) (dc_container d) (dc_blob_name d) b of
              Inl e \<Rightarrow> (Inl e, t, rows, n)
            | Inr payload \<Rightarrow>
              (case extract_text (in_readers g) (dc_content_type d) payload of
                 Inl message \<Rightarrow> (Inr 1, set_ingested (ob_id event) (in_clock g n) (set_document i ''failed'' (Some (take 4000 message)) t), rows, n + 1)
               | Inr text \<Rightarrow>
                 (case chunk_text (in_tokenizer g) (in_chunk_tokens g) (in_overlap_tokens g) text of
                    Inl e \<Rightarrow> (Inl e, t, rows, n)
                  | Inr chunks \<Rightarrow>
                    (case record_chunks g d chunks (rows, n) of
                       (Inl e, s') \<Rightarrow> (Inl e, t, s')
                     | (Inr _, rows', n') \<Rightarrow> (Inr 1, set_ingested (ob_id event) (in_clock g n') (set_document i ''indexed'' None t), rows', n' + 1))))))))"

fun ingest_events ::
  "('b, 'k) ingestion \<Rightarrow> 'b \<Rightarrow> outbox_row list \<Rightarrow> document_tables \<times> recording \<Rightarrow> nat result \<times> document_tables \<times> recording" where
  "ingest_events g b [] s = (Inr 0, s)"
| "ingest_events g b (event # events) s = (case ingest_event g b event s of
      (Inl e, s') \<Rightarrow> (Inl e, s')
    | (Inr k, s') \<Rightarrow> (case ingest_events g b events s' of
        (Inl e, s'') \<Rightarrow> (Inl e, s'')
      | (Inr m, s'') \<Rightarrow> (Inr (k + m), s'')))"

definition uningested_batch :: "nat \<Rightarrow> string \<Rightarrow> outbox_row list \<Rightarrow> outbox_row list" where
  "uningested_batch n topic rows = take n (sort_key ob_id (filter (\<lambda>r. ob_topic r = topic \<and> ob_ingested r = None) rows))"

text \<open>An exception other than a failed extraction leaves the session: documents and events are rolled back.\<close>

definition ingest_once :: "('b, 'k) ingestion \<Rightarrow> 'b \<Rightarrow> document_tables \<times> recording \<Rightarrow> nat result \<times> document_tables \<times> recording" where
  "ingest_once g b s = (case s of (t, rows, n) \<Rightarrow>
     (case ingest_events g b (uningested_batch (in_batch g) (in_topic g) (dt_outbox t)) (t, rows, n) of
        (Inl e, _, rows', n') \<Rightarrow> (Inl e, t, rows', n')
      | (Inr k, t', rows', n') \<Rightarrow> (Inr k, t', rows', n')))"

subsection \<open>The windows cover the text\<close>

lemma concat_windows:
  "0 < step \<Longrightarrow> concat (map (\<lambda>k. take step (drop (k * step) xs)) [0..<(length xs + step - 1) div step]) = xs"
proof (induction "length xs" arbitrary: xs rule: less_induct)
  case less
  show ?case
  proof (cases "xs = []")
    case False
    define n where "n = (length (drop step xs) + step - 1) div step"
    have n: "(length xs + step - 1) div step = Suc n"
    proof (cases "step \<le> length xs")
      case True
      then have "length xs + step - 1 = (length (drop step xs) + step - 1) + step" using less.prems by simp
      then have "(length xs + step - 1) div step = ((length (drop step xs) + step - 1) + step) div step" by (rule arg_cong)
      also have "\<dots> = Suc n" unfolding n_def Suc_eq_plus1 using less.prems by (intro div_add_self2) simp
      finally show ?thesis .
    next
      case le: False
      have "(m + step - 1) div step = 1" if "0 < m" "m < step" for m using that by (intro div_nat_eqI) auto
      from this[of "length xs"] have "(length xs + step - 1) div step = 1" using le False by simp
      moreover have "n = 0" using le less.prems by (simp add: n_def)
      ultimately show ?thesis by simp
    qed
    have "concat (map (\<lambda>k. take step (drop (k * step) xs)) [0..<Suc n])
        = take step xs @ concat (map (\<lambda>k. take step (drop (k * step) (drop step xs))) [0..<n])"
      by (simp only: upt_conv_Cons zero_less_Suc list.map concat.simps map_Suc_upt[symmetric]) (simp add: o_def add.commute)
    also have "\<dots> = take step xs @ drop step xs"
      using less.hyps[of "drop step xs"] False less.prems unfolding n_def by simp
    finally show ?thesis unfolding n by simp
  qed simp
qed

lemma chunks_cover_core:
  fixes tk :: "'k tokenizer" and s :: string
  assumes "overlap_tokens < chunk_tokens"
  defines "w \<equiv> window chunk_tokens (tk_encode tk s)" and "step \<equiv> chunk_tokens - overlap_tokens"
  shows "\<exists>n. chunk_text tk chunk_tokens overlap_tokens s
        = Inr (filter (\<lambda>c. c \<noteq> []) (map (\<lambda>k. strip (tk_decode tk (w (k * step)))) [0..<n]))
    \<and> concat (map (\<lambda>k. take step (w (k * step))) [0..<n]) = tk_encode tk s
    \<and> (\<forall>k. length (w (k * step)) \<le> chunk_tokens)
    \<and> (\<forall>k. drop step (w (k * step)) = take overlap_tokens (w (Suc k * step)))"
proof (intro exI conjI allI)
  let ?tokens = "tk_encode tk s"
  have step: "0 < step" "step \<le> chunk_tokens" "chunk_tokens - step = overlap_tokens" using assms(1) by (simp_all add: step_def)
  have int_step: "int chunk_tokens - int overlap_tokens = int step" using assms(1) by (simp add: step_def)
  let ?n = "(length ?tokens + step - 1) div step"
  show "chunk_text tk chunk_tokens overlap_tokens s
        = Inr (filter (\<lambda>c. c \<noteq> []) (map (\<lambda>k. strip (tk_decode tk (w (k * step)))) [0..<?n]))"
    using step(1) by (simp add: chunk_text_def Let_def int_step range_from_zero_def w_def filter_map o_def)
  have "take step (w i) = take step (drop i ?tokens)" for i using step(2) by (simp add: w_def window_def min_def)
  then show "concat (map (\<lambda>k. take step (w (k * step))) [0..<?n]) = ?tokens" using concat_windows[OF step(1)] by simp
  show "length (w (k * step)) \<le> chunk_tokens" for k by (simp add: w_def window_def)
  show "drop step (w (k * step)) = take overlap_tokens (w (Suc k * step))" for k
    using step(3) assms(1) by (simp add: w_def window_def drop_take min_def add.commute)
qed

text \<open>Chunking loses nothing: with an overlap smaller than the chunk, the chunks are the non-empty texts of windows of at
  most the configured number of tokens; the windows without their overlap put the token sequence together again, and
  each window ends with exactly the tokens its successor starts with.\<close>

theorem chunks_cover:
  fixes tk :: "'k tokenizer" and s :: string
  assumes "overlap_tokens < chunk_tokens"
  defines "w \<equiv> window chunk_tokens (tk_encode tk s)" and "step \<equiv> chunk_tokens - overlap_tokens"
  shows "\<exists>n. chunk_text tk chunk_tokens overlap_tokens s
        = Inr (filter (\<lambda>c. c \<noteq> []) (map (\<lambda>k. strip (tk_decode tk (w (k * step)))) [0..<n]))
    \<and> concat (map (\<lambda>k. take step (w (k * step))) [0..<n]) = tk_encode tk s
    \<and> (\<forall>k. length (w (k * step)) \<le> chunk_tokens)
    \<and> (\<forall>k. drop step (w (k * step)) = take overlap_tokens (w (Suc k * step)))"
  unfolding assms(2,3) by (rule chunks_cover_core) (rule assms(1))

text \<open>Other configurations: an overlap as large as the chunk raises, a larger one finds no chunk at all.\<close>

lemma chunks_misconfigured:
  "tk_encode tk text \<noteq> [] \<Longrightarrow> chunk_text tk n n text = Inl (ValueErr ''range() arg 3 must not be zero'')"
  "chunk_tokens < overlap_tokens \<Longrightarrow> chunk_text tk chunk_tokens overlap_tokens text = Inr []"
  by (auto simp: chunk_text_def range_from_zero_def Let_def)

definition word_tokens :: "char tokenizer" where
  "word_tokens = \<lparr>tk_encode = (\<lambda>s. s), tk_decode = (\<lambda>s. s)\<rparr>"

theorem chunks_cover_witness:
  "\<exists>n. chunk_text word_tokens 3 1 ''abcde'' = Inr [''abc'', ''cde'', ''e''] \<and> concat (map (\<lambda>k. take 2 (window 3 ''abcde'' (k * 2))) [0..<n]) = ''abcde''"
proof -
  have "chunk_text word_tokens 3 1 ''abcde'' = Inr [''abc'', ''cde'', ''e'']" by code_simp
  moreover have "(1::nat) < 3" by simp
  from chunks_cover[OF this, of word_tokens "''abcde''"] obtain n where
    "concat (map (\<lambda>k. take (3 - 1) (window 3 ''abcde'' (k * (3 - 1)))) [0..<n]) = ''abcde''" by (auto simp: word_tokens_def)
  ultimately show ?thesis by auto
qed

subsection \<open>What a round records\<close>

text \<open>What a chunk record is about: its document, the site and the permissions it requires, its text.\<close>

type_synonym chunk = "uuid option \<times> string option \<times> string list \<times> string"

definition chunk_of :: "memory_row \<Rightarrow> chunk" where
  "chunk_of r = (mr_document r, mr_site r, mr_permissions r, mr_content r)"

definition document_chunks :: "document_row \<Rightarrow> string list \<Rightarrow> chunk list" where
  "document_chunks d cs = map (\<lambda>c. (Some (dc_id d), dc_site d, [''documents:read''], c)) cs"

text \<open>The chunks an event asks for.\<close>

definition chunks_of_document :: "('b, 'k) ingestion \<Rightarrow> 'b \<Rightarrow> document_row \<Rightarrow> chunk list" where
  "chunks_of_document g b d = (case download_blob (in_azure g) (dc_container d) (dc_blob_name d) b of
      Inl _ \<Rightarrow> []
    | Inr payload \<Rightarrow> (case extract_text (in_readers g) (dc_content_type d) payload of
        Inl _ \<Rightarrow> []
      | Inr txt \<Rightarrow> (case chunk_text (in_tokenizer g) (in_chunk_tokens g) (in_overlap_tokens g) txt of
          Inl _ \<Rightarrow> [] | Inr cs \<Rightarrow> document_chunks d cs)))"

definition event_chunks :: "('b, 'k) ingestion \<Rightarrow> 'b \<Rightarrow> document_tables \<Rightarrow> outbox_row \<Rightarrow> chunk list" where
  "event_chunks g b t event = (case parse_uuid (ob_key event) of
      Inl _ \<Rightarrow> []
    | Inr i \<Rightarrow> (case List.find (\<lambda>d. dc_id d = i) (dt_documents t) of None \<Rightarrow> [] | Some d \<Rightarrow> chunks_of_document g b d))"

lemma record_memory_Inr:
  "record_memory p i now w rows = Inr (j, rows') \<Longrightarrow> \<exists>r. rows' = rows @ [r] \<and> mr_synced_at r = None \<and> live r
     \<and> chunk_of r = (mw_document w, mw_site w, sort (remdups (mw_permissions w)), mw_content w) \<and> mr_kind r = mw_kind w"
  by (auto simp: record_memory_def rbind_Inr_iff rmap_Inr_iff insert_memory_Inr memory_row_of_def chunk_of_def live_def)

lemma record_chunks_effect:
  assumes "record_chunks g d cs (rows, n) = (res, rows', n')"
  shows "\<exists>new. rows' = rows @ new \<and> prefix (map chunk_of new) (document_chunks d cs)
    \<and> (\<forall>u. res = Inr u \<longrightarrow> map chunk_of new = document_chunks d cs)
    \<and> (\<forall>h. memory_ok rows h \<longrightarrow> memory_ok rows' h)"
  using assms
proof (induction cs arbitrary: rows n)
  case Nil
  then show ?case by (simp add: document_chunks_def)
next
  case (Cons c cs)
  show ?case
  proof (cases "record_memory (in_repository g) (in_fresh g n) (in_clock g n) (chunk_write d c) rows")
    case (Inl e)
    then show ?thesis using Cons.prems by auto
  next
    case (Inr x)
    obtain j rows1 where x: "x = (j, rows1)" by fastforce
    have rec: "record_memory (in_repository g) (in_fresh g n) (in_clock g n) (chunk_write d c) rows = Inr (j, rows1)" using Inr x by simp
    obtain r where r: "rows1 = rows @ [r]" "chunk_of r = (Some (dc_id d), dc_site d, [''documents:read''], c)"
      using record_memory_Inr[OF rec] by (auto simp: chunk_write_def)
    have "record_chunks g d cs (rows1, n + 1) = (res, rows', n')" using Cons.prems rec by simp
    from Cons.IH[OF this] obtain new where new: "rows' = rows1 @ new" "prefix (map chunk_of new) (document_chunks d cs)"
        "\<forall>u. res = Inr u \<longrightarrow> map chunk_of new = document_chunks d cs" "\<forall>h. memory_ok rows1 h \<longrightarrow> memory_ok rows' h" by blast
    have "\<forall>h. memory_ok rows h \<longrightarrow> memory_ok rows' h" using new(4) record_memory_keeps[OF _ rec] by blast
    then show ?thesis using new(1-3) r by (intro exI[of _ "r # new"]) (auto simp: document_chunks_def)
  qed
qed

text \<open>Marks change neither what documents say nor which there are.\<close>

definition unmarked :: "document_row \<Rightarrow> document_row" where
  "unmarked d = d\<lparr>dc_status := [], dr_error := None\<rparr>"

definition same_documents :: "document_tables \<Rightarrow> document_tables \<Rightarrow> bool" where
  "same_documents t t' \<longleftrightarrow> map unmarked (dt_documents t') = map unmarked (dt_documents t)"

lemma unmarked_fields:
  assumes "unmarked d' = unmarked d"
  shows "dc_id d' = dc_id d" "dc_site d' = dc_site d" "dc_content_type d' = dc_content_type d" "dc_container d' = dc_container d"
    "dc_blob_name d' = dc_blob_name d"
  using assms by (cases d; cases d'; simp add: unmarked_def)+

lemma chunks_of_unmarked: "unmarked d' = unmarked d \<Longrightarrow> chunks_of_document g b d' = chunks_of_document g b d"
  using unmarked_fields[of d' d] by (simp add: chunks_of_document_def document_chunks_def cong: sum.case_cong)

lemma find_unmarked: "map unmarked ys = map unmarked xs \<Longrightarrow>
    map_option unmarked (List.find (\<lambda>d. dc_id d = i) ys) = map_option unmarked (List.find (\<lambda>d. dc_id d = i) xs)"
proof (induction xs arbitrary: ys)
  case (Cons d xs)
  then obtain d' zs where ys: "ys = d' # zs" "unmarked d' = unmarked d" "map unmarked zs = map unmarked xs"
    by (cases ys) auto
  then show ?case using Cons.IH[of zs] unmarked_fields(1)[of d' d] by simp
qed simp

lemma event_chunks_same:
  assumes "same_documents t t'"
  shows "event_chunks g b t' event = event_chunks g b t event"
proof (cases "parse_uuid (ob_key event)")
  case (Inr i)
  have found: "map_option unmarked (List.find (\<lambda>d. dc_id d = i) (dt_documents t')) = map_option unmarked (List.find (\<lambda>d. dc_id d = i) (dt_documents t))"
    by (rule find_unmarked) (use assms in \<open>simp add: same_documents_def\<close>)
  show ?thesis
  proof (cases "List.find (\<lambda>d. dc_id d = i) (dt_documents t)")
    case None
    then show ?thesis using found Inr by (simp add: event_chunks_def)
  next
    case (Some d)
    then obtain d' where "List.find (\<lambda>d. dc_id d = i) (dt_documents t') = Some d'" "unmarked d' = unmarked d" using found by auto
    then show ?thesis using Some Inr chunks_of_unmarked[of d' d g b] by (simp add: event_chunks_def)
  qed
qed (simp add: event_chunks_def)

lemma set_document_same: "same_documents t (set_document i s e t)"
  by (simp add: same_documents_def set_document_def unmarked_def)

lemma set_ingested_same: "same_documents t (set_ingested i at_time t)"
  by (simp add: same_documents_def set_ingested_def)

lemma same_documents_refl [simp]: "same_documents t t"
  by (simp add: same_documents_def)

lemma same_documents_trans: "same_documents t t1 \<Longrightarrow> same_documents t1 t2 \<Longrightarrow> same_documents t t2"
  by (simp add: same_documents_def)

text \<open>Events keep everything but the time of their ingestion.\<close>

definition ingested_mark :: "nat set \<Rightarrow> outbox_row \<Rightarrow> outbox_row \<Rightarrow> bool" where
  "ingested_mark ids r r' \<longleftrightarrow> (if ob_id r \<in> ids then \<exists>m. r' = r\<lparr>ob_ingested := Some m\<rparr> else r' = r)"

lemma ingest_event_effect:
  assumes "ingest_event g b event (t, rows, n) = (res, t', rows', n')"
  shows "(\<exists>new. rows' = rows @ new \<and> prefix (map chunk_of new) (event_chunks g b t event)
      \<and> (\<forall>k. res = Inr k \<longrightarrow> map chunk_of new = event_chunks g b t event))
    \<and> (\<forall>h. memory_ok rows h \<longrightarrow> memory_ok rows' h) \<and> same_documents t t'
    \<and> (\<forall>k. res = Inr k \<longrightarrow> list_all2 (ingested_mark {ob_id event}) (dt_outbox t) (dt_outbox t'))"
proof -
  have marks: "list_all2 (ingested_mark {i}) (dt_outbox t0) (dt_outbox (set_ingested i m t0))" for i m t0
    by (auto simp: set_ingested_def list_all2_map2 list_all2_same ingested_mark_def)
  have marks': "list_all2 (ingested_mark {i}) (dt_outbox t) (dt_outbox (set_ingested i m (set_document j s e t)))" for i m j s e
    using marks[of i "set_document j s e t" m] by (simp add: set_document_def)
  have docs: "same_documents t (set_ingested i m t)" "same_documents t (set_ingested i m (set_document j s e t))" for i m j s e
    using set_document_same set_ingested_same same_documents_trans by blast+
  note run = assms[unfolded ingest_event_def prod.case]
  show ?thesis
  proof (cases "parse_uuid (ob_key event)")
    case (Inr i)
    note id = this
    show ?thesis
    proof (cases "List.find (\<lambda>d. dc_id d = i) (dt_documents t)")
      case None
      then show ?thesis using run id marks docs by (auto simp: event_chunks_def)
    next
      case (Some d)
      note doc = this
      show ?thesis
      proof (cases "download_blob (in_azure g) (dc_container d) (dc_blob_name d) b")
        case (Inr payload)
        note blob = this
        show ?thesis
        proof (cases "extract_text (in_readers g) (dc_content_type d) payload")
          case (Inl message)
          then show ?thesis using run id doc blob marks' docs by (auto simp: event_chunks_def chunks_of_document_def)
        next
          case (Inr contents)
          note body = this
          show ?thesis
          proof (cases "chunk_text (in_tokenizer g) (in_chunk_tokens g) (in_overlap_tokens g) contents")
            case (Inr cs)
            then have chunks: "event_chunks g b t event = document_chunks d cs"
              using id doc blob body by (simp add: event_chunks_def chunks_of_document_def)
            obtain r1 rows1 n1 where rec: "record_chunks g d cs (rows, n) = (r1, rows1, n1)" using prod_cases3 by blast
            note eff = record_chunks_effect[OF rec]
            show ?thesis using run id doc blob body Inr rec eff marks' docs chunks by (cases r1) auto
          qed (use run id doc blob body in \<open>auto simp: event_chunks_def chunks_of_document_def\<close>)
        qed
      qed (use run id doc in \<open>auto simp: event_chunks_def chunks_of_document_def\<close>)
    qed
  qed (use run in \<open>auto simp: event_chunks_def\<close>)
qed

lemma ingested_marks_trans:
  assumes "list_all2 (ingested_mark {i}) xs ys" and "list_all2 (ingested_mark ids) ys zs"
  shows "list_all2 (ingested_mark (insert i ids)) xs zs"
proof -
  have "ingested_mark {i} x y \<Longrightarrow> ingested_mark ids y z \<Longrightarrow> ingested_mark (insert i ids) x z" for x y z
    by (cases "ob_id x = i"; cases "ob_id x \<in> ids") (auto simp: ingested_mark_def)
  then show ?thesis using list_all2_trans[of "ingested_mark {i}" "ingested_mark ids" "ingested_mark (insert i ids)"] assms by blast
qed

lemma ingest_events_effect:
  assumes "ingest_events g b events (t, rows, n) = (res, t', rows', n')"
  shows "(\<exists>new. rows' = rows @ new \<and> prefix (map chunk_of new) (concat (map (event_chunks g b t) events))
      \<and> (\<forall>k. res = Inr k \<longrightarrow> map chunk_of new = concat (map (event_chunks g b t) events)))
    \<and> (\<forall>h. memory_ok rows h \<longrightarrow> memory_ok rows' h) \<and> same_documents t t'
    \<and> (\<forall>k. res = Inr k \<longrightarrow> list_all2 (ingested_mark (ob_id ` set events)) (dt_outbox t) (dt_outbox t'))"
  using assms
proof (induction events arbitrary: t rows n res)
  case Nil
  then show ?case by (auto simp: list_all2_same ingested_mark_def same_documents_def)
next
  case (Cons event events)
  obtain r1 t1 rows1 n1 where one: "ingest_event g b event (t, rows, n) = (r1, t1, rows1, n1)" using prod_cases4 by blast
  note eff = ingest_event_effect[OF one]
  show ?case
  proof (cases r1)
    case (Inl e)
    then show ?thesis using Cons.prems one eff by (auto intro: prefix_prefix)
  next
    case (Inr k)
    then obtain r2 where rest: "ingest_events g b events (t1, rows1, n1) = (r2, t', rows', n')" and r2: "res = Inr m \<Longrightarrow> \<exists>j. r2 = Inr j" for m
      using Cons.prems one by (cases "ingest_events g b events (t1, rows1, n1)") (auto split: sum.splits)
    note ih = Cons.IH[OF rest]
    have "same_documents t t1" using eff by (elim conjE)
    then have same: "event_chunks g b t1 = event_chunks g b t" using event_chunks_same[of t t1 g b] by (intro ext) simp
    obtain new1 where new1: "rows1 = rows @ new1" "map chunk_of new1 = event_chunks g b t event"
      using conjunct1[OF eff] Inr by auto
    obtain new2 where new2: "rows' = rows1 @ new2" "prefix (map chunk_of new2) (concat (map (event_chunks g b t) events))"
        "\<And>j. r2 = Inr j \<Longrightarrow> map chunk_of new2 = concat (map (event_chunks g b t) events)"
      using conjunct1[OF ih] unfolding same by (elim exE conjE) simp
    have "\<exists>new. rows' = rows @ new \<and> prefix (map chunk_of new) (concat (map (event_chunks g b t) (event # events)))
        \<and> (\<forall>k. res = Inr k \<longrightarrow> map chunk_of new = concat (map (event_chunks g b t) (event # events)))"
      using new1 new2 r2 by (intro exI[of _ "new1 @ new2"]) auto
    moreover have "list_all2 (ingested_mark (ob_id ` set (event # events))) (dt_outbox t) (dt_outbox t')" if "res = Inr m" for m
      using ingested_marks_trans[of "ob_id event"] eff ih r2[OF that] Inr by auto
    moreover have "\<forall>h. memory_ok rows h \<longrightarrow> memory_ok rows' h" using eff ih by simp
    moreover have "same_documents t t'" using eff ih same_documents_trans[of t t1 t'] by simp
    ultimately show ?thesis by simp
  qed
qed


text \<open>C30. Ingestion, one round. When it succeeds, the records it adds are exactly the chunks of the documents its events name,
  in the order of the events, and precisely those events are marked; no document changes but in status and error. When
  it raises, documents and events stay as they were, yet the chunks recorded up to then, a prefix of those of the
  batch, are kept: the next round, which starts with the same events, records them again. In both cases the store of
  memory records keeps its invariant.\<close>

theorem ingestion_exact:
  assumes "ingest_once g b (t, rows, n) = (res, t', rows', n')"
  defines "batch \<equiv> uningested_batch (in_batch g) (in_topic g) (dt_outbox t)"
  defines "chunks \<equiv> concat (map (event_chunks g b t) batch)"
  shows "\<exists>new. rows' = rows @ new \<and> (\<forall>h. memory_ok rows h \<longrightarrow> memory_ok rows' h) \<and> (case res of
      Inr k \<Rightarrow> map chunk_of new = chunks \<and> same_documents t t'
               \<and> list_all2 (ingested_mark (ob_id ` set batch)) (dt_outbox t) (dt_outbox t')
    | Inl e \<Rightarrow> prefix (map chunk_of new) chunks \<and> t' = t)"
proof -
  obtain r1 t1 rows1 n1 where run: "ingest_events g b batch (t, rows, n) = (r1, t1, rows1, n1)" using prod_cases4 by blast
  have out: "res = r1" "rows' = rows1" "t' = (case r1 of Inl e \<Rightarrow> t | Inr k \<Rightarrow> t1)"
    using assms(1) run by (auto simp: ingest_once_def batch_def split: sum.splits)
  note eff = ingest_events_effect[OF run, folded chunks_def]
  show ?thesis using eff unfolding out by (cases r1) auto
qed

text \<open>A download that fails behind a document already chunked: the chunk is recorded in every round.\<close>

definition sample_ingestion :: "(unit, char) ingestion" where
  "sample_ingestion = \<lparr>in_azure = \<lparr>az_create_container = (\<lambda>_ b. (Inr (), b)), az_upload = (\<lambda>_ _ _ _ _ b. (Inl resource_exists, b)),
       az_download = (\<lambda>_ name _. if name = ''manual'' then Inr [] else Inl resource_exists)\<rparr>,
     in_readers = \<lparr>tr_decode = (\<lambda>_. Inr ''pump''), tr_pdf = (\<lambda>_. Inr []), tr_docx = (\<lambda>_. Inr [])\<rparr>,
     in_tokenizer = word_tokens, in_chunk_tokens = 8, in_overlap_tokens = 2, in_repository = sample_repository, in_batch = 10,
     in_topic = ''documents'', in_fresh = word_of_nat, in_clock = (\<lambda>n. 0)\<rparr>"

definition sample_document :: "uuid \<Rightarrow> string \<Rightarrow> document_row" where
  "sample_document i name = \<lparr>dc_id = i, dc_filename = name, dc_content_type = ''text/plain'', dc_size = 0, dc_sha = [], dc_container = [],
     dc_blob_name = name, dc_blob_url = [], dc_etag = [], dc_status = ''queued'', dc_site = None, dc_created_at = 0, dc_key = None,
     dr_error = None\<rparr>"

definition sample_document_tables :: document_tables where
  "sample_document_tables = \<lparr>dt_documents = [sample_document 5 ''manual'', sample_document 6 ''lost''],
     dt_outbox = [sample_outbox_row, sample_outbox_row\<lparr>ob_id := 1, ob_key := uuid_str 6\<rparr>], dt_next = 2\<rparr>"

definition sample_chunk_row :: "uuid \<Rightarrow> memory_row" where
  "sample_chunk_row i = memory_row_of sample_repository i 0 ''pump'' ''pump'' ''documents'' (chunk_write (sample_document 5 ''manual'') ''pump'')"

lemma sample_manual: "chunk_text word_tokens 8 2 ''pump'' = Inr [''pump'']"
  by code_simp

lemma sample_insert: "set rows \<subseteq> sample_chunk_row ` I \<Longrightarrow> i \<notin> I \<Longrightarrow>
    record_memory sample_repository i 0 (chunk_write (sample_document 5 ''manual'') ''pump'') rows = Inr (i, rows @ [sample_chunk_row i])"
  by (fastforce simp: record_memory_def namespace_for_def insert_memory_def sample_chunk_row_def memory_row_of_def chunk_write_def
      sample_repository_def same_fact_def list_ex_iff)

lemma sample_round: "set rows \<subseteq> sample_chunk_row ` I \<Longrightarrow> word_of_nat n \<notin> I \<Longrightarrow>
    ingest_once sample_ingestion () (sample_document_tables, rows, n)
      = (Inl resource_exists, sample_document_tables, rows @ [sample_chunk_row (word_of_nat n)], n + 2)"
  using sample_insert[of rows I "word_of_nat n"]
  by (simp add: ingest_once_def sample_ingestion_def sample_document_tables_def uningested_batch_def sample_outbox_row_def ingest_event_def
      sample_document_def download_blob_def extract_text_def sample_manual set_ingested_def set_document_def)

theorem ingestion_exact_witness:
  "\<exists>rows1 rows2. ingest_once sample_ingestion () (sample_document_tables, [], 0) = (Inl resource_exists, sample_document_tables, rows1, 2)
    \<and> ingest_once sample_ingestion () (sample_document_tables, rows1, 2) = (Inl resource_exists, sample_document_tables, rows2, 4)
    \<and> length rows1 = 1 \<and> length rows2 = 2 \<and> memory_ok rows2 (\<lambda>_. {})"
proof -
  have first: "ingest_once sample_ingestion () (sample_document_tables, [], 0) = (Inl resource_exists, sample_document_tables, [sample_chunk_row 0], 2)"
    using sample_round[of "[]" "{}" 0] by simp
  have second: "ingest_once sample_ingestion () (sample_document_tables, [sample_chunk_row 0], 2)
      = (Inl resource_exists, sample_document_tables, [sample_chunk_row 0, sample_chunk_row 2], 4)"
    using sample_round[of "[sample_chunk_row 0]" "{0}" 2] by simp
  have "memory_ok [] (\<lambda>_. {})" by (simp add: memory_ok_def records_ok_def index_matches_def)
  then show ?thesis using first second ingestion_exact[OF first] ingestion_exact[OF second] by auto
qed

end
