(* ===== verification/Lifecycle.thy ===== *)
theory Lifecycle
  imports Prelude
begin

section \<open>Managed resources and the container\<close>

text \<open>
  \<open>Container.start\<close> and \<open>Container.close\<close> of \<open>src/app/container.py\<close> over the interface \<open>ManagedResource\<close>
  (\<open>src/app/core/life_cycle.py\<close>), and the resources the program manages: the polling workers, the PostgreSQL checkpointer
  and the agent orchestrator. A resource acts on a world of type \<open>'s\<close>; a call returns \<open>None\<close> or what it raised.
\<close>

subsection \<open>The container\<close>

datatype raised = Raised exc | Raised_Group string "raised list"

record 's resource =
  rs_start :: "'s \<Rightarrow> raised option \<times> 's"
  rs_stop :: "'s \<Rightarrow> raised option \<times> 's"

fun start_each :: "'s resource list \<Rightarrow> 's resource list \<Rightarrow> 's \<Rightarrow> raised option \<times> 's resource list \<times> 's" where
  "start_each [] started s = (None, started, s)"
| "start_each (r # rs) started s = (case rs_start r s of
      (Some e, s') \<Rightarrow> (Some e, started, s')
    | (None, s') \<Rightarrow> start_each rs (started @ [r]) s')"

fun stop_each :: "'s resource list \<Rightarrow> 's \<Rightarrow> raised list \<times> 's" where
  "stop_each [] s = ([], s)"
| "stop_each (r # rs) s = (case rs_stop r s of (x, s') \<Rightarrow> (case stop_each rs s' of (errors, s'') \<Rightarrow>
     ((case x of None \<Rightarrow> errors | Some e \<Rightarrow> e # errors), s'')))"

record 's container =
  ct_resources :: "'s resource list"
  ct_started_resources :: "'s resource list"
  ct_started :: bool
  ct_closed :: bool

definition new_container :: "'s resource list \<Rightarrow> 's container" where
  "new_container rs = \<lparr>ct_resources = rs, ct_started_resources = [], ct_started = False, ct_closed = False\<rparr>"

definition container_start :: "'s container \<times> 's \<Rightarrow> raised option \<times> 's container \<times> 's" where
  "container_start cs = (case cs of (c, s) \<Rightarrow>
     if ct_closed c then (Some (Raised (RuntimeErr ''Cannot start a closed container'')), c, s)
     else if ct_started c then (None, c, s)
     else (case start_each (ct_resources c) (ct_started_resources c) s of
         (None, started, s') \<Rightarrow> (None, c\<lparr>ct_started_resources := started, ct_started := True\<rparr>, s')
       | (Some e, started, s') \<Rightarrow> (case stop_each (rev started) s' of (errors, s'') \<Rightarrow>
           (Some (if errors = [] then e else Raised_Group ''Container startup and rollback failed'' (e # errors)),
            c\<lparr>ct_started_resources := []\<rparr>, s''))))"

definition close_errors :: "raised list \<Rightarrow> raised option" where
  "close_errors errors = (if errors = [] then None else Some (Raised_Group ''One or more container resources failed to close'' errors))"

text \<open>\<open>dispose\<close> is the disposal of the database engine.\<close>

definition container_close :: "('s \<Rightarrow> raised option \<times> 's) \<Rightarrow> 's container \<times> 's \<Rightarrow> raised option \<times> 's container \<times> 's" where
  "container_close dispose cs = (case cs of (c, s) \<Rightarrow>
     if ct_closed c then (None, c, s)
     else (case stop_each (rev (ct_started_resources c)) s of (errors, s') \<Rightarrow>
       (case dispose s' of (x, s'') \<Rightarrow>
         (close_errors (errors @ (case x of None \<Rightarrow> [] | Some e \<Rightarrow> [e])),
          c\<lparr>ct_closed := True, ct_started_resources := [], ct_started := False\<rparr>, s''))))"

subsection \<open>Every started resource is stopped once, in reverse order\<close>

datatype life_event = Start_Done nat | Start_Failed nat | Stop_Called nat

text \<open>A resource with a number that records what is done to it.\<close>

definition logged :: "nat \<Rightarrow> 's resource \<Rightarrow> ('s \<times> life_event list) resource" where
  "logged i r = \<lparr>
     rs_start = (\<lambda>(s, log). case rs_start r s of
        (None, s') \<Rightarrow> (None, s', log @ [Start_Done i]) | (Some e, s') \<Rightarrow> (Some e, s', log @ [Start_Failed i])),
     rs_stop = (\<lambda>(s, log). case rs_stop r s of (x, s') \<Rightarrow> (x, s', log @ [Stop_Called i]))\<rparr>"

definition logged_resources :: "'s resource list \<Rightarrow> ('s \<times> life_event list) resource list" where
  "logged_resources rs = map (\<lambda>i. logged i (rs ! i)) [0..<length rs]"

text \<open>The resources that are open after a log, the latest first; \<open>None\<close> when a stop does not meet the latest open one.\<close>

fun brackets :: "life_event list \<Rightarrow> nat list \<Rightarrow> nat list option" where
  "brackets [] opened = Some opened"
| "brackets (Start_Done i # es) opened = brackets es (i # opened)"
| "brackets (Start_Failed i # es) opened = brackets es opened"
| "brackets (Stop_Called i # es) [] = None"
| "brackets (Stop_Called i # es) (j # opened) = (if i = j then brackets es opened else None)"

datatype container_op = Start_Container | Close_Container

definition container_step ::
  "('s \<Rightarrow> raised option \<times> 's) \<Rightarrow> 's container \<times> 's \<Rightarrow> container_op \<Rightarrow> 's container \<times> 's" where
  "container_step dispose cs op = (case op of
      Start_Container \<Rightarrow> snd (container_start cs)
    | Close_Container \<Rightarrow> snd (container_close dispose cs))"

lemma brackets_append: "brackets (es @ fs) opened = Option.bind (brackets es opened) (brackets fs)"
  by (induction es opened rule: brackets.induct) auto

lemma start_logged:
  assumes "start_each (map (\<lambda>i. logged i (rs ! i)) [k..<n]) (map (\<lambda>i. logged i (rs ! i)) [0..<k]) (s, lg) = (x, started, s', lg')"
    and "k \<le> n" and "brackets lg [] = Some (rev [0..<k])"
  shows "\<exists>m \<le> n. started = map (\<lambda>i. logged i (rs ! i)) [0..<m] \<and> brackets lg' [] = Some (rev [0..<m]) \<and> (x = None \<longrightarrow> m = n)"
  using assms
proof (induction "n - k" arbitrary: k s lg)
  case 0
  then show ?case by (auto intro!: exI[of _ n])
next
  case (Suc d)
  then have k: "k < n" "d = n - Suc k" "Suc k \<le> n" by auto
  have upt: "[k..<n] = k # [Suc k..<n]" using k(1) by (simp add: upt_conv_Cons)
  obtain y s1 where y: "rs_start (rs ! k) s = (y, s1)" by fastforce
  show ?case
  proof (cases y)
    case None
    have "start_each (map (\<lambda>i. logged i (rs ! i)) [Suc k..<n]) (map (\<lambda>i. logged i (rs ! i)) [0..<Suc k]) (s1, lg @ [Start_Done k])
        = (x, started, s', lg')"
      using Suc.prems(1) y None by (simp add: upt logged_def)
    moreover have "brackets (lg @ [Start_Done k]) [] = Some (rev [0..<Suc k])" using Suc.prems(3) by (simp add: brackets_append)
    ultimately show ?thesis using Suc.hyps(1)[OF k(2) _ k(3)] by blast
  next
    case (Some e)
    then have "started = map (\<lambda>i. logged i (rs ! i)) [0..<k]" "x = Some e" "lg' = lg @ [Start_Failed k]"
      using Suc.prems(1) y by (auto simp: upt logged_def)
    then show ?thesis using Suc.prems(3) k(1) by (intro exI[of _ k]) (simp add: brackets_append)
  qed
qed

lemma stop_logged:
  assumes "stop_each (rev (map (\<lambda>i. logged i (rs ! i)) [0..<k])) (s, lg) = (errors, s', lg')" and "brackets lg [] = Some (rev [0..<k])"
  shows "brackets lg' [] = Some []"
  using assms
proof (induction k arbitrary: s lg errors)
  case (Suc k)
  obtain y s1 where y: "rs_stop (rs ! k) s = (y, s1)" by fastforce
  obtain errors1 where "stop_each (rev (map (\<lambda>i. logged i (rs ! i)) [0..<k])) (s1, lg @ [Stop_Called k]) = (errors1, s', lg')"
    using Suc.prems(1) y by (auto simp: logged_def split: prod.splits)
  moreover have "brackets (lg @ [Stop_Called k]) [] = Some (rev [0..<k])" using Suc.prems(2) by (simp add: brackets_append)
  ultimately show ?case by (rule Suc.IH)
qed simp

text \<open>Between operations all resources are open or none is.\<close>

definition lifecycle_ok :: "'s resource list \<Rightarrow> ('s \<times> life_event list) container \<Rightarrow> life_event list \<Rightarrow> bool" where
  "lifecycle_ok rs c lg \<longleftrightarrow> ct_resources c = logged_resources rs
     \<and> ct_started_resources c = (if ct_started c then logged_resources rs else [])
     \<and> brackets lg [] = Some (if ct_started c then rev [0..<length rs] else [])
     \<and> (ct_closed c \<longrightarrow> \<not> ct_started c)"

lemma container_start_ok:
  assumes ok: "lifecycle_ok rs c lg" and run: "container_start (c, s, lg) = (x, c', s', lg')"
  shows "lifecycle_ok rs c' lg' \<and> (ct_closed c \<longrightarrow> lg' = lg) \<and> (x = None \<longrightarrow> ct_started c') \<and> ct_closed c' = ct_closed c"
proof (cases "ct_closed c \<or> ct_started c")
  case True
  then show ?thesis using ok run by (cases "ct_closed c") (auto simp: container_start_def)
next
  case False
  let ?f = "\<lambda>i. logged i (rs ! i)"
  have parts: "ct_resources c = map ?f [0..<length rs]" "ct_started_resources c = map ?f [0..<0]" "brackets lg [] = Some (rev [0..<0])"
    using ok False by (simp_all add: lifecycle_ok_def logged_resources_def)
  obtain y started s1 lg1 where st: "start_each (map ?f [0..<length rs]) (map ?f [0..<0]) (s, lg) = (y, started, s1, lg1)"
    using prod_cases4 by blast
  obtain m where m: "m \<le> length rs" "started = map ?f [0..<m]" "brackets lg1 [] = Some (rev [0..<m])" "y = None \<Longrightarrow> m = length rs"
    using start_logged[OF st _ parts(3)] by auto
  show ?thesis
  proof (cases y)
    case None
    then show ?thesis using run ok False st m by (auto simp: container_start_def parts(1,2)[simplified] lifecycle_ok_def logged_resources_def)
  next
    case (Some e)
    obtain errors s2 lg2 where sp: "stop_each (rev (map ?f [0..<m])) (s1, lg1) = (errors, s2, lg2)" using prod_cases3 by blast
    have "brackets lg2 [] = Some []" by (rule stop_logged[OF sp m(3)])
    then show ?thesis using run ok False st Some m(2) sp
      by (auto simp: container_start_def parts(1,2)[simplified] lifecycle_ok_def)
  qed
qed

text \<open>The disposal of the engine leaves the log of the resources alone.\<close>

definition quiet :: "('s \<Rightarrow> raised option \<times> 's) \<Rightarrow> 's \<times> life_event list \<Rightarrow> raised option \<times> 's \<times> life_event list" where
  "quiet dispose = (\<lambda>(s, lg). case dispose s of (x, s') \<Rightarrow> (x, s', lg))"

lemma container_close_ok:
  assumes ok: "lifecycle_ok rs c lg" and run: "container_close (quiet dispose) (c, s, lg) = (x, c', s', lg')"
  shows "lifecycle_ok rs c' lg' \<and> ct_closed c' \<and> (ct_closed c \<longrightarrow> lg' = lg)"
proof (cases "ct_closed c")
  case False
  let ?k = "if ct_started c then length rs else 0"
  have parts: "ct_started_resources c = map (\<lambda>i. logged i (rs ! i)) [0..<?k]" "brackets lg [] = Some (rev [0..<?k])"
    using ok by (simp_all add: lifecycle_ok_def logged_resources_def)
  obtain errors s1 lg1 where sp: "stop_each (rev (map (\<lambda>i. logged i (rs ! i)) [0..<?k])) (s, lg) = (errors, s1, lg1)" using prod_cases3 by blast
  have "brackets lg1 [] = Some []" by (rule stop_logged[OF sp parts(2)])
  then show ?thesis using run ok False sp unfolding container_close_def prod.case parts(1)
    by (auto simp: quiet_def lifecycle_ok_def split: prod.splits)
qed (use ok run in \<open>auto simp: container_close_def\<close>)

lemma container_steps_ok:
  assumes "lifecycle_ok rs c lg" and "foldl (container_step (quiet dispose)) (c, s, lg) ops = (c', s', lg')"
  shows "lifecycle_ok rs c' lg' \<and> (ct_closed c \<longrightarrow> lg' = lg \<and> ct_closed c') \<and> (Close_Container \<in> set ops \<longrightarrow> ct_closed c')"
  using assms
proof (induction ops arbitrary: c s lg)
  case (Cons op ops)
  obtain c1 s1 lg1 where step: "container_step (quiet dispose) (c, s, lg) op = (c1, s1, lg1)" using prod_cases3 by blast
  have one: "lifecycle_ok rs c1 lg1 \<and> (ct_closed c \<longrightarrow> lg1 = lg \<and> ct_closed c1) \<and> (op = Close_Container \<longrightarrow> ct_closed c1)"
  proof (cases op)
    case Start_Container
    then obtain x where "container_start (c, s, lg) = (x, c1, s1, lg1)" using step by (auto simp: container_step_def prod_eq_iff)
    then show ?thesis using container_start_ok[OF Cons.prems(1)] Start_Container by auto
  next
    case Close_Container
    then obtain x where "container_close (quiet dispose) (c, s, lg) = (x, c1, s1, lg1)" using step by (auto simp: container_step_def prod_eq_iff)
    then show ?thesis using container_close_ok[OF Cons.prems(1)] by auto
  qed
  have "foldl (container_step (quiet dispose)) (c1, s1, lg1) ops = (c', s', lg')" using Cons.prems(2) step by simp
  then show ?case using Cons.IH[of c1 lg1 s1] one by auto
qed simp

text \<open>C34. Whatever resources a container manages, however they fail, and in whatever order it is started and closed, every stop
  meets the resource that was started last among those still open: resources are stopped once each, in reverse order, and only
  after their start succeeded. Between operations either all of them are open or none is, and once the container has been
  closed none is, nor is anything started again.\<close>

theorem container_lifecycle:
  assumes "foldl (container_step (quiet dispose)) (new_container (logged_resources rs), s, []) ops = (c, s', lg)"
  shows "brackets lg [] = Some (if ct_started c then rev [0..<length rs] else [])
    \<and> (Close_Container \<in> set ops \<longrightarrow> \<not> ct_started c \<and> fst (container_start (c, s', lg)) \<noteq> None \<and> snd (container_start (c, s', lg)) = (c, s', lg))"
proof -
  have "lifecycle_ok rs (new_container (logged_resources rs)) []" by (simp add: lifecycle_ok_def new_container_def)
  from container_steps_ok[OF this assms] show ?thesis
    by (auto simp: lifecycle_ok_def container_start_def)
qed

definition failing_resource :: "nat resource" where
  "failing_resource = \<lparr>rs_start = (\<lambda>n. if n < 2 then (Some (Raised (RuntimeErr ''unavailable'')), n + 1) else (None, n + 1)),
     rs_stop = (\<lambda>n. (Some (Raised (RuntimeErr ''stuck'')), n))\<rparr>"

definition plain_resource :: "nat resource" where
  "plain_resource = \<lparr>rs_start = (\<lambda>n. (None, n + 1)), rs_stop = (\<lambda>n. (None, n))\<rparr>"

theorem container_lifecycle_witness:
  "\<exists>c. foldl (container_step (quiet (\<lambda>n. (None, n)))) (new_container (logged_resources [plain_resource, failing_resource]), 0, [])
      [Start_Container, Start_Container, Close_Container] = (c, 4, [Start_Done 0, Start_Failed 1, Stop_Called 0, Start_Done 0, Start_Done 1, Stop_Called 1, Stop_Called 0])
    \<and> \<not> ct_started c"
proof -
  obtain c where run: "foldl (container_step (quiet (\<lambda>n. (None, n)))) (new_container (logged_resources [plain_resource, failing_resource]), 0, [])
      [Start_Container, Start_Container, Close_Container] = (c, 4, [Start_Done 0, Start_Failed 1, Stop_Called 0, Start_Done 0, Start_Done 1, Stop_Called 1, Stop_Called 0])"
    by (simp add: container_step_def container_start_def container_close_def new_container_def logged_resources_def logged_def
        plain_resource_def failing_resource_def quiet_def upt_rec)
  from container_lifecycle[OF run] have "\<not> ct_started c" by simp
  then show ?thesis using run by blast
qed

subsection \<open>The interface of a managed resource\<close>

text \<open>What a container relies on: a start that returns leaves the resource running, after a stop it does not run, whether or
  not the stop raised, and a start that raises leaves nothing running that did not run before.\<close>

locale managed_resource =
  fixes start :: "'s \<Rightarrow> raised option \<times> 's" and stop :: "'s \<Rightarrow> raised option \<times> 's" and running :: "'s \<Rightarrow> bool"
  assumes start_runs: "start s = (None, s') \<Longrightarrow> running s'"
    and start_fails: "start s = (Some e, s') \<Longrightarrow> \<not> running s \<Longrightarrow> \<not> running s'"
    and stop_ends: "\<not> running (snd (stop s))"
begin

text \<open>A use of the resource: it is started and, whatever happens, stopped if the start returned.\<close>

definition used :: "'s \<Rightarrow> ('s \<Rightarrow> 's) \<Rightarrow> 's" where
  "used s body = (case start s of (None, s') \<Rightarrow> snd (stop (body s')) | (Some _, s') \<Rightarrow> s')"

lemma used_ends: "\<not> running s \<Longrightarrow> \<not> running (used s body)"
  using start_fails stop_ends by (auto simp: used_def split: prod.splits option.splits)

lemma start_then_stop: "start s = (None, s1) \<Longrightarrow> running s1 \<and> \<not> running (snd (stop s1))"
  using start_runs stop_ends by blast

end

subsection \<open>Polling workers\<close>

text \<open>
  The workers for synchronisation, reconciliation, memory retention, consolidation, ingestion and the outbox share
  \<open>start\<close>, \<open>stop\<close> and a loop: a task that runs rounds until the stop event is set or a round raises. A round is one
  step; the waits between rounds do not matter for what rounds do. The job for the retention of conversations logs the
  exceptions of a round and goes on, and does not start twice.
\<close>

datatype task = Task_Running | Task_Ended "raised option"

record poller =
  po_stopping :: bool
  po_task :: "task option"

definition new_poller :: poller where
  "new_poller = \<lparr>po_stopping = False, po_task = None\<rparr>"

definition poller_start :: "poller \<Rightarrow> raised option \<times> poller" where
  "poller_start p = (None, p\<lparr>po_stopping := False, po_task := Some Task_Running\<rparr>)"

definition retention_start :: "poller \<Rightarrow> raised option \<times> poller" where
  "retention_start p = (if po_task p = Some Task_Running then (None, p) else poller_start p)"

text \<open>Awaiting a task that still runs lets its loop see the event and return.\<close>

definition poller_stop :: "poller \<Rightarrow> raised option \<times> poller" where
  "poller_stop p = (case po_task p of
      None \<Rightarrow> (None, p\<lparr>po_stopping := True\<rparr>)
    | Some (Task_Ended (Some e)) \<Rightarrow> (Some e, p\<lparr>po_stopping := True\<rparr>)
    | Some _ \<Rightarrow> (None, p\<lparr>po_stopping := True, po_task := None\<rparr>))"

text \<open>\<open>OutboxPublisher.stop\<close> flushes the broker after the task, and keeps the task.\<close>

definition outbox_stop :: "('q \<Rightarrow> raised option \<times> 'q) \<Rightarrow> poller \<times> 'q \<Rightarrow> raised option \<times> poller \<times> 'q" where
  "outbox_stop flush s = (case s of (p, q) \<Rightarrow> (case po_task p of
      Some (Task_Ended (Some e)) \<Rightarrow> (Some e, p\<lparr>po_stopping := True\<rparr>, q)
    | Some _ \<Rightarrow> (case flush q of (x, q') \<Rightarrow> (x, p\<lparr>po_stopping := True, po_task := Some (Task_Ended None)\<rparr>, q'))
    | None \<Rightarrow> (case flush q of (x, q') \<Rightarrow> (x, p\<lparr>po_stopping := True\<rparr>, q'))))"

definition poller_round :: "('w \<Rightarrow> 'n result \<times> 'w) \<Rightarrow> poller \<times> 'w \<Rightarrow> poller \<times> 'w" where
  "poller_round once s = (case s of (p, w) \<Rightarrow>
     if po_task p \<noteq> Some Task_Running then (p, w)
     else if po_stopping p then (p\<lparr>po_task := Some (Task_Ended None)\<rparr>, w)
     else (case once w of
         (Inl e, w') \<Rightarrow> (p\<lparr>po_task := Some (Task_Ended (Some (Raised e)))\<rparr>, w')
       | (Inr _, w') \<Rightarrow> (p, w')))"

definition retention_round :: "('w \<Rightarrow> 'n result \<times> 'w) \<Rightarrow> poller \<times> 'w \<Rightarrow> poller \<times> 'w" where
  "retention_round once s = poller_round (\<lambda>w. case once w of (Inl _, w') \<Rightarrow> (Inr (), w') | (Inr _, w') \<Rightarrow> (Inr (), w')) s"

definition poller_running :: "poller \<Rightarrow> bool" where
  "poller_running p \<longleftrightarrow> po_task p = Some Task_Running"

interpretation worker: managed_resource poller_start poller_stop poller_running
  by unfold_locales (auto simp: poller_start_def poller_stop_def poller_running_def split: option.splits task.splits)

interpretation retention_job: managed_resource retention_start poller_stop poller_running
  by unfold_locales (auto simp: retention_start_def poller_start_def poller_stop_def poller_running_def split: option.splits task.splits if_splits)

text \<open>Rounds by themselves: the world after at most \<open>n\<close> rounds, and the first exception.\<close>

fun rounds :: "('w \<Rightarrow> 'n result \<times> 'w) \<Rightarrow> nat \<Rightarrow> 'w \<Rightarrow> exc option \<times> 'w" where
  "rounds once 0 w = (None, w)"
| "rounds once (Suc n) w = (case once w of (Inl e, w') \<Rightarrow> (Some e, w') | (Inr _, w') \<Rightarrow> rounds once n w')"

lemma ended_round: "po_task p \<noteq> Some Task_Running \<Longrightarrow> (poller_round once ^^ n) (p, w) = (p, w)"
  by (induction n) (auto simp: poller_round_def)

lemma poller_rounds:
  assumes "po_task p = Some Task_Running" and "\<not> po_stopping p"
  shows "(poller_round once ^^ n) (p, w) = (case rounds once n w of
      (None, w') \<Rightarrow> (p, w') | (Some e, w') \<Rightarrow> (p\<lparr>po_task := Some (Task_Ended (Some (Raised e)))\<rparr>, w'))"
proof (induction n arbitrary: w)
  case (Suc n)
  obtain r w' where once: "once w = (r, w')" by fastforce
  have step: "poller_round once (p, w) = (case r of Inl e \<Rightarrow> (p\<lparr>po_task := Some (Task_Ended (Some (Raised e)))\<rparr>, w') | Inr _ \<Rightarrow> (p, w'))"
    using assms once by (cases r) (simp_all add: poller_round_def)
  have "(poller_round once ^^ Suc n) (p, w) = (poller_round once ^^ n) (poller_round once (p, w))"
    by (simp only: funpow_Suc_right o_apply)
  then show ?case unfolding step using Suc.IH[of w'] once by (cases r) (simp_all add: ended_round)
qed simp


text \<open>A failed round of the outbox publisher also keeps its stop from flushing the broker.\<close>

lemma failed_outbox_not_flushed:
  assumes "po_task p = Some Task_Running" and "\<not> po_stopping p" and "fst (once w) = Inl e"
  shows "outbox_stop flush (fst (poller_round once (p, w)), q)
    = (Some (Raised e), p\<lparr>po_task := Some (Task_Ended (Some (Raised e))), po_stopping := True\<rparr>, q)"
  using assms by (cases "once w") (simp add: poller_round_def outbox_stop_def)

subsection \<open>The checkpointer and the orchestrator\<close>

text \<open>\<open>PostgresCheckpointer\<close>: whether it holds a saver and is started. Opening and closing the pool and the setup of the saver
  are parameters on the state of the pool.\<close>

record checkpointer =
  cp_saver :: bool
  cp_started :: bool

definition new_checkpointer :: checkpointer where
  "new_checkpointer = \<lparr>cp_saver = False, cp_started = False\<rparr>"

record 'p saver_pool =
  pl_open :: "'p \<Rightarrow> raised option \<times> 'p"
  pl_setup :: "'p \<Rightarrow> raised option \<times> 'p"
  pl_close :: "'p \<Rightarrow> raised option \<times> 'p"

definition saver :: "checkpointer \<Rightarrow> unit result" where
  "saver c = (if cp_saver c then Inr () else Inl (RuntimeErr ''PostgresCheckpointer has not been started''))"

definition checkpointer_start :: "'p saver_pool \<Rightarrow> checkpointer \<times> 'p \<Rightarrow> raised option \<times> checkpointer \<times> 'p" where
  "checkpointer_start pl s = (case s of (c, p) \<Rightarrow>
     if cp_started c then (None, c, p)
     else (case (case pl_open pl p of (Some e, p') \<Rightarrow> (Some e, p') | (None, p') \<Rightarrow> pl_setup pl p') of
         (None, p1) \<Rightarrow> (None, c\<lparr>cp_saver := True, cp_started := True\<rparr>, p1)
       | (Some e, p1) \<Rightarrow> (case pl_close pl p1 of
             (None, p2) \<Rightarrow> (Some e, c\<lparr>cp_saver := False\<rparr>, p2)
           | (Some f, p2) \<Rightarrow> (Some (Raised_Group ''Postgres checkpointer startup and cleanup failed'' [e, f]), c\<lparr>cp_saver := False\<rparr>, p2))))"

definition checkpointer_stop :: "'p saver_pool \<Rightarrow> checkpointer \<times> 'p \<Rightarrow> raised option \<times> checkpointer \<times> 'p" where
  "checkpointer_stop pl s = (case s of (c, p) \<Rightarrow>
     if \<not> cp_started c then (None, c, p)
     else (case pl_close pl p of (x, p') \<Rightarrow> (x, c\<lparr>cp_saver := False, cp_started := False\<rparr>, p')))"

text \<open>\<open>LangGraphAgentOrchestrator\<close>: whether its workflow is compiled. With a PostgreSQL checkpointer the workflow is compiled at
  the start, from the saver; otherwise already by \<open>__post_init__\<close>.\<close>

record orchestrator_state =
  os_workflow :: bool
  os_started :: bool

definition new_orchestrator :: "bool \<Rightarrow> orchestrator_state" where
  "new_orchestrator postgres = \<lparr>os_workflow = \<not> postgres, os_started = False\<rparr>"

definition orchestrator_start :: "unit result \<Rightarrow> orchestrator_state \<Rightarrow> raised option \<times> orchestrator_state" where
  "orchestrator_start resolved st = (if os_started st then (None, st)
     else if os_workflow st then (None, st\<lparr>os_started := True\<rparr>)
     else (case resolved of Inl e \<Rightarrow> (Some (Raised e), st) | Inr _ \<Rightarrow> (None, st\<lparr>os_workflow := True, os_started := True\<rparr>)))"

definition orchestrator_stop :: "orchestrator_state \<Rightarrow> raised option \<times> orchestrator_state" where
  "orchestrator_stop st = (if \<not> os_started st then (None, st) else (None, st\<lparr>os_workflow := False, os_started := False\<rparr>))"

interpretation orchestrator_resource: managed_resource "orchestrator_start resolved" orchestrator_stop os_started
  by unfold_locales (auto simp: orchestrator_start_def orchestrator_stop_def split: if_splits sum.splits)

interpretation checkpointer_resource: managed_resource "checkpointer_start pl" "checkpointer_stop pl" "\<lambda>(c, p). cp_started c"
  by unfold_locales (auto simp: checkpointer_start_def checkpointer_stop_def split: if_splits prod.splits option.splits)

text \<open>Both as resources of one world: the checkpointer, the state of the pool, the orchestrator.\<close>

type_synonym 'p agent_world = "(checkpointer \<times> 'p) \<times> orchestrator_state"

definition checkpointer_of :: "'p saver_pool \<Rightarrow> 'p agent_world resource" where
  "checkpointer_of pl = \<lparr>
     rs_start = (\<lambda>(cp, os). case checkpointer_start pl cp of (x, cp') \<Rightarrow> (x, cp', os)),
     rs_stop = (\<lambda>(cp, os). case checkpointer_stop pl cp of (x, cp') \<Rightarrow> (x, cp', os))\<rparr>"

definition orchestrator_of :: "'p agent_world resource" where
  "orchestrator_of = \<lparr>
     rs_start = (\<lambda>(cp, os). case orchestrator_start (saver (fst cp)) os of (x, os') \<Rightarrow> (x, cp, os')),
     rs_stop = (\<lambda>(cp, os). case orchestrator_stop os of (x, os') \<Rightarrow> (x, cp, os'))\<rparr>"

definition agent_running :: "'p agent_world \<Rightarrow> bool" where
  "agent_running w = (case w of ((c, p), os) \<Rightarrow> cp_saver c \<and> os_workflow os \<and> os_started os)"

definition agent_down :: "'p agent_world \<Rightarrow> bool" where
  "agent_down w = (case w of ((c, p), os) \<Rightarrow> \<not> cp_saver c \<and> \<not> cp_started c \<and> \<not> os_workflow os \<and> \<not> os_started os)"

lemma checkpointer_start_cases:
  assumes "checkpointer_start pl (c, p) = (x, c', p')" and "\<not> cp_saver c" and "\<not> cp_started c"
  shows "cp_saver c' = (x = None) \<and> cp_started c' = (x = None)"
  using assms by (auto simp: checkpointer_start_def split: prod.splits option.splits)

lemma checkpointer_stop_down: "checkpointer_stop pl (c, p) = (x, c', p') \<Longrightarrow> cp_started c \<Longrightarrow> \<not> cp_saver c' \<and> \<not> cp_started c'"
  by (auto simp: checkpointer_stop_def split: prod.splits)

text \<open>The container starts the checkpointer before the orchestrator that compiles its workflow from the saver. From a world where
  both are down, a start either returns with the workflow compiled from an open saver, or raises what opening and setting up
  the pool raised and leaves both down, so that it can be tried again; closing takes both down whatever the pool answers. The
  missing saver is never what a start reports.\<close>

theorem agent_starts_after_checkpointer:
  assumes "agent_down w" and "container_start (new_container [checkpointer_of pl, orchestrator_of], w) = (x, c, w')"
  shows "(x = None \<longrightarrow> agent_running w' \<and> (\<forall>dispose y c' w''. (\<forall>v. agent_down v \<longrightarrow> agent_down (snd (dispose v)))
          \<longrightarrow> container_close dispose (c, w') = (y, c', w'') \<longrightarrow> agent_down w''))
    \<and> (x \<noteq> None \<longrightarrow> agent_down w' \<and> x = fst (checkpointer_start pl (fst w)) \<and> ct_started_resources c = [])"
proof -
  obtain cp p os where w: "w = ((cp, p), os)" by (metis surj_pair)
  have down: "\<not> cp_saver cp" "\<not> cp_started cp" "\<not> os_workflow os" "\<not> os_started os" using assms(1) by (simp_all add: agent_down_def w)
  obtain y cp1 p1 where st: "checkpointer_start pl (cp, p) = (y, cp1, p1)" using prod_cases3 by blast
  note started = checkpointer_start_cases[OF st down(1,2)]
  show ?thesis
  proof (cases y)
    case (Some e)
    then have "x = Some e" "w' = ((cp1, p1), os)" "ct_started_resources c = []"
      using assms(2) st by (auto simp: container_start_def new_container_def w checkpointer_of_def)
    then show ?thesis using Some started down st by (simp add: agent_down_def w)
  next
    case None
    have os: "orchestrator_start (saver cp1) os = (None, os\<lparr>os_workflow := True, os_started := True\<rparr>)"
      using None started down by (simp add: orchestrator_start_def saver_def)
    have out: "x = None" "w' = ((cp1, p1), os\<lparr>os_workflow := True, os_started := True\<rparr>)"
        "ct_started_resources c = [checkpointer_of pl, orchestrator_of]" "\<not> ct_closed c"
      using assms(2) st os None by (auto simp: container_start_def new_container_def w checkpointer_of_def orchestrator_of_def)
    have "agent_down w''" if keeps: "\<forall>v. agent_down v \<longrightarrow> agent_down (snd (dispose v))" and close: "container_close dispose (c, w') = (z, c', w'')"
      for dispose z c' w''
    proof -
      obtain u cp2 p2 where sp: "checkpointer_stop pl (cp1, p1) = (u, cp2, p2)" using prod_cases3 by blast
      have "agent_down ((cp2, p2), os\<lparr>os_workflow := False, os_started := False\<rparr>)"
        using checkpointer_stop_down[OF sp] started None by (simp add: agent_down_def)
      then have "agent_down (snd (dispose ((cp2, p2), os\<lparr>os_workflow := False, os_started := False\<rparr>)))" using keeps by blast
      moreover obtain v w2 where disposed: "dispose ((cp2, p2), os\<lparr>os_workflow := False, os_started := False\<rparr>) = (v, w2)" by (metis surj_pair)
      moreover have "snd (stop_each (rev (ct_started_resources c)) w') = ((cp2, p2), os\<lparr>os_workflow := False, os_started := False\<rparr>)"
        unfolding out(2,3) using sp by (simp add: checkpointer_of_def orchestrator_of_def orchestrator_stop_def split: prod.split)
      then have "w'' = w2" using close out(4) disposed unfolding container_close_def prod.case
        by (cases "stop_each (rev (ct_started_resources c)) w'") simp
      ultimately show ?thesis by simp
    qed
    moreover have "agent_running w'" using out(2) started None by (simp add: agent_running_def)
    ultimately show ?thesis using out(1) by blast
  qed
qed

definition sample_pool :: "nat saver_pool" where
  "sample_pool = \<lparr>pl_open = (\<lambda>n. if n = 0 then (Some (Raised (ExternalErr ''OperationalError'')), n + 1) else (None, n + 1)),
     pl_setup = (\<lambda>n. (None, n)), pl_close = (\<lambda>n. (None, n))\<rparr>"

definition sample_down :: "nat \<Rightarrow> nat agent_world" where
  "sample_down n = ((new_checkpointer, n), new_orchestrator True)"

theorem agent_starts_after_checkpointer_witness:
  "\<exists>c w. container_start (new_container [checkpointer_of sample_pool, orchestrator_of], sample_down 0) = (Some (Raised (ExternalErr ''OperationalError'')), c, w)
    \<and> agent_down w \<and> (\<exists>c' w'. container_start (new_container [checkpointer_of sample_pool, orchestrator_of], w) = (None, c', w') \<and> agent_running w')"
proof -
  have down: "agent_down (sample_down n)" for n
    by (simp add: agent_down_def sample_down_def new_checkpointer_def new_orchestrator_def)
  have first: "\<exists>c. container_start (new_container [checkpointer_of sample_pool, orchestrator_of], sample_down 0)
      = (Some (Raised (ExternalErr ''OperationalError'')), c, sample_down 1)"
    by (simp add: container_start_def new_container_def checkpointer_of_def checkpointer_start_def sample_pool_def sample_down_def
        new_checkpointer_def)
  have "\<exists>c' w'. container_start (new_container [checkpointer_of sample_pool, orchestrator_of], sample_down 1) = (None, c', w')"
    by (simp add: container_start_def new_container_def checkpointer_of_def checkpointer_start_def sample_pool_def sample_down_def
        new_checkpointer_def orchestrator_of_def orchestrator_start_def saver_def new_orchestrator_def)
  then obtain c' w' where second: "container_start (new_container [checkpointer_of sample_pool, orchestrator_of], sample_down 1) = (None, c', w')"
    by blast
  have "agent_running w'" using agent_starts_after_checkpointer[OF down second] by (elim conjE) simp
  then show ?thesis using first down second by blast
qed

end
