(* ===== verification/Result_Adapters.thy ===== *)
theory Result_Adapters
  imports Evidence
begin

section \<open>Result adapters of the operations tools\<close>

text \<open>
  \<open>WorkOrderMutationAdapter\<close> and \<open>CollectionResultAdapter\<close> of
  \<open>src/app/modules/operations/infrastructure/tools/result_adapters.py\<close> with the five adapters
  configured there. \<open>dump\<close> is the output model's JSON dump, \<open>pr\<close> Python's \<open>repr\<close> of a float, a list or a
  dictionary; \<open>casefold\<close> is the ASCII lower case.
\<close>

subsection \<open>The mutation adapter\<close>

definition py_or :: "pyval \<Rightarrow> pyval \<Rightarrow> pyval" where
  "py_or a b = (if truthy a then a else b)"

definition mutation_to_evidence ::
  "(pyval \<Rightarrow> string) \<Rightarrow> (dict \<Rightarrow> dict) \<Rightarrow> dict \<Rightarrow> dict \<Rightarrow> evidence_block list result" where
  "mutation_to_evidence pr dump applied output =
     (let data = dump output in
      if dget data ''succeeded'' \<noteq> PBool True then
        Inr [FailureEvidence \<lparr>fe_evidence_id = ''work-order-status:failure'',
          fe_code = py_str pr (py_or (dget data ''error_code'') (PStr ''mutation_rejected'')),
          fe_message = py_str pr (py_or (dget data ''error_message'') (PStr ''The status change was rejected.'')),
          fe_retryable = False\<rparr>]
      else let entity_id = py_or (dget data ''work_order_code'') (dget data ''work_order_id'') in
        (case (entity_id, dget data ''current_status'') of
           (PNone, _) \<Rightarrow> Inl (EvidenceAdaptationErr ''successful mutation lacks identity or resulting state'')
         | (_, PStr current) \<Rightarrow>
             Inr [MutationEvidence \<lparr>me_evidence_id = ''work-order-status'', me_entity_label = ''work order'',
               me_entity_id = py_str pr entity_id,
               me_previous_state = (if dget data ''previous_status'' \<noteq> PNone
                  then Some (py_str pr (dget data ''previous_status'')) else None),
               me_current_state = current, me_changed = (dget data ''changed'' = PBool True)\<rparr>]
         | _ \<Rightarrow> Inl (EvidenceAdaptationErr ''successful mutation lacks identity or resulting state'')))"

subsection \<open>The collection adapter\<close>

record collection_adapter =
  ca_evidence_id :: string
  ca_collection_field :: string
  ca_entity_label :: string
  ca_entity_label_plural :: string
  ca_identifier_fields :: "string list"
  ca_label_fields :: "string list"
  ca_displayed_fields :: "(string \<times> string) list"
  ca_filter_fields :: "(string \<times> string) list"
  ca_order_field :: "string option"

definition requested_limit :: "dict \<Rightarrow> int option" where
  "requested_limit applied = (case dget applied ''limit'' of PInt n \<Rightarrow> Some n | _ \<Rightarrow> None)"

definition applied_filters :: "collection_adapter \<Rightarrow> dict \<Rightarrow> evidence_field list" where
  "applied_filters ad applied =
     map (\<lambda>(name, label). \<lparr>ef_name = name, ef_label = label, ef_value = dget applied name\<rparr>)
       (filter (\<lambda>(name, label). dget applied name \<noteq> PNone) (ca_filter_fields ad))"

text \<open>The inner loop over the filters: the first filter the record disagrees with raises.\<close>

fun check_filters :: "(pyval \<Rightarrow> string) \<Rightarrow> dict \<Rightarrow> dict \<Rightarrow> (string \<times> string) list \<Rightarrow> unit result" where
  "check_filters pr applied rcd [] = Inr ()"
| "check_filters pr applied rcd ((name, label) # fs) =
     (if dget applied name \<noteq> PNone
         \<and> lower (py_str pr (dget rcd name)) \<noteq> lower (py_str pr (dget applied name))
      then Inl (EvidenceAdaptationErr (''record conflicts with '' @ name))
      else check_filters pr applied rcd fs)"

definition present_fields :: "dict \<Rightarrow> string list \<Rightarrow> string list" where
  "present_fields rcd fs = filter (\<lambda>f. dget rcd f \<noteq> PNone) fs"

definition record_item :: "(pyval \<Rightarrow> string) \<Rightarrow> collection_adapter \<Rightarrow> dict \<Rightarrow> string \<Rightarrow> evidence_item" where
  "record_item pr ad rcd entity_id =
     (let label = join '' - '' (map (\<lambda>f. py_str pr (dget rcd f)) (present_fields rcd (ca_label_fields ad)))
      in \<lparr>ei_evidence_id = ca_evidence_id ad @ '':'' @ entity_id, ei_entity_id = entity_id,
          ei_label = (if label \<noteq> [] then label else entity_id),
          ei_fields = map (\<lambda>(name, flabel). \<lparr>ef_name = name, ef_label = flabel, ef_value = dget rcd name\<rparr>)
            (filter (\<lambda>(name, flabel). dget rcd name \<noteq> PNone) (ca_displayed_fields ad)),
          ei_source = None\<rparr>)"

text \<open>One round of the loop over the records: the item, and the value to check the order by.\<close>

definition adapt_record ::
  "(pyval \<Rightarrow> string) \<Rightarrow> collection_adapter \<Rightarrow> dict \<Rightarrow> pyval \<Rightarrow> (evidence_item \<times> string list) result" where
  "adapt_record pr ad applied v = (case v of
      PDict rcd \<Rightarrow>
        rbind (check_filters pr applied rcd (ca_filter_fields ad)) (\<lambda>_.
        (case present_fields rcd (ca_identifier_fields ad) of
           [] \<Rightarrow> Inl (EvidenceAdaptationErr ''record has no identifier'')
         | f # _ \<Rightarrow>
             let item = record_item pr ad rcd (py_str pr (dget rcd f)) in
             (case ca_order_field ad of
                None \<Rightarrow> Inr (item, [])
              | Some order \<Rightarrow> (case dget rcd order of
                    PStr s \<Rightarrow> Inr (item, [s])
                  | _ \<Rightarrow> Inl (EvidenceAdaptationErr (''record lacks '' @ order))))))
    | _ \<Rightarrow> Inl (EvidenceAdaptationErr ''record is not an object''))"

definition collection_to_evidence ::
  "(pyval \<Rightarrow> string) \<Rightarrow> collection_adapter \<Rightarrow> (dict \<Rightarrow> dict) \<Rightarrow> dict \<Rightarrow> dict \<Rightarrow> evidence_block list result" where
  "collection_to_evidence pr ad dump applied output =
     (case dget (dump output) (ca_collection_field ad) of
        PList records \<Rightarrow>
          (let limit = requested_limit applied in
           if (case limit of None \<Rightarrow> False | Some n \<Rightarrow> n < int (length records))
           then Inl (EvidenceAdaptationErr ''collection exceeds applied limit'')
           else rbind (traverse (adapt_record pr ad applied) records) (\<lambda>rs.
             let ordered = concat (map snd rs) in
             if ordered \<noteq> sort ordered then Inl (EvidenceAdaptationErr ''records are incorrectly ordered'')
             else Inr [CollectionEvidence \<lparr>ce_evidence_id = ca_evidence_id ad,
                    ce_entity_label = ca_entity_label ad,
                    ce_entity_label_plural = ca_entity_label_plural ad,
                    ce_filters = applied_filters ad applied, ce_requested_count = limit,
                    ce_items = map fst rs\<rparr>]))
      | _ \<Rightarrow> Inl (EvidenceAdaptationErr ''collection is missing''))"

subsection \<open>The configured adapters\<close>

definition WORK_ORDERS_ADAPTER :: collection_adapter where
  "WORK_ORDERS_ADAPTER = \<lparr>ca_evidence_id = ''work-orders'', ca_collection_field = ''work_orders'',
     ca_entity_label = ''work order'', ca_entity_label_plural = ''work orders'',
     ca_identifier_fields = [''code'', ''id''], ca_label_fields = [''code'', ''title''],
     ca_displayed_fields = [(''status'', ''Status''), (''priority'', ''Priority''), (''due_at'', ''Due'')],
     ca_filter_fields = [(''site_code'', ''Site''), (''status'', ''Status'')], ca_order_field = None\<rparr>"

definition ASSETS_ADAPTER :: collection_adapter where
  "ASSETS_ADAPTER = \<lparr>ca_evidence_id = ''assets'', ca_collection_field = ''assets'',
     ca_entity_label = ''asset'', ca_entity_label_plural = ''assets'',
     ca_identifier_fields = [''code'', ''id''], ca_label_fields = [''code'', ''name''],
     ca_displayed_fields = [(''status'', ''Status''), (''criticality'', ''Criticality'')],
     ca_filter_fields = [(''site_code'', ''Site'')], ca_order_field = None\<rparr>"

definition MAINTENANCE_TICKETS_ADAPTER :: collection_adapter where
  "MAINTENANCE_TICKETS_ADAPTER = \<lparr>ca_evidence_id = ''maintenance-tickets'', ca_collection_field = ''tickets'',
     ca_entity_label = ''maintenance ticket'', ca_entity_label_plural = ''maintenance tickets'',
     ca_identifier_fields = [''code'', ''ticket_id''], ca_label_fields = [''code'', ''title''],
     ca_displayed_fields = [(''status'', ''Status''), (''priority'', ''Priority''), (''due_at'', ''Due'')],
     ca_filter_fields = [(''site_code'', ''Site'')], ca_order_field = None\<rparr>"

definition SPARE_PARTS_ADAPTER :: collection_adapter where
  "SPARE_PARTS_ADAPTER = \<lparr>ca_evidence_id = ''spare-parts'', ca_collection_field = ''spare_parts'',
     ca_entity_label = ''spare part'', ca_entity_label_plural = ''spare parts'',
     ca_identifier_fields = [''code'', ''part_id''], ca_label_fields = [''code'', ''name''],
     ca_displayed_fields = [(''on_hand_qty'', ''On hand''), (''reorder_point'', ''Reorder point''),
       (''below_reorder'', ''Below reorder'')],
     ca_filter_fields = [(''site_code'', ''Site'')], ca_order_field = None\<rparr>"

definition PRODUCTION_SCHEDULE_ADAPTER :: collection_adapter where
  "PRODUCTION_SCHEDULE_ADAPTER = \<lparr>ca_evidence_id = ''production-schedule'', ca_collection_field = ''schedule'',
     ca_entity_label = ''scheduled work order'', ca_entity_label_plural = ''scheduled work orders'',
     ca_identifier_fields = [''code'', ''id''], ca_label_fields = [''code'', ''title''],
     ca_displayed_fields = [(''status'', ''Status''), (''due_at'', ''Due''), (''priority'', ''Priority'')],
     ca_filter_fields = [(''site_code'', ''Site'')], ca_order_field = Some ''due_at''\<rparr>"

subsection \<open>What an accepted collection means\<close>

lemma check_filters_Inr:
  "check_filters pr applied rcd fs = Inr () \<longleftrightarrow>
     (\<forall>(name, label) \<in> set fs. dget applied name \<noteq> PNone \<longrightarrow>
        lower (py_str pr (dget rcd name)) = lower (py_str pr (dget applied name)))"
  by (induction fs) (auto split: if_splits)

lemma check_filters_Inl: "check_filters pr applied rcd fs = Inl e \<Longrightarrow> \<exists>m. e = EvidenceAdaptationErr m"
  by (induction fs) (auto split: if_splits)

lemma adapt_record_Inl: "adapt_record pr ad applied v = Inl e \<Longrightarrow> \<exists>m. e = EvidenceAdaptationErr m"
proof (cases v)
  case (PDict rcd)
  assume "adapt_record pr ad applied v = Inl e"
  then show ?thesis using PDict
    by (cases "check_filters pr applied rcd (ca_filter_fields ad)")
      (auto simp: adapt_record_def Let_def dest: check_filters_Inl
        split: list.splits option.splits pyval.splits)
qed (auto simp: adapt_record_def)

lemma adapt_record_Inr:
  assumes "adapt_record pr ad applied v = Inr (item, ks)"
  obtains rcd f where "v = PDict rcd" and "f \<in> set (ca_identifier_fields ad)"
    and "dget rcd f \<noteq> PNone" and "item = record_item pr ad rcd (py_str pr (dget rcd f))"
    and "check_filters pr applied rcd (ca_filter_fields ad) = Inr ()"
    and "ks = (case ca_order_field ad of None \<Rightarrow> [] | Some k \<Rightarrow> [case dget rcd k of PStr s \<Rightarrow> s])"
    and "\<And>k. ca_order_field ad = Some k \<Longrightarrow> \<exists>s. dget rcd k = PStr s"
proof (cases v)
  case (PDict rcd)
  then have ok: "check_filters pr applied rcd (ca_filter_fields ad) = Inr ()"
    using assms by (cases "check_filters pr applied rcd (ca_filter_fields ad)") (simp_all add: adapt_record_def)
  obtain f fs where f: "present_fields rcd (ca_identifier_fields ad) = f # fs"
    using assms PDict ok by (cases "present_fields rcd (ca_identifier_fields ad)") (simp_all add: adapt_record_def)
  then have "f \<in> set (present_fields rcd (ca_identifier_fields ad))" by simp
  then have mem: "f \<in> set (ca_identifier_fields ad)" "dget rcd f \<noteq> PNone"
    by (simp_all add: present_fields_def)
  show thesis
    by (rule that[OF PDict mem _ ok])
      (use assms PDict ok f in \<open>auto simp: adapt_record_def Let_def split: option.splits pyval.splits\<close>)
qed (use assms in \<open>simp_all add: adapt_record_def\<close>)

lemma collection_to_evidence_Inl:
  "collection_to_evidence pr ad dump applied output = Inl e \<Longrightarrow> \<exists>m. e = EvidenceAdaptationErr m"
proof -
  assume a: "collection_to_evidence pr ad dump applied output = Inl e"
  show ?thesis
  proof (cases "dget (dump output) (ca_collection_field ad)")
    case (PList records)
    then show ?thesis using a
      by (cases "traverse (adapt_record pr ad applied) records")
        (auto simp: collection_to_evidence_def Let_def dest!: traverse_Inl_elem adapt_record_Inl
          split: if_splits option.splits)
  qed (use a in \<open>auto simp: collection_to_evidence_def\<close>)
qed

text \<open>Evidence is grounded in the tool's output: when a collection is accepted there is one item
  per record, in the records' order, named by an identifier of the record and showing only the record's
  own values; the records number at most the limit the call applied and agree, letter case aside, with
  every filter it applied; and where an order is demanded, the records are in it.\<close>

theorem collection_grounded:
  assumes "collection_to_evidence pr ad dump applied output = Inr blocks"
  shows "\<exists>records b. dget (dump output) (ca_collection_field ad) = PList records
    \<and> blocks = [CollectionEvidence b] \<and> ce_requested_count b = requested_limit applied
    \<and> (\<forall>n. requested_limit applied = Some n \<longrightarrow> int (length records) \<le> n)
    \<and> list_all2 (\<lambda>v item. \<exists>rcd f. v = PDict rcd \<and> f \<in> set (ca_identifier_fields ad)
         \<and> dget rcd f \<noteq> PNone \<and> ei_entity_id item = py_str pr (dget rcd f)
         \<and> (\<forall>g \<in> set (ei_fields item). ef_value g = dget rcd (ef_name g) \<and> ef_value g \<noteq> PNone)
         \<and> (\<forall>(name, label) \<in> set (ca_filter_fields ad). dget applied name \<noteq> PNone \<longrightarrow>
              lower (py_str pr (dget rcd name)) = lower (py_str pr (dget applied name))))
       records (ce_items b)"
proof (cases "dget (dump output) (ca_collection_field ad)")
  case (PList records)
  obtain rs where rs: "traverse (adapt_record pr ad applied) records = Inr rs"
    using assms PList by (cases "traverse (adapt_record pr ad applied) records")
      (auto simp: collection_to_evidence_def Let_def split: if_splits)
  define b where "b = \<lparr>ce_evidence_id = ca_evidence_id ad, ce_entity_label = ca_entity_label ad,
      ce_entity_label_plural = ca_entity_label_plural ad, ce_filters = applied_filters ad applied,
      ce_requested_count = requested_limit applied, ce_items = map fst rs\<rparr>"
  have blocks: "blocks = [CollectionEvidence b]"
    and limit: "\<forall>n. requested_limit applied = Some n \<longrightarrow> int (length records) \<le> n"
    using assms PList rs by (auto simp: collection_to_evidence_def Let_def b_def split: if_splits option.splits)
  have "list_all2 (\<lambda>v r. adapt_record pr ad applied v = Inr r) records rs"
    using rs by (simp add: traverse_Inr_iff)
  then have "list_all2 (\<lambda>v item. \<exists>ks. adapt_record pr ad applied v = Inr (item, ks)) records (ce_items b)"
    by (auto simp: b_def list_all2_map2 elim!: list_all2_mono)
  then have "list_all2 (\<lambda>v item. \<exists>rcd f. v = PDict rcd \<and> f \<in> set (ca_identifier_fields ad)
         \<and> dget rcd f \<noteq> PNone \<and> ei_entity_id item = py_str pr (dget rcd f)
         \<and> (\<forall>g \<in> set (ei_fields item). ef_value g = dget rcd (ef_name g) \<and> ef_value g \<noteq> PNone)
         \<and> (\<forall>(name, label) \<in> set (ca_filter_fields ad). dget applied name \<noteq> PNone \<longrightarrow>
              lower (py_str pr (dget rcd name)) = lower (py_str pr (dget applied name))))
       records (ce_items b)"
  proof (rule list_all2_mono)
    fix v item assume "\<exists>ks. adapt_record pr ad applied v = Inr (item, ks)"
    then obtain ks where "adapt_record pr ad applied v = Inr (item, ks)" by blast
    then obtain rcd f where "v = PDict rcd" "f \<in> set (ca_identifier_fields ad)" "dget rcd f \<noteq> PNone"
      and item: "item = record_item pr ad rcd (py_str pr (dget rcd f))"
      and ok: "check_filters pr applied rcd (ca_filter_fields ad) = Inr ()"
      by (rule adapt_record_Inr)
    moreover have "\<forall>g \<in> set (ei_fields item). ef_value g = dget rcd (ef_name g) \<and> ef_value g \<noteq> PNone"
      by (auto simp: item record_item_def Let_def)
    moreover have "ei_entity_id item = py_str pr (dget rcd f)"
      by (simp add: item record_item_def Let_def)
    ultimately show "\<exists>rcd f. v = PDict rcd \<and> f \<in> set (ca_identifier_fields ad)
         \<and> dget rcd f \<noteq> PNone \<and> ei_entity_id item = py_str pr (dget rcd f)
         \<and> (\<forall>g \<in> set (ei_fields item). ef_value g = dget rcd (ef_name g) \<and> ef_value g \<noteq> PNone)
         \<and> (\<forall>(name, label) \<in> set (ca_filter_fields ad). dget applied name \<noteq> PNone \<longrightarrow>
              lower (py_str pr (dget rcd name)) = lower (py_str pr (dget applied name)))"
      using ok unfolding check_filters_Inr by blast
  qed
  then show ?thesis using PList blocks limit by (auto simp: b_def)
qed (use assms in \<open>simp_all add: collection_to_evidence_def\<close>)

theorem collection_grounded_witness:
  "\<exists>b. collection_to_evidence (\<lambda>_. []) ASSETS_ADAPTER (\<lambda>d. d) [(''site_code'', PStr ''S1'')]
      [(''assets'', PList [PDict [(''code'', PStr ''A''), (''site_code'', PStr ''S1'')]])]
     = Inr [CollectionEvidence b] \<and> length (ce_items b) = 1"
proof -
  let ?out = "[(''assets'', PList [PDict [(''code'', PStr ''A''), (''site_code'', PStr ''S1'')]])]"
  obtain blocks where r: "collection_to_evidence (\<lambda>_. []) ASSETS_ADAPTER (\<lambda>d. d) [(''site_code'', PStr ''S1'')] ?out
      = Inr blocks"
    by (simp add: collection_to_evidence_def ASSETS_ADAPTER_def requested_limit_def adapt_record_def
        present_fields_def Let_def)
  from collection_grounded[OF r] obtain b where b: "blocks = [CollectionEvidence b]"
    "length (ce_items b) = length [PDict [(''code'', PStr ''A''), (''site_code'', PStr ''S1'')]]"
    by (auto simp: ASSETS_ADAPTER_def dest: list_all2_lengthD)
  then show ?thesis using r by auto
qed

end
