(* ===== verification/Gateway.thy ===== *)
theory Gateway
  imports Tools
begin

section \<open>The tool gateway\<close>

text \<open>
  \<open>ToolGateway.invoke\<close> of \<open>src/app/modules/assistant/tool_gateway/gateway.py\<close>, stage by stage in the
  order of the source: site scoping, strict validation, permission, rate limit, approval with its
  audit record, the handler with its retries, the adaptation of the result. The state holds the audit
  and trace sinks (\<open>audit_repository.py\<close>, \<open>trace_repository.py\<close>: append-only), the rate limiter and
  the world the handlers act on. One invocation reads the monotonic clock once and is given one UTC
  time for its records; the sinks do not fail.
\<close>

subsection \<open>State and sinks\<close>

record 'w gateway_state =
  gs_audit :: "tool_audit_record list"
  gs_trace :: "tool_trace_event list"
  gs_limiter :: limiter_state
  gs_world :: 'w

record 'w gateway =
  gw_registry :: "'w registry"
  gw_approval_service :: "bool option"
  gw_rate_limiter :: bool

record call_env =
  env_clock :: rat
  env_now :: datetime
  env_conversation :: "uuid option"

definition audit_write :: "tool_audit_record \<Rightarrow> 'w gateway_state \<Rightarrow> 'w gateway_state" where
  "audit_write r s = s\<lparr>gs_audit := gs_audit s @ [r]\<rparr>"

definition trace_append :: "tool_trace_event \<Rightarrow> 'w gateway_state \<Rightarrow> 'w gateway_state" where
  "trace_append e s = s\<lparr>gs_trace := gs_trace s @ [e]\<rparr>"

text \<open>\<open>list_recent_records\<close>: newest first, at most \<open>limit\<close>.\<close>

definition list_recent_records :: "'w gateway_state \<Rightarrow> nat \<Rightarrow> tool_audit_record list" where
  "list_recent_records s limit = take limit (sort_key (\<lambda>r. - tar_created_at r) (gs_audit s))"

definition audit_record ::
  "call_env \<Rightarrow> 'w tool_definition \<Rightarrow> string \<Rightarrow> dict \<Rightarrow> tool_approval_decision \<Rightarrow> string option \<Rightarrow> tool_audit_record" where
  "audit_record env tool actor payload decision reason = \<lparr>tar_tool_name = td_name tool,
     tar_actor = Some actor, tar_payload = payload, tar_decision = decision,
     tar_conversation_id = env_conversation env, tar_reason = reason, tar_created_at = env_now env\<rparr>"

definition trace_event ::
  "call_env \<Rightarrow> 'w tool_definition \<Rightarrow> string \<Rightarrow> string \<Rightarrow> dict \<Rightarrow> tool_trace_event" where
  "trace_event env tool actor event payload = \<lparr>tte_tool_name = td_name tool, tte_actor = Some actor,
     tte_event = event, tte_payload = payload, tte_conversation_id = env_conversation env,
     tte_created_at = env_now env\<rparr>"

subsection \<open>The stages\<close>

text \<open>The payload after site scoping; \<open>None\<close> when the actor has no single site to fall back on.\<close>

definition scope_payload :: "'w tool_definition \<Rightarrow> authorization_context \<Rightarrow> dict \<Rightarrow> dict option" where
  "scope_payload tool c payload = (case td_site_code_field tool of
      None \<Rightarrow> Some payload
    | Some f \<Rightarrow>
        if ac_global_scope c then Some payload
        else if dget payload f \<noteq> PNone then Some payload
        else if length (ac_site_codes c) = 1
          then Some (AList.update f (PStr (hd (ac_site_codes c))) payload)
          else None)"

definition site_scope_reason :: "authorization_context \<Rightarrow> string" where
  "site_scope_reason c = (if ac_site_codes c = []
     then ''site scope required: actor has no authorized sites''
     else ''site scope required: actor has multiple authorized sites'')"

definition deny_site_scope ::
  "call_env \<Rightarrow> 'w tool_definition \<Rightarrow> authorization_context \<Rightarrow> string \<Rightarrow> dict \<Rightarrow> 'w gateway_state \<Rightarrow> 'w gateway_state" where
  "deny_site_scope env tool c actor payload s =
     trace_append (trace_event env tool actor ''site_scope_denied'' [(''reason'', PStr (site_scope_reason c))])
       (audit_write (audit_record env tool actor payload REJECTED (Some (site_scope_reason c))) s)"

definition site_code_of :: "'w tool_definition \<Rightarrow> dict \<Rightarrow> string option result" where
  "site_code_of tool vp = (case td_site_code_field tool of
      None \<Rightarrow> Inr None
    | Some f \<Rightarrow> (case dget vp f of
          PNone \<Rightarrow> Inr None
        | PStr s \<Rightarrow> Inr (Some s)
        | _ \<Rightarrow> Inl (TypeErr (f @ '' must be a string when present''))))"

definition deny_permission ::
  "call_env \<Rightarrow> 'w tool_definition \<Rightarrow> string \<Rightarrow> dict \<Rightarrow> 'w gateway_state \<Rightarrow> 'w gateway_state" where
  "deny_permission env tool actor vp s =
     trace_append (trace_event env tool actor ''permission_denied''
         [(''required_permission'', PStr (permission_value (td_required_permission tool)))])
       (audit_write (audit_record env tool actor vp REJECTED
          (Some (''missing permission: '' @ permission_value (td_required_permission tool)))) s)"

definition consume_limit ::
  "bool \<Rightarrow> call_env \<Rightarrow> 'w tool_definition \<Rightarrow> string \<Rightarrow> 'w gateway_state \<Rightarrow>
     (tool_rate_limit \<times> rate_limit_verdict) option \<times> 'w gateway_state" where
  "consume_limit has_limiter env tool actor s = (case td_rate_limit tool of
      None \<Rightarrow> (None, s)
    | Some rl \<Rightarrow> if \<not> has_limiter then (None, s)
        else let (v, l) = try_consume (gs_limiter s) (Some actor) (td_name tool) rl (env_clock env)
          in (Some (rl, v), s\<lparr>gs_limiter := l\<rparr>))"

definition rate_limited ::
  "call_env \<Rightarrow> 'w tool_definition \<Rightarrow> string \<Rightarrow> dict \<Rightarrow> tool_rate_limit \<Rightarrow> rate_limit_verdict
     \<Rightarrow> 'w gateway_state \<Rightarrow> 'w gateway_state" where
  "rate_limited env tool actor vp rl v s =
     trace_append (trace_event env tool actor ''rate_limited''
         [(''retry_after_seconds'', PInt (rv_retry_after_seconds v))])
       (audit_write (audit_record env tool actor vp RATE_LIMITED
          (Some (''rate limit exceeded: '' @ int_str (rl_max_calls rl) @ '' calls per '' @
                 int_str (rl_window_seconds rl) @ ''s''))) s)"

definition rate_limited_record :: "'w tool_definition \<Rightarrow> dict \<Rightarrow> rate_limit_verdict \<Rightarrow> tool_call_record" where
  "rate_limited_record tool vp v = \<lparr>tcr_tool_name = td_name tool, tcr_payload = vp,
     tcr_status = OUTCOME_RATE_LIMITED,
     tcr_evidence = [FailureEvidence \<lparr>fe_evidence_id = td_name tool @ '':rate-limit'',
       fe_code = ''rate_limited'',
       fe_message = ''Retry after '' @ int_str (rv_retry_after_seconds v) @ '' seconds.'',
       fe_retryable = True\<rparr>],
     tcr_result = [(''status'', PStr (outcome_value OUTCOME_RATE_LIMITED)),
       (''retry_after_seconds'', PInt (rv_retry_after_seconds v))]\<rparr>"

definition approval_decision ::
  "bool option \<Rightarrow> 'w tool_definition \<Rightarrow> tool_approval_decision \<times> string option" where
  "approval_decision service tool =
     (if td_requires_approval tool then
        (case service of
           None \<Rightarrow> (APPROVAL_REQUIRED, Some ''approval service not configured'')
         | Some allow \<Rightarrow> let d = evaluate_approval allow (td_name tool) in
             (d, if d \<noteq> APPROVED then Some ''approval required'' else None))
      else (APPROVED, None))"

definition approval_required_record ::
  "'w tool_definition \<Rightarrow> dict \<Rightarrow> tool_approval_decision \<Rightarrow> string option \<Rightarrow> tool_call_record" where
  "approval_required_record tool vp decision reason = \<lparr>tcr_tool_name = td_name tool, tcr_payload = vp,
     tcr_status = OUTCOME_APPROVAL_REQUIRED,
     tcr_evidence = [ActionRequiredEvidence \<lparr>ae_evidence_id = td_name tool @ '':approval'',
       ae_action = ''Obtain approval before executing this action'',
       ae_reason = (case reason of None \<Rightarrow> ''approval required'' | Some r \<Rightarrow> r)\<rparr>],
     tcr_result = [(''status'', PStr (outcome_value OUTCOME_APPROVAL_REQUIRED)),
       (''decision'', PStr (decision_value decision))]\<rparr>"

text \<open>The loop over attempts: the handler and the validation of its output, again while an exception
  is raised and attempts are left. It returns the number of the last attempt, from 0.\<close>

function handler_loop ::
  "'w tool_definition \<Rightarrow> dict \<Rightarrow> int \<Rightarrow> 'w \<Rightarrow> (dict result \<times> int) \<times> 'w" where
  "handler_loop tool vp attempts w =
     (case td_handler tool vp w of (raw, w') \<Rightarrow>
        (case rbind raw (om_validate (td_output_model tool)) of
           Inr m \<Rightarrow> ((Inr m, attempts), w')
         | Inl e \<Rightarrow> if attempts \<ge> td_max_retries tool then ((Inl e, attempts), w')
                    else handler_loop tool vp (attempts + 1) w'))"
  by pat_completeness auto
termination
  by (relation "measure (\<lambda>(tool, vp, attempts, w). nat (td_max_retries tool - attempts))") auto

declare handler_loop.simps [simp del]

definition failed_record :: "'w tool_definition \<Rightarrow> dict \<Rightarrow> tool_call_record" where
  "failed_record tool vp = \<lparr>tcr_tool_name = td_name tool, tcr_payload = vp, tcr_status = OUTCOME_FAILED,
     tcr_evidence = [FailureEvidence \<lparr>fe_evidence_id = td_name tool @ '':failure'',
       fe_code = ''invalid_tool_result'', fe_message = ''The tool returned an inconsistent result.'',
       fe_retryable = False\<rparr>],
     tcr_result = [(''status'', PStr ''failed'')]\<rparr>"

definition success_record ::
  "'w tool_definition \<Rightarrow> dict \<Rightarrow> evidence_block list \<Rightarrow> dict \<Rightarrow> tool_call_record" where
  "success_record tool vp evidence result = \<lparr>tcr_tool_name = td_name tool, tcr_payload = vp,
     tcr_status = OUTCOME_SUCCESS, tcr_evidence = evidence,
     tcr_result = [(''status'', PStr ''success''), (''applied_payload'', PDict vp),
       (''result'', PDict result)]\<rparr>"

definition adapt ::
  "'w tool_registration \<Rightarrow> dict \<Rightarrow> dict \<Rightarrow> evidence_block list result" where
  "adapt reg vp m = (case tr_result_adapter reg of
      None \<Rightarrow> Inl (AttributeErr ''NoneType object has no attribute to_evidence'')
    | Some f \<Rightarrow> f vp m)"

definition finish_call ::
  "call_env \<Rightarrow> 'w tool_registration \<Rightarrow> string \<Rightarrow> dict \<Rightarrow> dict \<Rightarrow> int \<Rightarrow> 'w gateway_state
     \<Rightarrow> tool_call_record result \<times> 'w gateway_state" where
  "finish_call env reg actor vp m attempts s =
     (let tool = tr_definition reg;
          s1 = trace_append (trace_event env tool actor ''handler_executed'' [(''attempts'', PInt (attempts + 1))]) s;
          result = om_dump (td_output_model tool) m
      in case adapt reg vp m of
           Inl (EvidenceAdaptationErr _) \<Rightarrow>
             (Inr (failed_record tool vp),
              trace_append (trace_event env tool actor ''result_adaptation_failed'' []) s1)
         | Inl e \<Rightarrow> (Inl e, s1)
         | Inr evidence \<Rightarrow>
             if evidence = [] then (Inl (RuntimeErr (td_name tool @ '' produced no evidence'')), s1)
             else (Inr (success_record tool vp evidence result), s1))"

definition run_tool ::
  "call_env \<Rightarrow> 'w tool_registration \<Rightarrow> string \<Rightarrow> dict \<Rightarrow> 'w gateway_state
     \<Rightarrow> tool_call_record result \<times> 'w gateway_state" where
  "run_tool env reg actor vp s =
     (let tool = tr_definition reg in
      case handler_loop tool vp 0 (gs_world s) of ((r, attempts), w) \<Rightarrow>
        (let s1 = s\<lparr>gs_world := w\<rparr> in
         case r of
           Inl e \<Rightarrow> (Inl e, trace_append (trace_event env tool actor ''handler_failed''
                               [(''attempts'', PInt (attempts + 1))]) s1)
         | Inr m \<Rightarrow> finish_call env reg actor vp m attempts s1))"

definition approve_and_run ::
  "'w gateway \<Rightarrow> call_env \<Rightarrow> 'w tool_registration \<Rightarrow> string \<Rightarrow> dict \<Rightarrow> 'w gateway_state
     \<Rightarrow> tool_call_record result \<times> 'w gateway_state" where
  "approve_and_run gw env reg actor vp s =
     (let tool = tr_definition reg;
          (decision, reason) = approval_decision (gw_approval_service gw) tool;
          s1 = audit_write (audit_record env tool actor vp decision reason) s
      in if decision \<noteq> APPROVED
         then (Inr (approval_required_record tool vp decision reason),
               trace_append (trace_event env tool actor ''approval_blocked''
                 [(''decision'', PStr (decision_value decision))]) s1)
         else run_tool env reg actor vp s1)"

definition check_and_run ::
  "'w gateway \<Rightarrow> call_env \<Rightarrow> 'w tool_registration \<Rightarrow> string \<Rightarrow> authorization_context \<Rightarrow> string \<Rightarrow> dict
     \<Rightarrow> 'w gateway_state \<Rightarrow> tool_call_record result \<times> 'w gateway_state" where
  "check_and_run gw env reg name c actor vp s =
     (let tool = tr_definition reg in
      case rbind (site_code_of tool vp) (\<lambda>site. can_call c (td_required_permission tool) site) of
        Inl e \<Rightarrow> (Inl e, s)
      | Inr allowed \<Rightarrow>
          if \<not> allowed
          then (Inl (PermissionErr (''tool not allowed: '' @ name)), deny_permission env tool actor vp s)
          else (case consume_limit (gw_rate_limiter gw) env tool actor s of (v, s1) \<Rightarrow>
            (case v of
               None \<Rightarrow> approve_and_run gw env reg actor vp s1
             | Some (rl, v) \<Rightarrow>
                 if \<not> rv_allowed v
                 then (Inr (rate_limited_record tool vp v), rate_limited env tool actor vp rl v s1)
                 else approve_and_run gw env reg actor vp s1)))"

definition invoke ::
  "'w gateway \<Rightarrow> call_env \<Rightarrow> string \<Rightarrow> dict \<Rightarrow> authorization_context \<Rightarrow> 'w gateway_state
     \<Rightarrow> tool_call_record result \<times> 'w gateway_state" where
  "invoke gw env name payload c s = (case registry_get (gw_registry gw) name of
      None \<Rightarrow> (Inl (KeyErr (''unknown tool: '' @ name)), s)
    | Some reg \<Rightarrow>
        (let tool = tr_definition reg; actor = uuid_str (ac_user_id c) in
         case scope_payload tool c payload of
           None \<Rightarrow> (Inl (PermissionErr (''tool site scope not allowed: '' @ name)),
                    deny_site_scope env tool c actor payload s)
         | Some scoped \<Rightarrow>
             (case validate_strict_input (td_input_model tool) scoped of
                Inl e \<Rightarrow> (Inl e, s)
              | Inr vp \<Rightarrow> check_and_run gw env reg name c actor vp s)))"

lemmas gateway_sinks = audit_write_def trace_append_def deny_site_scope_def deny_permission_def
  rate_limited_def

subsection \<open>Each stage\<close>

lemma sink_simps [simp]:
  "gs_audit (audit_write r s) = gs_audit s @ [r]" "gs_trace (audit_write r s) = gs_trace s"
  "gs_limiter (audit_write r s) = gs_limiter s" "gs_world (audit_write r s) = gs_world s"
  "gs_audit (trace_append e s) = gs_audit s" "gs_trace (trace_append e s) = gs_trace s @ [e]"
  "gs_limiter (trace_append e s) = gs_limiter s" "gs_world (trace_append e s) = gs_world s"
  by (simp_all add: audit_write_def trace_append_def)

lemma scope_payload_Some:
  assumes "scope_payload tool c payload = Some scoped" and "td_site_code_field tool = Some f"
    and "\<not> ac_global_scope c"
  shows "dget scoped f \<noteq> PNone"
  using assms by (auto simp: scope_payload_def split: if_splits)

text \<open>The handler is called once more than the last attempt's number, and no more often than the
  retries allow; all attempts but the last one raised.\<close>

definition attempt :: "'w tool_definition \<Rightarrow> dict \<Rightarrow> 'w \<Rightarrow> dict result" where
  "attempt tool vp w = rbind (fst (td_handler tool vp w)) (om_validate (td_output_model tool))"

definition after_calls :: "'w tool_definition \<Rightarrow> dict \<Rightarrow> nat \<Rightarrow> 'w \<Rightarrow> 'w" where
  "after_calls tool vp n w = ((\<lambda>w. snd (td_handler tool vp w)) ^^ n) w"

lemma after_calls_Suc: "after_calls tool vp (Suc n) w = after_calls tool vp n (snd (td_handler tool vp w))"
  unfolding after_calls_def by (simp only: funpow_Suc_right comp_apply)

lemma after_calls_0 [simp]: "after_calls tool vp 0 w = w"
  by (simp add: after_calls_def)

lemma handler_loop_unfold:
  "handler_loop tool vp a w =
     (case attempt tool vp w of
        Inr m \<Rightarrow> ((Inr m, a), snd (td_handler tool vp w))
      | Inl e \<Rightarrow> if a \<ge> td_max_retries tool then ((Inl e, a), snd (td_handler tool vp w))
                 else handler_loop tool vp (a + 1) (snd (td_handler tool vp w)))"
  by (subst handler_loop.simps) (simp add: attempt_def split: prod.splits sum.splits)

lemma handler_loop_spec:
  assumes "handler_loop tool vp a w = ((r, a'), w')"
  shows "a \<le> a' \<and> a' \<le> max a (td_max_retries tool)
    \<and> w' = after_calls tool vp (nat (a' - a + 1)) w
    \<and> r = attempt tool vp (after_calls tool vp (nat (a' - a)) w)
    \<and> (\<forall>n < nat (a' - a). \<exists>e. attempt tool vp (after_calls tool vp n w) = Inl e)
    \<and> (\<forall>e. r = Inl e \<longrightarrow> td_max_retries tool \<le> a')"
  using assms
proof (induction tool vp a w arbitrary: r a' w' rule: handler_loop.induct)
  case (1 tool vp a w)
  let ?w1 = "snd (td_handler tool vp w)"
  show ?case
  proof (cases "attempt tool vp w")
    case (Inr m)
    then show ?thesis using "1.prems"
      by (subst (asm) handler_loop_unfold) (auto simp: after_calls_def)
  next
    case (Inl e)
    show ?thesis
    proof (cases "a \<ge> td_max_retries tool")
      case True
      then show ?thesis using "1.prems" Inl
        by (subst (asm) handler_loop_unfold) (simp add: after_calls_def)
    next
      case False
      then have step: "handler_loop tool vp (a + 1) ?w1 = ((r, a'), w')"
        using "1.prems" Inl by (subst (asm) handler_loop_unfold) simp
      have raw: "rbind (fst (td_handler tool vp w)) (om_validate (td_output_model tool)) = Inl e"
        using Inl by (simp add: attempt_def)
      have IH: "a + 1 \<le> a' \<and> a' \<le> max (a + 1) (td_max_retries tool)
        \<and> w' = after_calls tool vp (nat (a' - (a + 1) + 1)) ?w1
        \<and> r = attempt tool vp (after_calls tool vp (nat (a' - (a + 1))) ?w1)
        \<and> (\<forall>n < nat (a' - (a + 1)). \<exists>e. attempt tool vp (after_calls tool vp n ?w1) = Inl e)
        \<and> (\<forall>e. r = Inl e \<longrightarrow> td_max_retries tool \<le> a')"
        using "1.IH"[of "fst (td_handler tool vp w)" ?w1 e r a' w'] raw False step by simp
      have le: "a + 1 \<le> a'" using IH by blast
      have n1: "nat (a' - a) = Suc (nat (a' - (a + 1)))" using le by arith
      have n2: "nat (a' - a + 1) = Suc (nat (a' - (a + 1) + 1))" using le by arith
      have "\<exists>e. attempt tool vp (after_calls tool vp n w) = Inl e" if "n < nat (a' - a)" for n
        using that IH Inl n1 by (cases n) (auto simp: after_calls_Suc)
      then show ?thesis using IH False n1 n2 by (simp add: after_calls_Suc)
    qed
  qed
qed

lemma finish_call_sinks:
  "finish_call env reg actor vp m a s = (r, s') \<Longrightarrow>
     gs_audit s' = gs_audit s \<and> gs_limiter s' = gs_limiter s \<and> gs_world s' = gs_world s"
  by (auto simp: finish_call_def Let_def split: sum.splits exc.splits if_splits)

lemma finish_call_record:
  "finish_call env reg actor vp m a s = (Inr c, s') \<Longrightarrow>
     tcr_payload c = vp \<and> tcr_tool_name c = td_name (tr_definition reg) \<and> tcr_evidence c \<noteq> []
     \<and> tcr_status c \<in> {OUTCOME_SUCCESS, OUTCOME_FAILED}"
  by (auto simp: finish_call_def failed_record_def success_record_def Let_def
      split: sum.splits exc.splits if_splits)

lemma run_tool_sinks:
  "run_tool env reg actor vp s = (r, s') \<Longrightarrow> gs_audit s' = gs_audit s \<and> gs_limiter s' = gs_limiter s"
  by (auto simp: run_tool_def Let_def split: prod.splits sum.splits dest!: finish_call_sinks)

lemma run_tool_world:
  "run_tool env reg actor vp s = (r, s') \<Longrightarrow>
     gs_world s' = snd (handler_loop (tr_definition reg) vp 0 (gs_world s))"
  by (auto simp: run_tool_def Let_def split: prod.splits sum.splits dest!: finish_call_sinks)

lemma run_tool_record:
  "run_tool env reg actor vp s = (Inr c, s') \<Longrightarrow>
     tcr_payload c = vp \<and> tcr_tool_name c = td_name (tr_definition reg) \<and> tcr_evidence c \<noteq> []
     \<and> tcr_status c \<in> {OUTCOME_SUCCESS, OUTCOME_FAILED}"
  by (auto simp: run_tool_def Let_def split: prod.splits sum.splits dest!: finish_call_record)

lemma finish_call_success:
  "finish_call env reg actor vp m a s = (Inr c, s') \<Longrightarrow> tcr_status c = OUTCOME_SUCCESS \<Longrightarrow>
     \<exists>ev. adapt reg vp m = Inr ev"
  by (auto simp: finish_call_def failed_record_def Let_def split: sum.splits exc.splits if_splits)

lemma run_tool_success:
  "run_tool env reg actor vp s = (Inr c, s') \<Longrightarrow> tcr_status c = OUTCOME_SUCCESS \<Longrightarrow>
     \<exists>m ev. adapt reg vp m = Inr ev"
  by (auto simp: run_tool_def Let_def split: prod.splits sum.splits dest!: finish_call_success)

fun expected_decision :: "tool_outcome_status \<Rightarrow> tool_approval_decision" where
  "expected_decision OUTCOME_SUCCESS = APPROVED"
| "expected_decision OUTCOME_FAILED = APPROVED"
| "expected_decision OUTCOME_APPROVAL_REQUIRED = APPROVAL_REQUIRED"
| "expected_decision OUTCOME_RATE_LIMITED = RATE_LIMITED"

lemma approval_decision_cases:
  "approval_decision service tool = (APPROVED, None)
   \<or> (\<exists>reason. approval_decision service tool = (APPROVAL_REQUIRED, Some reason))"
  by (auto simp: approval_decision_def evaluate_approval_def Let_def split: option.splits)

text \<open>One call through the approval stage: one audit record; the tool runs exactly when approved.\<close>

lemma approve_and_run_cases:
  assumes "approve_and_run gw env reg actor vp s = (r, s')"
  obtains (approved) s1 where "approval_decision (gw_approval_service gw) (tr_definition reg) = (APPROVED, None)"
      and "s1 = audit_write (audit_record env (tr_definition reg) actor vp APPROVED None) s"
      and "run_tool env reg actor vp s1 = (r, s')"
  | (blocked) reason where "approval_decision (gw_approval_service gw) (tr_definition reg) = (APPROVAL_REQUIRED, Some reason)"
      and "r = Inr (approval_required_record (tr_definition reg) vp APPROVAL_REQUIRED (Some reason))"
      and "gs_world s' = gs_world s" and "gs_limiter s' = gs_limiter s"
      and "gs_audit s' = gs_audit s @ [audit_record env (tr_definition reg) actor vp APPROVAL_REQUIRED (Some reason)]"
  using approval_decision_cases[of "gw_approval_service gw" "tr_definition reg"] assms that
  by (auto simp: approve_and_run_def Let_def)

lemma approve_and_run_audit:
  assumes "approve_and_run gw env reg actor vp s = (r, s')"
  shows "\<exists>reason d. gs_audit s' = gs_audit s @ [audit_record env (tr_definition reg) actor vp d reason]
     \<and> (\<forall>c. r = Inr c \<longrightarrow> d = expected_decision (tcr_status c) \<and> tcr_payload c = vp
           \<and> tcr_tool_name c = td_name (tr_definition reg) \<and> tcr_evidence c \<noteq> [])
     \<and> (gs_world s' \<noteq> gs_world s \<longrightarrow>
          d = APPROVED \<and> fst (approval_decision (gw_approval_service gw) (tr_definition reg)) = APPROVED)"
  using assms
proof (cases rule: approve_and_run_cases)
  case (approved s1)
  then show ?thesis using run_tool_sinks[OF approved(3)] run_tool_record[of env reg actor vp s1 _ s'] by fastforce
next
  case (blocked reason)
  then show ?thesis by (intro exI[of _ "Some reason"] exI[of _ APPROVAL_REQUIRED])
      (simp add: approval_required_record_def)
qed

text \<open>What the checks before the approval stage let through.\<close>

definition passes_checks ::
  "'w gateway \<Rightarrow> call_env \<Rightarrow> 'w tool_definition \<Rightarrow> authorization_context \<Rightarrow> dict \<Rightarrow> 'w gateway_state \<Rightarrow> bool" where
  "passes_checks gw env tool c vp s \<longleftrightarrow>
     (\<exists>site. site_code_of tool vp = Inr site \<and> can c (td_required_permission tool) site = Inr True)
     \<and> (case td_rate_limit tool of None \<Rightarrow> True | Some rl \<Rightarrow> gw_rate_limiter gw \<longrightarrow>
          rv_allowed (fst (try_consume (gs_limiter s) (Some (uuid_str (ac_user_id c))) (td_name tool) rl (env_clock env))))"

lemma check_and_run_cases:
  assumes "check_and_run gw env reg name c (uuid_str (ac_user_id c)) vp s = (r, s')"
  obtains (error) e where "r = Inl e" and "s' = s"
  | (denied) "r = Inl (PermissionErr (''tool not allowed: '' @ name))" and "gs_world s' = gs_world s"
      and "gs_audit s' = gs_audit s @ [audit_record env (tr_definition reg) (uuid_str (ac_user_id c)) vp REJECTED
             (Some (''missing permission: '' @ permission_value (td_required_permission (tr_definition reg))))]"
  | (limited) v reason where "r = Inr (rate_limited_record (tr_definition reg) vp v)" and "gs_world s' = gs_world s"
      and "gs_audit s' = gs_audit s @ [audit_record env (tr_definition reg) (uuid_str (ac_user_id c)) vp RATE_LIMITED reason]"
  | (passed) s1 where "passes_checks gw env (tr_definition reg) c vp s" and "gs_world s1 = gs_world s"
      and "gs_audit s1 = gs_audit s" and "approve_and_run gw env reg (uuid_str (ac_user_id c)) vp s1 = (r, s')"
proof (cases "rbind (site_code_of (tr_definition reg) vp) (\<lambda>site. can_call c (td_required_permission (tr_definition reg)) site)")
  case (Inl e)
  then have "r = Inl e" "s' = s" using assms by (simp_all add: check_and_run_def Let_def)
  then show thesis by (rule error)
next
  case (Inr allowed)
  show thesis
  proof (cases allowed)
    case False
    then show thesis using assms Inr denied by (auto simp: check_and_run_def deny_permission_def Let_def)
  next
    case True
    obtain site where site: "site_code_of (tr_definition reg) vp = Inr site"
      "can c (td_required_permission (tr_definition reg)) site = Inr True"
      using Inr True by (auto simp: rbind_Inr_iff can_call_def)
    show thesis
    proof (cases "consume_limit (gw_rate_limiter gw) env (tr_definition reg) (uuid_str (ac_user_id c)) s")
      case (Pair v s1)
      have w: "gs_world s1 = gs_world s" "gs_audit s1 = gs_audit s"
        using Pair by (auto simp: consume_limit_def Let_def split: option.splits if_splits prod.splits)
      show thesis
      proof (cases "\<exists>rl v'. v = Some (rl, v') \<and> \<not> rv_allowed v'")
        case denied: True
        then show thesis using assms Inr True Pair limited w
          by (auto simp: check_and_run_def rate_limited_def Let_def)
      next
        case False
        then have "approve_and_run gw env reg (uuid_str (ac_user_id c)) vp s1 = (r, s')"
          using assms Inr True Pair
          by (cases v) (auto simp: check_and_run_def Let_def split: prod.splits if_splits)
        moreover have "passes_checks gw env (tr_definition reg) c vp s"
          using False Pair site unfolding passes_checks_def
          by (cases "td_rate_limit (tr_definition reg)")
            (auto simp: consume_limit_def Let_def split: prod.splits if_splits)
        ultimately show thesis using passed w by blast
      qed
    qed
  qed
qed

lemma invoke_cases:
  assumes "invoke gw env name payload c s = (r, s')"
  obtains (refused) e where "r = Inl e" and "gs_world s' = gs_world s"
      and "gs_audit s' = gs_audit s \<or> (\<exists>a. gs_audit s' = gs_audit s @ [a] \<and> tar_decision a = REJECTED)"
  | (checked) reg scoped vp where "registry_get (gw_registry gw) name = Some reg"
      and "scope_payload (tr_definition reg) c payload = Some scoped"
      and "validate_strict_input (td_input_model (tr_definition reg)) scoped = Inr vp"
      and "check_and_run gw env reg name c (uuid_str (ac_user_id c)) vp s = (r, s')"
proof (cases "registry_get (gw_registry gw) name")
  case None
  then show thesis using assms refused by (auto simp: invoke_def)
next
  case (Some reg)
  note reg = Some
  show thesis
  proof (cases "scope_payload (tr_definition reg) c payload")
    case None
    have "r = Inl (PermissionErr (''tool site scope not allowed: '' @ name))"
      and "s' = deny_site_scope env (tr_definition reg) c (uuid_str (ac_user_id c)) payload s"
      using assms reg None by (auto simp: invoke_def Let_def)
    then show thesis using refused by (auto simp: deny_site_scope_def audit_record_def)
  next
    case (Some scoped)
    show thesis
    proof (cases "validate_strict_input (td_input_model (tr_definition reg)) scoped")
      case (Inl e)
      then have "r = Inl e" "s' = s" using assms reg Some by (auto simp: invoke_def Let_def)
      then show thesis using refused by auto
    next
      case (Inr vp)
      then show thesis using assms reg Some checked by (simp add: invoke_def Let_def)
    qed
  qed
qed

lemma invoke_success:
  assumes "invoke gw env name payload c s = (Inr t, s')" and "tcr_status t = OUTCOME_SUCCESS"
  shows "\<exists>reg vp m ev. registry_get (gw_registry gw) name = Some reg \<and> adapt reg vp m = Inr ev"
  using assms(1)
proof (cases rule: invoke_cases)
  case (checked reg scoped vp)
  from checked(4) show ?thesis
  proof (cases rule: check_and_run_cases)
    case (limited v reason)
    then show ?thesis using assms(2) by (simp add: rate_limited_record_def)
  next
    case (passed s1)
    from passed(4) show ?thesis
    proof (cases rule: approve_and_run_cases)
      case (approved s2)
      then show ?thesis using run_tool_success[OF approved(3) assms(2)] checked(1) by blast
    next
      case (blocked reason)
      then show ?thesis using assms(2) by (simp add: approval_required_record_def)
    qed
  qed simp_all
qed simp

lemma handler_gated_core:
  assumes "invoke gw env name payload c s = (r, s')" and "gs_world s' \<noteq> gs_world s"
  shows "\<exists>reg scoped vp. registry_get (gw_registry gw) name = Some reg
    \<and> scope_payload (tr_definition reg) c payload = Some scoped
    \<and> validate_strict_input (td_input_model (tr_definition reg)) scoped = Inr vp
    \<and> passes_checks gw env (tr_definition reg) c vp s
    \<and> fst (approval_decision (gw_approval_service gw) (tr_definition reg)) = APPROVED
    \<and> (\<exists>reason. gs_audit s' = gs_audit s @
         [audit_record env (tr_definition reg) (uuid_str (ac_user_id c)) vp APPROVED reason])"
  using assms(1)
proof (cases rule: invoke_cases)
  case (checked reg scoped vp)
  from checked(4) show ?thesis
  proof (cases rule: check_and_run_cases)
    case (passed s1)
    obtain reason d where a: "gs_audit s' = gs_audit s1 @
        [audit_record env (tr_definition reg) (uuid_str (ac_user_id c)) vp d reason]"
      "d = APPROVED" "fst (approval_decision (gw_approval_service gw) (tr_definition reg)) = APPROVED"
      using approve_and_run_audit[OF passed(4)] assms(2) passed(2) by metis
    then show ?thesis using checked(1-3) passed(1,3) by auto
  qed (use assms(2) in simp_all)
qed (use assms(2) in simp)

lemma retries_spec:
  assumes "handler_loop tool vp 0 w = ((r, n), w')"
  shows "0 \<le> n \<and> n \<le> max 0 (td_max_retries tool)
    \<and> w' = after_calls tool vp (nat n + 1) w
    \<and> r = attempt tool vp (after_calls tool vp (nat n) w)
    \<and> (\<forall>k < nat n. \<exists>e. attempt tool vp (after_calls tool vp k w) = Inl e)
    \<and> (\<forall>e. r = Inl e \<longrightarrow> n = max 0 (td_max_retries tool))"
proof -
  note spec = handler_loop_spec[OF assms]
  then have "0 \<le> n" by blast
  then have "nat (n - 0 + 1) = nat n + 1" by arith
  then show ?thesis using spec by auto
qed

lemma unapproved_write_core:
  assumes "registry_get (gw_registry gw) name = Some reg" and "td_requires_approval (tr_definition reg)"
    and "gw_approval_service gw \<noteq> Some True"
    and "starts_with ''write_'' (td_name (tr_definition reg)) \<or> ends_with ''_write'' (td_name (tr_definition reg))"
    and "invoke gw env name payload c s = (r, s')"
  shows "gs_world s' = gs_world s
    \<and> (\<forall>t. r = Inr t \<longrightarrow> tcr_status t \<in> {OUTCOME_APPROVAL_REQUIRED, OUTCOME_RATE_LIMITED})"
proof -
  have d: "fst (approval_decision (gw_approval_service gw) (tr_definition reg)) = APPROVAL_REQUIRED"
    using assms(2-4) by (auto simp: approval_decision_def evaluate_approval_def Let_def split: option.splits)
  from assms(5) show ?thesis
  proof (cases rule: invoke_cases)
    case (checked reg' scoped vp)
    then have "reg' = reg" using assms(1) by simp
    from checked(4) show ?thesis
    proof (cases rule: check_and_run_cases)
      case (limited v reason)
      then show ?thesis by (simp add: rate_limited_record_def)
    next
      case (passed s1)
      from passed(4) show ?thesis
      proof (cases rule: approve_and_run_cases)
        case (approved s2)
        then show ?thesis using d \<open>reg' = reg\<close> by simp
      next
        case (blocked reason)
        then show ?thesis using passed(2) by (simp add: approval_required_record_def)
      qed
    qed simp_all
  qed simp
qed

subsection \<open>Properties\<close>

text \<open>C1. Nothing runs past a gate: if an invocation changed the world at all, the tool is
  registered, the payload passed site scoping and strict validation, the actor holds the permission for
  the site the payload names, the limiter admitted the call, the approval stage approved it, and the
  approval is on record with the validated payload.\<close>

theorem handler_gated:
  assumes "invoke gw env name payload c s = (r, s')" and "gs_world s' \<noteq> gs_world s"
  shows "\<exists>reg scoped vp. registry_get (gw_registry gw) name = Some reg
    \<and> scope_payload (tr_definition reg) c payload = Some scoped
    \<and> validate_strict_input (td_input_model (tr_definition reg)) scoped = Inr vp
    \<and> passes_checks gw env (tr_definition reg) c vp s
    \<and> fst (approval_decision (gw_approval_service gw) (tr_definition reg)) = APPROVED
    \<and> (\<exists>reason. gs_audit s' = gs_audit s @
         [audit_record env (tr_definition reg) (uuid_str (ac_user_id c)) vp APPROVED reason])"
  by (rule handler_gated_core[OF assms])

definition sample_gateway :: "nat gateway" where
  "sample_gateway = \<lparr>gw_registry = [(''t'', sample_registration ''t'')], gw_approval_service = Some False,
     gw_rate_limiter = True\<rparr>"

definition sample_state :: "nat gateway_state" where
  "sample_state = \<lparr>gs_audit = [], gs_trace = [], gs_limiter = Map.empty, gs_world = 0\<rparr>"

definition sample_env :: call_env where
  "sample_env = \<lparr>env_clock = 0, env_now = 0, env_conversation = None\<rparr>"

definition sample_actor :: "string \<Rightarrow> string list \<Rightarrow> authorization_context" where
  "sample_actor role sites = \<lparr>ac_user_id = 7, ac_roles = [role], ac_site_codes = sites, ac_global_scope = False\<rparr>"

lemmas sample_defs = sample_gateway_def sample_state_def sample_env_def sample_actor_def
  sample_registration_def registry_get_def scope_payload_def validate_strict_input_def
  site_code_of_def can_call_def can_def permissions_def role_lookup_def all_roles_def
  READ_OPERATIONS_def consume_limit_def approve_and_run_def approval_decision_def
  run_tool_def handler_loop.simps finish_call_def adapt_def check_and_run_def invoke_def Let_def

lemma sample_run:
  "invoke sample_gateway sample_env ''t'' [] (sample_actor ''read_only_analyst'' [''S1'']) sample_state
     = (Inr (success_record (tr_definition (sample_registration ''t'')) [(''site'', PStr ''S1'')]
          [FailureEvidence \<lparr>fe_evidence_id = ''e'', fe_code = ''c'', fe_message = ''m'', fe_retryable = False\<rparr>]
          [(''site'', PStr ''S1'')]),
        \<lparr>gs_audit = [audit_record sample_env (tr_definition (sample_registration ''t'')) (uuid_str 7)
            [(''site'', PStr ''S1'')] APPROVED None],
         gs_trace = [trace_event sample_env (tr_definition (sample_registration ''t'')) (uuid_str 7)
            ''handler_executed'' [(''attempts'', PInt 1)]],
         gs_limiter = Map.empty, gs_world = 1\<rparr>)"
  by (simp add: sample_defs audit_write_def trace_append_def)

theorem handler_gated_witness:
  "passes_checks sample_gateway sample_env (tr_definition (sample_registration ''t''))
     (sample_actor ''read_only_analyst'' [''S1'']) [(''site'', PStr ''S1'')] sample_state"
proof -
  from handler_gated[OF sample_run] show ?thesis
    by (auto simp: sample_state_def sample_gateway_def sample_actor_def registry_get_def scope_payload_def
        validate_strict_input_def sample_registration_def)
qed

text \<open>C5. The audit trail is exact: an invocation that returns a tool-call record has appended one
  audit record, whose decision is the one that goes with the record's status and whose payload and
  actor are the call's; every returned record carries evidence; and no invocation appends more than
  one audit record or removes any.\<close>

theorem audit_exact:
  assumes "invoke gw env name payload c s = (r, s')"
  shows "(\<exists>new. gs_audit s' = gs_audit s @ new \<and> length new \<le> 1)
    \<and> (\<forall>t. r = Inr t \<longrightarrow> tcr_evidence t \<noteq> [] \<and> (\<exists>reason. gs_audit s' = gs_audit s @
          [\<lparr>tar_tool_name = tcr_tool_name t, tar_actor = Some (uuid_str (ac_user_id c)),
            tar_payload = tcr_payload t, tar_decision = expected_decision (tcr_status t),
            tar_conversation_id = env_conversation env, tar_reason = reason, tar_created_at = env_now env\<rparr>]))"
  using assms
proof (cases rule: invoke_cases)
  case (checked reg scoped vp)
  from checked(4) show ?thesis
  proof (cases rule: check_and_run_cases)
    case (limited v reason)
    then show ?thesis
      by (simp add: rate_limited_record_def audit_record_def)
  next
    case (passed s1)
    obtain reason d where a: "gs_audit s' = gs_audit s @
        [audit_record env (tr_definition reg) (uuid_str (ac_user_id c)) vp d reason]"
      "\<forall>t. r = Inr t \<longrightarrow> d = expected_decision (tcr_status t) \<and> tcr_payload t = vp
          \<and> tcr_tool_name t = td_name (tr_definition reg) \<and> tcr_evidence t \<noteq> []"
      using approve_and_run_audit[OF passed(4)] passed(3) by metis
    then show ?thesis by (auto simp: audit_record_def)
  qed auto
qed auto

theorem audit_exact_witness:
  "\<exists>new. gs_audit (snd (invoke sample_gateway sample_env ''t'' []
      (sample_actor ''read_only_analyst'' [''S1'']) sample_state)) = gs_audit sample_state @ new \<and> length new \<le> 1"
  unfolding sample_run using audit_exact[OF sample_run] by (simp only: snd_conv)

text \<open>Retries are bounded and stop at the first success: the handler is called one time more
  than the number of the last attempt, at most \<open>max_retries + 1\<close> times (once when \<open>max_retries\<close> is not
  positive); all earlier attempts raised, the result is the last attempt's, and a failure is reported
  only when no attempt is left.\<close>

theorem retries_bounded:
  assumes "handler_loop tool vp 0 w = ((r, n), w')"
  shows "0 \<le> n \<and> n \<le> max 0 (td_max_retries tool)
    \<and> w' = after_calls tool vp (nat n + 1) w
    \<and> r = attempt tool vp (after_calls tool vp (nat n) w)
    \<and> (\<forall>k < nat n. \<exists>e. attempt tool vp (after_calls tool vp k w) = Inl e)
    \<and> (\<forall>e. r = Inl e \<longrightarrow> n = max 0 (td_max_retries tool))"
  by (rule retries_spec[OF assms])

theorem retries_bounded_witness:
  "snd (fst (handler_loop ((tr_definition (sample_registration ''t''))\<lparr>td_max_retries := 2,
      td_handler := (\<lambda>p n. (if n < 1 then Inl (ExternalErr ''down'') else Inr p, Suc n))\<rparr>) [] 0 0)) \<le> 2"
proof -
  let ?tool = "(tr_definition (sample_registration ''t''))\<lparr>td_max_retries := 2,
      td_handler := (\<lambda>p n. (if n < 1 then Inl (ExternalErr ''down'') else Inr p, Suc n))\<rparr>"
  have "handler_loop ?tool [] 0 0 = ((Inr [], 1), 2)"
    by (simp add: handler_loop.simps sample_registration_def)
  from retries_bounded[OF this] show ?thesis
    using \<open>handler_loop ?tool [] 0 0 = ((Inr [], 1), 2)\<close> by simp
qed

text \<open>Writes need approval: with write tools not allowed (the default), or with no approval
  service at all, an invocation of a tool that requires approval and is named \<open>write_...\<close> or
  \<open>..._write\<close> never touches the world, whoever calls it and with whatever payload; if it returns a
  record, its status is \<open>approval_required\<close> or \<open>rate_limited\<close>.\<close>

theorem unapproved_write_never_runs:
  assumes "registry_get (gw_registry gw) name = Some reg" and "td_requires_approval (tr_definition reg)"
    and "gw_approval_service gw \<noteq> Some True"
    and "starts_with ''write_'' (td_name (tr_definition reg)) \<or> ends_with ''_write'' (td_name (tr_definition reg))"
    and "invoke gw env name payload c s = (r, s')"
  shows "gs_world s' = gs_world s
    \<and> (\<forall>t. r = Inr t \<longrightarrow> tcr_status t \<in> {OUTCOME_APPROVAL_REQUIRED, OUTCOME_RATE_LIMITED})"
  by (rule unapproved_write_core[OF assms])

theorem unapproved_write_never_runs_witness:
  "gs_world (snd (invoke (sample_gateway\<lparr>gw_registry := [(''write_t'', (sample_registration ''write_t'')
       \<lparr>tr_definition := (tr_definition (sample_registration ''write_t''))\<lparr>td_requires_approval := True\<rparr>\<rparr>)]\<rparr>)
     sample_env ''write_t'' [] (sample_actor ''read_only_analyst'' [''S1'']) sample_state)) = 0"
proof -
  let ?reg = "(sample_registration ''write_t'')
       \<lparr>tr_definition := (tr_definition (sample_registration ''write_t''))\<lparr>td_requires_approval := True\<rparr>\<rparr>"
  let ?gw = "sample_gateway\<lparr>gw_registry := [(''write_t'', ?reg)]\<rparr>"
  obtain r s' where run: "invoke ?gw sample_env ''write_t'' []
      (sample_actor ''read_only_analyst'' [''S1'']) sample_state = (r, s')" by fastforce
  have "gs_world s' = gs_world sample_state"
    using unapproved_write_never_runs[of ?gw "''write_t''" ?reg sample_env "[]"
        "sample_actor ''read_only_analyst'' [''S1'']" sample_state r s'] run
    by (simp add: registry_get_def sample_gateway_def starts_with_def)
  then show ?thesis using run by (simp add: sample_state_def)
qed



end
