(* ===== verification/Users.thy ===== *)
theory Users
  imports Authorization Result_Adapters Gateway
begin

section \<open>Users and the consistency audit\<close>

text \<open>
  The user module of \<open>src/app/modules/user\<close>: the entity and its registration (\<open>domain/entities.py\<close>), the
  repository (\<open>infrastructure/repository.py\<close>) over the rows of the table, the use cases
  (\<open>application/use_cases.py\<close>), the presenter of the audit, its tool and the adapter of its results. The e-mail
  validator is a parameter: \<open>Inl\<close> is the message of an \<open>EmailNotValidError\<close>, \<open>Inr\<close> the normalised address.
  Identifiers and times a call generates are arguments.
\<close>

subsection \<open>The entity\<close>

datatype user_status = User_Active | User_Suspended | User_Deactivated

fun user_status_value :: "user_status \<Rightarrow> string" where
  "user_status_value User_Active = ''active''"
| "user_status_value User_Suspended = ''suspended''"
| "user_status_value User_Deactivated = ''deactivated''"

definition user_status_of :: "string \<Rightarrow> user_status result" where
  "user_status_of s = (if s = ''active'' then Inr User_Active else if s = ''suspended'' then Inr User_Suspended
     else if s = ''deactivated'' then Inr User_Deactivated else Inl (ValueErr (''not a valid UserStatus: '' @ s)))"

record user =
  us_id :: uuid
  us_email :: string
  us_display_name :: string
  us_created_at :: datetime
  us_status :: user_status
  us_updated_at :: datetime
  us_verified_at :: "datetime option"
  us_last_login_at :: "datetime option"
  us_deactivated_at :: "datetime option"
  us_source_system :: "string option"

type_synonym email_validator = "string \<Rightarrow> string + string"

definition invalid_email :: "string \<Rightarrow> exc" where
  "invalid_email message = DomainErr ''invalid_email'' message"

definition invalid_display_name :: exc where
  "invalid_display_name = DomainErr ''invalid_display_name'' ''Display name must contain between 2 and 100 characters''"

text \<open>Without \<open>now\<close> the clock is read twice, for the two times of the user.\<close>

definition make_user ::
  "email_validator \<Rightarrow> uuid \<Rightarrow> datetime \<Rightarrow> datetime \<Rightarrow> string \<Rightarrow> string \<Rightarrow> string option \<Rightarrow> uuid option \<Rightarrow> datetime option \<Rightarrow> user result" where
  "make_user validate fresh clock1 clock2 email display_name source i now =
     (case validate (strip email) of
        Inl message \<Rightarrow> Inl (invalid_email message)
      | Inr address \<Rightarrow>
        let name = join '' '' (split_ws display_name) in
        if \<not> (2 \<le> length name \<and> length name \<le> 100) then Inl invalid_display_name
        else Inr \<lparr>us_id = (case i of None \<Rightarrow> fresh | Some j \<Rightarrow> j), us_email = address, us_display_name = name,
          us_created_at = (case now of None \<Rightarrow> clock1 | Some m \<Rightarrow> m), us_status = User_Active,
          us_updated_at = (case now of None \<Rightarrow> clock2 | Some m \<Rightarrow> m), us_verified_at = None, us_last_login_at = None,
          us_deactivated_at = None, us_source_system = source\<rparr>)"

record user_view =
  uv_id :: uuid
  uv_email :: string
  uv_display_name :: string
  uv_created_at :: datetime
  uv_source_system :: "string option"

definition view_of :: "user \<Rightarrow> user_view" where
  "view_of u = \<lparr>uv_id = us_id u, uv_email = us_email u, uv_display_name = us_display_name u, uv_created_at = us_created_at u,
     uv_source_system = us_source_system u\<rparr>"

subsection \<open>The table\<close>

record user_row =
  ur_id :: uuid
  ur_email :: string
  ur_display_name :: string
  ur_created_at :: datetime
  ur_status :: string
  ur_updated_at :: datetime
  ur_verified_at :: "datetime option"
  ur_last_login_at :: "datetime option"
  ur_deactivated_at :: "datetime option"
  ur_source_system :: "string option"

definition row_of_user :: "user \<Rightarrow> user_row" where
  "row_of_user u = \<lparr>ur_id = us_id u, ur_email = us_email u, ur_display_name = us_display_name u, ur_created_at = us_created_at u,
     ur_status = user_status_value (us_status u), ur_updated_at = us_updated_at u, ur_verified_at = us_verified_at u,
     ur_last_login_at = us_last_login_at u, ur_deactivated_at = us_deactivated_at u, ur_source_system = us_source_system u\<rparr>"

definition user_of_row :: "user_row \<Rightarrow> user result" where
  "user_of_row r = rmap (\<lambda>status. \<lparr>us_id = ur_id r, us_email = ur_email r, us_display_name = ur_display_name r,
     us_created_at = ur_created_at r, us_status = status, us_updated_at = ur_updated_at r, us_verified_at = ur_verified_at r,
     us_last_login_at = ur_last_login_at r, us_deactivated_at = ur_deactivated_at r, us_source_system = ur_source_system r\<rparr>)
     (user_status_of (ur_status r))"

definition optional_user :: "user_row option \<Rightarrow> user option result" where
  "optional_user x = (case x of None \<Rightarrow> Inr None | Some r \<Rightarrow> rmap Some (user_of_row r))"

definition get_user_by_id :: "uuid \<Rightarrow> user_row list \<Rightarrow> user option result" where
  "get_user_by_id i rows = optional_user (List.find (\<lambda>r. ur_id r = i) rows)"

definition get_user_by_email :: "string \<Rightarrow> user_row list \<Rightarrow> user option result" where
  "get_user_by_email email rows = optional_user (List.find (\<lambda>r. ur_email r = email) rows)"

definition email_registered :: "string \<Rightarrow> exc" where
  "email_registered email = DomainErr ''email_already_registered'' email"

definition add_user :: "user \<Rightarrow> user_row list \<Rightarrow> user_row list result" where
  "add_user u rows = (if list_ex (\<lambda>r. ur_id r = us_id u \<or> ur_email r = us_email u) rows
     then Inl (email_registered (us_email u)) else Inr (rows @ [row_of_user u]))"

subsection \<open>Registration and lookup\<close>

record register_command =
  rc_email :: string
  rc_display_name :: string
  rc_source_system :: string

text \<open>\<open>commit\<close> is what the commit of the session answers; a failure rolls the session back.\<close>

definition register_user ::
  "email_validator \<Rightarrow> uuid \<Rightarrow> datetime \<Rightarrow> datetime \<Rightarrow> unit result \<Rightarrow> register_command \<Rightarrow> user_row list \<Rightarrow> user_view result \<times> user_row list" where
  "register_user validate fresh clock1 clock2 commit c rows =
     (case make_user validate fresh clock1 clock2 (rc_email c) (rc_display_name c) (Some (rc_source_system c)) None None of
        Inl e \<Rightarrow> (Inl e, rows)
      | Inr u \<Rightarrow>
        (case get_user_by_email (us_email u) rows of
           Inl e \<Rightarrow> (Inl e, rows)
         | Inr (Some _) \<Rightarrow> (Inl (email_registered (rc_email c)), rows)
         | Inr None \<Rightarrow>
           (case add_user u rows of
              Inl e \<Rightarrow> (Inl e, rows)
            | Inr rows' \<Rightarrow> (case commit of Inl e \<Rightarrow> (Inl e, rows) | Inr _ \<Rightarrow> (Inr (view_of u), rows')))))"

definition get_user :: "uuid \<Rightarrow> user_row list \<Rightarrow> user_view result" where
  "get_user i rows = rbind (get_user_by_id i rows) (\<lambda>u. case u of
      None \<Rightarrow> Inl (DomainErr ''user_not_found'' (uuid_str i)) | Some x \<Rightarrow> Inr (view_of x))"

subsection \<open>The checks of the audit\<close>

datatype severity = Critical | High | Medium | Low

fun severity_value :: "severity \<Rightarrow> string" where
  "severity_value Critical = ''critical''"
| "severity_value High = ''high''"
| "severity_value Medium = ''medium''"
| "severity_value Low = ''low''"

record issue =
  is_check :: string
  is_severity :: severity
  is_user :: "uuid option"
  is_message :: string
  is_evidence :: dict

text \<open>\<open>trim\<close> of the database takes spaces only; \<open>strip\<close> of Python any white space.\<close>

definition sql_trim :: "string \<Rightarrow> string" where
  "sql_trim s = rev (dropWhile (\<lambda>c. c = CHR '' '') (rev (dropWhile (\<lambda>c. c = CHR '' '') s)))"

definition sql_email :: "user_row \<Rightarrow> string" where
  "sql_email r = lower (sql_trim (ur_email r))"

definition duplicate_emails :: "user_row list \<Rightarrow> string list" where
  "duplicate_emails rows = (let emails = map sql_email rows in
     sort_key (\<lambda>e. (- int (count_list emails e), e)) (remdups (filter (\<lambda>e. 1 < count_list emails e) emails)))"

definition find_duplicate_normalized_email :: "nat \<Rightarrow> user_row list \<Rightarrow> issue list" where
  "find_duplicate_normalized_email n rows = map (\<lambda>e. \<lparr>is_check = ''duplicate_normalized_email'', is_severity = High, is_user = None,
      is_message = ''Multiple rows share normalized email'',
      is_evidence = [(''normalized_email'', PStr e), (''occurrences'', PInt (int (count_list (map sql_email rows) e)))]\<rparr>)
     (take n (duplicate_emails rows))"

text \<open>The other checks select rows, order them by a time and the identifier, and report each.\<close>

definition find_rows ::
  "string \<Rightarrow> severity \<Rightarrow> string \<Rightarrow> (user_row \<Rightarrow> bool) \<Rightarrow> (user_row \<Rightarrow> int) \<Rightarrow> (user_row \<Rightarrow> dict) \<Rightarrow> nat \<Rightarrow> user_row list \<Rightarrow> issue list" where
  "find_rows check sev message broken time evidence n rows =
     map (\<lambda>r. \<lparr>is_check = check, is_severity = sev, is_user = Some (ur_id r), is_message = message, is_evidence = evidence r\<rparr>)
       (take n (sort_key (\<lambda>r. (time r, ur_id r)) (filter broken rows)))"

definition name_length_broken :: "user_row \<Rightarrow> bool" where
  "name_length_broken r \<longleftrightarrow> length (sql_trim (ur_display_name r)) < 3 \<or> length (sql_trim (ur_display_name r)) > 100"

definition find_invalid_display_name_length :: "nat \<Rightarrow> user_row list \<Rightarrow> issue list" where
  "find_invalid_display_name_length = find_rows ''invalid_display_name_length'' Medium ''Display name length outside allowed range''
     name_length_broken ur_created_at
     (\<lambda>r. [(''display_name'', PStr (ur_display_name r)), (''length'', PInt (int (length (strip (ur_display_name r)))))])"

definition find_created_at_in_future :: "datetime \<Rightarrow> nat \<Rightarrow> user_row list \<Rightarrow> issue list" where
  "find_created_at_in_future now = find_rows ''created_at_in_future'' High ''created_at is in the future''
     (\<lambda>r. ur_created_at r > now) (\<lambda>r. - ur_created_at r)
     (\<lambda>r. [(''created_at'', PStr (isoformat (ur_created_at r))), (''now_utc'', PStr (isoformat now))])"

definition find_updated_before_created :: "nat \<Rightarrow> user_row list \<Rightarrow> issue list" where
  "find_updated_before_created = find_rows ''updated_before_created'' High ''updated_at earlier than created_at''
     (\<lambda>r. ur_updated_at r < ur_created_at r) ur_updated_at
     (\<lambda>r. [(''created_at'', PStr (isoformat (ur_created_at r))), (''updated_at'', PStr (isoformat (ur_updated_at r)))])"

definition iso_option :: "datetime option \<Rightarrow> pyval" where
  "iso_option x = (case x of None \<Rightarrow> PNone | Some t \<Rightarrow> PStr (isoformat t))"

definition status_mismatch :: "user_row \<Rightarrow> bool" where
  "status_mismatch r \<longleftrightarrow> ur_status r = ''active'' \<and> ur_deactivated_at r \<noteq> None \<or> ur_status r \<noteq> ''active'' \<and> ur_deactivated_at r = None"

definition find_status_deactivation_mismatch :: "nat \<Rightarrow> user_row list \<Rightarrow> issue list" where
  "find_status_deactivation_mismatch = find_rows ''status_deactivation_mismatch'' Medium ''status and deactivated_at are inconsistent''
     status_mismatch ur_created_at
     (\<lambda>r. [(''status'', PStr (ur_status r)), (''deactivated_at'', iso_option (ur_deactivated_at r))])"

definition before_created :: "(user_row \<Rightarrow> datetime option) \<Rightarrow> user_row \<Rightarrow> bool" where
  "before_created time r = (case time r of None \<Rightarrow> False | Some t \<Rightarrow> t < ur_created_at r)"

definition time_or_zero :: "datetime option \<Rightarrow> datetime" where
  "time_or_zero x = (case x of None \<Rightarrow> 0 | Some t \<Rightarrow> t)"

definition find_verified_before_created :: "nat \<Rightarrow> user_row list \<Rightarrow> issue list" where
  "find_verified_before_created = find_rows ''verified_before_created'' Medium ''email_verified_at earlier than created_at''
     (before_created ur_verified_at) (time_or_zero \<circ> ur_verified_at)
     (\<lambda>r. [(''created_at'', PStr (isoformat (ur_created_at r))), (''email_verified_at'', iso_option (ur_verified_at r))])"

definition find_last_login_before_created :: "nat \<Rightarrow> user_row list \<Rightarrow> issue list" where
  "find_last_login_before_created = find_rows ''last_login_before_created'' Low ''last_login_at earlier than created_at''
     (before_created ur_last_login_at) (time_or_zero \<circ> ur_last_login_at)
     (\<lambda>r. [(''created_at'', PStr (isoformat (ur_created_at r))), (''last_login_at'', iso_option (ur_last_login_at r))])"

subsection \<open>The audit\<close>

record audit_command =
  ua_checks :: "string list option"
  ua_limit :: int
  ua_run_id :: "uuid option"
  ua_now :: "datetime option"

record audit_report =
  re_run_id :: uuid
  re_generated_at :: datetime
  re_total_users :: nat
  re_checks_executed :: nat
  re_issues_total :: nat
  re_result_code :: string
  re_findings :: "issue list"

definition all_checks :: "datetime \<Rightarrow> nat \<Rightarrow> (string \<times> (user_row list \<Rightarrow> issue list)) list" where
  "all_checks now n = [
     (''duplicate_normalized_email'', find_duplicate_normalized_email n),
     (''invalid_display_name_length'', find_invalid_display_name_length n),
     (''created_at_in_future'', find_created_at_in_future now n),
     (''updated_before_created'', find_updated_before_created n),
     (''status_deactivation_mismatch'', find_status_deactivation_mismatch n),
     (''verified_before_created'', find_verified_before_created n),
     (''last_login_before_created'', find_last_login_before_created n)]"

definition issue_key :: "issue \<Rightarrow> string \<times> string \<times> string" where
  "issue_key x = (is_check x, case is_user x of None \<Rightarrow> [] | Some u \<Rightarrow> uuid_str u, is_message x)"

text \<open>No selection, and an empty one, mean all checks; names that are no checks count as executed.\<close>

definition run_audit :: "uuid \<Rightarrow> datetime \<Rightarrow> audit_command \<Rightarrow> user_row list \<Rightarrow> audit_report" where
  "run_audit fresh clock c rows =
     (let now = (case ua_now c of None \<Rightarrow> clock | Some m \<Rightarrow> m);
          limit = nat (min (max (ua_limit c) 1) 500);
          selected = (case ua_checks c of None \<Rightarrow> None | Some xs \<Rightarrow> if xs = [] then None else Some xs);
          findings = sort_key issue_key (concat (map (\<lambda>(name, handler). handler rows)
            (filter (\<lambda>(name, handler). case selected of None \<Rightarrow> True | Some xs \<Rightarrow> name \<in> set xs) (all_checks now limit))))
      in \<lparr>re_run_id = (case ua_run_id c of None \<Rightarrow> fresh | Some i \<Rightarrow> i), re_generated_at = now, re_total_users = length rows,
          re_checks_executed = (case selected of None \<Rightarrow> length (all_checks now limit) | Some xs \<Rightarrow> length (remdups xs)),
          re_issues_total = length findings, re_result_code = (if findings = [] then ''ok'' else ''issues_found''),
          re_findings = findings\<rparr>)"

subsection \<open>Presenter, tool and adapter\<close>

datatype audit_result_code = Audit_Ok | Audit_Issues_Found | Audit_Failed

fun audit_code_value :: "audit_result_code \<Rightarrow> string" where
  "audit_code_value Audit_Ok = ''ok''"
| "audit_code_value Audit_Issues_Found = ''issues_found''"
| "audit_code_value Audit_Failed = ''failed''"

record severity_totals =
  st_critical :: int
  st_high :: int
  st_medium :: int
  st_low :: int

record audit_output =
  ao_tool_name :: string
  ao_run_id :: uuid
  ao_result_code :: audit_result_code
  ao_generated_at :: datetime
  ao_total_users :: int
  ao_checks_executed :: int
  ao_issues_total :: int
  ao_by_severity :: severity_totals
  ao_findings :: "issue list"

definition AUDITOR_TOOL :: string where
  "AUDITOR_TOOL = ''users.consistency_auditor.run.v1''"

fun count_severity :: "severity_totals \<Rightarrow> issue \<Rightarrow> severity_totals" where
  "count_severity s x = (case is_severity x of
      Critical \<Rightarrow> s\<lparr>st_critical := st_critical s + 1\<rparr>
    | High \<Rightarrow> s\<lparr>st_high := st_high s + 1\<rparr>
    | Medium \<Rightarrow> s\<lparr>st_medium := st_medium s + 1\<rparr>
    | Low \<Rightarrow> s\<lparr>st_low := st_low s + 1\<rparr>)"

definition no_totals :: severity_totals where
  "no_totals = \<lparr>st_critical = 0, st_high = 0, st_medium = 0, st_low = 0\<rparr>"

definition audit_output_of :: "audit_report \<Rightarrow> audit_output" where
  "audit_output_of r = \<lparr>ao_tool_name = AUDITOR_TOOL, ao_run_id = re_run_id r,
     ao_result_code = (if re_issues_total r > 0 then Audit_Issues_Found else Audit_Ok),
     ao_generated_at = re_generated_at r, ao_total_users = int (re_total_users r), ao_checks_executed = int (re_checks_executed r),
     ao_issues_total = int (re_issues_total r), ao_by_severity = foldl count_severity no_totals (re_findings r),
     ao_findings = re_findings r\<rparr>"

text \<open>What Pydantic does for the tool: the models, the validated command, the dump of an output and, for the adapter, the
  validated instance a dictionary stands for (\<open>None\<close> when it is no audit output).\<close>

record auditor_models =
  au_input :: input_model
  au_parse :: "dict \<Rightarrow> audit_command result"
  au_output :: output_model
  au_dump :: "audit_output \<Rightarrow> dict"
  au_instance :: "dict \<Rightarrow> audit_output option"

definition audit_handler :: "auditor_models \<Rightarrow> uuid \<Rightarrow> datetime \<Rightarrow> dict \<Rightarrow> user_row list \<Rightarrow> dict result \<times> user_row list" where
  "audit_handler m fresh clock payload rows =
     (rmap (\<lambda>c. au_dump m (audit_output_of (run_audit fresh clock c rows))) (au_parse m payload), rows)"

definition audit_filters :: "dict \<Rightarrow> evidence_field list result" where
  "audit_filters applied = (case dget applied ''checks'' of
      PNone \<Rightarrow> Inr []
    | PList checks \<Rightarrow> (case traverse (\<lambda>v. case v of PStr s \<Rightarrow> Inr s | _ \<Rightarrow> Inl (EvidenceAdaptationErr ''applied audit checks are malformed'')) checks of
        Inl e \<Rightarrow> Inl e
      | Inr [] \<Rightarrow> Inr []
      | Inr names \<Rightarrow> Inr [\<lparr>ef_name = ''checks'', ef_label = ''Checks'', ef_value = PStr (join '', '' names)\<rparr>])
    | _ \<Rightarrow> Inl (EvidenceAdaptationErr ''applied audit checks are malformed''))"

definition run_evidence_id :: "audit_output \<Rightarrow> string" where
  "run_evidence_id out = ''user-consistency-audit:'' @ uuid_str (ao_run_id out)"

definition finding_item :: "audit_output \<Rightarrow> nat \<Rightarrow> issue \<Rightarrow> evidence_item" where
  "finding_item out index x = \<lparr>ei_evidence_id = run_evidence_id out @ '':finding:'' @ nat_str index,
     ei_entity_id = (case is_user x of Some u \<Rightarrow> uuid_str u | None \<Rightarrow> is_check x @ '':'' @ nat_str index),
     ei_label = is_message x,
     ei_fields = [\<lparr>ef_name = ''check_id'', ef_label = ''Check'', ef_value = PStr (is_check x)\<rparr>,
         \<lparr>ef_name = ''severity'', ef_label = ''Severity'', ef_value = PStr (severity_value (is_severity x))\<rparr>]
       @ (case is_user x of None \<Rightarrow> [] | Some u \<Rightarrow> [\<lparr>ef_name = ''user_id'', ef_label = ''User ID'', ef_value = PStr (uuid_str u)\<rparr>]),
     ei_source = None\<rparr>"

definition severity_sum :: "severity_totals \<Rightarrow> int" where
  "severity_sum s = st_critical s + st_high s + st_medium s + st_low s"

definition adaptation_error :: "string \<Rightarrow> evidence_block list result" where
  "adaptation_error message = Inl (EvidenceAdaptationErr message)"

definition audit_to_evidence :: "auditor_models \<Rightarrow> dict \<Rightarrow> dict \<Rightarrow> evidence_block list result" where
  "audit_to_evidence m applied output = (case au_instance m output of
      None \<Rightarrow> adaptation_error ''unexpected user consistency audit output type''
    | Some out \<Rightarrow>
      if ao_tool_name out \<noteq> AUDITOR_TOOL then adaptation_error ''user consistency audit tool identity does not match''
      else if ao_total_users out < 0 \<or> ao_checks_executed out < 0 then adaptation_error ''user consistency audit contains negative totals''
      else if ao_issues_total out \<noteq> int (length (ao_findings out)) then adaptation_error ''issues_total does not match the number of findings''
      else if severity_sum (ao_by_severity out) \<noteq> ao_issues_total out then adaptation_error ''severity totals do not match issues_total''
      else if ao_result_code out = Audit_Failed then
        Inr [FailureEvidence \<lparr>fe_evidence_id = run_evidence_id out @ '':failure'', fe_code = ''user_consistency_audit_failed'',
               fe_message = ''The user consistency audit failed.'', fe_retryable = False\<rparr>]
      else if ao_result_code out = Audit_Ok \<and> ao_issues_total out \<noteq> 0 then adaptation_error ''an OK audit result cannot contain findings''
      else if ao_result_code out = Audit_Issues_Found \<and> ao_issues_total out = 0
      then adaptation_error ''an issues-found result must contain findings''
      else rmap (\<lambda>filters. [CollectionEvidence \<lparr>ce_evidence_id = run_evidence_id out,
             ce_entity_label = ''user consistency issue'', ce_entity_label_plural = ''user consistency issues'',
             ce_filters = filters, ce_requested_count = None,
             ce_items = map (\<lambda>(i, x). finding_item out i x) (enumerate 1 (ao_findings out))\<rparr>])
        (audit_filters applied))"

definition build_users_consistency_auditor_tool ::
  "string \<Rightarrow> auditor_models \<Rightarrow> uuid \<Rightarrow> datetime \<Rightarrow> user_row list tool_registration" where
  "build_users_consistency_auditor_tool description m fresh clock =
     \<lparr>tr_definition = \<lparr>td_name = AUDITOR_TOOL, td_description = description, td_input_model = au_input m,
        td_output_model = au_output m, td_handler = audit_handler m fresh clock, td_required_permission = AUDIT_LOGS_READ,
        td_site_code_field = None, td_requires_approval = False, td_max_retries = 0, td_approval_scope = ''write'',
        td_rate_limit = Some \<lparr>rl_max_calls = 5, rl_window_seconds = 60\<rparr>, td_side_effect_type = READ\<rparr>,
      tr_result_adapter = Some (audit_to_evidence m)\<rparr>"

subsection \<open>What the audit finds\<close>

definition executes :: "audit_command \<Rightarrow> string \<Rightarrow> bool" where
  "executes c name \<longleftrightarrow> (case ua_checks c of None \<Rightarrow> True | Some xs \<Rightarrow> xs = [] \<or> name \<in> set xs)"

definition audit_now :: "datetime \<Rightarrow> audit_command \<Rightarrow> datetime" where
  "audit_now clock c = (case ua_now c of None \<Rightarrow> clock | Some m \<Rightarrow> m)"

definition audit_limit :: "audit_command \<Rightarrow> nat" where
  "audit_limit c = nat (min (max (ua_limit c) 1) 500)"

text \<open>The rules about a single row.\<close>

definition row_rules :: "datetime \<Rightarrow> (string \<times> (user_row \<Rightarrow> bool)) list" where
  "row_rules now = [
     (''invalid_display_name_length'', name_length_broken),
     (''created_at_in_future'', \<lambda>r. ur_created_at r > now),
     (''updated_before_created'', \<lambda>r. ur_updated_at r < ur_created_at r),
     (''status_deactivation_mismatch'', status_mismatch),
     (''verified_before_created'', before_created ur_verified_at),
     (''last_login_before_created'', before_created ur_last_login_at)]"

lemma audit_findings:
  "re_findings (run_audit fresh clock c rows) = sort_key issue_key (concat (map (\<lambda>(name, handler). handler rows)
     (filter (\<lambda>(name, handler). executes c name) (all_checks (audit_now clock c) (audit_limit c)))))"
proof -
  have "(case (case ua_checks c of None \<Rightarrow> None | Some xs \<Rightarrow> if xs = [] then None else Some xs) of None \<Rightarrow> True | Some xs \<Rightarrow> name \<in> set xs)
      = executes c name" for name by (cases "ua_checks c") (auto simp: executes_def)
  then show ?thesis by (simp add: run_audit_def Let_def audit_now_def audit_limit_def)
qed

lemma audit_result: "re_result_code (run_audit fresh clock c rows) = (if re_findings (run_audit fresh clock c rows) = [] then ''ok'' else ''issues_found'')"
    "re_issues_total (run_audit fresh clock c rows) = length (re_findings (run_audit fresh clock c rows))"
  by (simp_all add: run_audit_def Let_def)

lemma filter_tagged:
  assumes "distinct (map fst hs)" and "\<And>nm h x. (nm, h) \<in> set hs \<Longrightarrow> x \<in> set (h rows) \<Longrightarrow> is_check x = nm" and "(name, handler) \<in> set hs"
  shows "filter (\<lambda>x. is_check x = name) (concat (map (\<lambda>(nm, h). h rows) hs)) = handler rows"
  using assms
proof (induction hs)
  case (Cons p hs)
  obtain nm h where p: "p = (nm, h)" by fastforce
  have own: "is_check x = nm" if "x \<in> set (h rows)" for x using Cons.prems(2)[of nm h x] that p by simp
  have others: "is_check x \<noteq> nm" if "x \<in> set (concat (map (\<lambda>(nm, h). h rows) hs))" for x
  proof -
    obtain nm' h' where "(nm', h') \<in> set hs" "x \<in> set (h' rows)" using \<open>x \<in> _\<close> by auto
    then show ?thesis using Cons.prems(1) Cons.prems(2)[of nm' h' x] p by (force simp: image_iff)
  qed
  show ?case
  proof (cases "(name, handler) = p")
    case True
    then show ?thesis using p own others by (auto simp: filter_empty_conv intro!: filter_True)
  next
    case False
    then have rest: "(name, handler) \<in> set hs" using Cons.prems(3) by auto
    then have "name \<noteq> nm" using Cons.prems(1) p by (force simp: image_iff)
    then have "filter (\<lambda>x. is_check x = name) (h rows) = []" using own by (auto simp: filter_empty_conv)
    moreover have "filter (\<lambda>x. is_check x = name) (concat (map (\<lambda>(nm, h). h rows) hs)) = handler rows"
    proof (rule Cons.IH)
      show "is_check x = nm" if "(nm, h) \<in> set hs" "x \<in> set (h rows)" for nm h x using Cons.prems(2)[of nm h x] that by simp
    qed (use Cons.prems(1) rest in simp_all)
    ultimately show ?thesis using p by simp
  qed
qed simp

lemma find_rows_check: "x \<in> set (find_rows check sev message broken time evidence n rows) \<Longrightarrow>
    is_check x = check \<and> (\<exists>r \<in> set rows. broken r \<and> is_user x = Some (ur_id r))"
  by (auto simp: find_rows_def dest!: in_set_takeD)

lemma length_find_rows: "length (find_rows check sev message broken time evidence n rows) = min n (length (filter broken rows))"
  by (simp add: find_rows_def min.commute)

lemmas finder_defs = find_invalid_display_name_length_def find_created_at_in_future_def find_updated_before_created_def
  find_status_deactivation_mismatch_def find_verified_before_created_def find_last_login_before_created_def

lemma handlers_tagged: "(name, h) \<in> set (all_checks now n) \<Longrightarrow> x \<in> set (h rows) \<Longrightarrow> is_check x = name"
  by (auto simp: all_checks_def finder_defs find_duplicate_normalized_email_def dest: find_rows_check)

lemma distinct_checks: "distinct (map fst (all_checks now n))"
  by (simp add: all_checks_def)

lemma findings_of_check:
  assumes "(name, handler) \<in> set (all_checks (audit_now clock c) (audit_limit c))"
  shows "filter (\<lambda>x. is_check x = name) (re_findings (run_audit fresh clock c rows))
    = (if executes c name then sort_key issue_key (handler rows) else [])"
proof -
  let ?all = "all_checks (audit_now clock c) (audit_limit c)"
  let ?hs = "filter (\<lambda>(name, handler). executes c name) ?all"
  have "filter (\<lambda>x. is_check x = name) (concat (map (\<lambda>(nm, h). h rows) ?hs)) = (if executes c name then handler rows else [])"
  proof (cases "executes c name")
    case True
    have "distinct (map fst ?hs)" using distinct_checks by (rule distinct_map_filter)
    moreover have "is_check x = nm" if "(nm, h) \<in> set ?hs" "x \<in> set (h rows)" for nm h x using handlers_tagged that by auto
    moreover have "(name, handler) \<in> set ?hs" using assms True by simp
    ultimately have "filter (\<lambda>x. is_check x = name) (concat (map (\<lambda>(nm, h). h rows) ?hs)) = handler rows" by (rule filter_tagged)
    then show ?thesis using True by simp
  next
    case False
    then show ?thesis using handlers_tagged by (fastforce simp: filter_empty_conv)
  qed
  then show ?thesis by (simp add: audit_findings filter_sort)
qed

lemma rule_handler:
  assumes "(name, broken) \<in> set (row_rules now)"
  shows "\<exists>handler. (name, handler) \<in> set (all_checks now n)
    \<and> (\<forall>rows. length (handler rows) = min n (length (filter broken rows)))
    \<and> (\<forall>rows. \<forall>x \<in> set (handler rows). \<exists>r \<in> set rows. broken r \<and> is_user x = Some (ur_id r))"
proof -
  have "\<exists>sev message time evidence. (name, find_rows name sev message broken time evidence n) \<in> set (all_checks now n)"
    using assms unfolding row_rules_def list.set insert_iff empty_iff prod.inject
    by (elim disjE conjE; simp add: all_checks_def finder_defs) (intro exI, rule refl)+
  then obtain sev message time evidence where h: "(name, find_rows name sev message broken time evidence n) \<in> set (all_checks now n)"
    by (elim exE)
  then show ?thesis using length_find_rows find_rows_check(1)
    by (intro exI[of _ "find_rows name sev message broken time evidence n"] conjI allI ballI) (blast dest: find_rows_check)+
qed

lemma count_duplicates: "length (find_duplicate_normalized_email n rows) = min n (card {e. 1 < count_list (map sql_email rows) e})"
proof -
  have "set (remdups (filter (\<lambda>e. 1 < count_list (map sql_email rows) e) (map sql_email rows))) = {e. 1 < count_list (map sql_email rows) e}"
    by (auto simp: count_list_0_iff[symmetric] simp del: count_list_0_iff intro: ccontr)
  then have "length (duplicate_emails rows) = card {e. 1 < count_list (map sql_email rows) e}"
    by (simp add: duplicate_emails_def Let_def length_remdups_card_conv)
  then show ?thesis by (simp add: find_duplicate_normalized_email_def min.commute)
qed

lemma count_list_distinct: "(\<forall>e. count_list xs e \<le> 1) \<longleftrightarrow> distinct xs"
proof (induction xs)
  case (Cons x xs)
  have "(\<forall>e. count_list (x # xs) e \<le> 1) \<longleftrightarrow> count_list xs x = 0 \<and> (\<forall>e. count_list xs e \<le> 1)"
  proof
    assume all: "\<forall>e. count_list (x # xs) e \<le> 1"
    have "count_list xs e \<le> 1" for e using all[rule_format, of e] by (simp split: if_splits)
    then show "count_list xs x = 0 \<and> (\<forall>e. count_list xs e \<le> 1)" using all[rule_format, of x] by simp
  qed auto
  then show ?case using Cons.IH by (simp add: count_list_0_iff)
qed simp

lemma find_rows_empty: "find_rows check sev message broken time evidence n rows = [] \<longleftrightarrow> n = 0 \<or> (\<forall>r \<in> set rows. \<not> broken r)"
proof -
  have "find_rows check sev message broken time evidence n rows = [] \<longleftrightarrow> min n (length (filter broken rows)) = 0"
    by (metis length_find_rows length_0_conv)
  also have "\<dots> \<longleftrightarrow> n = 0 \<or> filter broken rows = []" by (auto simp: min_def)
  finally show ?thesis by (simp add: filter_empty_conv)
qed

lemma duplicates_empty: "find_duplicate_normalized_email n rows = [] \<longleftrightarrow> n = 0 \<or> distinct (map sql_email rows)"
proof -
  let ?dup = "{e. 1 < count_list (map sql_email rows) e}"
  have "?dup \<subseteq> set (map sql_email rows)" by (auto simp: count_list_0_iff[symmetric] simp del: count_list_0_iff intro: ccontr)
  then have "finite ?dup" using finite_subset by blast
  then have "card ?dup = 0 \<longleftrightarrow> distinct (map sql_email rows)"
    using count_list_distinct[of "map sql_email rows"] by (auto simp: not_less)
  moreover have "find_duplicate_normalized_email n rows = [] \<longleftrightarrow> min n (card ?dup) = 0"
    by (simp only: count_duplicates[symmetric] length_0_conv)
  ultimately show ?thesis by (auto simp: min_def)
qed

lemma audit_clean:
  "re_findings (run_audit fresh clock c rows) = [] \<longleftrightarrow>
     (\<forall>(name, h) \<in> set (all_checks (audit_now clock c) (audit_limit c)). executes c name \<longrightarrow> h rows = [])"
proof -
  have empty: "sort_key issue_key xs = [] \<longleftrightarrow> xs = []" for xs by (metis length_0_conv length_sort)
  show ?thesis unfolding audit_findings empty by auto
qed

lemma audit_limit_pos: "0 < audit_limit c"
  by (simp add: audit_limit_def)

lemma audit_reports_violations_core:
  fixes fresh :: uuid and clock :: datetime and c :: audit_command and rows :: "user_row list"
  defines "report \<equiv> run_audit fresh clock c rows" and "now \<equiv> audit_now clock c" and "n \<equiv> audit_limit c"
  shows "(\<forall>(name, broken) \<in> set (row_rules now).
        length (filter (\<lambda>x. is_check x = name) (re_findings report)) = (if executes c name then min n (length (filter broken rows)) else 0)
        \<and> (\<forall>x \<in> set (re_findings report). is_check x = name \<longrightarrow> (\<exists>r \<in> set rows. broken r \<and> is_user x = Some (ur_id r))))
    \<and> length (filter (\<lambda>x. is_check x = ''duplicate_normalized_email'') (re_findings report))
        = (if executes c ''duplicate_normalized_email'' then min n (card {e. 1 < count_list (map sql_email rows) e}) else 0)
    \<and> sorted (map issue_key (re_findings report))
    \<and> (re_result_code report = ''ok'' \<longleftrightarrow>
        (\<forall>(name, broken) \<in> set (row_rules now). executes c name \<longrightarrow> (\<forall>r \<in> set rows. \<not> broken r))
        \<and> (executes c ''duplicate_normalized_email'' \<longrightarrow> distinct (map sql_email rows)))"
proof (intro conjI)
  have each: "length (filter (\<lambda>x. is_check x = name) (re_findings report)) = (if executes c name then min n (length (filter broken rows)) else 0)
      \<and> (\<forall>x \<in> set (re_findings report). is_check x = name \<longrightarrow> (\<exists>r \<in> set rows. broken r \<and> is_user x = Some (ur_id r)))"
    if rule: "(name, broken) \<in> set (row_rules now)" for name broken
  proof -
    obtain handler where h: "(name, handler) \<in> set (all_checks now n)" "length (handler rows) = min n (length (filter broken rows))"
        "\<forall>x \<in> set (handler rows). \<exists>r \<in> set rows. broken r \<and> is_user x = Some (ur_id r)"
      using rule_handler[OF rule] by blast
    note found = findings_of_check[OF h(1)[unfolded now_def n_def], of fresh rows, folded report_def]
    have "x \<in> set (handler rows)" if "x \<in> set (re_findings report)" "is_check x = name" for x
    proof -
      have "x \<in> set (filter (\<lambda>x. is_check x = name) (re_findings report))" using that by simp
      then show ?thesis unfolding found by (simp split: if_splits)
    qed
    then show ?thesis using h(2,3) unfolding found by simp
  qed
  then show "\<forall>(name, broken) \<in> set (row_rules now).
        length (filter (\<lambda>x. is_check x = name) (re_findings report)) = (if executes c name then min n (length (filter broken rows)) else 0)
        \<and> (\<forall>x \<in> set (re_findings report). is_check x = name \<longrightarrow> (\<exists>r \<in> set rows. broken r \<and> is_user x = Some (ur_id r)))"
    by blast
  have "(''duplicate_normalized_email'', find_duplicate_normalized_email n) \<in> set (all_checks now n)" by (simp add: all_checks_def)
  then show "length (filter (\<lambda>x. is_check x = ''duplicate_normalized_email'') (re_findings report))
      = (if executes c ''duplicate_normalized_email'' then min n (card {e. 1 < count_list (map sql_email rows) e}) else 0)"
    unfolding report_def now_def n_def by (simp only: findings_of_check) (simp add: count_duplicates)
  show "sorted (map issue_key (re_findings report))" unfolding report_def audit_findings by simp
  have "re_result_code report = ''ok'' \<longleftrightarrow> re_findings report = []" unfolding report_def audit_result by simp
  then show "re_result_code report = ''ok'' \<longleftrightarrow>
        (\<forall>(name, broken) \<in> set (row_rules now). executes c name \<longrightarrow> (\<forall>r \<in> set rows. \<not> broken r))
        \<and> (executes c ''duplicate_normalized_email'' \<longrightarrow> distinct (map sql_email rows))"
    unfolding report_def audit_clean now_def[symmetric] n_def[symmetric]
    using audit_limit_pos[of c, folded n_def]
    by (simp add: all_checks_def row_rules_def finder_defs find_rows_empty duplicates_empty) (rule iffI; elim conjE; intro conjI; assumption)
qed


definition sample_user_row :: "uuid \<Rightarrow> string \<Rightarrow> string \<Rightarrow> user_row" where
  "sample_user_row i email name = \<lparr>ur_id = i, ur_email = email, ur_display_name = name, ur_created_at = 5, ur_status = ''active'',
     ur_updated_at = 5, ur_verified_at = None, ur_last_login_at = None, ur_deactivated_at = None, ur_source_system = None\<rparr>"

definition sample_audit :: audit_command where
  "sample_audit = \<lparr>ua_checks = None, ua_limit = 0, ua_run_id = None, ua_now = None\<rparr>"

definition sample_users :: "user_row list" where
  "sample_users = [sample_user_row 1 ''A@x.io'' ''Ann Lee'', sample_user_row 2 ''a@x.io'' ''Bo'']"

lemma sample_users_values:
  "map sql_email sample_users = [''a@x.io'', ''a@x.io'']" "filter name_length_broken sample_users = [sample_user_row 2 ''a@x.io'' ''Bo'']"
proof -
  have "lower (sql_trim ''A@x.io'') = ''a@x.io''" "lower (sql_trim ''a@x.io'') = ''a@x.io''" by code_simp+
  then show "map sql_email sample_users = [''a@x.io'', ''a@x.io'']" by (simp add: sample_users_def sql_email_def sample_user_row_def)
  have "sql_trim ''Ann Lee'' = ''Ann Lee''" "sql_trim ''Bo'' = ''Bo''" by code_simp+
  then show "filter name_length_broken sample_users = [sample_user_row 2 ''a@x.io'' ''Bo'']"
    by (simp add: sample_users_def name_length_broken_def sample_user_row_def)
qed


subsection \<open>Registered users\<close>

lemma join_words_edges:
  assumes "\<forall>w \<in> set ws. w \<noteq> [] \<and> (\<forall>c \<in> set w. \<not> is_space c)" and "ws \<noteq> []"
  shows "join '' '' ws \<noteq> [] \<and> \<not> is_space (hd (join '' '' ws)) \<and> \<not> is_space (last (join '' '' ws))"
  using assms by (induction "'' ''" ws rule: join.induct) auto

lemma sql_trim_edges:
  assumes "s \<noteq> []" and "hd s \<noteq> CHR '' ''" and "last s \<noteq> CHR '' ''"
  shows "sql_trim s = s"
proof -
  have id: "dropWhile (\<lambda>c. c = CHR '' '') xs = xs" if "xs \<noteq> []" "hd xs \<noteq> CHR '' ''" for xs :: string
    using that by (cases xs) auto
  have "dropWhile (\<lambda>c. c = CHR '' '') (rev s) = rev s" using assms by (intro id) (auto simp: hd_rev)
  then show ?thesis using id[OF assms(1,2)] by (simp add: sql_trim_def)
qed

lemma normalised_name: "join '' '' (split_ws s) \<noteq> [] \<Longrightarrow> sql_trim (join '' '' (split_ws s)) = join '' '' (split_ws s)"
proof -
  assume name: "join '' '' (split_ws s) \<noteq> []"
  have space: "is_space (CHR '' '')" by code_simp
  have "\<forall>w \<in> set (split_ws s). w \<noteq> [] \<and> (\<forall>c \<in> set w. \<not> is_space c)" using split_ws_words by blast
  moreover have "split_ws s \<noteq> []" using name by auto
  ultimately have "\<not> is_space (hd (join '' '' (split_ws s)))" "\<not> is_space (last (join '' '' (split_ws s)))"
    using join_words_edges by blast+
  then show ?thesis using space name by (intro sql_trim_edges) auto
qed

text \<open>A row as registration leaves it at a time not after \<open>now\<close>.\<close>

definition registered :: "datetime \<Rightarrow> user_row \<Rightarrow> bool" where
  "registered now r \<longleftrightarrow> 2 \<le> length (ur_display_name r) \<and> length (ur_display_name r) \<le> 100 \<and> sql_trim (ur_display_name r) = ur_display_name r
     \<and> ur_created_at r \<le> ur_updated_at r \<and> ur_created_at r \<le> now \<and> ur_status r = ''active'' \<and> ur_deactivated_at r = None
     \<and> ur_verified_at r = None \<and> ur_last_login_at r = None"

definition users_ok :: "datetime \<Rightarrow> user_row list \<Rightarrow> bool" where
  "users_ok now rows \<longleftrightarrow> distinct (map ur_id rows) \<and> distinct (map ur_email rows) \<and> (\<forall>r \<in> set rows. registered now r)"

lemma make_user_registered:
  assumes "make_user validate fresh clock1 clock2 email name source i None = Inr u" and "clock1 \<le> clock2" and "clock2 \<le> now"
  shows "registered now (row_of_user u)"
proof -
  have "us_display_name u = join '' '' (split_ws name)" "2 \<le> length (us_display_name u)" "length (us_display_name u) \<le> 100"
      "us_created_at u = clock1" "us_updated_at u = clock2" "us_status u = User_Active" "us_verified_at u = None"
      "us_last_login_at u = None" "us_deactivated_at u = None"
    using assms(1) by (auto simp: make_user_def Let_def split: sum.splits if_splits)
  moreover from this have "sql_trim (us_display_name u) = us_display_name u" using normalised_name[of name] by fastforce
  ultimately show ?thesis using assms(2,3) by (simp add: registered_def row_of_user_def)
qed

record registration =
  rg_fresh :: uuid
  rg_clock1 :: datetime
  rg_clock2 :: datetime
  rg_commit :: "unit result"
  rg_command :: register_command

definition register_step :: "email_validator \<Rightarrow> user_row list \<Rightarrow> registration \<Rightarrow> user_row list" where
  "register_step validate rows e = snd (register_user validate (rg_fresh e) (rg_clock1 e) (rg_clock2 e) (rg_commit e) (rg_command e) rows)"

lemma register_step_cases:
  "register_step validate rows e = rows \<or> (\<exists>u. make_user validate (rg_fresh e) (rg_clock1 e) (rg_clock2 e) (rc_email (rg_command e))
      (rc_display_name (rg_command e)) (Some (rc_source_system (rg_command e))) None None = Inr u
    \<and> (\<forall>r \<in> set rows. ur_id r \<noteq> us_id u \<and> ur_email r \<noteq> us_email u) \<and> register_step validate rows e = rows @ [row_of_user u])"
  by (auto simp: register_step_def register_user_def add_user_def list_ex_iff split: sum.splits option.splits)

lemma register_step_keeps:
  assumes "users_ok now rows" and "rg_clock1 e \<le> rg_clock2 e \<and> rg_clock2 e \<le> now"
  shows "users_ok now (register_step validate rows e)"
  using register_step_cases[of validate rows e]
proof
  assume "\<exists>u. make_user validate (rg_fresh e) (rg_clock1 e) (rg_clock2 e) (rc_email (rg_command e))
      (rc_display_name (rg_command e)) (Some (rc_source_system (rg_command e))) None None = Inr u
    \<and> (\<forall>r \<in> set rows. ur_id r \<noteq> us_id u \<and> ur_email r \<noteq> us_email u) \<and> register_step validate rows e = rows @ [row_of_user u]"
  then obtain u where u: "make_user validate (rg_fresh e) (rg_clock1 e) (rg_clock2 e) (rc_email (rg_command e))
      (rc_display_name (rg_command e)) (Some (rc_source_system (rg_command e))) None None = Inr u"
      "\<forall>r \<in> set rows. ur_id r \<noteq> us_id u \<and> ur_email r \<noteq> us_email u" "register_step validate rows e = rows @ [row_of_user u]" by blast
  have "registered now (row_of_user u)" using make_user_registered[OF u(1)] assms(2) by simp
  moreover have "ur_id (row_of_user u) = us_id u" "ur_email (row_of_user u) = us_email u" by (simp_all add: row_of_user_def)
  ultimately show ?thesis using assms(1) u(2) unfolding u(3) users_ok_def by (auto simp: image_iff)
qed (use assms(1) in simp)

lemma register_steps_keep:
  assumes "users_ok now rows" and "\<forall>e \<in> set events. rg_clock1 e \<le> rg_clock2 e \<and> rg_clock2 e \<le> now"
  shows "users_ok now (foldl (register_step validate) rows events)"
  using assms
proof (induction events arbitrary: rows)
  case (Cons e events)
  then show ?case using register_step_keeps[of now rows e validate] by simp
qed simp

text \<open>C32. Users who came into being by registrations, in any order, with any input and with commits that may fail, have distinct
  identifiers and addresses; while the clock does not run backwards, an audit of them finds at most two things: addresses
  that differ only in case or outer spaces, and display names of exactly two characters, which registration accepts and the
  audit reports.\<close>

theorem registered_users_audited:
  fixes validate :: email_validator and now :: datetime
  assumes "\<forall>e \<in> set events. rg_clock1 e \<le> rg_clock2 e \<and> rg_clock2 e \<le> now" and "ua_now c = Some now"
  defines "rows \<equiv> foldl (register_step validate) [] events"
  shows "distinct (map ur_id rows) \<and> distinct (map ur_email rows)
    \<and> (\<forall>x \<in> set (re_findings (run_audit fresh clock c rows)).
         is_check x = ''duplicate_normalized_email'' \<and> \<not> distinct (map sql_email rows)
       \<or> is_check x = ''invalid_display_name_length'' \<and> (\<exists>r \<in> set rows. is_user x = Some (ur_id r) \<and> length (ur_display_name r) = 2))"
proof (intro conjI ballI)
  have ok: "users_ok now rows"
    unfolding rows_def by (rule register_steps_keep) (use assms(1) in \<open>simp_all add: users_ok_def\<close>)
  then show "distinct (map ur_id rows)" "distinct (map ur_email rows)" by (simp_all add: users_ok_def)
  fix x assume x: "x \<in> set (re_findings (run_audit fresh clock c rows))"
  have now: "audit_now clock c = now" using assms(2) by (simp add: audit_now_def)
  obtain name h where h: "(name, h) \<in> set (all_checks now (audit_limit c))" "x \<in> set (h rows)"
    using x by (auto simp: audit_findings now)
  have clean: "\<not> now < ur_created_at r" "\<not> ur_updated_at r < ur_created_at r" "\<not> status_mismatch r"
      "\<not> before_created ur_verified_at r" "\<not> before_created ur_last_login_at r" if "r \<in> set rows" for r
    using that ok by (auto simp: users_ok_def registered_def status_mismatch_def before_created_def)
  have empty: "find_created_at_in_future now n rows = []" "find_updated_before_created n rows = []"
      "find_status_deactivation_mismatch n rows = []" "find_verified_before_created n rows = []" "find_last_login_before_created n rows = []" for n
    using clean unfolding finder_defs find_rows_empty by blast+
  consider "x \<in> set (find_duplicate_normalized_email (audit_limit c) rows)" | "x \<in> set (find_invalid_display_name_length (audit_limit c) rows)"
    using h empty by (auto simp: all_checks_def)
  then show "is_check x = ''duplicate_normalized_email'' \<and> \<not> distinct (map sql_email rows)
       \<or> is_check x = ''invalid_display_name_length'' \<and> (\<exists>r \<in> set rows. is_user x = Some (ur_id r) \<and> length (ur_display_name r) = 2)"
  proof cases
    case 1
    then have "\<not> distinct (map sql_email rows)" using duplicates_empty[of "audit_limit c" rows] by force
    then show ?thesis using 1 by (auto simp: find_duplicate_normalized_email_def)
  next
    case 2
    then obtain r where r: "r \<in> set rows" "name_length_broken r" "is_user x = Some (ur_id r)" "is_check x = ''invalid_display_name_length''"
      using find_rows_check unfolding finder_defs by blast
    moreover have "registered now r" using ok r(1) by (simp add: users_ok_def)
    ultimately show ?thesis by (auto simp: name_length_broken_def registered_def intro!: bexI[of _ r])
  qed
qed

definition plain_validator :: email_validator where
  "plain_validator s = (if CHR ''@'' \<in> set s then Inr s else Inl ''not an address'')"

definition sample_registrations :: "registration list" where
  "sample_registrations = [\<lparr>rg_fresh = 1, rg_clock1 = 3, rg_clock2 = 4, rg_commit = Inr (),
     rg_command = \<lparr>rc_email = ''bo@x.io'', rc_display_name = '' Bo '', rc_source_system = ''unknown''\<rparr>\<rparr>]"

lemma sample_registered: "foldl (register_step plain_validator) [] sample_registrations
    = [\<lparr>ur_id = 1, ur_email = ''bo@x.io'', ur_display_name = ''Bo'', ur_created_at = 3, ur_status = ''active'', ur_updated_at = 4,
        ur_verified_at = None, ur_last_login_at = None, ur_deactivated_at = None, ur_source_system = Some ''unknown''\<rparr>]"
proof -
  have "strip ''bo@x.io'' = ''bo@x.io''" "join '' '' (split_ws '' Bo '') = ''Bo''" by code_simp+
  then show ?thesis
    by (simp add: sample_registrations_def register_step_def register_user_def make_user_def plain_validator_def Let_def
        get_user_by_email_def optional_user_def add_user_def row_of_user_def)
qed

theorem registered_users_audited_witness:
  "\<exists>x r. set (re_findings (run_audit 9 7 (sample_audit\<lparr>ua_now := Some 8\<rparr>) (foldl (register_step plain_validator) [] sample_registrations))) = {x}
    \<and> is_user x = Some 1 \<and> foldl (register_step plain_validator) [] sample_registrations = [r] \<and> length (ur_display_name r) = 2"
proof -
  let ?c = "sample_audit\<lparr>ua_now := Some 8\<rparr>"
  let ?rows = "foldl (register_step plain_validator) [] sample_registrations"
  have parts: "executes ?c name = True" "audit_limit ?c = 1" "audit_now 7 ?c = 8" for name
    by (simp_all add: executes_def sample_audit_def audit_limit_def audit_now_def)
  have "sql_trim ''Bo'' = ''Bo''" by code_simp
  then have broken: "filter name_length_broken ?rows = ?rows" by (simp add: sample_registered name_length_broken_def)
  have "\<forall>e \<in> set sample_registrations. rg_clock1 e \<le> rg_clock2 e \<and> rg_clock2 e \<le> 8" by (simp add: sample_registrations_def)
  then have found: "\<forall>x \<in> set (re_findings (run_audit 9 7 ?c ?rows)). is_check x = ''invalid_display_name_length'' \<and> is_user x = Some 1"
    using registered_users_audited[of sample_registrations 8 ?c plain_validator 9 7] by (auto simp: sample_registered)
  have "(''invalid_display_name_length'', name_length_broken) \<in> set (row_rules (audit_now 7 ?c))" by (simp add: row_rules_def)
  from bspec[OF conjunct1[OF audit_reports_violations_core] this]
  have one: "length (filter (\<lambda>x. is_check x = ''invalid_display_name_length'') (re_findings (run_audit 9 7 ?c ?rows))) = 1"
    by (simp add: parts broken) (simp add: sample_registered)
  define F where "F = re_findings (run_audit 9 7 ?c ?rows)"
  have "filter (\<lambda>x. is_check x = ''invalid_display_name_length'') F = F"
    using found unfolding F_def by (intro filter_True) blast
  then have "length F = 1" using one unfolding F_def[symmetric] by simp
  then obtain x where "re_findings (run_audit 9 7 ?c ?rows) = [x]" unfolding F_def[symmetric] by (cases F) auto
  then show ?thesis using found by (auto simp: sample_registered)
qed

subsection \<open>Reports become evidence\<close>

lemma severity_totals_sum: "severity_sum (foldl count_severity s xs) = severity_sum s + int (length xs)"
proof (induction xs arbitrary: s)
  case (Cons x xs)
  have "severity_sum (count_severity s x) = severity_sum s + 1" by (cases "is_severity x") (simp_all add: severity_sum_def)
  then show ?case using Cons.IH[of "count_severity s x"] by simp
qed simp

lemma audit_output_fields [simp]:
  "ao_tool_name (audit_output_of r) = AUDITOR_TOOL" "ao_total_users (audit_output_of r) = int (re_total_users r)"
  "ao_checks_executed (audit_output_of r) = int (re_checks_executed r)" "ao_issues_total (audit_output_of r) = int (re_issues_total r)"
  "ao_by_severity (audit_output_of r) = foldl count_severity no_totals (re_findings r)" "ao_findings (audit_output_of r) = re_findings r"
  "ao_result_code (audit_output_of r) = (if re_issues_total r > 0 then Audit_Issues_Found else Audit_Ok)"
  by (simp_all add: audit_output_of_def)

lemma audit_to_evidence_ok:
  assumes "au_instance m output = Some (audit_output_of r)" and "audit_filters applied = Inr filters" and "re_issues_total r = length (re_findings r)"
  shows "audit_to_evidence m applied output = Inr [CollectionEvidence \<lparr>ce_evidence_id = run_evidence_id (audit_output_of r),
      ce_entity_label = ''user consistency issue'', ce_entity_label_plural = ''user consistency issues'', ce_filters = filters,
      ce_requested_count = None, ce_items = map (\<lambda>(i, x). finding_item (audit_output_of r) i x) (enumerate 1 (re_findings r))\<rparr>]"
proof -
  have "severity_sum (foldl count_severity no_totals (re_findings r)) = int (length (re_findings r))"
    using severity_totals_sum[of no_totals "re_findings r"] by (simp add: severity_sum_def no_totals_def)
  then show ?thesis using assms(3) unfolding audit_to_evidence_def assms(1,2) option.case audit_output_fields
    by (cases "re_findings r = []") simp_all
qed

text \<open>C33. Every report the audit produces is accepted by the adapter of its tool: with the output read back as it was dumped
  and filters that are absent or strings, the evidence is one collection with an item for each finding, in order, labelled by
  its message and identified by its user where it has one.\<close>

theorem audit_accepted:
  assumes "au_instance m output = Some (audit_output_of (run_audit fresh clock c rows))" and "audit_filters applied = Inr filters"
  defines "found \<equiv> re_findings (run_audit fresh clock c rows)"
  shows "\<exists>coll. audit_to_evidence m applied output = Inr [CollectionEvidence coll] \<and> ce_filters coll = filters
    \<and> map ei_label (ce_items coll) = map is_message found
    \<and> list_all2 (\<lambda>item x. case is_user x of None \<Rightarrow> True | Some u \<Rightarrow> ei_entity_id item = uuid_str u) (ce_items coll) found
    \<and> (re_result_code (run_audit fresh clock c rows) = ''ok'' \<longleftrightarrow> ce_items coll = [])"
proof -
  let ?report = "run_audit fresh clock c rows" and ?out = "audit_output_of (run_audit fresh clock c rows)"
  let ?items = "map (\<lambda>(i, x). finding_item ?out i x) (enumerate 1 found)"
  have total: "re_issues_total ?report = length found" "re_findings ?report = found" by (simp_all add: audit_result found_def)
  obtain coll where "audit_to_evidence m applied output = Inr [CollectionEvidence coll]" "ce_filters coll = filters" and items: "ce_items coll = ?items"
    using audit_to_evidence_ok[OF assms(1,2)] unfolding total by simp
  moreover have "map ei_label ?items = map is_message (map snd (enumerate 1 found))"
    unfolding map_map by (simp add: o_def case_prod_beta finding_item_def del: map_snd_enumerate)
  then have "map ei_label ?items = map is_message found" by simp
  moreover have "list_all2 (\<lambda>item x. case is_user x of None \<Rightarrow> True | Some u \<Rightarrow> ei_entity_id item = uuid_str u) ?items found"
    by (auto simp: list_all2_conv_all_nth nth_enumerate_eq finding_item_def split: option.split)
  moreover have "re_result_code ?report = ''ok'' \<longleftrightarrow> ?items = []"
    using audit_result(1)[of fresh clock c rows] by (cases "re_findings (run_audit fresh clock c rows)") (simp_all add: found_def)
  ultimately show ?thesis unfolding items[symmetric] by (intro exI[of _ coll] conjI)
qed

definition sample_auditor :: auditor_models where
  "sample_auditor = \<lparr>au_input = \<lparr>im_name = ''In'', im_extra = Some ''forbid'', im_validate = Inr, im_schema = []\<rparr>,
     au_parse = (\<lambda>d. Inr sample_audit), au_output = \<lparr>om_validate = Inr, om_dump = (\<lambda>d. d)\<rparr>, au_dump = (\<lambda>out. []),
     au_instance = (\<lambda>d. Some (audit_output_of (run_audit 9 7 sample_audit sample_users)))\<rparr>"

theorem audit_accepted_witness:
  "\<exists>coll. audit_to_evidence sample_auditor [] [] = Inr [CollectionEvidence coll] \<and> ce_filters coll = [] \<and> ce_items coll \<noteq> []"
proof -
  have "audit_filters [] = Inr []" by (simp add: audit_filters_def)
  from audit_accepted[of sample_auditor "[]" 9 7 sample_audit sample_users, OF _ this]
  obtain coll where coll: "audit_to_evidence sample_auditor [] [] = Inr [CollectionEvidence coll]" "ce_filters coll = []"
    "re_result_code (run_audit 9 7 sample_audit sample_users) = ''ok'' \<longleftrightarrow> ce_items coll = []"
    by (auto simp: sample_auditor_def)
  moreover have "re_result_code (run_audit 9 7 sample_audit sample_users) \<noteq> ''ok''"
  proof -
    have "executes sample_audit ''duplicate_normalized_email''" by (simp add: executes_def sample_audit_def)
    then show ?thesis using conjunct2[OF conjunct2[OF conjunct2[OF audit_reports_violations_core[of 7 sample_audit 9 sample_users]]]]
      by (simp add: sample_users_values)
  qed
  ultimately show ?thesis by auto
qed

end
