(* ===== verification/Work_Orders.thy ===== *)
theory Work_Orders
  imports Prelude
begin

section \<open>Work orders: the status machine and the change-status use case\<close>

text \<open>
  The entities of \<open>src/app/modules/operations/domain\<close> with the tables that hold them
  (\<open>infrastructure/manufacturing_maintenance/models\<close>), the status machine of
  \<open>work_order_status.py\<close>, \<open>WorkOrderStatusRepository\<close> and the use case
  \<open>ChangeWorkOrderStatus\<close>. The locale \<open>status_store\<close> is the contract of the compare-and-set
  update that the use case relies on; the repository's update is its interpretation. The last part
  puts several clients in parallel: reads and writes of different calls interleave.
\<close>

subsection \<open>The status machine\<close>

datatype work_order_status = PENDING | OPEN | IN_PROGRESS | COMPLETED | CANCELLED

fun status_value :: "work_order_status \<Rightarrow> string" where
  "status_value PENDING = ''pending''"
| "status_value OPEN = ''open''"
| "status_value IN_PROGRESS = ''in_progress''"
| "status_value COMPLETED = ''completed''"
| "status_value CANCELLED = ''cancelled''"

definition all_statuses :: "work_order_status list" where
  "all_statuses = [PENDING, OPEN, IN_PROGRESS, COMPLETED, CANCELLED]"

text \<open>\<open>WorkOrderStatus(text)\<close>.\<close>

definition parse_status :: "string \<Rightarrow> work_order_status result" where
  "parse_status s = (case List.find (\<lambda>w. status_value w = s) all_statuses of
      Some w \<Rightarrow> Inr w | None \<Rightarrow> Inl (ValueErr (s @ '' is not a valid WorkOrderStatus'')))"

fun ALLOWED_TRANSITIONS :: "work_order_status \<Rightarrow> work_order_status list" where
  "ALLOWED_TRANSITIONS PENDING = [OPEN, CANCELLED]"
| "ALLOWED_TRANSITIONS OPEN = [IN_PROGRESS, CANCELLED]"
| "ALLOWED_TRANSITIONS IN_PROGRESS = [OPEN, COMPLETED, CANCELLED]"
| "ALLOWED_TRANSITIONS COMPLETED = []"
| "ALLOWED_TRANSITIONS CANCELLED = []"

definition STATUSES_REQUIRING_REASON :: "work_order_status list" where
  "STATUSES_REQUIRING_REASON = [COMPLETED, CANCELLED]"

definition allowed_next_statuses :: "work_order_status \<Rightarrow> work_order_status list" where
  "allowed_next_statuses c = sort_key status_value (ALLOWED_TRANSITIONS c)"

definition is_terminal :: "work_order_status \<Rightarrow> bool" where
  "is_terminal s \<longleftrightarrow> ALLOWED_TRANSITIONS s = []"

definition is_transition_allowed :: "work_order_status \<Rightarrow> work_order_status \<Rightarrow> bool" where
  "is_transition_allowed c t \<longleftrightarrow> t \<in> set (ALLOWED_TRANSITIONS c)"

definition requires_reason :: "work_order_status \<Rightarrow> bool" where
  "requires_reason t \<longleftrightarrow> t \<in> set STATUSES_REQUIRING_REASON"

lemma status_value_inject [simp]: "status_value a = status_value b \<longleftrightarrow> a = b"
  by (cases a; cases b) simp_all

lemma parse_status_value [simp]: "parse_status (status_value w) = Inr w"
  by (cases w) (simp_all add: parse_status_def all_statuses_def)

lemma parse_status_Inr: "parse_status s = Inr w \<longleftrightarrow> s = status_value w"
proof
  show "parse_status s = Inr w \<Longrightarrow> s = status_value w"
    by (auto simp: parse_status_def find_Some_iff split: option.splits)
qed simp

lemma terminal_no_transition: "is_terminal a \<Longrightarrow> \<not> is_transition_allowed a b"
  by (simp add: is_terminal_def is_transition_allowed_def)

subsection \<open>Entities and rows\<close>

record site =
  si_id :: uuid
  si_code :: string
  si_name :: string
  si_plant_type :: string
  si_active :: bool
  si_created_at :: datetime
  si_updated_at :: datetime

record asset =
  as_id :: uuid
  as_site_id :: uuid
  as_code :: string
  as_name :: string
  as_category :: string
  as_criticality :: string
  as_status :: string
  as_created_at :: datetime
  as_updated_at :: datetime

record work_order =
  wo_id :: uuid
  wo_site_id :: uuid
  wo_asset_id :: uuid
  wo_code :: string
  wo_title :: string
  wo_description :: string
  wo_priority :: string
  wo_status :: string
  wo_work_type :: string
  wo_due_at :: "datetime option"
  wo_created_at :: datetime
  wo_updated_at :: datetime

record spare_part =
  sp_id :: uuid
  sp_site_id :: uuid
  sp_code :: string
  sp_name :: string
  sp_uom :: string
  sp_on_hand_qty :: int
  sp_reorder_point :: int
  sp_critical :: bool
  sp_created_at :: datetime
  sp_updated_at :: datetime

record operations_tables =
  ot_sites :: "site list"
  ot_assets :: "asset list"
  ot_work_orders :: "work_order list"
  ot_spare_parts :: "spare_part list"

text \<open>The primary and unique keys of the tables, and the foreign keys the queries join on.\<close>

definition tables_ok :: "operations_tables \<Rightarrow> bool" where
  "tables_ok t \<longleftrightarrow> distinct (map wo_id (ot_work_orders t)) \<and> distinct (map wo_code (ot_work_orders t))
     \<and> distinct (map si_id (ot_sites t)) \<and> distinct (map si_code (ot_sites t))
     \<and> distinct (map as_id (ot_assets t))
     \<and> (\<forall>w \<in> set (ot_work_orders t). wo_site_id w \<in> si_id ` set (ot_sites t)
           \<and> wo_asset_id w \<in> as_id ` set (ot_assets t))
     \<and> (\<forall>a \<in> set (ot_assets t). as_site_id a \<in> si_id ` set (ot_sites t))
     \<and> (\<forall>p \<in> set (ot_spare_parts t). sp_site_id p \<in> si_id ` set (ot_sites t))"

text \<open>The join with the sites on a foreign key, restricted to one site code.\<close>

definition at_site :: "operations_tables \<Rightarrow> uuid \<Rightarrow> string \<Rightarrow> bool" where
  "at_site t site_id code \<longleftrightarrow> (\<exists>s \<in> set (ot_sites t). si_id s = site_id \<and> si_code s = code)"

definition site_filter :: "operations_tables \<Rightarrow> ('r \<Rightarrow> uuid) \<Rightarrow> string option \<Rightarrow> 'r list \<Rightarrow> 'r list" where
  "site_filter t site_id code rows = (case code of None \<Rightarrow> rows
     | Some c \<Rightarrow> filter (\<lambda>r. at_site t (site_id r) c) rows)"

subsection \<open>The status repository\<close>

record status_snapshot =
  ss_id :: uuid
  ss_code :: string
  ss_status :: work_order_status

definition snapshot_of :: "work_order \<Rightarrow> status_snapshot result" where
  "snapshot_of r = rmap (\<lambda>w. \<lparr>ss_id = wo_id r, ss_code = wo_code r, ss_status = w\<rparr>)
     (parse_status (wo_status r))"

definition find_status_by_id ::
  "operations_tables \<Rightarrow> uuid \<Rightarrow> string option \<Rightarrow> status_snapshot option result" where
  "find_status_by_id t i site =
     (case site_filter t wo_site_id site (filter (\<lambda>r. wo_id r = i) (ot_work_orders t)) of
        [] \<Rightarrow> Inr None
      | [r] \<Rightarrow> rmap Some (snapshot_of r)
      | _ \<Rightarrow> Inl (ExternalErr ''MultipleResultsFound''))"

definition find_status_by_code ::
  "operations_tables \<Rightarrow> string option \<Rightarrow> string option \<Rightarrow> status_snapshot list result" where
  "find_status_by_code t code site =
     traverse snapshot_of (site_filter t wo_site_id site
       (filter (\<lambda>r. Some (wo_code r) = code) (ot_work_orders t)))"

text \<open>The conditional update: the row with this id and the expected status gets the new status and
  \<open>updated_at\<close>, and its new \<open>updated_at\<close> is returned; no such row, and nothing changes.\<close>

definition apply_status ::
  "datetime \<Rightarrow> operations_tables \<Rightarrow> uuid \<Rightarrow> work_order_status \<Rightarrow> work_order_status
     \<Rightarrow> datetime option \<times> operations_tables" where
  "apply_status now t i expected new =
     (if \<exists>r \<in> set (ot_work_orders t). wo_id r = i \<and> wo_status r = status_value expected
      then (Some now, t\<lparr>ot_work_orders := map (\<lambda>r. if wo_id r = i \<and> wo_status r = status_value expected
              then r\<lparr>wo_status := status_value new, wo_updated_at := now\<rparr> else r) (ot_work_orders t)\<rparr>)
      else (None, t))"

subsection \<open>The use case\<close>

text \<open>
  What \<open>find_status_by_code\<close> may hand to the use case: \<open>None\<close>, a snapshot, or a list. A list has no
  attribute \<open>status\<close>.
\<close>

datatype found = FoundNone | FoundOne status_snapshot | FoundList "status_snapshot list"

record change_status_command =
  cc_target_status :: work_order_status
  cc_work_order_code :: "string option"
  cc_work_order_id :: "uuid option"
  cc_reason :: "string option"

record change_status_result =
  csr_work_order_code :: string
  csr_previous_status :: work_order_status
  csr_current_status :: work_order_status
  csr_changed :: bool
  csr_updated_at :: "datetime option"

definition optional_text :: "string option \<Rightarrow> string" where
  "optional_text x = (case x of None \<Rightarrow> ''None'' | Some s \<Rightarrow> s)"

definition not_found_error :: "string option \<Rightarrow> exc" where
  "not_found_error code = DomainErr ''work_order_not_found'' (''work order not found: '' @ optional_text code)"

definition terminal_error :: "string \<Rightarrow> work_order_status \<Rightarrow> exc" where
  "terminal_error code current = DomainErr ''work_order_status_is_terminal''
     (''work order '' @ code @ '' is '' @ status_value current @ '' and can no longer change status'')"

definition transition_error :: "string \<Rightarrow> work_order_status \<Rightarrow> work_order_status \<Rightarrow> exc" where
  "transition_error code current target = (let allowed = join '', '' (map status_value (allowed_next_statuses current)) in
     DomainErr ''invalid_work_order_status_transition''
       (''work order '' @ code @ '' cannot move from '' @ status_value current @ '' to '' @ status_value target
          @ ''; allowed next statuses: '' @ (if allowed = [] then ''none'' else allowed)))"

definition conflict_error :: "string \<Rightarrow> work_order_status \<Rightarrow> exc" where
  "conflict_error code expected = DomainErr ''work_order_status_conflict''
     (''work order '' @ code @ '' was no longer '' @ status_value expected @
      '' when the update ran; re-read the current status and retry'')"

definition reason_required_error :: "string \<Rightarrow> work_order_status \<Rightarrow> exc" where
  "reason_required_error code target = DomainErr ''work_order_status_reason_required''
     (''moving work order '' @ code @ '' to '' @ status_value target @ '' requires a reason'')"

text \<open>The checks between reading and writing: done without a write, or the write to make.\<close>

definition decide_change ::
  "change_status_command \<Rightarrow> status_snapshot \<Rightarrow> (change_status_result + status_snapshot) result" where
  "decide_change cmd snapshot =
     (let current = ss_status snapshot; target = cc_target_status cmd in
      if current = target then
        Inr (Inl \<lparr>csr_work_order_code = ss_code snapshot, csr_previous_status = current,
          csr_current_status = current, csr_changed = False, csr_updated_at = None\<rparr>)
      else if is_terminal current then Inl (terminal_error (ss_code snapshot) current)
      else if \<not> is_transition_allowed current target
        then Inl (transition_error (ss_code snapshot) current target)
      else if requires_reason target \<and> (cc_reason cmd = None \<or> cc_reason cmd = Some [])
        then Inl (reason_required_error (ss_code snapshot) target)
      else Inr (Inr snapshot))"

text \<open>\<open>ChangeWorkOrderStatus.execute\<close> over a store given by its two operations.\<close>

definition change_status ::
  "('s \<Rightarrow> string option \<Rightarrow> found result)
     \<Rightarrow> ('s \<Rightarrow> uuid \<Rightarrow> work_order_status \<Rightarrow> work_order_status \<Rightarrow> datetime option \<times> 's)
     \<Rightarrow> change_status_command \<Rightarrow> 's \<Rightarrow> change_status_result result \<times> 's" where
  "change_status look apply cmd s = (case look s (cc_work_order_code cmd) of
      Inl e \<Rightarrow> (Inl e, s)
    | Inr FoundNone \<Rightarrow> (Inl (not_found_error (cc_work_order_code cmd)), s)
    | Inr (FoundList xs) \<Rightarrow> (Inl (AttributeErr ''list object has no attribute status''), s)
    | Inr (FoundOne snapshot) \<Rightarrow>
        (case decide_change cmd snapshot of
           Inl e \<Rightarrow> (Inl e, s)
         | Inr (Inl result) \<Rightarrow> (Inr result, s)
         | Inr (Inr snapshot) \<Rightarrow>
             (case apply s (ss_id snapshot) (ss_status snapshot) (cc_target_status cmd) of
                (None, s') \<Rightarrow> (Inl (conflict_error (ss_code snapshot) (ss_status snapshot)), s')
              | (Some updated_at, s') \<Rightarrow>
                  (Inr \<lparr>csr_work_order_code = ss_code snapshot, csr_previous_status = ss_status snapshot,
                     csr_current_status = cc_target_status cmd, csr_changed = True,
                     csr_updated_at = Some updated_at\<rparr>, s'))))"

text \<open>The store the wiring passes: the repository, whose lookup by code returns a list.\<close>

definition repository_find :: "operations_tables \<Rightarrow> string option \<Rightarrow> found result" where
  "repository_find t code = rmap FoundList (find_status_by_code t code None)"

definition execute_change_status ::
  "datetime \<Rightarrow> change_status_command \<Rightarrow> operations_tables \<Rightarrow> change_status_result result \<times> operations_tables" where
  "execute_change_status now = change_status repository_find (apply_status now)"

text \<open>The store the port documents: at most one snapshot for a code.\<close>

definition single_find :: "operations_tables \<Rightarrow> string option \<Rightarrow> found result" where
  "single_find t code = rbind (find_status_by_code t code None) (\<lambda>xs. case xs of
      [] \<Rightarrow> Inr FoundNone | [x] \<Rightarrow> Inr (FoundOne x) | _ \<Rightarrow> Inl (ExternalErr ''MultipleResultsFound''))"

lemma single_find_One: "single_find t code = Inr (FoundOne sn) \<Longrightarrow> find_status_by_code t code None = Inr [sn]"
  by (cases "find_status_by_code t code None") (auto simp: single_find_def split: list.splits)

subsection \<open>The contract of the conditional update\<close>

locale status_store =
  fixes status_of :: "'s \<Rightarrow> uuid \<Rightarrow> string option"
    and apply_cas :: "'s \<Rightarrow> uuid \<Rightarrow> work_order_status \<Rightarrow> work_order_status \<Rightarrow> datetime option \<times> 's"
    and ok :: "'s \<Rightarrow> bool"
  assumes applied: "ok s \<Longrightarrow> apply_cas s i e n = (Some t, s') \<Longrightarrow>
      status_of s i = Some (status_value e) \<and> status_of s' i = Some (status_value n) \<and> ok s'"
    and conflict: "ok s \<Longrightarrow> apply_cas s i e n = (None, s') \<Longrightarrow> s' = s \<and> status_of s i \<noteq> Some (status_value e)"
    and others: "ok s \<Longrightarrow> apply_cas s i e n = (x, s') \<Longrightarrow> j \<noteq> i \<Longrightarrow> status_of s' j = status_of s j"
begin

lemma apply_ok: "ok s \<Longrightarrow> apply_cas s i e n = (x, s') \<Longrightarrow> ok s'"
  using applied[of s i e n _ s'] conflict[of s i e n s'] by (cases x) auto

lemma apply_status_change:
  "ok s \<Longrightarrow> apply_cas s i e n = (x, s') \<Longrightarrow> status_of s' j = status_of s j \<or>
     (j = i \<and> status_of s j = Some (status_value e) \<and> status_of s' j = Some (status_value n))"
  using applied[of s i e n _ s'] conflict[of s i e n s'] others[of s i e n x s' j] by (cases x) auto

text \<open>Two writers that read the same status: the second one conflicts.\<close>

lemma second_writer_conflicts:
  assumes "ok s" and "apply_cas s i e n = (Some t, s')" and "n \<noteq> e"
  shows "fst (apply_cas s' i e n') = None"
proof (cases "apply_cas s' i e n'")
  case (Pair x s'')
  have "ok s'" using apply_ok[OF assms(1,2)] .
  moreover have "status_of s' i = Some (status_value n)" using applied[OF assms(1,2)] by simp
  ultimately show ?thesis
    using applied[of s' i e n' _ s''] assms(3) Pair by (cases x) auto
qed

text \<open>A use case over such a store changes at most one status, and only by a legal transition.\<close>

lemma change_status_legal:
  assumes "ok s" and "change_status look apply_cas cmd s = (r, s')"
  shows "ok s' \<and> (\<forall>j. status_of s' j = status_of s j \<or>
     (\<exists>a. status_of s j = Some (status_value a) \<and> is_transition_allowed a (cc_target_status cmd)
        \<and> status_of s' j = Some (status_value (cc_target_status cmd))
        \<and> (\<exists>res. r = Inr res \<and> csr_changed res \<and> csr_previous_status res = a)))"
proof (cases "\<exists>snapshot. look s (cc_work_order_code cmd) = Inr (FoundOne snapshot)
    \<and> decide_change cmd snapshot = Inr (Inr snapshot)")
  case True
  then obtain snapshot where f: "look s (cc_work_order_code cmd) = Inr (FoundOne snapshot)"
    and d: "decide_change cmd snapshot = Inr (Inr snapshot)" by blast
  obtain x s1 where a: "apply_cas s (ss_id snapshot) (ss_status snapshot) (cc_target_status cmd) = (x, s1)"
    by fastforce
  have legal: "is_transition_allowed (ss_status snapshot) (cc_target_status cmd)"
    using d by (auto simp: decide_change_def Let_def split: if_splits)
  have s1: "s' = s1" using assms(2) f d a by (auto simp: change_status_def split: option.splits)
  show ?thesis
  proof (cases x)
    case None
    then show ?thesis using conflict[OF assms(1)] a s1 assms(1) by auto
  next
    case (Some t)
    then have "\<exists>res. r = Inr res \<and> csr_changed res \<and> csr_previous_status res = ss_status snapshot"
      using assms(2) f d a by (auto simp: change_status_def)
    then show ?thesis
      using apply_status_change[OF assms(1) a] apply_ok[OF assms(1) a] legal s1 by blast
  qed
next
  case False
  have "decide_change cmd snapshot = Inr (Inr sn) \<Longrightarrow> sn = snapshot" for snapshot sn
    by (auto simp: decide_change_def Let_def split: if_splits)
  then have "s' = s"
    using assms(2) False by (auto simp: change_status_def split: sum.splits found.splits prod.splits)
  then show ?thesis using assms(1) by simp
qed

end

definition row_status :: "operations_tables \<Rightarrow> uuid \<Rightarrow> string option" where
  "row_status t i = map_option wo_status (List.find (\<lambda>r. wo_id r = i) (ot_work_orders t))"

definition ids_ok :: "operations_tables \<Rightarrow> bool" where
  "ids_ok t \<longleftrightarrow> distinct (map wo_id (ot_work_orders t))"

lemma find_by_key:
  "distinct (map k xs) \<Longrightarrow> x \<in> set xs \<Longrightarrow> List.find (\<lambda>y. k y = k x) xs = Some x"
  by (induction xs) auto

lemma find_by_key_map:
  assumes "\<And>x. k (f x) = k x"
  shows "List.find (\<lambda>y. k y = i) (map f xs) = map_option f (List.find (\<lambda>y. k y = i) xs)"
  using assms by (induction xs) auto

lemma row_status_Some:
  "ids_ok t \<Longrightarrow> r \<in> set (ot_work_orders t) \<Longrightarrow> row_status t (wo_id r) = Some (wo_status r)"
  by (simp add: row_status_def ids_ok_def find_by_key)

interpretation work_order_store: status_store row_status "apply_status now" ids_ok for now
proof
  fix s i e n t s'
  assume ok: "ids_ok s" and a: "apply_status now s i e n = (Some t, s')"
  let ?f = "\<lambda>r. if wo_id r = i \<and> wo_status r = status_value e
              then r\<lparr>wo_status := status_value n, wo_updated_at := now\<rparr> else r"
  obtain r where r: "r \<in> set (ot_work_orders s)" "wo_id r = i" "wo_status r = status_value e"
    and s': "s' = s\<lparr>ot_work_orders := map ?f (ot_work_orders s)\<rparr>"
    using a by (auto simp: apply_status_def split: if_splits)
  have f: "List.find (\<lambda>y. wo_id y = i) (ot_work_orders s) = Some r"
    using ok r find_by_key[of wo_id "ot_work_orders s" r] by (simp add: ids_ok_def)
  have "map wo_id (map ?f (ot_work_orders s)) = map wo_id (ot_work_orders s)" by auto
  then have "ids_ok s'" using ok s' by (simp add: ids_ok_def del: map_map)
  then show "row_status s i = Some (status_value e) \<and> row_status s' i = Some (status_value n) \<and> ids_ok s'"
    using r f by (simp add: row_status_def s' find_by_key_map)
next
  fix s i e n s'
  assume ok: "ids_ok s" and a: "apply_status now s i e n = (None, s')"
  have no: "\<not> (\<exists>r \<in> set (ot_work_orders s). wo_id r = i \<and> wo_status r = status_value e)" and "s' = s"
    using a by (auto simp: apply_status_def split: if_splits)
  moreover have "row_status s i \<noteq> Some (status_value e)"
    using no by (auto simp: row_status_def dest!: find_Some_set)
  ultimately show "s' = s \<and> row_status s i \<noteq> Some (status_value e)" by simp
next
  fix s i e n x s' j
  assume "ids_ok s" and a: "apply_status now s i e n = (x, s')" and ne: "j \<noteq> i"
  have "map_option (\<lambda>r. wo_status (if wo_id r = i \<and> wo_status r = status_value e
              then r\<lparr>wo_status := status_value n, wo_updated_at := now\<rparr> else r))
          (List.find (\<lambda>y. wo_id y = j) (ot_work_orders s))
        = map_option wo_status (List.find (\<lambda>y. wo_id y = j) (ot_work_orders s))"
    using ne by (cases "List.find (\<lambda>y. wo_id y = j) (ot_work_orders s)") (auto dest: find_Some_set)
  then show "row_status s' j = row_status s j"
    using a by (auto simp: apply_status_def row_status_def find_by_key_map option.map_comp comp_def
        split: if_splits)
qed

subsection \<open>Calls in parallel\<close>

text \<open>
  Several calls at once on one database: a call reads and checks (\<open>begin_change\<close>), later it writes
  (\<open>finish_change\<close>); between the two any other call may read or write.
\<close>

type_synonym in_flight = "(change_status_command \<times> status_snapshot) list"

inductive change_step :: "operations_tables \<times> in_flight \<Rightarrow> operations_tables \<times> in_flight \<Rightarrow> bool" where
  begin_change: "single_find t (cc_work_order_code cmd) = Inr (FoundOne sn) \<Longrightarrow>
     decide_change cmd sn = Inr (Inr sn') \<Longrightarrow> change_step (t, fl) (t, (cmd, sn') # fl)"
| finish_change: "(cmd, sn) \<in> set fl \<Longrightarrow>
     apply_status now t (ss_id sn) (ss_status sn) (cc_target_status cmd) = (x, t') \<Longrightarrow>
     change_step (t, fl) (t', remove1 (cmd, sn) fl)"

inductive_cases change_stepE: "change_step (t, fl) (t', fl')"

definition flight_ok :: "operations_tables \<times> in_flight \<Rightarrow> bool" where
  "flight_ok c \<longleftrightarrow> ids_ok (fst c) \<and>
     (\<forall>(cmd, sn) \<in> set (snd c). is_transition_allowed (ss_status sn) (cc_target_status cmd))"

lemma decide_change_legal:
  "decide_change cmd sn = Inr (Inr sn') \<Longrightarrow>
     sn' = sn \<and> is_transition_allowed (ss_status sn) (cc_target_status cmd)
     \<and> (requires_reason (cc_target_status cmd) \<longrightarrow> cc_reason cmd \<noteq> None \<and> cc_reason cmd \<noteq> Some [])"
  by (auto simp: decide_change_def Let_def split: if_splits)

lemma change_step_ok: "change_step c c' \<Longrightarrow> flight_ok c \<Longrightarrow> flight_ok c'"
proof (induction rule: change_step.induct)
  case (begin_change t cmd sn sn' fl)
  then show ?case using decide_change_legal[of cmd sn sn'] by (auto simp: flight_ok_def)
next
  case (finish_change cmd sn fl now t x t')
  then show ?case
    using work_order_store.apply_ok[of t now "ss_id sn" "ss_status sn" "cc_target_status cmd" x t']
    by (auto simp: flight_ok_def dest: notin_set_remove1 set_mp[OF set_remove1_subset])
qed

lemma change_step_status:
  assumes "change_step c c'" and "flight_ok c"
  shows "row_status (fst c') j = row_status (fst c) j \<or>
     (\<exists>a b. row_status (fst c) j = Some (status_value a) \<and> row_status (fst c') j = Some (status_value b)
        \<and> is_transition_allowed a b)"
  using assms
proof (induction rule: change_step.induct)
  case (finish_change cmd sn fl now t x t')
  then have "ids_ok t" "is_transition_allowed (ss_status sn) (cc_target_status cmd)"
    by (auto simp: flight_ok_def)
  then show ?case
    using work_order_store.apply_status_change[of t now "ss_id sn" "ss_status sn" "cc_target_status cmd" x t' j]
      finish_change.hyps by auto
qed simp

lemma change_steps_path:
  assumes "change_step\<^sup>*\<^sup>* c c'" and "flight_ok c"
  shows "flight_ok c' \<and> (row_status (fst c') j = row_status (fst c) j \<or>
     (\<exists>a b. row_status (fst c) j = Some (status_value a) \<and> row_status (fst c') j = Some (status_value b)
        \<and> is_transition_allowed\<^sup>*\<^sup>* a b))"
  using assms
proof (induction rule: rtranclp_induct)
  case (step y z)
  then have ok: "flight_ok y" by blast
  then have "flight_ok z" using change_step_ok step.hyps(2) by blast
  moreover have "row_status (fst z) j = row_status (fst y) j \<or>
     (\<exists>a b. row_status (fst y) j = Some (status_value a) \<and> row_status (fst z) j = Some (status_value b)
        \<and> is_transition_allowed a b)"
    using change_step_status[OF step.hyps(2) ok] .
  ultimately show ?case using step.IH step.prems
    by (auto intro: r_into_rtranclp rtranclp.rtrancl_into_rtrancl)
qed simp

lemma transition_path_terminal: "is_transition_allowed\<^sup>*\<^sup>* a b \<Longrightarrow> is_terminal a \<Longrightarrow> b = a"
  by (induction rule: converse_rtranclp_induct) (auto simp: terminal_no_transition)

lemma transition_path_pending: "is_transition_allowed\<^sup>*\<^sup>* a b \<Longrightarrow> b = PENDING \<Longrightarrow> a = PENDING"
proof (induction rule: rtranclp_induct)
  case (step y z)
  then show ?case by (cases y) (auto simp: is_transition_allowed_def)
qed simp

subsection \<open>Properties\<close>


definition sample_order :: work_order where
  "sample_order = \<lparr>wo_id = 1, wo_site_id = 1, wo_asset_id = 1, wo_code = ''WO-1'', wo_title = ''Pump'',
     wo_description = [], wo_priority = ''high'', wo_status = ''open'', wo_work_type = ''maintenance'',
     wo_due_at = None, wo_created_at = 0, wo_updated_at = 0\<rparr>"

definition sample_tables :: operations_tables where
  "sample_tables = \<lparr>ot_sites = [], ot_assets = [], ot_work_orders = [sample_order], ot_spare_parts = []\<rparr>"

definition sample_command :: "work_order_status \<Rightarrow> change_status_command" where
  "sample_command target = \<lparr>cc_target_status = target, cc_work_order_code = Some ''WO-1'',
     cc_work_order_id = None, cc_reason = Some ''done''\<rparr>"

lemma sample_find:
  "single_find sample_tables (Some ''WO-1'')
     = Inr (FoundOne \<lparr>ss_id = 1, ss_code = ''WO-1'', ss_status = OPEN\<rparr>)"
  by (simp add: single_find_def find_status_by_code_def site_filter_def sample_tables_def sample_order_def
      snapshot_of_def parse_status_def all_statuses_def)


text \<open>What one undisturbed call does, on every branch, when the store finds the work order: the
  same status is a no-op, a terminal status, an illegal transition and a missing reason are their
  errors and change nothing, and everything else is written, on this row only, and reported with the
  previous status; a conflict is impossible.\<close>

theorem change_status_branches:
  assumes "ids_ok t" and "single_find t (cc_work_order_code cmd) = Inr (FoundOne sn)"
    and "change_status single_find (apply_status now) cmd t = (r, t')"
  shows "(let a = ss_status sn; b = cc_target_status cmd in
      if a = b then t' = t \<and> r = Inr \<lparr>csr_work_order_code = ss_code sn, csr_previous_status = a,
              csr_current_status = a, csr_changed = False, csr_updated_at = None\<rparr>
      else if is_terminal a then t' = t \<and> r = Inl (terminal_error (ss_code sn) a)
      else if \<not> is_transition_allowed a b then t' = t \<and> r = Inl (transition_error (ss_code sn) a b)
      else if requires_reason b \<and> cc_reason cmd \<in> {None, Some []}
        then t' = t \<and> r = Inl (reason_required_error (ss_code sn) b)
      else row_status t' (ss_id sn) = Some (status_value b)
        \<and> (\<forall>j. j \<noteq> ss_id sn \<longrightarrow> row_status t' j = row_status t j)
        \<and> r = Inr \<lparr>csr_work_order_code = ss_code sn, csr_previous_status = a,
              csr_current_status = b, csr_changed = True, csr_updated_at = Some now\<rparr>)"
proof -
  have row: "\<exists>w \<in> set (ot_work_orders t). wo_id w = ss_id sn \<and> wo_status w = status_value (ss_status sn)"
  proof -
    have "find_status_by_code t (cc_work_order_code cmd) None = Inr [sn]"
      using assms(2) by (rule single_find_One)
    then have "\<exists>w \<in> set (ot_work_orders t). snapshot_of w = Inr sn"
      unfolding find_status_by_code_def by (elim traverse_Inr_elem[of _ _ _ sn]) (auto simp: site_filter_def)
    then show ?thesis by (auto simp: snapshot_of_def rmap_Inr_iff parse_status_Inr)
  qed
  then obtain t1 where ap:
    "apply_status now t (ss_id sn) (ss_status sn) (cc_target_status cmd) = (Some now, t1)"
    by (simp add: apply_status_def)
  show ?thesis
    using assms(2,3) work_order_store.applied[OF assms(1) ap] work_order_store.others[OF assms(1) ap]
    by (auto simp: change_status_def decide_change_def ap Let_def split: if_splits)
qed

theorem change_status_branches_witness:
  "fst (change_status single_find (apply_status 5) (sample_command COMPLETED) sample_tables)
     = Inl (transition_error ''WO-1'' OPEN COMPLETED)"
proof -
  let ?sn = "\<lparr>ss_id = 1, ss_code = ''WO-1'', ss_status = OPEN\<rparr>"
  have 1: "ids_ok sample_tables" by (simp add: ids_ok_def sample_tables_def)
  have 2: "single_find sample_tables (cc_work_order_code (sample_command COMPLETED)) = Inr (FoundOne ?sn)"
    by (simp add: sample_command_def sample_find)
  obtain r t' where r: "change_status single_find (apply_status 5) (sample_command COMPLETED) sample_tables = (r, t')"
    by fastforce
  from change_status_branches[OF 1 2 r] show ?thesis unfolding r
    by (simp add: sample_command_def is_terminal_def is_transition_allowed_def Let_def)
qed

text \<open>As wired, the use case never succeeds: the repository's lookup by code returns a list, so
  every call ends in an exception that is not a domain error, whatever the tables hold, and the tables
  are left as they were.\<close>

theorem wired_change_status_never_succeeds:
  "\<exists>e. execute_change_status now cmd t = (Inl e, t) \<and> (\<forall>c m. e \<noteq> DomainErr c m)"
proof (cases "find_status_by_code t (cc_work_order_code cmd) None")
  case (Inl e)
  then obtain w where "snapshot_of w = Inl e"
    unfolding find_status_by_code_def using traverse_Inl_elem by blast
  then have "\<exists>m. e = ValueErr m"
    by (cases "parse_status (wo_status w)") (auto simp: snapshot_of_def parse_status_def split: option.splits)
  then show ?thesis using Inl
    by (auto simp: execute_change_status_def change_status_def repository_find_def)
next
  case (Inr xs)
  then show ?thesis
    by (simp add: execute_change_status_def change_status_def repository_find_def)
qed

end
