(* ===== verification/Operations.thy ===== *)
theory Operations
  imports Work_Orders Result_Adapters Gateway
begin

section \<open>The operations module: queries, service and tools\<close>

text \<open>
  \<open>OperationsRepository\<close> of
  \<open>src/app/modules/operations/infrastructure/repositories/operations.py\<close> over the tables of
  \<open>Work_Orders\<close>, the thin \<open>OperationsService\<close> (\<open>application/operation_services.py\<close>), the tools of
  \<open>infrastructure/tools/tool_builder.py\<close> and \<open>write_work_order_status_tool.py\<close>, and
  the module's list of tools (\<open>wiring.py\<close>). A query is the filter, the ordering and the limit of its
  SQL statement; rows that compare equal keep the table's order. The Pydantic validation of payloads and
  items is a parameter (\<open>tool_models\<close>).
\<close>

subsection \<open>The repository\<close>

text \<open>The optional policy and user the repository was built with.\<close>

record operations_repository =
  or_tables :: operations_tables
  or_policy :: "access_tables option"
  or_user :: "uuid option"

definition check_permission ::
  "operations_repository \<Rightarrow> permission \<Rightarrow> string option \<Rightarrow> unit result" where
  "check_permission repo p site = (case (or_policy repo, or_user repo, site) of
      (Some pol, Some u, Some s) \<Rightarrow> if s = [] then Inr () else require_permission pol u p (Some s)
    | _ \<Rightarrow> Inr ())"

definition site_of :: "operations_tables \<Rightarrow> uuid \<Rightarrow> site option" where
  "site_of t i = List.find (\<lambda>s. si_id s = i) (ot_sites t)"

definition asset_of :: "operations_tables \<Rightarrow> uuid \<Rightarrow> asset option" where
  "asset_of t i = List.find (\<lambda>a. as_id a = i) (ot_assets t)"

text \<open>\<open>row.site.code\<close>: a missing site has no attribute \<open>code\<close>.\<close>

definition site_code_text :: "operations_tables \<Rightarrow> uuid \<Rightarrow> string result" where
  "site_code_text t i = (case site_of t i of
      None \<Rightarrow> Inl (AttributeErr ''NoneType object has no attribute code'') | Some s \<Rightarrow> Inr (si_code s))"

definition asset_code_val :: "operations_tables \<Rightarrow> uuid \<Rightarrow> pyval" where
  "asset_code_val t i = (case asset_of t i of None \<Rightarrow> PNone | Some a \<Rightarrow> PStr (as_code a))"

definition iso_val :: "datetime option \<Rightarrow> pyval" where
  "iso_val d = (case d of None \<Rightarrow> PNone | Some x \<Rightarrow> PStr (isoformat x))"

definition work_order_dict :: "operations_tables \<Rightarrow> work_order \<Rightarrow> dict result" where
  "work_order_dict t r = rmap (\<lambda>code. [
     (''id'', PStr (uuid_str (wo_id r))),
     (''site_id'', PStr (uuid_str (wo_site_id r))),
     (''site_code'', PStr code),
     (''asset_id'', PStr (uuid_str (wo_asset_id r))),
     (''code'', PStr (wo_code r)),
     (''title'', PStr (wo_title r)),
     (''description'', PStr (wo_description r)),
     (''priority'', PStr (wo_priority r)),
     (''status'', PStr (wo_status r)),
     (''work_type'', PStr (wo_work_type r)),
     (''due_at'', iso_val (wo_due_at r)),
     (''created_at'', PStr (isoformat (wo_created_at r))),
     (''updated_at'', PStr (isoformat (wo_updated_at r)))]) (site_code_text t (wo_site_id r))"

definition work_order_rows :: "operations_tables \<Rightarrow> string option \<Rightarrow> string option \<Rightarrow> int \<Rightarrow> work_order list" where
  "work_order_rows t site status limit =
     take (nat limit) (sort_desc wo_created_at
       (filter (\<lambda>r. case status of None \<Rightarrow> True | Some s \<Rightarrow> wo_status r = s)
         (site_filter t wo_site_id site (ot_work_orders t))))"

definition list_work_orders ::
  "operations_repository \<Rightarrow> string option \<Rightarrow> string option \<Rightarrow> int \<Rightarrow> dict list result" where
  "list_work_orders repo site status limit =
     rbind (check_permission repo WORK_ORDERS_READ site) (\<lambda>_.
       traverse (work_order_dict (or_tables repo)) (work_order_rows (or_tables repo) site status limit))"

definition asset_dict :: "operations_tables \<Rightarrow> asset \<Rightarrow> dict" where
  "asset_dict t r = [
     (''id'', PStr (uuid_str (as_id r))),
     (''code'', PStr (as_code r)),
     (''name'', PStr (as_name r)),
     (''category'', PStr (as_category r)),
     (''criticality'', PStr (as_criticality r)),
     (''status'', PStr (as_status r)),
     (''site_code'', case site_of t (as_site_id r) of None \<Rightarrow> PNone | Some s \<Rightarrow> PStr (si_code s))]"

definition get_asset_status :: "operations_repository \<Rightarrow> string option \<Rightarrow> dict list result" where
  "get_asset_status repo site =
     rbind (check_permission repo ASSETS_READ site) (\<lambda>_.
       Inr (map (asset_dict (or_tables repo))
         (sort_key as_code (site_filter (or_tables repo) as_site_id site (ot_assets (or_tables repo))))))"

definition ticket_dict :: "operations_tables \<Rightarrow> work_order \<Rightarrow> dict result" where
  "ticket_dict t r = rmap (\<lambda>code. [
     (''ticket_id'', PStr (uuid_str (wo_id r))),
     (''site_code'', PStr code),
     (''code'', PStr (wo_code r)),
     (''title'', PStr (wo_title r)),
     (''asset_code'', asset_code_val t (wo_asset_id r)),
     (''priority'', PStr (wo_priority r)),
     (''status'', PStr (wo_status r)),
     (''due_at'', iso_val (wo_due_at r)),
     (''work_type'', PStr (wo_work_type r))]) (site_code_text t (wo_site_id r))"

definition ticket_rows :: "operations_tables \<Rightarrow> string option \<Rightarrow> int \<Rightarrow> work_order list" where
  "ticket_rows t site limit =
     take (nat limit) (sort_desc (\<lambda>r. (wo_priority r, wo_created_at r))
       (site_filter t wo_site_id site
         (filter (\<lambda>r. wo_status r \<in> set [''open'', ''in_progress'', ''pending'']) (ot_work_orders t))))"

definition list_maintenance_tickets :: "operations_repository \<Rightarrow> string option \<Rightarrow> int \<Rightarrow> dict list result" where
  "list_maintenance_tickets repo site limit =
     traverse (ticket_dict (or_tables repo)) (ticket_rows (or_tables repo) site limit)"

definition spare_part_dict :: "operations_tables \<Rightarrow> spare_part \<Rightarrow> dict result" where
  "spare_part_dict t r = rmap (\<lambda>code. [
     (''part_id'', PStr (uuid_str (sp_id r))),
     (''site_code'', PStr code),
     (''code'', PStr (sp_code r)),
     (''name'', PStr (sp_name r)),
     (''uom'', PStr (sp_uom r)),
     (''on_hand_qty'', PInt (sp_on_hand_qty r)),
     (''reorder_point'', PInt (sp_reorder_point r)),
     (''critical'', PBool (sp_critical r)),
     (''below_reorder'', PBool (sp_on_hand_qty r < sp_reorder_point r))]) (site_code_text t (sp_site_id r))"

definition list_spare_parts_availability :: "operations_repository \<Rightarrow> string option \<Rightarrow> int \<Rightarrow> dict list result" where
  "list_spare_parts_availability repo site limit =
     traverse (spare_part_dict (or_tables repo))
       (take (nat limit) (sort_key sp_code
         (site_filter (or_tables repo) sp_site_id site (ot_spare_parts (or_tables repo)))))"

definition schedule_dict :: "operations_tables \<Rightarrow> work_order \<Rightarrow> dict result" where
  "schedule_dict t r = rmap (\<lambda>code. [
     (''id'', PStr (uuid_str (wo_id r))),
     (''site_code'', PStr code),
     (''code'', PStr (wo_code r)),
     (''title'', PStr (wo_title r)),
     (''asset_code'', asset_code_val t (wo_asset_id r)),
     (''work_type'', PStr (wo_work_type r)),
     (''status'', PStr (wo_status r)),
     (''due_at'', iso_val (wo_due_at r)),
     (''priority'', PStr (wo_priority r))]) (site_code_text t (wo_site_id r))"

definition schedule_rows :: "operations_tables \<Rightarrow> string option \<Rightarrow> int \<Rightarrow> work_order list" where
  "schedule_rows t site limit =
     take (nat limit) (sort_key (\<lambda>r. the (wo_due_at r))
       (site_filter t wo_site_id site (filter (\<lambda>r. wo_due_at r \<noteq> None) (ot_work_orders t))))"

definition list_production_schedule :: "operations_repository \<Rightarrow> string option \<Rightarrow> int \<Rightarrow> dict list result" where
  "list_production_schedule repo site limit =
     traverse (schedule_dict (or_tables repo)) (schedule_rows (or_tables repo) site limit)"

subsection \<open>The service\<close>

text \<open>Each method builds a repository and hands its arguments on.\<close>

record operations_service =
  os_repository_factory :: "unit \<Rightarrow> operations_repository"

definition service_get_work_orders :: "operations_service \<Rightarrow> string option \<Rightarrow> string option \<Rightarrow> int \<Rightarrow> dict list result" where
  "service_get_work_orders sv site status limit = list_work_orders (os_repository_factory sv ()) site status limit"

definition service_get_asset_status :: "operations_service \<Rightarrow> string option \<Rightarrow> dict list result" where
  "service_get_asset_status sv site = get_asset_status (os_repository_factory sv ()) site"

definition service_get_maintenance_tickets :: "operations_service \<Rightarrow> string option \<Rightarrow> int \<Rightarrow> dict list result" where
  "service_get_maintenance_tickets sv site limit = list_maintenance_tickets (os_repository_factory sv ()) site limit"

definition service_get_spare_parts :: "operations_service \<Rightarrow> string option \<Rightarrow> int \<Rightarrow> dict list result" where
  "service_get_spare_parts sv site limit = list_spare_parts_availability (os_repository_factory sv ()) site limit"

definition service_get_production_schedule :: "operations_service \<Rightarrow> string option \<Rightarrow> int \<Rightarrow> dict list result" where
  "service_get_production_schedule sv site limit = list_production_schedule (os_repository_factory sv ()) site limit"

subsection \<open>The read tools\<close>

text \<open>What Pydantic does for one tool: the input model, the validated fields a handler reads, the
  validation of an item, the output model.\<close>

record read_input =
  ri_site_code :: "string option"
  ri_status :: "work_order_status option"
  ri_limit :: int

record tool_models =
  tm_input :: input_model
  tm_parse :: "dict \<Rightarrow> read_input result"
  tm_item :: "dict \<Rightarrow> dict result"
  tm_output :: output_model

definition READ_TOOL_RATE_LIMIT :: tool_rate_limit where
  "READ_TOOL_RATE_LIMIT = \<lparr>rl_max_calls = 30, rl_window_seconds = 60\<rparr>"

text \<open>A read handler: validate, query, validate the items, dump the output. The world is the tables; a
  read leaves them alone.\<close>

definition read_handler ::
  "tool_models \<Rightarrow> string \<Rightarrow> string \<Rightarrow> (operations_repository \<Rightarrow> read_input \<Rightarrow> dict list result)
     \<Rightarrow> dict \<Rightarrow> operations_tables \<Rightarrow> dict result \<times> operations_tables" where
  "read_handler m name fieldname query payload t =
     (rbind (tm_parse m payload) (\<lambda>data.
      rbind (query \<lparr>or_tables = t, or_policy = None, or_user = None\<rparr> data) (\<lambda>rows.
      rmap (\<lambda>items. om_dump (tm_output m) [(''tool_name'', PStr name), (fieldname, PList (map PDict items))])
        (traverse (tm_item m) rows))), t)"

definition read_tool ::
  "tool_models \<Rightarrow> string \<Rightarrow> string \<Rightarrow> string \<Rightarrow> permission \<Rightarrow> (pyval \<Rightarrow> string) \<Rightarrow> collection_adapter
     \<Rightarrow> (operations_repository \<Rightarrow> read_input \<Rightarrow> dict list result) \<Rightarrow> operations_tables tool_registration" where
  "read_tool m name description fieldname perm pr ad query =
     \<lparr>tr_definition = \<lparr>td_name = name, td_description = description, td_input_model = tm_input m,
        td_output_model = tm_output m, td_handler = read_handler m name fieldname query,
        td_required_permission = perm, td_site_code_field = Some ''site_code'',
        td_requires_approval = False, td_max_retries = 0, td_approval_scope = ''write'',
        td_rate_limit = Some READ_TOOL_RATE_LIMIT, td_side_effect_type = READ\<rparr>,
      tr_result_adapter = Some (collection_to_evidence pr ad (om_dump (tm_output m)))\<rparr>"

definition build_get_work_orders_tool ::
  "string \<Rightarrow> (pyval \<Rightarrow> string) \<Rightarrow> tool_models \<Rightarrow> operations_tables tool_registration" where
  "build_get_work_orders_tool description pr m =
     read_tool m ''get_work_orders'' description ''work_orders'' WORK_ORDERS_READ pr WORK_ORDERS_ADAPTER
       (\<lambda>repo data. list_work_orders repo (ri_site_code data) (map_option status_value (ri_status data)) (ri_limit data))"

definition build_get_asset_status_tool ::
  "string \<Rightarrow> (pyval \<Rightarrow> string) \<Rightarrow> tool_models \<Rightarrow> operations_tables tool_registration" where
  "build_get_asset_status_tool description pr m =
     read_tool m ''get_asset_status'' description ''assets'' ASSETS_READ pr ASSETS_ADAPTER
       (\<lambda>repo data. get_asset_status repo (ri_site_code data))"

definition build_get_maintenance_tickets_tool ::
  "string \<Rightarrow> (pyval \<Rightarrow> string) \<Rightarrow> tool_models \<Rightarrow> operations_tables tool_registration" where
  "build_get_maintenance_tickets_tool description pr m =
     read_tool m ''get_maintenance_tickets'' description ''tickets'' MAINTENANCE_TICKETS_READ pr
       MAINTENANCE_TICKETS_ADAPTER
       (\<lambda>repo data. list_maintenance_tickets repo (ri_site_code data) (ri_limit data))"

definition build_get_spare_parts_availability_tool ::
  "string \<Rightarrow> (pyval \<Rightarrow> string) \<Rightarrow> tool_models \<Rightarrow> operations_tables tool_registration" where
  "build_get_spare_parts_availability_tool description pr m =
     read_tool m ''get_spare_parts_availability'' description ''spare_parts'' SPARE_PARTS_READ pr
       SPARE_PARTS_ADAPTER
       (\<lambda>repo data. list_spare_parts_availability repo (ri_site_code data) (ri_limit data))"

definition build_get_production_schedule_tool ::
  "string \<Rightarrow> (pyval \<Rightarrow> string) \<Rightarrow> tool_models \<Rightarrow> operations_tables tool_registration" where
  "build_get_production_schedule_tool description pr m =
     read_tool m ''get_production_schedule'' description ''schedule'' PRODUCTION_SCHEDULE_READ pr
       PRODUCTION_SCHEDULE_ADAPTER
       (\<lambda>repo data. list_production_schedule repo (ri_site_code data) (ri_limit data))"

subsection \<open>The write tool\<close>

record write_models =
  wm_input :: input_model
  wm_parse :: "dict \<Rightarrow> change_status_command result"
  wm_output :: output_model

definition write_output ::
  "bool \<Rightarrow> string option \<Rightarrow> string option \<Rightarrow> string option \<Rightarrow> bool \<Rightarrow> datetime option
     \<Rightarrow> string list \<Rightarrow> string option \<Rightarrow> string option \<Rightarrow> dict" where
  "write_output succeeded code previous current changed updated allowed ecode emessage = [
     (''tool_name'', PStr ''write_work_order_status''),
     (''succeeded'', PBool succeeded),
     (''work_order_id'', PNone),
     (''work_order_code'', opt_str code),
     (''previous_status'', opt_str previous),
     (''current_status'', opt_str current),
     (''changed'', PBool changed),
     (''updated_at'', iso_val updated),
     (''allowed_next_statuses'', PList (map PStr allowed)),
     (''error_code'', opt_str ecode),
     (''error_message'', opt_str emessage)]"

definition rejection :: "string option \<Rightarrow> string \<Rightarrow> string \<Rightarrow> work_order_status option \<Rightarrow> dict" where
  "rejection code ecode emessage current = write_output False code None (map_option status_value current)
     False None
     (case current of None \<Rightarrow> [] | Some c \<Rightarrow> map status_value (allowed_next_statuses c)) (Some ecode) (Some emessage)"

text \<open>The status an error carries: \<open>error.current\<close> of an illegal transition or a terminal status, as the
  use case raised it from the snapshot it read.\<close>

definition error_current ::
  "(operations_tables \<Rightarrow> string option \<Rightarrow> found result) \<Rightarrow> operations_tables \<Rightarrow> change_status_command
     \<Rightarrow> string \<Rightarrow> work_order_status option" where
  "error_current look t cmd code =
     (if code \<in> {''invalid_work_order_status_transition'', ''work_order_status_is_terminal''}
      then (case look t (cc_work_order_code cmd) of Inr (FoundOne sn) \<Rightarrow> Some (ss_status sn) | _ \<Rightarrow> None)
      else None)"

definition write_handler ::
  "write_models \<Rightarrow> (operations_tables \<Rightarrow> string option \<Rightarrow> found result) \<Rightarrow> datetime
     \<Rightarrow> dict \<Rightarrow> operations_tables \<Rightarrow> dict result \<times> operations_tables" where
  "write_handler m look now payload t = (case wm_parse m payload of
      Inl e \<Rightarrow> (Inl e, t)
    | Inr cmd \<Rightarrow> (case change_status look (apply_status now) cmd t of
        (Inl (DomainErr code msg), t') \<Rightarrow>
          (Inr (om_dump (wm_output m)
             (rejection (cc_work_order_code cmd) code msg (error_current look t cmd code))), t')
      | (Inl e, t') \<Rightarrow> (Inl e, t')
      | (Inr res, t') \<Rightarrow>
          (Inr (om_dump (wm_output m) (write_output True (Some (csr_work_order_code res))
             (Some (status_value (csr_previous_status res))) (Some (status_value (csr_current_status res)))
             (csr_changed res) (csr_updated_at res)
             (map status_value (allowed_next_statuses (csr_current_status res))) None None)), t')))"

definition build_write_work_order_status_tool ::
  "string \<Rightarrow> (pyval \<Rightarrow> string) \<Rightarrow> write_models \<Rightarrow> (operations_tables \<Rightarrow> string option \<Rightarrow> found result)
     \<Rightarrow> datetime \<Rightarrow> operations_tables tool_registration" where
  "build_write_work_order_status_tool description pr m look now =
     \<lparr>tr_definition = \<lparr>td_name = ''write_work_order_status'', td_description = description,
        td_input_model = wm_input m, td_output_model = wm_output m,
        td_handler = write_handler m look now,
        td_required_permission = WORK_ORDERS_CHANGE_STATUS, td_site_code_field = None,
        td_requires_approval = True, td_max_retries = 0, td_approval_scope = ''write'',
        td_rate_limit = Some \<lparr>rl_max_calls = 3, rl_window_seconds = 60\<rparr>, td_side_effect_type = WRITE\<rparr>,
      tr_result_adapter = Some (collection_to_evidence pr WORK_ORDERS_ADAPTER (om_dump (wm_output m)))\<rparr>"

text \<open>\<open>OperationsModule.tools\<close>, with the store of the wiring.\<close>

record operations_models =
  opm_description :: "string \<Rightarrow> string"
  opm_repr :: "pyval \<Rightarrow> string"
  opm_read :: "string \<Rightarrow> tool_models"
  opm_write :: write_models

definition operations_tools :: "operations_models \<Rightarrow> datetime \<Rightarrow> operations_tables tool_registration list" where
  "operations_tools m now = (let d = opm_description m; pr = opm_repr m in [
     build_get_work_orders_tool (d ''get_work_orders'') pr (opm_read m ''get_work_orders''),
     build_get_asset_status_tool (d ''get_asset_status'') pr (opm_read m ''get_asset_status''),
     build_get_maintenance_tickets_tool (d ''get_maintenance_tickets'') pr (opm_read m ''get_maintenance_tickets''),
     build_get_spare_parts_availability_tool (d ''get_spare_parts_availability'') pr (opm_read m ''get_spare_parts_availability''),
     build_get_production_schedule_tool (d ''get_production_schedule'') pr (opm_read m ''get_production_schedule''),
     build_write_work_order_status_tool (d ''write_work_order_status'') pr (opm_write m) repository_find now])"

subsection \<open>Facts about the queries\<close>

lemma site_of_at:
  assumes "tables_ok t" and "at_site t i code"
  shows "site_code_text t i = Inr code"
proof -
  obtain s where s: "s \<in> set (ot_sites t)" "si_id s = i" "si_code s = code"
    using assms(2) by (auto simp: at_site_def)
  then have "List.find (\<lambda>y. si_id y = i) (ot_sites t) = Some s"
    using assms(1) find_by_key[of si_id "ot_sites t" s] by (simp add: tables_ok_def)
  then show ?thesis using s by (simp add: site_code_text_def site_of_def)
qed

lemma site_code_text_ok:
  assumes "i \<in> si_id ` set (ot_sites t)"
  shows "\<exists>code. site_code_text t i = Inr code"
proof -
  obtain s where "s \<in> set (ot_sites t)" "si_id s = i" using assms by auto
  then have "List.find (\<lambda>y. si_id y = i) (ot_sites t) \<noteq> None"
    by (auto simp: find_None_iff_all)
  then show ?thesis by (auto simp: site_code_text_def site_of_def)
qed

definition matches :: "operations_tables \<Rightarrow> string option \<Rightarrow> string option \<Rightarrow> work_order \<Rightarrow> bool" where
  "matches t site status r \<longleftrightarrow> (\<forall>s. site = Some s \<longrightarrow> at_site t (wo_site_id r) s)
     \<and> (\<forall>s. status = Some s \<longrightarrow> wo_status r = s)"

lemma matching_rows:
  "set (filter (\<lambda>r. case status of None \<Rightarrow> True | Some s \<Rightarrow> wo_status r = s)
         (site_filter t wo_site_id site (ot_work_orders t)))
   = {r \<in> set (ot_work_orders t). matches t site status r}"
  by (auto simp: site_filter_def matches_def split: option.splits)

lemma work_order_rows_sub: "r \<in> set (work_order_rows t site status limit) \<Longrightarrow>
    r \<in> set (ot_work_orders t) \<and> matches t site status r"
  unfolding work_order_rows_def
  by (drule set_take_sub) (simp only: set_sort_desc matching_rows mem_Collect_eq)

lemma work_order_dicts:
  assumes "tables_ok t"
  shows "\<exists>ds. traverse (work_order_dict t) (work_order_rows t site status limit) = Inr ds"
proof (cases "traverse (work_order_dict t) (work_order_rows t site status limit)")
  case (Inl e)
  then obtain r where r: "r \<in> set (work_order_rows t site status limit)" "work_order_dict t r = Inl e"
    using traverse_Inl_elem by blast
  then have "wo_site_id r \<in> si_id ` set (ot_sites t)"
    using work_order_rows_sub[OF r(1)] assms by (auto simp: tables_ok_def)
  then show ?thesis using r(2) site_code_text_ok[of "wo_site_id r" t] by (auto simp: work_order_dict_def)
qed simp

lemma operations_tools_handlers:
  "reg \<in> set (operations_tools m now) \<Longrightarrow>
     (\<forall>p t. snd (td_handler (tr_definition reg) p t) = t)
     \<or> (td_requires_approval (tr_definition reg) \<and> td_name (tr_definition reg) = ''write_work_order_status'')"
  by (auto simp: operations_tools_def build_get_work_orders_tool_def build_get_asset_status_tool_def
      build_get_maintenance_tickets_tool_def build_get_spare_parts_availability_tool_def
      build_get_production_schedule_tool_def build_write_work_order_status_tool_def read_tool_def
      read_handler_def Let_def)

lemma after_calls_pure: "(\<And>p t. snd (td_handler tool p t) = t) \<Longrightarrow> after_calls tool vp n w = w"
  by (induction n) (simp_all add: after_calls_Suc)

text \<open>A tool whose handler leaves the world alone leaves it alone through the gateway.\<close>

lemma invoke_pure_handler:
  assumes "invoke gw env name payload c s = (r, s')" and "registry_get (gw_registry gw) name = Some reg"
    and "\<And>p t. snd (td_handler (tr_definition reg) p t) = t"
  shows "gs_world s' = gs_world s"
  using assms(1)
proof (cases rule: invoke_cases)
  case (checked reg' scoped vp)
  then have reg: "reg' = reg" using assms(2) by simp
  from checked(4) show ?thesis
  proof (cases rule: check_and_run_cases)
    case (passed s1)
    from passed(4) show ?thesis
    proof (cases rule: approve_and_run_cases)
      case (approved s2)
      obtain x w where h0: "handler_loop (tr_definition reg) vp 0 (gs_world s2) = (x, w)" by fastforce
      obtain r1 a where "x = (r1, a)" by fastforce
      with h0 have h: "handler_loop (tr_definition reg) vp 0 (gs_world s2) = ((r1, a), w)" by simp
      have "gs_world s' = w" using run_tool_world[OF approved(3)] h reg by simp
      also have "w = gs_world s2" using retries_spec[OF h] after_calls_pure[OF assms(3)] by simp
      finally show ?thesis using approved(2) passed(2) by simp
    qed (use passed(2) in simp)
  qed simp_all
qed simp

subsection \<open>Properties\<close>



lemma operations_read_only_core:
  assumes "register_all [] (operations_tools m now) = Inr (gw_registry gw)"
    and "gw_approval_service gw \<noteq> Some True"
    and "invoke gw env name payload c s = (r, s')"
  shows "gs_world s' = gs_world s"
proof (cases "registry_get (gw_registry gw) name")
  case None
  then show ?thesis using assms(3) by (auto simp: invoke_def)
next
  case (Some reg)
  have "registry_ok ([] :: operations_tables registry)" by (simp add: registry_ok_def)
  then have ok: "registry_ok (gw_registry gw)" using register_all_ok[OF _ assms(1)] by blast
  have reg: "reg \<in> set (operations_tools m now)"
    using register_all_set[OF assms(1)] registry_get_in[OF ok Some] by simp
  from operations_tools_handlers[OF reg] show ?thesis
  proof
    assume "\<forall>p t. snd (td_handler (tr_definition reg) p t) = t"
    then show ?thesis by (intro invoke_pure_handler[OF assms(3) Some]) simp
  next
    assume w: "td_requires_approval (tr_definition reg) \<and> td_name (tr_definition reg) = ''write_work_order_status''"
    then have "starts_with ''write_'' (td_name (tr_definition reg))" by (simp add: starts_with_def)
    then show ?thesis using unapproved_write_core[OF Some _ assms(2) _ assms(3)] w by blast
  qed
qed

text \<open>Without write approval the operations tools are read-only: on a gateway that serves exactly
  the module's tools and does not allow write tools, no invocation, by any actor with any payload,
  changes the operations tables.\<close>

theorem operations_read_only:
  assumes "register_all [] (operations_tools m now) = Inr (gw_registry gw)"
    and "gw_approval_service gw \<noteq> Some True"
    and "invoke gw env name payload c s = (r, s')"
  shows "gs_world s' = gs_world s"
  using assms by (rule operations_read_only_core)

definition sample_models :: operations_models where
  "sample_models = \<lparr>opm_description = (\<lambda>_. []), opm_repr = (\<lambda>_. []),
     opm_read = (\<lambda>_. \<lparr>tm_input = \<lparr>im_name = ''In'', im_extra = Some ''forbid'', im_validate = Inr, im_schema = []\<rparr>,
       tm_parse = (\<lambda>d. Inr \<lparr>ri_site_code = None, ri_status = None, ri_limit = 10\<rparr>), tm_item = Inr,
       tm_output = \<lparr>om_validate = Inr, om_dump = (\<lambda>d. d)\<rparr>\<rparr>),
     opm_write = \<lparr>wm_input = \<lparr>im_name = ''In'', im_extra = Some ''forbid'', im_validate = Inr, im_schema = []\<rparr>,
       wm_parse = (\<lambda>d. Inr (sample_command CANCELLED)),
       wm_output = \<lparr>om_validate = Inr, om_dump = (\<lambda>d. filter (\<lambda>(k, v). k \<noteq> ''work_orders'') d)\<rparr>\<rparr>\<rparr>"

lemma operations_tools_register: "\<exists>r. register_all [] (operations_tools m now) = Inr r"
  by (simp add: operations_tools_def build_get_work_orders_tool_def build_get_asset_status_tool_def
      build_get_maintenance_tickets_tool_def build_get_spare_parts_availability_tool_def
      build_get_production_schedule_tool_def build_write_work_order_status_tool_def read_tool_def
      registry_register_def Let_def)

definition operations_state :: "operations_tables gateway_state" where
  "operations_state = \<lparr>gs_audit = [], gs_trace = [], gs_limiter = Map.empty, gs_world = sample_tables\<rparr>"

theorem operations_read_only_witness:
  "\<exists>reg. register_all [] (operations_tools sample_models 0) = Inr reg \<and>
     gs_world (snd (invoke \<lparr>gw_registry = reg, gw_approval_service = Some False, gw_rate_limiter = True\<rparr>
       sample_env ''write_work_order_status'' [] (sample_actor ''maintenance_supervisor'' []) operations_state))
     = sample_tables"
proof -
  obtain reg where reg: "register_all [] (operations_tools sample_models 0) = Inr reg"
    using operations_tools_register by blast
  let ?gw = "\<lparr>gw_registry = reg, gw_approval_service = Some False, gw_rate_limiter = True\<rparr>"
  obtain r s' where run: "invoke ?gw sample_env ''write_work_order_status'' []
      (sample_actor ''maintenance_supervisor'' []) operations_state = (r, s')" by fastforce
  have "gs_world s' = gs_world operations_state"
    by (rule operations_read_only[where m = sample_models and now = 0 and gw = ?gw, OF _ _ run]) (simp_all add: reg)
  then show ?thesis using reg run by (auto simp: operations_state_def)
qed

text \<open>The write tool cannot report success: it is registered with the adapter of the work-order
  \<^emph>\<open>list\<close>, so on every gateway, for every actor, payload and store, an invocation never returns a record
  with status \<open>success\<close> - also when the handler did change the status. All that is assumed of
  Pydantic is that a dumped output has the output model's fields, among which there is no
  \<open>work_orders\<close>.\<close>

theorem write_tool_never_succeeds:
  assumes "registry_get (gw_registry gw) name = Some (build_write_work_order_status_tool d pr m look now)"
    and "\<And>x. dget (om_dump (wm_output m) x) ''work_orders'' = PNone"
    and "invoke gw env name payload c s = (Inr t, s')"
  shows "tcr_status t \<noteq> OUTCOME_SUCCESS"
proof
  assume "tcr_status t = OUTCOME_SUCCESS"
  from invoke_success[OF assms(3) this] obtain vp x ev
    where "adapt (build_write_work_order_status_tool d pr m look now) vp x = Inr ev"
    using assms(1) by auto
  then show False using assms(2)
    by (simp add: adapt_def build_write_work_order_status_tool_def collection_to_evidence_def
        WORK_ORDERS_ADAPTER_def)
qed

definition write_tool_gateway :: "operations_tables gateway" where
  "write_tool_gateway = \<lparr>gw_registry = [(''write_work_order_status'',
       build_write_work_order_status_tool [] (\<lambda>_. []) (opm_write sample_models) single_find 5)],
     gw_approval_service = Some True, gw_rate_limiter = False\<rparr>"

definition cancelled_tables :: operations_tables where
  "cancelled_tables = sample_tables\<lparr>ot_work_orders :=
     [sample_order\<lparr>wo_status := ''cancelled'', wo_updated_at := 5\<rparr>]\<rparr>"

lemma cancelled_run:
  "change_status single_find (apply_status 5) (sample_command CANCELLED) sample_tables
     = (Inr \<lparr>csr_work_order_code = ''WO-1'', csr_previous_status = OPEN, csr_current_status = CANCELLED,
          csr_changed = True, csr_updated_at = Some 5\<rparr>, cancelled_tables)"
proof -
  have "apply_status 5 sample_tables 1 OPEN CANCELLED = (Some 5, cancelled_tables)"
    by (simp add: apply_status_def sample_tables_def sample_order_def cancelled_tables_def)
  moreover have "cc_work_order_code (sample_command CANCELLED) = Some ''WO-1''"
    "cc_target_status (sample_command CANCELLED) = CANCELLED"
    by (simp_all add: sample_command_def)
  moreover have "decide_change (sample_command CANCELLED) \<lparr>ss_id = 1, ss_code = ''WO-1'', ss_status = OPEN\<rparr>
      = Inr (Inr \<lparr>ss_id = 1, ss_code = ''WO-1'', ss_status = OPEN\<rparr>)"
    by (simp add: decide_change_def sample_command_def is_terminal_def is_transition_allowed_def Let_def)
  ultimately show ?thesis by (simp add: change_status_def sample_find)
qed

lemma write_tool_run:
  "\<exists>t s'. invoke write_tool_gateway sample_env ''write_work_order_status'' []
     (sample_actor ''maintenance_supervisor'' []) operations_state = (Inr t, s')
     \<and> gs_world s' = cancelled_tables"
  by (simp add: write_tool_gateway_def sample_models_def build_write_work_order_status_tool_def
      operations_state_def sample_env_def sample_actor_def registry_get_def scope_payload_def
      validate_strict_input_def site_code_of_def can_call_def can_def permissions_def role_lookup_def
      all_roles_def READ_OPERATIONS_def consume_limit_def approve_and_run_def approval_decision_def
      evaluate_approval_def run_tool_def handler_loop.simps write_handler_def cancelled_run
      finish_call_def adapt_def collection_to_evidence_def WORK_ORDERS_ADAPTER_def check_and_run_def
      invoke_def write_output_def Let_def)

theorem write_tool_never_succeeds_witness:
  "\<exists>t s'. invoke write_tool_gateway sample_env ''write_work_order_status'' []
     (sample_actor ''maintenance_supervisor'' []) operations_state = (Inr t, s')
     \<and> row_status (gs_world s') 1 = Some ''cancelled'' \<and> tcr_status t \<noteq> OUTCOME_SUCCESS"
proof -
  obtain t s' where run: "invoke write_tool_gateway sample_env ''write_work_order_status'' []
     (sample_actor ''maintenance_supervisor'' []) operations_state = (Inr t, s')"
    and gw: "gs_world s' = cancelled_tables"
    using write_tool_run by blast
  have w: "row_status (gs_world s') 1 = Some ''cancelled''"
    by (simp add: gw cancelled_tables_def row_status_def sample_tables_def sample_order_def)
  have 1: "registry_get (gw_registry write_tool_gateway) ''write_work_order_status''
      = Some (build_write_work_order_status_tool [] (\<lambda>_. []) (opm_write sample_models) single_find 5)"
    by (simp add: write_tool_gateway_def registry_get_def)
  have "map_of (filter (\<lambda>(k, v). k \<noteq> ''work_orders'') d) ''work_orders'' = None" for d :: dict
    by (auto simp: map_of_eq_None_iff)
  then have 2: "dget (om_dump (wm_output (opm_write sample_models)) x) ''work_orders'' = PNone" for x
    by (simp add: sample_models_def dget_def)
  show ?thesis using write_tool_never_succeeds[OF 1 2 run] run w by blast
qed

text \<open>The query and its adapter agree: what the work-order query returns for a site, a status and a
  limit is never refused by the adapter of the work-order tools as inconsistent with that call; it becomes
  one collection with one item per row.\<close>

theorem work_orders_accepted:
  assumes "tables_ok t" and "0 \<le> limit"
    and "list_work_orders \<lparr>or_tables = t, or_policy = None, or_user = None\<rparr> site status limit = Inr ds"
  shows "\<exists>b. collection_to_evidence pr WORK_ORDERS_ADAPTER (\<lambda>d. d)
       [(''site_code'', opt_str site), (''status'', opt_str status), (''limit'', PInt limit)]
       [(''tool_name'', PStr ''get_work_orders''), (''work_orders'', PList (map PDict ds))]
     = Inr [CollectionEvidence b] \<and> length (ce_items b) = length ds \<and> ce_requested_count b = Some limit"
proof -
  let ?applied = "[(''site_code'', opt_str site), (''status'', opt_str status), (''limit'', PInt limit)]"
  let ?rows = "work_order_rows t site status limit"
  have l2: "list_all2 (\<lambda>r d. work_order_dict t r = Inr d) ?rows ds"
    using assms(3) by (simp add: list_work_orders_def check_permission_def traverse_Inr_iff)
  have len: "int (length ds) \<le> limit"
    using l2 assms(2) list_all2_lengthD[OF l2] by (simp add: work_order_rows_def)
  have one: "\<exists>item. adapt_record pr WORK_ORDERS_ADAPTER ?applied (PDict d) = Inr (item, [])" if dd: "d \<in> set ds" for d
  proof -
    obtain i where i: "i < length ds" "ds ! i = d" using dd by (auto simp: in_set_conv_nth)
    then have r: "?rows ! i \<in> set ?rows" "work_order_dict t (?rows ! i) = Inr d"
      using l2 by (auto simp: list_all2_conv_all_nth)
    have m: "matches t site status (?rows ! i)" using work_order_rows_sub[OF r(1)] by blast
    have d: "dget d ''code'' = PStr (wo_code (?rows ! i))" "dget d ''status'' = PStr (wo_status (?rows ! i))"
      "site_code_text t (wo_site_id (?rows ! i)) = Inr sc \<Longrightarrow> dget d ''site_code'' = PStr sc" for sc
      using r(2) by (auto simp: work_order_dict_def rmap_Inr_iff)
    have "check_filters pr ?applied d (ca_filter_fields WORK_ORDERS_ADAPTER) = Inr ()"
    proof -
      have "site = Some s \<Longrightarrow> dget d ''site_code'' = PStr s" for s
        using m site_of_at[OF assms(1)] d(3) by (simp add: matches_def)
      moreover have "status = Some s \<Longrightarrow> dget d ''status'' = PStr s" for s
        using m d(2) by (simp add: matches_def)
      ultimately show ?thesis
        by (cases site; cases status) (simp_all add: WORK_ORDERS_ADAPTER_def opt_str_def)
    qed
    moreover have "present_fields d (ca_identifier_fields WORK_ORDERS_ADAPTER) \<noteq> []"
      using d(1) by (simp add: present_fields_def WORK_ORDERS_ADAPTER_def)
    ultimately show ?thesis
      by (cases "present_fields d (ca_identifier_fields WORK_ORDERS_ADAPTER)")
        (simp_all add: adapt_record_def WORK_ORDERS_ADAPTER_def Let_def)
  qed
  define f where "f d = fst (projr (adapt_record pr WORK_ORDERS_ADAPTER ?applied (PDict d)))" for d
  have "adapt_record pr WORK_ORDERS_ADAPTER ?applied (PDict d) = Inr (f d, [])" if "d \<in> set ds" for d
    using one[OF that] by (auto simp: f_def)
  then have "traverse (\<lambda>d. adapt_record pr WORK_ORDERS_ADAPTER ?applied (PDict d)) ds = Inr (map (\<lambda>d. (f d, [])) ds)"
    by (rule traverse_all_Inr)
  then have tr: "traverse (adapt_record pr WORK_ORDERS_ADAPTER ?applied) (map PDict ds) = Inr (map (\<lambda>d. (f d, [])) ds)"
    by (simp add: traverse_map)
  have none: "concat (map (snd \<circ> (\<lambda>d. (f d, []::string list))) ds) = []" by (induction ds) simp_all
  then show ?thesis
    using tr len by (simp add: collection_to_evidence_def requested_limit_def Let_def)
      (simp add: WORK_ORDERS_ADAPTER_def none)
qed

theorem work_orders_accepted_witness:
  "\<exists>b. collection_to_evidence (\<lambda>_. []) WORK_ORDERS_ADAPTER (\<lambda>d. d)
       [(''site_code'', opt_str None), (''status'', opt_str None), (''limit'', PInt 10)]
       [(''tool_name'', PStr ''get_work_orders''), (''work_orders'', PList (map PDict []))]
     = Inr [CollectionEvidence b] \<and> length (ce_items b) = 0"
proof -
  let ?t = "\<lparr>ot_sites = [], ot_assets = [], ot_work_orders = [], ot_spare_parts = []\<rparr> :: operations_tables"
  have 1: "tables_ok ?t" by (simp add: tables_ok_def)
  have 2: "list_work_orders \<lparr>or_tables = ?t, or_policy = None, or_user = None\<rparr> None None 10 = Inr []"
    by (simp add: list_work_orders_def check_permission_def work_order_rows_def site_filter_def sort_desc_def)
  show ?thesis using work_orders_accepted[OF 1 _ 2, of "\<lambda>_. []"] by auto
qed

end
