(* ===== verification/Agent_Runs.thy ===== *)
theory Agent_Runs
  imports Agent_Graph
begin

section \<open>What a run of the agent guarantees\<close>

text \<open>
  Invariants of \<open>run_graph\<close>: the ledger of the budget against the calls made, the bound on the steps,
  the answer a run ends with, and the calls of a request the deterministic rules answer.
\<close>

subsection \<open>What a step leaves alone\<close>

definition same_ledger :: "'w agent_run \<Rightarrow> 'w agent_run \<Rightarrow> bool" where
  "same_ledger r r' \<longleftrightarrow> rn_budget r' = rn_budget r \<and> rn_calls r' = rn_calls r
     \<and> gs_tool_calls (rn_state r') = gs_tool_calls (rn_state r)"

lemma same_ledger_trans: "same_ledger r r1 \<Longrightarrow> same_ledger r1 r2 \<Longrightarrow> same_ledger r r2"
  by (simp add: same_ledger_def)

lemma same_ledger_decision [simp]: "same_ledger r (record_decision ev r')  \<longleftrightarrow> same_ledger r r'"
  by (simp add: same_ledger_def record_decision_def)

lemma same_ledger_world [simp]: "same_ledger r (r'\<lparr>rn_world := w\<rparr>) \<longleftrightarrow> same_ledger r r'"
  by (simp add: same_ledger_def)

lemma same_ledger_refl [simp]: "same_ledger r r"
  by (simp add: same_ledger_def)

lemma record_decision_simps [simp]:
  "rn_state (record_decision ev r) = rn_state r" "rn_budget (record_decision ev r) = rn_budget r"
  "rn_calls (record_decision ev r) = rn_calls r" "rn_world (record_decision ev r) = rn_world r"
  by (simp_all add: record_decision_def)

lemma set_state_simps [simp]:
  "rn_state (set_state f r) = f (rn_state r)" "rn_budget (set_state f r) = rn_budget r"
  "rn_calls (set_state f r) = rn_calls r" "rn_world (set_state f r) = rn_world r"
  by (simp_all add: set_state_def)

lemma merge_working_set_simps [simp]:
  "gs_tool_calls (merge_working_set u s) = gs_tool_calls s" "gs_pending_call (merge_working_set u s) = gs_pending_call s"
  "gs_answer (merge_working_set u s) = gs_answer s" "gs_finish_reason (merge_working_set u s) = gs_finish_reason s"
  "gs_messages (merge_working_set u s) = gs_messages s" "gs_planned_action (merge_working_set u s) = gs_planned_action s"
  by (simp_all add: merge_working_set_def)

text \<open>The exceptions a run can end with: those of the brain and of the invoker, and the composer's when
  the calls brought no evidence.\<close>

definition external_failure :: "'w graph_context \<Rightarrow> exc \<Rightarrow> bool" where
  "external_failure ctx e \<longleftrightarrow>
     (\<exists>v w w'. br_classify (gc_brain ctx) v w = (Inl e, w') \<or> br_plan (gc_brain ctx) v w = (Inl e, w')
        \<or> br_respond (gc_brain ctx) v w = (Inl e, w'))
     \<or> (\<exists>t p w w'. gc_invoker ctx t p w = (Inl e, w')) \<or> e = ValueErr ''evidence is required''"

lemma classify_ledger:
  "classify_intent ctx r = (out, r') \<Longrightarrow> same_ledger r r' \<and>
     (out = Goto PlanAction \<or> (\<exists>e. out = Raised e \<and> external_failure ctx e))"
  by (auto simp: classify_intent_def external_failure_def same_ledger_def Let_def split: prod.splits sum.splits)

lemma route_ledger:
  "route a r = (out, r') \<Longrightarrow> same_ledger r r' \<and> (out = Goto ToolCall \<or> out = Goto RespondNode)"
  by (auto simp: route_def same_ledger_def split: if_splits option.splits list.splits)

lemma plan_ledger:
  assumes "plan_action ctx r = (out, r')"
  shows "same_ledger r r' \<and> (out = Goto ToolCall \<or> out = Goto RespondNode
     \<or> (\<exists>e. out = Raised e \<and> external_failure ctx e))"
proof -
  have frame: "same_ledger r r' \<and> (out = Goto ToolCall \<or> out = Goto RespondNode)"
    if "route a r1 = (out, r')" and "same_ledger r r1" for a r1
    using route_ledger[OF that(1)] that(2) by (auto intro: same_ledger_trans)
  show ?thesis
  proof (cases "resolve_intent (gc_query ctx)")
    case (Some res)
    then show ?thesis using assms
      by (auto simp: plan_action_def plan_deterministic_def Let_def split: option.splits if_splits dest!: frame)
  next
    case None
    show ?thesis
    proof (cases "callable_tools ctx r = []")
      case True
      then show ?thesis using None assms by (auto simp: plan_action_def dest!: frame)
    next
      case False
      obtain res w where p: "br_plan (gc_brain ctx) (agent_state ctx (callable_tools ctx r) r) (rn_world r) = (res, w)"
        by fastforce
      show ?thesis
      proof (cases res)
        case (Inl e)
        then show ?thesis using None False assms p
          by (auto simp: plan_action_def plan_with_model_def external_failure_def)
      next
        case (Inr a)
        then show ?thesis using None False assms p
          by (auto simp: plan_action_def plan_with_model_def dest!: frame)
      qed
    qed
  qed
qed

lemma respond_ledger:
  "respond ctx r = (out, r') \<Longrightarrow> same_ledger r r' \<and>
     (out = Goto Finished \<or> (\<exists>e. out = Raised e \<and> external_failure ctx e))"
  by (auto simp: respond_def finish_answer_def external_failure_def compose_def same_ledger_def Let_def
      split: prod.splits sum.splits if_splits)

text \<open>The call node either blocks, or calls the invoker once with a payload the validator let through.\<close>

definition call_allowed :: "'w graph_context \<Rightarrow> string \<Rightarrow> dict \<Rightarrow> bool" where
  "call_allowed ctx t p \<longleftrightarrow> (\<exists>d. List.find (\<lambda>d. tdr_name d = t) (gc_tools ctx) = Some d
     \<and> validate_tool_call_semantics (gc_repr ctx) (gc_query ctx) d p = Allowed)"

lemma call_node_cases:
  assumes "invoke_tool ctx r = (out, r')"
  obtains (blocked) "out = Goto RespondNode" "same_ledger r r'"
    | (called) t p where "budget_can_call (rn_budget r) t" "call_allowed ctx t p"
        "rn_calls r' = rn_calls r @ [(t, p)]" "rn_budget r' = rn_budget r"
        "gs_tool_calls (rn_state r') = gs_tool_calls (rn_state r)"
        "out = Goto RespondNode \<or> (\<exists>e. out = Raised e \<and> external_failure ctx e)
          \<or> (\<exists>c. out = Goto ObserveResult \<and> gs_pending_call (rn_state r') = Some c \<and> tcr_tool_name c = t)"
proof -
  define t p where tp: "t = pa_tool_name (gs_planned_action (rn_state r))" "p = pa_payload (gs_planned_action (rn_state r))"
  show thesis
  proof (cases "budget_can_call (rn_budget r) t \<and> call_allowed ctx t p")
    case False
    then show thesis using assms blocked
      by (auto simp: invoke_tool_def Let_def block_run_def tp call_allowed_def same_ledger_def
          split: if_splits option.splits semantic_result.splits)
  next
    case True
    then obtain d where d: "List.find (\<lambda>d. tdr_name d = t) (gc_tools ctx) = Some d"
      "validate_tool_call_semantics (gc_repr ctx) (gc_query ctx) d p = Allowed" by (auto simp: call_allowed_def)
    obtain r1 where r1: "run_call ctx t p r1 = (out, r')" "rn_calls r1 = rn_calls r" "rn_budget r1 = rn_budget r"
      "rn_state r1 = rn_state r"
      using assms True d by (auto simp: invoke_tool_def Let_def tp[symmetric])
    obtain res w where i: "gc_invoker ctx t p (rn_world r1) = (res, w)" by fastforce
    show thesis
    proof (rule called[of t p])
      show "budget_can_call (rn_budget r) t" "call_allowed ctx t p" using True by auto
      show "rn_calls r' = rn_calls r @ [(t, p)]" "rn_budget r' = rn_budget r"
        "gs_tool_calls (rn_state r') = gs_tool_calls (rn_state r)"
        using r1 i by (auto simp: run_call_def block_run_def Let_def split: sum.splits if_splits)
      show "out = Goto RespondNode \<or> (\<exists>e. out = Raised e \<and> external_failure ctx e)
          \<or> (\<exists>c. out = Goto ObserveResult \<and> gs_pending_call (rn_state r') = Some c \<and> tcr_tool_name c = t)"
      proof (cases res)
        case (Inl e)
        then have "external_failure ctx e" using i by (auto simp: external_failure_def)
        then show ?thesis using r1(1) i Inl by (auto simp: run_call_def Let_def)
      qed (use r1 i in \<open>auto simp: run_call_def block_run_def Let_def split: if_splits\<close>)
    qed
  qed
qed

subsection \<open>The ledger\<close>

text \<open>
  The budget counts the calls in the state, tool by tool, and the trace of calls is the list of recorded
  calls with at most one more, which the budget still allows.
\<close>

definition counts_exact :: "tool_call_budget \<Rightarrow> string list \<Rightarrow> bool" where
  "counts_exact b names \<longleftrightarrow>
     (\<forall>t. calls_of b t = int (count_list names t) \<and> int (count_list names t) \<le> max 0 (tb_max_per_tool b))"

definition ledger :: "'w graph_context \<Rightarrow> int \<Rightarrow> int \<Rightarrow> tool_call_budget \<Rightarrow> tool_call_record list
    \<Rightarrow> (string \<times> dict) list \<Rightarrow> string list \<Rightarrow> bool" where
  "ledger ctx B M b tcs calls extra \<longleftrightarrow> 0 \<le> tb_remaining b \<and> tb_total b + tb_remaining b = B
     \<and> tb_max_per_tool b = M \<and> tb_total b = int (length tcs)
     \<and> counts_exact b (map tcr_tool_name tcs)
     \<and> map fst calls = map tcr_tool_name tcs @ extra
     \<and> (\<forall>(t, p) \<in> set calls. call_allowed ctx t p)
     \<and> (extra = [] \<or> (\<exists>t. extra = [t] \<and> budget_can_call b t))"

definition run_ledger :: "'w graph_context \<Rightarrow> int \<Rightarrow> int \<Rightarrow> 'w agent_run \<Rightarrow> string list \<Rightarrow> bool" where
  "run_ledger ctx B M r extra = ledger ctx B M (rn_budget r) (gs_tool_calls (rn_state r)) (rn_calls r) extra"

lemma run_ledger_same: "same_ledger r r' \<Longrightarrow> run_ledger ctx B M r' = run_ledger ctx B M r"
  by (rule ext) (simp add: run_ledger_def same_ledger_def)

fun node_inv :: "'w graph_context \<Rightarrow> int \<Rightarrow> int \<Rightarrow> node \<Rightarrow> 'w agent_run \<Rightarrow> bool" where
  "node_inv ctx B M ObserveResult r \<longleftrightarrow> (\<exists>c. gs_pending_call (rn_state r) = Some c \<and> run_ledger ctx B M r [tcr_tool_name c])"
| "node_inv ctx B M RespondNode r \<longleftrightarrow> (\<exists>extra. run_ledger ctx B M r extra)"
| "node_inv ctx B M Finished r \<longleftrightarrow> (\<exists>extra. run_ledger ctx B M r extra)"
| "node_inv ctx B M ClassifyIntent r \<longleftrightarrow> run_ledger ctx B M r []"
| "node_inv ctx B M PlanAction r \<longleftrightarrow> run_ledger ctx B M r []"
| "node_inv ctx B M ToolCall r \<longleftrightarrow> run_ledger ctx B M r []"
| "node_inv ctx B M DecideNextStep r \<longleftrightarrow> run_ledger ctx B M r []"

lemma node_inv_ledger: "node_inv ctx B M n r \<Longrightarrow> \<exists>extra. run_ledger ctx B M r extra"
  by (cases n) auto

lemma count_list_snoc: "count_list (xs @ [x]) y = count_list xs y + (if x = y then 1 else 0)"
  by (induction xs) auto

lemma ledger_record:
  assumes "ledger ctx B M b tcs calls [tcr_tool_name c]"
  obtains b' where "budget_record b (tcr_tool_name c) = Inr b'" "ledger ctx B M b' (tcs @ [c]) calls []"
    and "tb_remaining b' = tb_remaining b - 1"
proof
  let ?t = "tcr_tool_name c"
  let ?b = "b\<lparr>tb_total := tb_total b + 1, tb_remaining := tb_remaining b - 1,
                 tb_per_tool := AList.update ?t (calls_of b ?t + 1) (tb_per_tool b)\<rparr>"
  have can: "budget_can_call b ?t" using assms by (simp add: ledger_def)
  then show "budget_record b ?t = Inr ?b" by (simp add: budget_record_def)
  have co: "calls_of ?b t = calls_of b t + (if ?t = t then 1 else 0)" for t
    by (simp add: calls_of_def update_conv')
  have "counts_exact b (map tcr_tool_name tcs)" using assms by (simp add: ledger_def)
  then have "counts_exact ?b (map tcr_tool_name tcs @ [?t])"
    using can unfolding counts_exact_def co count_list_snoc budget_can_call_def by auto
  then show "ledger ctx B M ?b (tcs @ [c]) calls []"
    using assms can unfolding ledger_def by (auto simp: budget_can_call_def)
qed simp

lemma step_inv:
  assumes "node_inv ctx B M n r" and "graph_step ctx n r = (out, r')"
  shows "(case out of Goto m \<Rightarrow> node_inv ctx B M m r'
     | Raised e \<Rightarrow> external_failure ctx e \<and> (\<exists>extra. run_ledger ctx B M r' extra))"
proof (cases n)
  case ClassifyIntent
  then show ?thesis using assms classify_ledger[of ctx r out r'] run_ledger_same[of r r' ctx B M] by auto
next
  case PlanAction
  then show ?thesis using assms plan_ledger[of ctx r out r'] run_ledger_same[of r r' ctx B M] by auto
next
  case ToolCall
  then have inv: "run_ledger ctx B M r []" and st: "invoke_tool ctx r = (out, r')" using assms by simp_all
  from st show ?thesis
  proof (cases rule: call_node_cases)
    case blocked
    then show ?thesis using inv by (auto simp: run_ledger_same)
  next
    case (called t p)
    have led: "run_ledger ctx B M r' [t]" using inv called(1-5) by (auto simp: run_ledger_def ledger_def)
    show ?thesis using called(6)
    proof (elim disjE exE conjE)
      fix c assume "out = Goto ObserveResult" "gs_pending_call (rn_state r') = Some c" "tcr_tool_name c = t"
      then show ?thesis using led by simp
    qed (use led in auto)
  qed
next
  case ObserveResult
  then obtain c where c: "gs_pending_call (rn_state r) = Some c" and led: "run_ledger ctx B M r [tcr_tool_name c]"
    using assms(1) by auto
  obtain b' where b': "budget_record (rn_budget r) (tcr_tool_name c) = Inr b'"
    "ledger ctx B M b' (gs_tool_calls (rn_state r) @ [c]) (rn_calls r) []"
    using ledger_record led unfolding run_ledger_def by blast
  then show ?thesis using assms(2) ObserveResult c by (auto simp: observe_result_def run_ledger_def)
next
  case DecideNextStep
  then show ?thesis using assms by (auto simp: decide_next_step_def)
next
  case RespondNode
  then show ?thesis using assms respond_ledger[of ctx r out r'] run_ledger_same[of r r' ctx B M] by auto
qed (use assms in auto)

lemma run_graph_stop: "n \<noteq> Finished \<Longrightarrow> run_graph ctx 0 n r = (Raised recursion_error, r)"
  by (cases n) simp_all

lemma run_graph_step: "n \<noteq> Finished \<Longrightarrow> graph_step ctx n r = (out, r') \<Longrightarrow>
    run_graph ctx (Suc limit) n r = (case out of Raised e \<Rightarrow> (Raised e, r') | Goto m \<Rightarrow> run_graph ctx limit m r')"
  by (cases n) (simp_all split: step_outcome.splits)

lemma run_inv: "node_inv ctx B M n r \<Longrightarrow> \<exists>extra. run_ledger ctx B M (snd (run_graph ctx limit n r)) extra"
proof (induction limit arbitrary: n r)
  case 0
  then show ?case by (cases "n = Finished") (auto simp: run_graph_stop dest: node_inv_ledger)
next
  case (Suc limit)
  obtain out r' where st: "graph_step ctx n r = (out, r')" by fastforce
  show ?case
  proof (cases "n = Finished")
    case False
    then show ?thesis using Suc.IH step_inv[OF Suc.prems st]
      by (auto simp: run_graph_step[OF _ st] split: step_outcome.splits)
  qed (use Suc.prems in auto)
qed

subsection \<open>Steps\<close>

text \<open>An upper bound on the steps that remain.\<close>

fun steps_left :: "node \<Rightarrow> int \<Rightarrow> int" where
  "steps_left ClassifyIntent n = 4 * n + 4"
| "steps_left PlanAction n = 4 * n + 3"
| "steps_left ToolCall n = 4 * n + 2"
| "steps_left ObserveResult n = 4 * n + 1"
| "steps_left DecideNextStep n = 4 * n + 4"
| "steps_left RespondNode n = 1"
| "steps_left Finished n = 0"

lemma step_cost:
  assumes "node_inv ctx B M n r" and "n \<noteq> Finished" and "graph_step ctx n r = (Goto m, r')"
  shows "steps_left m (tb_remaining (rn_budget r')) + 1 \<le> steps_left n (tb_remaining (rn_budget r))"
proof -
  have pos: "0 \<le> tb_remaining (rn_budget r)"
    using node_inv_ledger[OF assms(1)] by (auto simp: run_ledger_def ledger_def)
  show ?thesis
  proof (cases n)
    case ClassifyIntent
    then show ?thesis using classify_ledger[of ctx r "Goto m" r'] assms(3) by (auto simp: same_ledger_def)
  next
    case PlanAction
    then show ?thesis using plan_ledger[of ctx r "Goto m" r'] assms(3) pos by (auto simp: same_ledger_def)
  next
    case ToolCall
    then have "invoke_tool ctx r = (Goto m, r')" using assms(3) by simp
    then show ?thesis
      by (cases rule: call_node_cases) (use ToolCall pos in \<open>auto simp: same_ledger_def\<close>)
  next
    case ObserveResult
    then obtain c where c: "gs_pending_call (rn_state r) = Some c" and led: "run_ledger ctx B M r [tcr_tool_name c]"
      using assms(1) by auto
    obtain b' where "budget_record (rn_budget r) (tcr_tool_name c) = Inr b'" "tb_remaining b' = tb_remaining (rn_budget r) - 1"
      using ledger_record led unfolding run_ledger_def by blast
    then show ?thesis using assms(3) ObserveResult c by (auto simp: observe_result_def)
  next
    case DecideNextStep
    then show ?thesis using assms(3) pos by (auto simp: decide_next_step_def split: if_splits)
  next
    case RespondNode
    then show ?thesis using respond_ledger[of ctx r "Goto m" r'] assms(3) by auto
  qed (use assms in simp)
qed

lemma run_terminates:
  assumes "node_inv ctx B M n r" and "steps_left n (tb_remaining (rn_budget r)) \<le> int limit"
  shows "case run_graph ctx limit n r of (Goto m, r') \<Rightarrow> m = Finished | (Raised e, r') \<Rightarrow> external_failure ctx e"
  using assms
proof (induction limit arbitrary: n r)
  case 0
  then have "0 \<le> tb_remaining (rn_budget r)"
    using node_inv_ledger[OF 0(1)] by (auto simp: run_ledger_def ledger_def)
  then have "n = Finished" using 0 by (cases n) auto
  then show ?case by simp
next
  case (Suc limit)
  obtain out r' where st: "graph_step ctx n r = (out, r')" by fastforce
  note inv = step_inv[OF Suc.prems(1) st]
  have pos: "0 \<le> tb_remaining (rn_budget r)"
    using node_inv_ledger[OF Suc.prems(1)] by (auto simp: run_ledger_def ledger_def)
  show ?case
  proof (cases "n = Finished")
    case False
    have "steps_left m (tb_remaining (rn_budget r')) \<le> int limit" if "out = Goto m" for m
      using step_cost[OF Suc.prems(1) False, of m r'] st that Suc.prems(2) by simp
    then show ?thesis using False Suc.IH inv by (auto simp: run_graph_step[OF False st] split: step_outcome.splits)
  qed simp
qed

subsection \<open>Induction over a run\<close>

lemma run_graph_induct:
  assumes "I n r" and "run_graph ctx limit n r = (out, r')"
    and "\<And>n r m r'. I n r \<Longrightarrow> n \<noteq> Finished \<Longrightarrow> graph_step ctx n r = (Goto m, r') \<Longrightarrow> I m r'"
    and "\<And>n r e r'. I n r \<Longrightarrow> n \<noteq> Finished \<Longrightarrow> graph_step ctx n r = (Raised e, r') \<Longrightarrow> Q r'"
    and "\<And>n r. I n r \<Longrightarrow> Q r"
  shows "Q r' \<and> (\<forall>m. out = Goto m \<longrightarrow> I Finished r')"
  using assms(1,2)
proof (induction limit arbitrary: n r)
  case 0
  then show ?case using assms(5) by (cases "n = Finished") (auto simp: run_graph_stop)
next
  case (Suc limit)
  obtain o1 r1 where st: "graph_step ctx n r = (o1, r1)" by fastforce
  show ?case
  proof (cases "n = Finished")
    case True
    then show ?thesis using Suc.prems assms(5) by auto
  next
    case False
    show ?thesis
    proof (cases o1)
      case (Goto m)
      then show ?thesis using Suc.IH[of m r1] Suc.prems assms(3)[OF _ False] st
        by (auto simp: run_graph_step[OF False st])
    next
      case (Raised e)
      then show ?thesis using Suc.prems assms(4)[OF _ False] st by (auto simp: run_graph_step[OF False st])
    qed
  qed
qed

lemma initial_inv:
  assumes "0 \<le> tp_max_total_calls (aq_policy q)"
  shows "node_inv (request_context q) (effective_max_calls (aq_policy q) (aq_max_tool_calls q) (aq_allow_tool_calls q))
     (tp_max_calls_per_tool (aq_policy q)) ClassifyIntent
     (initial_run ck (aq_policy q) (aq_max_tool_calls q) (aq_allow_tool_calls q) w)"
  using assms by (auto simp: run_ledger_def ledger_def initial_run_def initial_state_def counts_exact_def
      calls_of_def effective_max_calls_def)

lemma ledger_bounds:
  assumes "run_ledger ctx B M r extra"
  shows "int (length (rn_calls r)) \<le> B" and "int (count_list (map fst (rn_calls r)) t) \<le> max 0 M"
    and "(t, p) \<in> set (rn_calls r) \<Longrightarrow> call_allowed ctx t p"
    and "take (length (gs_tool_calls (rn_state r))) (map fst (rn_calls r)) = map tcr_tool_name (gs_tool_calls (rn_state r))"
    and "length (rn_calls r) \<le> Suc (length (gs_tool_calls (rn_state r)))"
proof -
  let ?b = "rn_budget r"
  have led: "0 \<le> tb_remaining ?b" "tb_total ?b + tb_remaining ?b = B" "tb_max_per_tool ?b = M"
    "tb_total ?b = int (length (gs_tool_calls (rn_state r)))" "counts_exact ?b (map tcr_tool_name (gs_tool_calls (rn_state r)))"
    "map fst (rn_calls r) = map tcr_tool_name (gs_tool_calls (rn_state r)) @ extra"
    "extra = [] \<or> (\<exists>t. extra = [t] \<and> budget_can_call ?b t)"
    using assms by (simp_all add: run_ledger_def ledger_def)
  have len: "length (rn_calls r) = length (gs_tool_calls (rn_state r)) + length extra"
    using arg_cong[OF led(6), of length] by simp
  show "int (length (rn_calls r)) \<le> B" using len led by (auto simp: budget_can_call_def)
  show "int (count_list (map fst (rn_calls r)) t) \<le> max 0 M"
    using led(3,5,7) unfolding led(6) by (auto simp: counts_exact_def budget_can_call_def count_list_snoc)
  show "(t, p) \<in> set (rn_calls r) \<Longrightarrow> call_allowed ctx t p" using assms by (auto simp: run_ledger_def ledger_def)
  show "take (length (gs_tool_calls (rn_state r))) (map fst (rn_calls r)) = map tcr_tool_name (gs_tool_calls (rn_state r))"
    unfolding led(6) by simp
  show "length (rn_calls r) \<le> Suc (length (gs_tool_calls (rn_state r)))" using len led(7) by auto
qed

subsection \<open>The answer\<close>

text \<open>Between the nodes: the messages are untouched, a finish reason comes with an answer, and a run that
  is over has both.\<close>

definition answer_inv :: "message list \<Rightarrow> string \<Rightarrow> node \<Rightarrow> 'w agent_run \<Rightarrow> bool" where
  "answer_inv ms query n r \<longleftrightarrow> (let s = rn_state r in
     (case gs_finish_reason s of None \<Rightarrow> True | Some f \<Rightarrow> f \<in> {COMPLETED, POLICY_BLOCKED} \<and> gs_answer s \<noteq> [])
     \<and> (n \<noteq> RespondNode \<and> n \<noteq> Finished \<longrightarrow> gs_finish_reason s = None)
     \<and> (n = Finished \<longrightarrow> gs_finish_reason s \<noteq> None)
     \<and> (gs_messages s = ms \<or> n = Finished \<and> gs_finish_reason s = Some COMPLETED
          \<and> gs_messages s = ms @ [HumanMessage query, AIMessage (gs_answer s)]))"

lemma answer_step:
  assumes "answer_inv ms (gc_query ctx) n r" and "n \<noteq> Finished" and "graph_step ctx n r = (Goto m, r')"
  shows "answer_inv ms (gc_query ctx) m r'"
proof (cases n)
  case ClassifyIntent
  then show ?thesis using assms
    by (auto simp: classify_intent_def answer_inv_def Let_def split: prod.splits sum.splits)
next
  case PlanAction
  have rt: "answer_inv ms (gc_query ctx) m r'" if "route a r1 = (Goto m, r')" and "rn_state r1 = rn_state r" for a r1
    using that assms(1) PlanAction by (auto simp: route_def answer_inv_def Let_def split: if_splits option.splits list.splits)
  then show ?thesis using assms(3) PlanAction
    by (auto simp: plan_action_def plan_deterministic_def plan_with_model_def Let_def
        split: option.splits if_splits prod.splits sum.splits)
next
  case ToolCall
  have bl: "answer_inv ms (gc_query ctx) m r'" if "block_run a r1 = (Goto m, r')" "a \<noteq> []" and "rn_state r1 = rn_state r" for a r1
    using that assms(1) ToolCall by (auto simp: block_run_def answer_inv_def Let_def)
  have rc: "answer_inv ms (gc_query ctx) m r'" if "run_call ctx t p r1 = (Goto m, r')" and "rn_state r1 = rn_state r" for t p r1
    using that assms(1) ToolCall bl
    by (auto simp: run_call_def answer_inv_def Let_def split: prod.splits sum.splits if_splits)
  then show ?thesis using assms(3) ToolCall bl
    by (auto simp: invoke_tool_def Let_def split: option.splits if_splits semantic_result.splits)
next
  case ObserveResult
  then show ?thesis using assms
    by (auto simp: observe_result_def answer_inv_def Let_def split: option.splits sum.splits)
next
  case DecideNextStep
  then show ?thesis using assms by (auto simp: decide_next_step_def answer_inv_def Let_def split: if_splits)
next
  case RespondNode
  have fa: "answer_inv ms (gc_query ctx) m r'" if "finish_answer ctx a r1 = (Goto m, r')" "rn_state r1 = rn_state r"
      "\<not> (gs_finish_reason (rn_state r) \<noteq> None \<and> gs_answer (rn_state r) \<noteq> [])" for a r1
    using that assms(1) RespondNode
    by (auto simp: finish_answer_def answer_inv_def Let_def split: option.splits if_split_asm)
  show ?thesis
  proof (cases "gs_finish_reason (rn_state r) \<noteq> None \<and> gs_answer (rn_state r) \<noteq> []")
    case True
    then show ?thesis using assms RespondNode by (auto simp: respond_def answer_inv_def Let_def)
  next
    case False
    then show ?thesis using assms(3) RespondNode fa[OF _ _ False]
      by (auto simp: respond_def Let_def split: if_splits sum.splits prod.splits)
  qed
qed (use assms in simp)

lemma answer_run:
  assumes "request_run limit q ck w = (Goto m, r)"
  shows "answer_inv (ck_messages ck) (gc_query (aq_context q)) Finished r"
proof -
  have q: "gc_query (request_context q) = gc_query (aq_context q)" by (simp add: request_context_def)
  let ?I = "answer_inv (ck_messages ck) (gc_query (request_context q))"
  have "True \<and> (\<forall>m'. Goto m = Goto m' \<longrightarrow> ?I Finished r)"
  proof (rule run_graph_induct[where I = ?I and Q = "\<lambda>_. True"])
    show "?I ClassifyIntent (initial_run ck (aq_policy q) (aq_max_tool_calls q) (aq_allow_tool_calls q) w)"
      by (simp add: answer_inv_def initial_run_def initial_state_def)
    show "run_graph (request_context q) limit ClassifyIntent
        (initial_run ck (aq_policy q) (aq_max_tool_calls q) (aq_allow_tool_calls q) w) = (Goto m, r)"
      using assms by (simp add: request_run_def)
  qed (auto intro: answer_step)
  then show ?thesis by (simp add: q)
qed

subsection \<open>The working set\<close>

definition working_set_ok :: "working_set \<Rightarrow> bool" where
  "working_set_ok ws \<longleftrightarrow> length (ws_entities ws) \<le> MAX_WORKING_SET_ENTITIES \<and> distinct (ws_entities ws)
     \<and> (\<forall>(field, s) \<in> set (ws_entities ws). field \<in> set WORKING_SET_ENTITY_FIELDS \<and> 0 < length s \<and> length s \<le> 128)"

lemma keep_first_props: "distinct acc \<Longrightarrow> distinct (keep_first acc xs) \<and> set (keep_first acc xs) = set acc \<union> set xs"
  by (induction acc xs rule: keep_first.induct) auto

lemma working_set_entities_ok:
  "(field, s) \<in> set (working_set_entities p) \<Longrightarrow> field \<in> set WORKING_SET_ENTITY_FIELDS \<and> 0 < length s \<and> length s \<le> 128"
  by (auto simp: working_set_entities_def split: pyval.splits if_splits)

lemma merge_working_sets_ok:
  assumes "working_set_ok a" and "\<forall>(field, s) \<in> set (ws_entities b). field \<in> set WORKING_SET_ENTITY_FIELDS \<and> 0 < length s \<and> length s \<le> 128"
  shows "working_set_ok (merge_working_sets a b)"
proof -
  let ?xs = "keep_first [] (ws_entities a @ ws_entities b)"
  have k: "distinct ?xs" "set ?xs = set (ws_entities a) \<union> set (ws_entities b)"
    using keep_first_props[of "[]" "ws_entities a @ ws_entities b"] by auto
  have "set (last_n MAX_WORKING_SET_ENTITIES ?xs) \<subseteq> set ?xs" "distinct (last_n MAX_WORKING_SET_ENTITIES ?xs)"
    "length (last_n MAX_WORKING_SET_ENTITIES ?xs) \<le> MAX_WORKING_SET_ENTITIES"
    using k(1) by (auto simp: last_n_def dest: in_set_dropD)
  then show ?thesis using assms k(2) unfolding working_set_ok_def merge_working_sets_def by fastforce
qed

lemma working_set_step:
  assumes "working_set_ok (gs_working_set (rn_state r))" and "graph_step ctx n r = (out, r')"
  shows "working_set_ok (gs_working_set (rn_state r'))"
proof (cases n)
  case ClassifyIntent
  have "working_set_ok (merge_working_sets (gs_working_set (rn_state r))
      \<lparr>ws_active_intent = i, ws_entities = ws_entities (gs_working_set (rn_state r))\<rparr>)" for i
    using assms(1) by (intro merge_working_sets_ok) (auto simp: working_set_ok_def)
  then show ?thesis using assms ClassifyIntent
    by (auto simp: classify_intent_def merge_working_set_def Let_def split: prod.splits sum.splits)
next
  case PlanAction
  have rt: "gs_working_set (rn_state r') = gs_working_set (rn_state r1)" if "route a r1 = (out, r')" for a r1
    using that by (auto simp: route_def split: if_splits option.splits list.splits)
  then show ?thesis using assms PlanAction
    by (auto simp: plan_action_def plan_deterministic_def plan_with_model_def Let_def dest!: rt
        split: option.splits if_splits prod.splits sum.splits)
next
  case ToolCall
  then show ?thesis using assms
    by (auto simp: invoke_tool_def run_call_def block_run_def Let_def
        split: option.splits if_splits semantic_result.splits prod.splits sum.splits)
next
  case ObserveResult
  have "working_set_ok (merge_working_sets (gs_working_set (rn_state r))
      \<lparr>ws_active_intent = i, ws_entities = working_set_entities p\<rparr>)" for i p
    using assms(1) working_set_entities_ok by (intro merge_working_sets_ok) auto
  then show ?thesis using assms ObserveResult
    by (auto simp: observe_result_def merge_working_set_def split: option.splits sum.splits)
qed (use assms in \<open>auto simp: decide_next_step_def respond_def finish_answer_def Let_def
    split: prod.splits sum.splits if_splits\<close>)

subsection \<open>Requests the deterministic rules answer\<close>

text \<open>The invariant of a run whose request resolves to a tool and a payload, or to a direct response, when
  the invoker answers under the name it was called by and the named tool is not a mutating one.\<close>

definition names_its_calls :: "'w graph_context \<Rightarrow> bool" where
  "names_its_calls ctx \<longleftrightarrow> (\<forall>t p w c w'. gc_invoker ctx t p w = (Inr c, w') \<longrightarrow> tcr_tool_name c = t)"

definition target_read_only :: "'w graph_context \<Rightarrow> intent_resolution \<Rightarrow> bool" where
  "target_read_only ctx res \<longleftrightarrow>
     (\<forall>d \<in> set (gc_tools ctx). ir_tool_name res = Some (tdr_name d) \<longrightarrow> \<not> tdr_is_mutating d)"

definition shown_text :: "string \<Rightarrow> string" where
  "shown_text a = (if strip a \<noteq> [] then strip a else ''No answer generated.'')"

definition callable :: "'w graph_context \<Rightarrow> intent_resolution \<Rightarrow> 'w agent_run \<Rightarrow> string \<Rightarrow> bool" where
  "callable ctx res r t \<longleftrightarrow> ir_tool_name res = Some t \<and> t \<in> tdr_name ` set (gc_tools ctx)
     \<and> budget_can_call (rn_budget r) t"

definition only_target :: "intent_resolution \<Rightarrow> 'w agent_run \<Rightarrow> bool" where
  "only_target res r \<longleftrightarrow> (\<forall>(t, p) \<in> set (rn_calls r). ir_tool_name res = Some t \<and> p = ir_payload res)"

definition answered :: "'w graph_context \<Rightarrow> 'w agent_run \<Rightarrow> bool" where
  "answered ctx r \<longleftrightarrow> (let s = rn_state r in gs_finish_reason s = Some COMPLETED \<and>
     (if gs_tool_calls s \<noteq> []
      then \<exists>c. compose (gc_repr ctx) (gc_query ctx) (call_evidence (gs_tool_calls s)) = Inr c \<and> gs_answer s = shown_text (cr_answer c)
      else \<exists>v w a w'. br_respond (gc_brain ctx) v w = (Inr a, w') \<and> gs_answer s = shown_text a))"

fun target_inv :: "'w graph_context \<Rightarrow> intent_resolution \<Rightarrow> int \<Rightarrow> int \<Rightarrow> node \<Rightarrow> 'w agent_run \<Rightarrow> bool" where
  "target_inv ctx res B M ToolCall r \<longleftrightarrow> run_ledger ctx B M r [] \<and> gs_finish_reason (rn_state r) = None \<and> only_target res r
     \<and> (\<exists>t. callable ctx res r t \<and> gs_planned_action (rn_state r) = bare_action Tool_Call_Action t (ir_payload res))"
| "target_inv ctx res B M ObserveResult r \<longleftrightarrow> node_inv ctx B M ObserveResult r \<and> gs_finish_reason (rn_state r) = None
     \<and> only_target res r"
| "target_inv ctx res B M RespondNode r \<longleftrightarrow> run_ledger ctx B M r [] \<and> gs_finish_reason (rn_state r) = None \<and> only_target res r
     \<and> \<not> (\<exists>t. callable ctx res r t)"
| "target_inv ctx res B M Finished r \<longleftrightarrow> run_ledger ctx B M r [] \<and> only_target res r
     \<and> \<not> (\<exists>t. callable ctx res r t) \<and> answered ctx r"
| "target_inv ctx res B M n r \<longleftrightarrow> run_ledger ctx B M r [] \<and> gs_finish_reason (rn_state r) = None \<and> only_target res r"

lemma only_target_same: "same_ledger r r' \<Longrightarrow> only_target res r' = only_target res r"
  by (simp add: only_target_def same_ledger_def)

lemma callable_same: "same_ledger r r' \<Longrightarrow> callable ctx res r' = callable ctx res r"
  by (rule ext) (simp add: callable_def same_ledger_def)

lemma finish_answer_done:
  assumes "finish_answer ctx a r1 = (Goto m, r')" and "gs_finish_reason (rn_state r1) = None"
  shows "m = Finished \<and> gs_finish_reason (rn_state r') = Some COMPLETED \<and> gs_answer (rn_state r') = shown_text a
    \<and> gs_tool_calls (rn_state r') = gs_tool_calls (rn_state r1)"
  using assms by (auto simp: finish_answer_def shown_text_def Let_def)

lemma respond_answered:
  assumes "respond ctx r = (Goto m, r')" and "gs_finish_reason (rn_state r) = None"
  shows "answered ctx r'"
proof (cases "gs_tool_calls (rn_state r) = []")
  case True
  obtain res w where b: "br_respond (gc_brain ctx) (agent_state ctx (gc_tools ctx) r) (rn_world r) = (res, w)"
    by fastforce
  then obtain a where a: "res = Inr a" using assms True by (cases res) (auto simp: respond_def)
  then have "finish_answer ctx a (r\<lparr>rn_world := w\<rparr>) = (Goto m, r')"
    using assms True b by (simp add: respond_def)
  from finish_answer_done[OF this] show ?thesis using assms(2) True b a by (auto simp: answered_def)
next
  case False
  then obtain c where c: "compose (gc_repr ctx) (gc_query ctx) (call_evidence (gs_tool_calls (rn_state r))) = Inr c"
    "finish_answer ctx (cr_answer c) r = (Goto m, r')"
    using assms by (auto simp: respond_def Let_def split: sum.splits)
  from finish_answer_done[OF c(2) assms(2)] show ?thesis using False c(1) by (auto simp: answered_def)
qed

lemma target_step:
  assumes "target_inv ctx res B M n r" and "n \<noteq> Finished" and "graph_step ctx n r = (Goto m, r')"
    and res: "resolve_intent (gc_query ctx) = Some res" and "names_its_calls ctx" and "target_read_only ctx res"
  shows "target_inv ctx res B M m r'"
proof (cases n)
  case ClassifyIntent
  then have "same_ledger r r'" "m = PlanAction" using classify_ledger[of ctx r "Goto m" r'] assms(3) by auto
  moreover have "gs_finish_reason (rn_state r') = gs_finish_reason (rn_state r)"
    using assms(3) ClassifyIntent by (auto simp: classify_intent_def Let_def split: prod.splits sum.splits)
  ultimately show ?thesis using assms(1) ClassifyIntent by (simp add: run_ledger_same only_target_same)
next
  case PlanAction
  then have pl: "plan_deterministic ctx res r = (Goto m, r')" using assms(3) res by (simp add: plan_action_def)
  have led: "run_ledger ctx B M r' = run_ledger ctx B M r" "only_target res r' = only_target res r"
    "callable ctx res r' = callable ctx res r"
    using plan_ledger[of ctx r "Goto m" r'] assms(3) PlanAction
    by (simp_all add: run_ledger_same only_target_same callable_same)
  have fin: "gs_finish_reason (rn_state r') = None"
    using pl assms(1) PlanAction
    by (auto simp: plan_deterministic_def route_def bare_action_def Let_def split: option.splits if_splits)
  show ?thesis
  proof (cases "\<exists>t. callable ctx res r t")
    case True
    then obtain t where t: "callable ctx res r t" by blast
    then have "m = ToolCall \<and> gs_planned_action (rn_state r') = bare_action Tool_Call_Action t (ir_payload res)"
      using pl by (auto simp: plan_deterministic_def route_def bare_action_def callable_def callable_tools_def Let_def
          split: if_splits)
    then show ?thesis using led fin assms(1) PlanAction t by auto
  next
    case False
    then have "m = RespondNode"
      using pl by (auto simp: plan_deterministic_def route_def bare_action_def callable_def callable_tools_def Let_def
          split: if_splits option.splits)
    then show ?thesis using led fin assms(1) PlanAction False by simp
  qed
next
  case ToolCall
  then obtain t where t: "callable ctx res r t" and pa: "gs_planned_action (rn_state r) = bare_action Tool_Call_Action t (ir_payload res)"
    and led: "run_ledger ctx B M r []" and fin: "gs_finish_reason (rn_state r) = None" and ot: "only_target res r"
    using assms(1) by auto
  obtain d where d: "List.find (\<lambda>d. tdr_name d = t) (gc_tools ctx) = Some d" "tdr_name d = t" "d \<in> set (gc_tools ctx)"
    using t find_None_iff_all[of "\<lambda>d. tdr_name d = t" "gc_tools ctx"]
    by (cases "List.find (\<lambda>d. tdr_name d = t) (gc_tools ctx)") (auto simp: callable_def dest: find_Some_set)
  have val: "validate_tool_call_semantics (gc_repr ctx) (gc_query ctx) d (ir_payload res) = Allowed"
    using deterministic_plan_core[OF res, of d] d t assms(6) by (auto simp: callable_def target_read_only_def)
  obtain r1 where r1: "run_call ctx t (ir_payload res) r1 = (Goto m, r')" "rn_calls r1 = rn_calls r"
    "rn_budget r1 = rn_budget r" "rn_state r1 = rn_state r"
    using assms(3) ToolCall pa t d val by (auto simp: invoke_tool_def bare_action_def callable_def Let_def)
  obtain out w where o: "gc_invoker ctx t (ir_payload res) (rn_world r1) = (out, w)" by fastforce
  then obtain c where "out = Inr c" using r1(1) by (cases out) (auto simp: run_call_def Let_def)
  with o have c1: "gc_invoker ctx t (ir_payload res) (rn_world r1) = (Inr c, w)" by simp
  have c2: "tcr_tool_name c = t" using assms(5) c1 unfolding names_its_calls_def by blast
  note c = c1 c2
  have r': "m = ObserveResult" "rn_calls r' = rn_calls r @ [(t, ir_payload res)]" "rn_budget r' = rn_budget r"
    "gs_tool_calls (rn_state r') = gs_tool_calls (rn_state r)" "gs_pending_call (rn_state r') = Some c"
    "gs_finish_reason (rn_state r') = None"
    using r1 c fin by (auto simp: run_call_def Let_def)
  have "run_ledger ctx B M r' [tcr_tool_name c]"
    using led r' c t d val by (auto simp: run_ledger_def ledger_def call_allowed_def callable_def)
  then show ?thesis using r' ot t by (auto simp: only_target_def callable_def)
next
  case ObserveResult
  then have inv: "node_inv ctx B M ObserveResult r" and ot: "only_target res r" using assms(1) by auto
  have "m = DecideNextStep" "rn_calls r' = rn_calls r" "gs_finish_reason (rn_state r') = gs_finish_reason (rn_state r)"
    using assms(3) ObserveResult by (auto simp: observe_result_def split: option.splits sum.splits)
  then show ?thesis using step_inv[OF inv, of "Goto m" r'] assms(1,3) ObserveResult by (simp add: only_target_def)
next
  case DecideNextStep
  have "\<not> callable ctx res r t" if "tb_remaining (rn_budget r) \<le> 0" for t
    using that by (simp add: callable_def budget_can_call_def)
  then show ?thesis using assms(1,3) DecideNextStep by (auto simp: decide_next_step_def split: if_splits)
next
  case RespondNode
  then have "same_ledger r r'" "m = Finished" using respond_ledger[of ctx r "Goto m" r'] assms(3) by auto
  moreover have "answered ctx r'" using respond_answered[of ctx r m r'] assms(1,3) RespondNode by simp
  ultimately show ?thesis using assms(1) RespondNode by (simp add: run_ledger_same only_target_same callable_same)
qed (use assms in simp)

lemma count_list_replicate_self: "count_list (replicate n x) x = n"
  by (induction n) simp_all

lemma target_calls:
  assumes "target_inv ctx res B M Finished r"
  shows "rn_calls r = (case ir_tool_name res of None \<Rightarrow> []
    | Some t \<Rightarrow> if t \<in> tdr_name ` set (gc_tools ctx) then replicate (nat (min B M)) (t, ir_payload res) else [])"
proof (cases "ir_tool_name res")
  case None
  then show ?thesis using assms by (cases "rn_calls r") (auto simp: only_target_def)
next
  case (Some t)
  let ?b = "rn_budget r" and ?tcs = "gs_tool_calls (rn_state r)"
  have all: "x = (t, ir_payload res)" if "x \<in> set (rn_calls r)" for x
    using assms that Some by (cases x) (auto simp: only_target_def)
  then have rep: "rn_calls r = replicate (length (rn_calls r)) (t, ir_payload res)"
    by (metis replicate_length_same)
  have led: "0 \<le> tb_remaining ?b" "tb_total ?b + tb_remaining ?b = B" "tb_max_per_tool ?b = M"
    "tb_total ?b = int (length ?tcs)" "counts_exact ?b (map tcr_tool_name ?tcs)"
    "map fst (rn_calls r) = map tcr_tool_name ?tcs" "\<forall>(t, p) \<in> set (rn_calls r). call_allowed ctx t p"
    using assms by (simp_all add: run_ledger_def ledger_def)
  have len: "length (rn_calls r) = length ?tcs" using arg_cong[OF led(6), of length] by simp
  have "map tcr_tool_name ?tcs = replicate (length ?tcs) t"
    using led(6) rep len by (metis fst_conv map_replicate)
  then have cnt: "count_list (map tcr_tool_name ?tcs) t = length ?tcs"
    by (simp add: count_list_replicate_self)
  have of_t: "calls_of ?b t = int (length ?tcs)" "int (length ?tcs) \<le> max 0 M"
    using led(3,5) cnt by (simp_all add: counts_exact_def, metis)
  show ?thesis
  proof (cases "t \<in> tdr_name ` set (gc_tools ctx)")
    case True
    then have "\<not> budget_can_call ?b t" using assms Some by (auto simp: callable_def)
    then have "length ?tcs = nat (min B M)" using led of_t by (auto simp: budget_can_call_def)
    then show ?thesis using rep len Some True by simp
  next
    case False
    have "rn_calls r = []"
    proof (cases "rn_calls r")
      case (Cons x xs)
      then have "call_allowed ctx t (ir_payload res)" using led(7) all[of x] by auto
      then show ?thesis using False by (auto simp: call_allowed_def dest: find_Some_set)
    qed
    then show ?thesis using Some False by simp
  qed
qed

lemma deterministic_request_core:
  assumes "request_run limit q ck w = (Goto m, r)" and "0 \<le> tp_max_total_calls (aq_policy q)"
    and "resolve_intent (gc_query (aq_context q)) = Some res"
    and "names_its_calls (aq_context q)" and "target_read_only (aq_context q) res"
  shows "rn_calls r = (case ir_tool_name res of None \<Rightarrow> []
      | Some t \<Rightarrow> if t \<in> tdr_name ` set (allowed_tools (aq_policy q) (gc_tools (aq_context q)))
          then replicate (nat (min (effective_max_calls (aq_policy q) (aq_max_tool_calls q) (aq_allow_tool_calls q))
                 (tp_max_calls_per_tool (aq_policy q)))) (t, ir_payload res)
          else [])
    \<and> answered (aq_context q) r"
proof -
  let ?ctx = "request_context q"
  let ?B = "effective_max_calls (aq_policy q) (aq_max_tool_calls q) (aq_allow_tool_calls q)"
  let ?I = "target_inv ?ctx res ?B (tp_max_calls_per_tool (aq_policy q))"
  have ctx: "gc_query ?ctx = gc_query (aq_context q)" "gc_invoker ?ctx = gc_invoker (aq_context q)"
    "gc_tools ?ctx = allowed_tools (aq_policy q) (gc_tools (aq_context q))" "gc_brain ?ctx = gc_brain (aq_context q)"
    "gc_repr ?ctx = gc_repr (aq_context q)" by (simp_all add: request_context_def)
  have hyps: "resolve_intent (gc_query ?ctx) = Some res" "names_its_calls ?ctx" "target_read_only ?ctx res"
    using assms(3-5) by (auto simp: ctx names_its_calls_def target_read_only_def allowed_tools_def)
  have "True \<and> (\<forall>m'. Goto m = Goto m' \<longrightarrow> ?I Finished r)"
  proof (rule run_graph_induct[where I = ?I and Q = "\<lambda>_. True"])
    show "?I ClassifyIntent (initial_run ck (aq_policy q) (aq_max_tool_calls q) (aq_allow_tool_calls q) w)"
      using initial_inv[OF assms(2), of ck w] by (simp add: only_target_def initial_run_def initial_state_def)
    show "run_graph ?ctx limit ClassifyIntent
        (initial_run ck (aq_policy q) (aq_max_tool_calls q) (aq_allow_tool_calls q) w) = (Goto m, r)"
      using assms(1) by (simp add: request_run_def)
  qed (use target_step hyps in blast)+
  then have fin: "?I Finished r" by simp
  have "answered ?ctx r \<longleftrightarrow> answered (aq_context q) r" unfolding answered_def ctx ..
  then show ?thesis using target_calls[OF fin] fin unfolding ctx by simp
qed

text \<open>What neither the brain nor the invoker changes of the world, a run does not change.\<close>

lemma run_world_inv:
  assumes "run_graph ctx limit n r = (out, r')" and "P (rn_world r)"
    and "\<And>v w. P w \<Longrightarrow> P (snd (br_classify (gc_brain ctx) v w))" "\<And>v w. P w \<Longrightarrow> P (snd (br_plan (gc_brain ctx) v w))"
    and "\<And>v w. P w \<Longrightarrow> P (snd (br_respond (gc_brain ctx) v w))" and "\<And>t p w. P w \<Longrightarrow> P (snd (gc_invoker ctx t p w))"
  shows "P (rn_world r')"
proof -
  have step: "P (rn_world r2)" if "P (rn_world r1)" and "graph_step ctx n r1 = (out, r2)" for n r1 r2 out
  proof (cases n)
    case ClassifyIntent
    then show ?thesis using that assms(3)[OF that(1)]
      by (auto simp: classify_intent_def Let_def split: prod.splits sum.splits) (metis snd_conv)+
  next
    case PlanAction
    have rt: "rn_world r2 = rn_world r3" if "route a r3 = (out, r2)" for a r3
      using that by (auto simp: route_def split: if_splits)
    show ?thesis
      using that PlanAction assms(4)[OF that(1)]
      by (auto simp: plan_action_def plan_deterministic_def plan_with_model_def Let_def dest!: rt
          split: option.splits if_splits prod.splits sum.splits) (metis snd_conv)+
  next
    case ToolCall
    then show ?thesis using that assms(6)[OF that(1)]
      by (auto simp: invoke_tool_def run_call_def block_run_def Let_def
          split: option.splits if_splits semantic_result.splits prod.splits sum.splits) (metis snd_conv)+
  next
    case ObserveResult
    then show ?thesis using that by (auto simp: observe_result_def split: option.splits sum.splits)
  next
    case RespondNode
    then show ?thesis using that assms(5)[OF that(1)]
      by (auto simp: respond_def finish_answer_def Let_def split: if_splits prod.splits sum.splits) (metis snd_conv)+
  qed (use that in \<open>auto simp: decide_next_step_def\<close>)
  have "P (rn_world r') \<and> (\<forall>m. out = Goto m \<longrightarrow> P (rn_world r'))"
    by (rule run_graph_induct[where I = "\<lambda>n r. P (rn_world r)" and Q = "\<lambda>r. P (rn_world r)", OF assms(2) assms(1)])
      (auto intro: step)
  then show ?thesis by simp
qed

subsection \<open>A sample run\<close>

definition sample_agent_context :: "string \<Rightarrow> unit graph_context" where
  "sample_agent_context query = \<lparr>
     gc_brain = agent_brain (\<lambda>_. Inr []) (\<lambda>_ w. (Inl (ExternalErr ''down''), w)) (\<lambda>_ w. (Inr ''hello'', w)),
     gc_actor = \<lparr>ac_user_id = 1, ac_roles = [], ac_site_codes = [], ac_global_scope = True\<rparr>,
     gc_tools = [sample_descriptor ''get_asset_status'' False],
     gc_invoker = (\<lambda>t p w. (Inr \<lparr>tcr_tool_name = t, tcr_payload = p, tcr_status = OUTCOME_FAILED,
        tcr_evidence = [FailureEvidence \<lparr>fe_evidence_id = ''e'', fe_code = ''x'', fe_message = ''m'', fe_retryable = False\<rparr>], tcr_result = []\<rparr>, w)),
     gc_retrieved = \<lparr>acx_blocks = [], acx_total_tokens = 0, acx_dropped = 0\<rparr>,
     gc_query = query, gc_conversation_id = None, gc_repr = (\<lambda>_. [])\<rparr>"

definition sample_agent_request :: "string \<Rightarrow> unit agent_request" where
  "sample_agent_request query = \<lparr>aq_context = sample_agent_context query,
     aq_policy = \<lparr>tp_allowed_tool_names = {''get_asset_status''}, tp_max_total_calls = 1,
        tp_max_calls_per_tool = 1, tp_fail_on_policy_violation = True\<rparr>,
     aq_max_tool_calls = 1, aq_allow_tool_calls = True\<rparr>"

lemmas sample_agent_defs = sample_agent_context_def sample_agent_request_def request_context_def allowed_tools_def
  sample_descriptor_def

lemmas asset_request_allowed = deterministic_plan_core[OF asset_request, of "sample_descriptor ''get_asset_status'' False",
  unfolded sample_descriptor_def, simplified]

lemma sample_agent_run:
  "fst (request_run 10 (sample_agent_request ''asset status'') empty_checkpoint ()) = Goto Finished"
  by (simp add: request_run_def initial_run_def initial_state_def sample_agent_defs eval_nat_numeral
      classify_intent_def agent_brain_def asset_request plan_action_def plan_deterministic_def route_def
      callable_tools_def budget_can_call_def calls_of_def effective_max_calls_def invoke_tool_def
      bare_action_def run_call_def observe_result_def budget_record_def decide_next_step_def respond_def
      finish_answer_def compose_def call_evidence_def Let_def asset_request_allowed)

subsection \<open>Properties\<close>

text \<open>C10. The agent cannot overspend its tools. However a run ends, the calls it made are at most the
  effective limit (none when calls are not allowed), at most the limit per tool for each tool, each to a
  tool that is offered and on the policy's list, with a payload the semantic validator let through; and
  the calls recorded in the answer are the calls made, in order, with at most a last one missing.\<close>

theorem agent_calls_bounded:
  assumes "request_run limit q ck w = (out, r)" and "0 \<le> tp_max_total_calls (aq_policy q)"
  shows "int (length (rn_calls r)) \<le> effective_max_calls (aq_policy q) (aq_max_tool_calls q) (aq_allow_tool_calls q)
    \<and> (\<forall>t. int (count_list (map fst (rn_calls r)) t) \<le> max 0 (tp_max_calls_per_tool (aq_policy q)))
    \<and> (\<forall>(t, p) \<in> set (rn_calls r). t \<in> tp_allowed_tool_names (aq_policy q)
         \<and> (\<exists>d \<in> set (gc_tools (aq_context q)). tdr_name d = t
              \<and> validate_tool_call_semantics (gc_repr (aq_context q)) (gc_query (aq_context q)) d p = Allowed))
    \<and> take (length (gs_tool_calls (rn_state r))) (map fst (rn_calls r)) = map tcr_tool_name (gs_tool_calls (rn_state r))
    \<and> length (rn_calls r) \<le> Suc (length (gs_tool_calls (rn_state r)))"
proof -
  obtain extra where led: "run_ledger (request_context q)
      (effective_max_calls (aq_policy q) (aq_max_tool_calls q) (aq_allow_tool_calls q))
      (tp_max_calls_per_tool (aq_policy q)) r extra"
    using run_inv[OF initial_inv[OF assms(2)], of limit ck w] assms(1) by (auto simp: request_run_def)
  have "t \<in> tp_allowed_tool_names (aq_policy q) \<and> (\<exists>d \<in> set (gc_tools (aq_context q)). tdr_name d = t
      \<and> validate_tool_call_semantics (gc_repr (aq_context q)) (gc_query (aq_context q)) d p = Allowed)"
    if "(t, p) \<in> set (rn_calls r)" for t p
    using ledger_bounds(3)[OF led that] find_Some_set[of "\<lambda>d. tdr_name d = t"]
    by (fastforce simp: call_allowed_def request_context_def allowed_tools_def)
  then show ?thesis using ledger_bounds[OF led] by blast
qed

theorem agent_calls_bounded_witness:
  "int (length (rn_calls (snd (request_run 10 (sample_agent_request ''asset status'') empty_checkpoint ())))) \<le> 1"
  using agent_calls_bounded[OF prod.collapse[symmetric], of "sample_agent_request ''asset status''" 10 empty_checkpoint "()"]
  by (simp add: sample_agent_request_def effective_max_calls_def)

text \<open>C11. A run comes to an end: with a recursion limit of four steps per allowed call and four more, the
  runtime's limit is never hit and the budget is never exceeded. The run returns, with an answer that is
  not empty and the finish reason completed or policy-blocked, or it raises what the brain, the invoker
  or the composer raised.\<close>

theorem agent_run_ends:
  assumes "0 \<le> tp_max_total_calls (aq_policy q)"
    and "4 * effective_max_calls (aq_policy q) (aq_max_tool_calls q) (aq_allow_tool_calls q) + 4 \<le> int limit"
  shows "case orchestrate True agent model limit q ck w of
      (Inr result, _) \<Rightarrow> ar_answer result \<noteq> [] \<and> ar_finish_reason result \<in> {COMPLETED, POLICY_BLOCKED}
    | (Inl e, _) \<Rightarrow> external_failure (request_context q) e"
proof -
  obtain out r where run: "request_run limit q ck w = (out, r)" by fastforce
  note ends = run_terminates[OF initial_inv[OF assms(1)], of ck w limit]
  have budget: "tb_remaining (rn_budget (initial_run ck (aq_policy q) (aq_max_tool_calls q) (aq_allow_tool_calls q) w))
      = effective_max_calls (aq_policy q) (aq_max_tool_calls q) (aq_allow_tool_calls q)"
    by (simp add: initial_run_def)
  show ?thesis
  proof (cases out)
    case (Goto m)
    then have "answer_inv (ck_messages ck) (gc_query (aq_context q)) Finished r"
      using answer_run[of limit q ck w m r] run by simp
    then show ?thesis using run Goto
      by (auto simp: orchestrate_def run_result_def answer_inv_def Let_def split: option.splits)
  next
    case (Raised e)
    then show ?thesis using ends run assms(2) budget by (simp add: orchestrate_def request_run_def)
  qed
qed

theorem agent_run_ends_witness:
  "case orchestrate True ''a'' ''m'' 10 (sample_agent_request ''asset status'') empty_checkpoint () of
      (Inr result, _) \<Rightarrow> ar_answer result \<noteq> [] \<and> ar_finish_reason result \<in> {COMPLETED, POLICY_BLOCKED}
    | (Inl e, _) \<Rightarrow> external_failure (request_context (sample_agent_request ''asset status'')) e"
  by (rule agent_run_ends) (simp_all add: sample_agent_request_def effective_max_calls_def)

text \<open>C12. A request the deterministic rules answer is carried out exactly: when the tools they name are
  read tools and the invoker answers under the name it was called by, a run that returns is completed,
  never blocked; it has called the named tool with the extracted payload and nothing else, as often as the
  limits allow (not at all for a direct response or a tool that is not offered); and its answer is the
  composer's rendering of the evidence of those calls, or the brain's when there were none.\<close>

theorem deterministic_request_run:
  assumes "request_run limit q ck w = (Goto m, r)" and "0 \<le> tp_max_total_calls (aq_policy q)"
    and "resolve_intent (gc_query (aq_context q)) = Some res"
    and "names_its_calls (aq_context q)" and "target_read_only (aq_context q) res"
  shows "rn_calls r = (case ir_tool_name res of None \<Rightarrow> []
      | Some t \<Rightarrow> if t \<in> tdr_name ` set (allowed_tools (aq_policy q) (gc_tools (aq_context q)))
          then replicate (nat (min (effective_max_calls (aq_policy q) (aq_max_tool_calls q) (aq_allow_tool_calls q))
                 (tp_max_calls_per_tool (aq_policy q)))) (t, ir_payload res)
          else [])
    \<and> answered (aq_context q) r"
  using assms by (rule deterministic_request_core)

theorem deterministic_request_run_witness:
  "\<exists>m r. request_run 10 (sample_agent_request ''asset status'') empty_checkpoint () = (Goto m, r)
     \<and> rn_calls r = [(''get_asset_status'', [])]"
proof -
  let ?q = "sample_agent_request ''asset status''"
  obtain r where r: "request_run 10 ?q empty_checkpoint () = (Goto Finished, r)"
    using sample_agent_run by (metis prod.collapse)
  have q: "names_its_calls (aq_context ?q)"
    "target_read_only (aq_context ?q) \<lparr>ir_intent = GET_ASSET_STATUS, ir_tool_name = Some ''get_asset_status'', ir_payload = []\<rparr>"
    "gc_query (aq_context ?q) = ''asset status''" "0 \<le> tp_max_total_calls (aq_policy ?q)"
    by (auto simp: sample_agent_defs names_its_calls_def target_read_only_def)
  then show ?thesis
    using deterministic_request_run[OF r q(4) _ q(1,2)] asset_request r
    by (auto simp: sample_agent_defs effective_max_calls_def)
qed

text \<open>What a conversation remembers of a turn: a run that returns leaves its messages as they were or
  appends the request and its answer; after a policy block it leaves them as they were, so that the
  blocked turn is not in the history the planner sees next.\<close>

theorem messages_after_run:
  assumes "request_run limit q ck w = (Goto m, r)"
  shows "(gs_messages (rn_state r) = ck_messages ck
      \<or> gs_messages (rn_state r) = ck_messages ck @ [HumanMessage (gc_query (aq_context q)), AIMessage (gs_answer (rn_state r))])
    \<and> (gs_finish_reason (rn_state r) = Some POLICY_BLOCKED \<longrightarrow> gs_messages (rn_state r) = ck_messages ck)"
  using answer_run[OF assms] by (auto simp: answer_inv_def Let_def)

theorem messages_after_run_witness:
  "\<exists>m r. request_run 10 (sample_agent_request ''asset status'') empty_checkpoint () = (Goto m, r)
     \<and> length (gs_messages (rn_state r)) \<in> {0, 2}"
proof -
  obtain r where r: "request_run 10 (sample_agent_request ''asset status'') empty_checkpoint () = (Goto Finished, r)"
    using sample_agent_run by (metis prod.collapse)
  then show ?thesis using messages_after_run[OF r] by (auto simp: empty_checkpoint_def)
qed

text \<open>C14. The working set stays small and clean: over any run, also one that raises, a checkpoint whose
  working set holds at most 32 distinct entities of the known fields, each with an identifier of 1 to 128
  characters, is replaced by one of the same kind.\<close>

theorem working_set_bounded:
  assumes "working_set_ok (ck_working_set ck)"
  shows "working_set_ok (ck_working_set (fst (snd (orchestrate started agent model limit q ck w))))"
proof -
  obtain out r where run: "request_run limit q ck w = (out, r)" by fastforce
  let ?I = "\<lambda>n r. working_set_ok (gs_working_set (rn_state r))"
  have "?I n r \<and> (\<forall>m. out = Goto m \<longrightarrow> ?I Finished r)" for n
  proof (rule run_graph_induct[where I = ?I and Q = "?I n"])
    show "?I ClassifyIntent (initial_run ck (aq_policy q) (aq_max_tool_calls q) (aq_allow_tool_calls q) w)"
      using merge_working_sets_ok[OF assms] by (simp add: initial_run_def initial_state_def)
    show "run_graph (request_context q) limit ClassifyIntent
        (initial_run ck (aq_policy q) (aq_max_tool_calls q) (aq_allow_tool_calls q) w) = (out, r)"
      using run by (simp add: request_run_def)
  qed (auto intro: working_set_step)
  then show ?thesis using assms run
    by (auto simp: orchestrate_def saved_checkpoint_def split: step_outcome.splits)
qed

theorem working_set_bounded_witness:
  "working_set_ok (ck_working_set (fst (snd (orchestrate True ''a'' ''m'' 10 (sample_agent_request ''asset status'') empty_checkpoint ()))))"
  by (rule working_set_bounded) (simp add: working_set_ok_def empty_checkpoint_def MAX_WORKING_SET_ENTITIES_def)

end
