(* ===== verification/Tool_Runtime.thy ===== *)
theory Tool_Runtime
  imports Operations Agent_Runs
begin

section \<open>The tool runtime and the agent over it\<close>

text \<open>
  \<open>GatewayToolRuntime\<close> of
  \<open>src/app/modules/assistant/infrastructure/tool_runtime/gateway_runtime.py\<close> with
  \<open>build_tool_gateway\<close> of \<open>tool_gateway/wiring.py\<close>: the descriptors an actor is offered, and the call
  of a tool through a gateway of its own. The interface the agent graph relies on is the locale
  \<open>tool_service\<close>; the runtime provides it. The interface of the planning model is \<open>confident_planner\<close>,
  provided by \<open>AgentBrain\<close>.
\<close>

subsection \<open>The runtime\<close>

record 'w tool_runtime =
  trt_registry :: "'w registry"
  trt_allow_write_tools :: bool

definition build_tool_gateway :: "'w registry \<Rightarrow> bool \<Rightarrow> 'w gateway" where
  "build_tool_gateway registry allow_write_tools = \<lparr>gw_registry = registry,
     gw_approval_service = Some allow_write_tools, gw_rate_limiter = True\<rparr>"

definition usable_site_scope :: "'w tool_definition \<Rightarrow> authorization_context \<Rightarrow> bool" where
  "usable_site_scope tool c \<longleftrightarrow> td_site_code_field tool = None \<or> ac_global_scope c \<or> ac_site_codes c \<noteq> []"

definition describe_tool :: "'w tool_definition \<Rightarrow> tool_descriptor" where
  "describe_tool tool = \<lparr>tdr_name = td_name tool, tdr_description = td_description tool, tdr_input_hint = None,
     tdr_input_schema = im_schema (td_input_model tool), tdr_site_code_field = td_site_code_field tool,
     tdr_is_mutating = (td_side_effect_type tool = WRITE)\<rparr>"

definition list_tools :: "'w tool_runtime \<Rightarrow> authorization_context \<Rightarrow> tool_descriptor list result" where
  "list_tools rt c = rmap concat (traverse
     (\<lambda>reg. let tool = tr_definition reg in
        rmap (\<lambda>allowed. if allowed \<and> usable_site_scope tool c then [describe_tool tool] else [])
          (can c (td_required_permission tool) None))
     (list_registrations (trt_registry rt)))"

text \<open>The session is committed whether or not the gateway raises, so its effects stay in both cases.
  The clock a call reads is part of the state it starts in.\<close>

definition runtime_invoke ::
  "'w tool_runtime \<Rightarrow> ('w gateway_state \<Rightarrow> call_env) \<Rightarrow> authorization_context \<Rightarrow> string \<Rightarrow> dict
     \<Rightarrow> 'w gateway_state \<Rightarrow> tool_call_record result \<times> 'w gateway_state" where
  "runtime_invoke rt env c name payload s =
     invoke (build_tool_gateway (trt_registry rt) (trt_allow_write_tools rt)) (env s) name payload c s"

text \<open>The runtime the assistant module builds from its tools.\<close>

definition module_registry :: "'w tool_registration list \<Rightarrow> 'w registry" where
  "module_registry tools = (case register_all [] tools of Inr r \<Rightarrow> r | Inl _ \<Rightarrow> [])"

definition module_runtime :: "'w tool_registration list \<Rightarrow> bool \<Rightarrow> 'w tool_runtime" where
  "module_runtime tools allow = \<lparr>trt_registry = module_registry tools, trt_allow_write_tools = allow\<rparr>"

lemma module_registry_ok: "registry_ok (module_registry tools)"
proof (cases "register_all [] tools")
  case (Inr r)
  have "registry_ok ([] :: 'a registry)" by (simp add: registry_ok_def)
  then show ?thesis using register_all_ok[OF _ Inr] Inr by (simp add: module_registry_def)
qed (simp add: module_registry_def registry_ok_def)

subsection \<open>What a call returns\<close>

lemma check_and_run_record:
  assumes "check_and_run gw env reg name c (uuid_str (ac_user_id c)) vp s = (Inr t, s')"
  shows "tcr_tool_name t = td_name (tr_definition reg) \<and> tcr_evidence t \<noteq> []"
  using assms
proof (cases rule: check_and_run_cases)
  case (limited v reason)
  then show ?thesis by (simp add: rate_limited_record_def)
next
  case (passed s1)
  then show ?thesis using approve_and_run_audit[OF passed(4)] by blast
qed simp_all

lemma invoke_record:
  assumes "invoke gw env name payload c s = (Inr t, s')" and "registry_ok (gw_registry gw)"
  shows "tcr_tool_name t = name \<and> tcr_evidence t \<noteq> []"
  using assms(1)
proof (cases rule: Gateway.invoke_cases)
  case (checked reg scoped vp)
  then show ?thesis using check_and_run_record[OF checked(4)] registry_get_in[OF assms(2) checked(1)] by simp
qed simp

subsection \<open>The interface of the agent to its tools\<close>

definition calls_evidenced :: "'w agent_run \<Rightarrow> bool" where
  "calls_evidenced r \<longleftrightarrow> (\<forall>c \<in> set (gs_tool_calls (rn_state r)). tcr_evidence c \<noteq> [])
     \<and> (\<forall>c. gs_pending_call (rn_state r) = Some c \<longrightarrow> tcr_evidence c \<noteq> [])"

locale tool_service =
  fixes call :: "string \<Rightarrow> dict \<Rightarrow> 'w \<Rightarrow> tool_call_record result \<times> 'w"
  assumes named: "call t p w = (Inr c, w') \<Longrightarrow> tcr_tool_name c = t"
    and evidenced: "call t p w = (Inr c, w') \<Longrightarrow> tcr_evidence c \<noteq> []"
begin

lemma names_calls: "gc_invoker ctx = call \<Longrightarrow> names_its_calls ctx"
  by (auto simp: names_its_calls_def named)

lemma evidenced_step:
  assumes "calls_evidenced r" and "graph_step ctx n r = (out, r')" and "gc_invoker ctx = call"
  shows "calls_evidenced r'"
proof (cases n)
  case ClassifyIntent
  then show ?thesis using assms
    by (auto simp: classify_intent_def calls_evidenced_def Let_def split: prod.splits sum.splits)
next
  case PlanAction
  have rt: "calls_evidenced r'" if "route a r1 = (out, r')" and "rn_state r1 = rn_state r" for a r1
    using that assms(1) by (auto simp: route_def calls_evidenced_def split: if_splits option.splits list.splits)
  then show ?thesis using assms PlanAction
    by (auto simp: plan_action_def plan_deterministic_def plan_with_model_def calls_evidenced_def Let_def
        split: option.splits if_splits prod.splits sum.splits)
next
  case ToolCall
  have rc: "calls_evidenced r'" if "run_call ctx t p r1 = (out, r')" and "rn_state r1 = rn_state r" for t p r1
    using that assms(1,3) evidenced
    by (auto simp: run_call_def block_run_def calls_evidenced_def Let_def split: prod.splits sum.splits if_splits)
  then show ?thesis using assms(1,2) ToolCall
    by (auto simp: invoke_tool_def block_run_def Let_def calls_evidenced_def
        split: option.splits if_splits semantic_result.splits)
next
  case ObserveResult
  then show ?thesis using assms
    by (auto simp: observe_result_def calls_evidenced_def split: option.splits sum.splits)
qed (use assms in \<open>auto simp: decide_next_step_def respond_def finish_answer_def calls_evidenced_def Let_def
    split: prod.splits sum.splits if_splits\<close>)

text \<open>A run that made recorded calls has evidence to answer from and to store.\<close>

lemma run_evidenced:
  assumes "request_run limit q ck w = (out, r)" and "gc_invoker (aq_context q) = call"
  shows "gs_tool_calls (rn_state r) \<noteq> [] \<Longrightarrow> call_evidence (gs_tool_calls (rn_state r)) \<noteq> []"
proof -
  have ctx: "gc_invoker (request_context q) = call" using assms(2) by (simp add: request_context_def)
  have "calls_evidenced r \<and> (\<forall>m. out = Goto m \<longrightarrow> calls_evidenced r)"
  proof (rule run_graph_induct[where I = "\<lambda>n. calls_evidenced" and Q = calls_evidenced])
    show "calls_evidenced (initial_run ck (aq_policy q) (aq_max_tool_calls q) (aq_allow_tool_calls q) w)"
      by (simp add: calls_evidenced_def initial_run_def initial_state_def)
    show "run_graph (request_context q) limit ClassifyIntent
        (initial_run ck (aq_policy q) (aq_max_tool_calls q) (aq_allow_tool_calls q) w) = (out, r)"
      using assms(1) by (simp add: request_run_def)
  qed (auto intro: evidenced_step[OF _ _ ctx])
  then show "gs_tool_calls (rn_state r) \<noteq> [] \<Longrightarrow> call_evidence (gs_tool_calls (rn_state r)) \<noteq> []"
    by (cases "gs_tool_calls (rn_state r)") (auto simp: calls_evidenced_def call_evidence_def)
qed

end

lemma runtime_record:
  "runtime_invoke (module_runtime tools allow) env c name payload s = (Inr t, s') \<Longrightarrow>
     tcr_tool_name t = name \<and> tcr_evidence t \<noteq> []"
  unfolding runtime_invoke_def
  by (erule invoke_record) (simp add: build_tool_gateway_def module_runtime_def module_registry_ok)

interpretation gateway_runtime: tool_service "runtime_invoke (module_runtime tools allow) env c"
  by unfold_locales (simp_all add: runtime_record)

subsection \<open>The interface of the agent to its planning model\<close>

text \<open>A planner proposes a tool call only with a confidence it states, at least the threshold and at most
  one. The client: every decision event for a tool call of the model carries it, and there is such an
  event, of the model or of the deterministic rules, for every call made.\<close>

definition confident :: "rat option \<Rightarrow> bool" where
  "confident c \<longleftrightarrow> (\<exists>x. c = Some x \<and> MIN_TOOL_DECISION_CONFIDENCE \<le> x \<and> x \<le> 1)"

definition plans_call :: "decision_event \<Rightarrow> bool" where
  "plans_call ev \<longleftrightarrow> de_stage ev = PLANNING \<and> de_action ev = Some ''tool_call''"

definition plans_confident :: "'w agent_run \<Rightarrow> bool" where
  "plans_confident r \<longleftrightarrow> (\<forall>ev \<in> set (rn_events r). plans_call ev \<longrightarrow> confident (de_confidence ev))"

definition planned_calls :: "'w agent_run \<Rightarrow> nat" where
  "planned_calls r = length (filter plans_call (rn_events r))"

lemma action_value_call: "agent_action_value a = ''tool_call'' \<longleftrightarrow> a = Tool_Call_Action"
  by (cases a) simp_all

lemma threshold_below_one: "MIN_TOOL_DECISION_CONFIDENCE \<le> 1"
  by (simp add: MIN_TOOL_DECISION_CONFIDENCE_def)

definition planned_before :: "node \<Rightarrow> 'w agent_run \<Rightarrow> bool" where
  "planned_before n r \<longleftrightarrow> plans_confident r
     \<and> (if n = ToolCall then length (rn_calls r) < planned_calls r else length (rn_calls r) \<le> planned_calls r)"

lemma record_planning:
  "route a (record_decision ev r) = (Goto m, r') \<Longrightarrow> planned_before PlanAction r \<Longrightarrow> de_stage ev = PLANNING \<Longrightarrow>
     (plans_call ev \<longrightarrow> confident (de_confidence ev)) \<Longrightarrow> (pa_action a = Tool_Call_Action \<longrightarrow> plans_call ev) \<Longrightarrow>
     planned_before m r'"
  by (auto simp: planned_before_def plans_confident_def planned_calls_def record_decision_def route_def set_state_def
      split: if_splits)

locale confident_planner =
  fixes br :: "'w brain"
  assumes plan_confident: "br_plan br v w = (Inr a, w') \<Longrightarrow> pa_action a = Tool_Call_Action \<Longrightarrow> confident (pa_confidence a)"
begin

lemma plan_step:
  assumes "planned_before PlanAction r" and "plan_action ctx r = (Goto m, r')" and br: "gc_brain ctx = br"
  shows "planned_before m r'"
proof (cases "resolve_intent (gc_query ctx)")
  case (Some res)
  then show ?thesis using assms(1,2)
    by (auto simp: plan_action_def plan_deterministic_def planning_event_def plans_call_def confident_def
        bare_action_def threshold_below_one Let_def split: option.splits if_splits
        elim!: record_planning[OF _ assms(1)])
next
  case None
  show ?thesis
  proof (cases "callable_tools ctx r = []")
    case True
    then show ?thesis using None assms(1,2)
      by (auto simp: plan_action_def planning_event_def plans_call_def bare_action_def
          elim!: record_planning[OF _ assms(1)])
  next
    case False
    obtain res w where p: "br_plan br (agent_state ctx (callable_tools ctx r) r) (rn_world r) = (res, w)"
      by fastforce
    then obtain a where a: "res = Inr a"
      using None False assms(2) br by (cases res) (auto simp: plan_action_def plan_with_model_def)
    have w: "planned_before PlanAction (r\<lparr>rn_world := w\<rparr>)"
      using assms(1) by (simp add: planned_before_def plans_confident_def planned_calls_def)
    show ?thesis using None False assms(2) br p a plan_confident[OF p[unfolded a]]
      by (auto simp: plan_action_def plan_with_model_def planning_event_def plans_call_def action_value_call Let_def
          elim!: record_planning[OF _ w])
  qed
qed

lemma planned_step:
  assumes "planned_before n r" and "n \<noteq> Finished" and "graph_step ctx n r = (Goto m, r')" and br: "gc_brain ctx = br"
  shows "planned_before m r'"
proof (cases n)
  case ClassifyIntent
  then show ?thesis using assms
    by (auto simp: classify_intent_def planned_before_def plans_confident_def planned_calls_def set_state_def Let_def
        split: prod.splits sum.splits)
next
  case PlanAction
  then show ?thesis using plan_step assms by simp
next
  case ToolCall
  then show ?thesis using assms
    by (auto simp: invoke_tool_def run_call_def block_run_def planned_before_def plans_confident_def planned_calls_def
        set_state_def record_decision_def call_event_def plans_call_def Let_def
        split: option.splits if_splits semantic_result.splits prod.splits sum.splits)
next
  case ObserveResult
  then show ?thesis using assms
    by (auto simp: observe_result_def planned_before_def plans_confident_def planned_calls_def set_state_def
        split: option.splits sum.splits)
next
  case DecideNextStep
  then show ?thesis using assms by (auto simp: decide_next_step_def planned_before_def split: if_splits)
next
  case RespondNode
  then show ?thesis using assms
    by (auto simp: respond_def finish_answer_def planned_before_def plans_confident_def planned_calls_def set_state_def Let_def
        split: if_splits prod.splits sum.splits)
qed (use assms in simp)

lemma planned_run:
  assumes "request_run limit q ck w = (Goto m, r)" and "gc_brain (aq_context q) = br"
  shows "planned_before Finished r"
proof -
  have br: "gc_brain (request_context q) = br" using assms(2) by (simp add: request_context_def)
  have "True \<and> (\<forall>m'. Goto m = Goto m' \<longrightarrow> planned_before Finished r)"
  proof (rule run_graph_induct[where I = planned_before and Q = "\<lambda>_. True"])
    show "planned_before ClassifyIntent (initial_run ck (aq_policy q) (aq_max_tool_calls q) (aq_allow_tool_calls q) w)"
      by (simp add: planned_before_def plans_confident_def initial_run_def)
    show "run_graph (request_context q) limit ClassifyIntent
        (initial_run ck (aq_policy q) (aq_max_tool_calls q) (aq_allow_tool_calls q) w) = (Goto m, r)"
      using assms(1) by (simp add: request_run_def)
  qed (auto intro: planned_step[OF _ _ _ br])
  then show ?thesis by simp
qed

end

lemma decision_confident:
  assumes "validate_decision parse d = Inr d'" and "planned_action_from_decision parse d' = Inr a"
    and "pa_action a = Tool_Call_Action"
  shows "confident (pa_confidence a)"
proof -
  have d: "d' = d" "decision_fields_ok d"
    using assms(1) by (auto simp: validate_decision_def validate_action_fields_def rmap_Inr_iff split: if_splits)
  have "\<not> ad_confidence d < MIN_TOOL_DECISION_CONFIDENCE" and "pa_confidence a = Some (ad_confidence d)"
    using assms(2,3) unfolding d(1)
    by (auto simp: planned_action_from_decision_def described_action_def bare_action_def rmap_Inr_iff Let_def
        split: if_splits)
  then show ?thesis using d(2) by (simp add: confident_def decision_fields_ok_def)
qed

interpretation model_brain: confident_planner "agent_brain parse decide answer"
proof
  fix v w a w'
  assume "br_plan (agent_brain parse decide answer) v w = (Inr a, w')" and "pa_action a = Tool_Call_Action"
  then show "confident (pa_confidence a)"
    by (auto simp: agent_brain_def rbind_Inr_iff Let_def split: prod.splits intro: decision_confident)
qed

subsection \<open>What is offered\<close>

lemma module_registry_set: "register_all [] tools = Inr reg \<Longrightarrow> set (list_registrations (module_registry tools)) = set tools"
  using list_registrations_set[OF module_registry_ok, of tools] register_all_set[of "[]" tools reg]
  by (simp add: module_registry_def)

definition offered_to :: "authorization_context \<Rightarrow> 'w tool_definition \<Rightarrow> bool" where
  "offered_to c tool \<longleftrightarrow> can c (td_required_permission tool) None = Inr True \<and> usable_site_scope tool c"

lemma concat_offers:
  assumes "traverse (\<lambda>reg. let tool = tr_definition reg in
      rmap (\<lambda>allowed. if allowed \<and> usable_site_scope tool c then [describe_tool tool] else [])
        (can c (td_required_permission tool) None)) regs = Inr dss"
  shows "concat dss = map describe_tool (filter (offered_to c) (map tr_definition regs))"
  using assms
proof (induction regs arbitrary: dss)
  case (Cons g regs)
  then show ?case by (auto simp: rbind_Inr_iff rmap_Inr_iff offered_to_def Let_def)
qed simp

lemma list_tools_Inr:
  "list_tools rt c = Inr ds \<Longrightarrow>
     ds = map describe_tool (filter (offered_to c) (map tr_definition (list_registrations (trt_registry rt))))"
  unfolding list_tools_def rmap_Inr_iff using concat_offers by blast

lemma operations_descriptors:
  assumes "list_tools (module_runtime (operations_tools m now) allow) c = Inr ds" and "d \<in> set ds" and "tdr_is_mutating d"
  shows "tdr_name d = ''write_work_order_status''"
proof -
  obtain reg where reg: "register_all [] (operations_tools m now) = Inr reg" using operations_tools_register by blast
  obtain g where "g \<in> set (operations_tools m now)" "d = describe_tool (tr_definition g)"
    using list_tools_Inr[OF assms(1)] assms(2) module_registry_set[OF reg] by (auto simp: module_runtime_def)
  then show ?thesis using assms(3)
    by (auto simp: operations_tools_def build_get_work_orders_tool_def build_get_asset_status_tool_def
        build_get_maintenance_tickets_tool_def build_get_spare_parts_availability_tool_def
        build_get_production_schedule_tool_def build_write_work_order_status_tool_def read_tool_def
        describe_tool_def Let_def)
qed

lemma operations_target_read_only:
  assumes "list_tools (module_runtime (operations_tools m now) allow) c = Inr (gc_tools ctx)"
    and "resolve_intent query = Some res"
  shows "target_read_only ctx res"
  unfolding target_read_only_def
proof (intro ballI impI notI)
  fix d assume d: "d \<in> set (gc_tools ctx)" "ir_tool_name res = Some (tdr_name d)" "tdr_is_mutating d"
  then show False
    using operations_descriptors[OF assms(1) d(1,3)] resolve_intent_cases[OF assms(2)] semantic_fields_known by auto
qed

subsection \<open>Properties\<close>

text \<open>An agent without write approval is read-only, whatever the model says: when its calls go through
  the runtime of the operations tools with write tools not allowed, and the model calls themselves do
  not touch the operations tables, no run changes them, for any request, actor, policy and limits.\<close>

theorem agent_reads_only:
  assumes "gc_invoker (aq_context q) = runtime_invoke (module_runtime (operations_tools m now) False) env c"
    and "gc_brain (aq_context q) = agent_brain parse decide answer"
    and "\<And>v s. gs_world (snd (decide v s)) = gs_world s" and "\<And>v s. gs_world (snd (answer v s)) = gs_world s"
    and "request_run limit q ck s = (out, r)"
  shows "gs_world (rn_world r) = gs_world s"
proof -
  obtain reg where reg: "register_all [] (operations_tools m now) = Inr reg" using operations_tools_register by blast
  let ?gw = "build_tool_gateway (module_registry (operations_tools m now)) False"
  have call: "gs_world (snd (runtime_invoke (module_runtime (operations_tools m now) False) env c t p s1)) = gs_world s1" for t p s1
    using operations_read_only_core[of m now ?gw "env s1" t p c s1] reg
    by (cases "invoke ?gw (env s1) t p c s1")
      (simp add: runtime_invoke_def module_runtime_def build_tool_gateway_def module_registry_def)
  have ctx: "gc_brain (request_context q) = agent_brain parse decide answer"
    "gc_invoker (request_context q) = runtime_invoke (module_runtime (operations_tools m now) False) env c"
    using assms(1,2) by (simp_all add: request_context_def)
  show ?thesis
  proof (rule run_world_inv[where P = "\<lambda>s1. gs_world s1 = gs_world s", OF assms(5)[unfolded request_run_def]])
    show "gs_world (snd (br_plan (gc_brain (request_context q)) v w)) = gs_world s" if "gs_world w = gs_world s" for v w
      using that assms(3)[of v w] by (simp add: ctx agent_brain_def split_def Let_def)
    show "gs_world (snd (br_respond (gc_brain (request_context q)) v w)) = gs_world s" if "gs_world w = gs_world s" for v w
      using that assms(4)[of v w] by (simp add: ctx agent_brain_def split_def Let_def)
  qed (simp_all add: ctx agent_brain_def call initial_run_def)
qed

text \<open>A recognised operations question is answered from the data: for a request the deterministic
  rules answer, offered the tools the runtime lists for the actor and with its calls going through that
  runtime, a run that returns is completed and has called the named tool with the extracted payload as
  often as the limits allow, if the actor is offered it and the policy names it, and nothing else; its
  calls carry evidence, and the answer is the composer's text over that evidence.\<close>

theorem operations_question_answered:
  assumes "list_tools (module_runtime (operations_tools m now) allow) c = Inr (gc_tools (aq_context q))"
    and "gc_invoker (aq_context q) = runtime_invoke (module_runtime (operations_tools m now) allow) env c"
    and "resolve_intent (gc_query (aq_context q)) = Some res" and "ir_tool_name res = Some t"
    and "request_run limit q ck s = (Goto n, r)" and "0 \<le> tp_max_total_calls (aq_policy q)"
  shows "rn_calls r = (if t \<in> tp_allowed_tool_names (aq_policy q) \<and> t \<in> tdr_name ` set (gc_tools (aq_context q))
      then replicate (nat (min (effective_max_calls (aq_policy q) (aq_max_tool_calls q) (aq_allow_tool_calls q))
             (tp_max_calls_per_tool (aq_policy q)))) (t, ir_payload res) else [])
    \<and> gs_finish_reason (rn_state r) = Some COMPLETED
    \<and> (gs_tool_calls (rn_state r) \<noteq> [] \<longrightarrow> call_evidence (gs_tool_calls (rn_state r)) \<noteq> []
         \<and> (\<exists>composed. compose (gc_repr (aq_context q)) (gc_query (aq_context q)) (call_evidence (gs_tool_calls (rn_state r)))
                = Inr composed \<and> gs_answer (rn_state r) = shown_text (cr_answer composed)))"
proof -
  have hyps: "names_its_calls (aq_context q)" "target_read_only (aq_context q) res"
    using gateway_runtime.names_calls[OF assms(2)] operations_target_read_only[OF assms(1,3)] by auto
  have mem: "t \<in> tdr_name ` set (allowed_tools (aq_policy q) ds) \<longleftrightarrow>
      t \<in> tp_allowed_tool_names (aq_policy q) \<and> t \<in> tdr_name ` set ds" for ds
    by (auto simp: allowed_tools_def)
  note core = deterministic_request_core[OF assms(5,6,3) hyps, unfolded assms(4) option.case mem]
  show ?thesis
    using core gateway_runtime.run_evidenced[OF assms(5,2)] by (simp add: answered_def Let_def)
qed

text \<open>The model acts only when it is confident: with \<open>AgentBrain\<close> as the brain, every planning event for
  a tool call states a confidence from the threshold 0.8 to 1, and a run that returns has such an event
  for each call it made.\<close>

theorem model_calls_confident:
  assumes "request_run limit q ck w = (Goto m, r)" and "gc_brain (aq_context q) = agent_brain parse decide answer"
  shows "(\<forall>ev \<in> set (rn_events r). plans_call ev \<longrightarrow> confident (de_confidence ev))
    \<and> length (rn_calls r) \<le> length (filter plans_call (rn_events r))"
  using model_brain.planned_run[OF assms]
  by (simp add: planned_before_def plans_confident_def planned_calls_def)

text \<open>The agent is offered exactly the tools the actor may use: of the registered tools those whose
  permission the actor holds and for whose site field, if any, the actor has a usable scope, in name
  order, each flagged as mutating when it writes.\<close>

theorem offered_tools_exact:
  assumes "register_all [] tools = Inr reg" and "list_tools (module_runtime tools allow) c = Inr ds"
  shows "set ds = describe_tool ` {d \<in> tr_definition ` set tools. offered_to c d}
    \<and> sorted (map tdr_name ds)
    \<and> (\<forall>d \<in> set ds. \<exists>g \<in> set tools. tdr_name d = td_name (tr_definition g)
         \<and> can c (td_required_permission (tr_definition g)) None = Inr True
         \<and> (tdr_is_mutating d \<longleftrightarrow> td_side_effect_type (tr_definition g) = WRITE))"
proof -
  let ?regs = "list_registrations (module_registry tools)"
  have ds: "ds = map describe_tool (filter (offered_to c) (map tr_definition ?regs))"
    using list_tools_Inr[OF assms(2)] by (simp add: module_runtime_def)
  have regs: "set ?regs = set tools" by (rule module_registry_set[OF assms(1)])
  have 1: "set ds = describe_tool ` {d \<in> tr_definition ` set tools. offered_to c d}"
    unfolding ds by (auto simp: regs)
  have "tdr_name \<circ> describe_tool = (td_name :: 'a tool_definition \<Rightarrow> string)"
    by (rule ext) (simp add: describe_tool_def)
  moreover have "sorted (map td_name (map tr_definition ?regs))"
    using list_registrations_names[OF module_registry_ok, of tools] by (simp add: comp_def)
  then have "sorted (map td_name (filter (offered_to c) (map tr_definition ?regs)))" by (rule sorted_filter)
  ultimately have 2: "sorted (map tdr_name ds)" unfolding ds map_map by simp
  have "\<exists>g \<in> set tools. tdr_name d = td_name (tr_definition g)
         \<and> can c (td_required_permission (tr_definition g)) None = Inr True
         \<and> (tdr_is_mutating d \<longleftrightarrow> td_side_effect_type (tr_definition g) = WRITE)" if "d \<in> set ds" for d
    using that unfolding 1 by (auto simp: offered_to_def describe_tool_def)
  with 1 2 show ?thesis by blast
qed

subsection \<open>A sample run over the runtime\<close>

definition sample_runtime :: "operations_tables tool_runtime" where
  "sample_runtime = module_runtime (operations_tools sample_models 0) False"

abbreviation analyst :: authorization_context where
  "analyst \<equiv> sample_actor ''read_only_analyst'' [''S1'']"

definition runtime_request :: "string \<Rightarrow> tool_descriptor list \<Rightarrow> operations_tables gateway_state agent_request" where
  "runtime_request query tools = \<lparr>aq_context = \<lparr>
       gc_brain = agent_brain (\<lambda>_. Inr []) (\<lambda>_ w. (Inl (ExternalErr ''down''), w)) (\<lambda>_ w. (Inr ''hello'', w)),
       gc_actor = analyst, gc_tools = tools,
       gc_invoker = runtime_invoke (module_runtime (operations_tools sample_models 0) False) (\<lambda>_. sample_env) analyst,
       gc_retrieved = \<lparr>acx_blocks = [], acx_total_tokens = 0, acx_dropped = 0\<rparr>,
       gc_query = query, gc_conversation_id = None, gc_repr = (\<lambda>_. [])\<rparr>,
     aq_policy = \<lparr>tp_allowed_tool_names = {''get_asset_status''}, tp_max_total_calls = 1,
        tp_max_calls_per_tool = 1, tp_fail_on_policy_violation = True\<rparr>,
     aq_max_tool_calls = 1, aq_allow_tool_calls = True\<rparr>"

theorem agent_reads_only_witness:
  "gs_world (rn_world (snd (request_run 10 (runtime_request ''start WO-1 as open'' []) empty_checkpoint operations_state)))
     = gs_world operations_state"
  by (rule agent_reads_only[OF _ _ _ _ prod.collapse[symmetric]]) (simp add: runtime_request_def)+

theorem model_calls_confident_witness:
  "\<exists>m r. request_run 10 (sample_agent_request ''asset status'') empty_checkpoint () = (Goto m, r)
     \<and> length (rn_calls r) \<le> length (filter plans_call (rn_events r))"
proof -
  obtain r where r: "request_run 10 (sample_agent_request ''asset status'') empty_checkpoint () = (Goto Finished, r)"
    using sample_agent_run by (metis prod.collapse)
  have "gc_brain (aq_context (sample_agent_request ''asset status''))
      = agent_brain (\<lambda>_. Inr []) (\<lambda>_ w. (Inl (ExternalErr ''down''), w)) (\<lambda>_ w. (Inr ''hello'', w))"
    by (simp add: sample_agent_defs)
  from model_calls_confident[OF r this] r show ?thesis by blast
qed

lemma sample_call:
  "\<exists>t s'. runtime_invoke sample_runtime (\<lambda>_. sample_env) analyst
     ''get_asset_status'' [] operations_state = (Inr t, s')"
  by (simp add: runtime_invoke_def sample_runtime_def module_runtime_def module_registry_def build_tool_gateway_def
   operations_tools_def build_get_work_orders_tool_def build_get_asset_status_tool_def
      build_get_production_schedule_tool_def build_get_maintenance_tickets_tool_def
      build_get_spare_parts_availability_tool_def build_write_work_order_status_tool_def read_tool_def
      registry_register_def sample_defs sample_models_def try_consume_def consume_key_def current_counter_def
      READ_TOOL_RATE_LIMIT_def make_rate_limit_def operations_state_def read_handler_def get_asset_status_def check_permission_def
      sample_tables_def collection_to_evidence_def ASSETS_ADAPTER_def site_filter_def requested_limit_def
      applied_filters_def)


lemma sample_offer:
  "\<exists>ds. list_tools sample_runtime analyst = Inr ds \<and> (\<exists>d \<in> set ds. tdr_name d = ''get_asset_status'')"
  by (simp add: list_tools_def sample_runtime_def module_runtime_def module_registry_def
      operations_tools_def build_get_work_orders_tool_def build_get_asset_status_tool_def
      build_get_production_schedule_tool_def build_get_maintenance_tickets_tool_def
      build_get_spare_parts_availability_tool_def build_write_work_order_status_tool_def read_tool_def
      registry_register_def list_registrations_def sample_defs sample_models_def describe_tool_def
      usable_site_scope_def)

theorem offered_tools_exact_witness:
  "\<exists>ds. list_tools sample_runtime analyst = Inr ds \<and> sorted (map tdr_name ds)"
proof -
  obtain reg where reg: "register_all [] (operations_tools sample_models 0) = Inr reg"
    using operations_tools_register by blast
  obtain ds where ds: "list_tools sample_runtime analyst = Inr ds" using sample_offer by blast
  from offered_tools_exact[OF reg ds[unfolded sample_runtime_def]] ds show ?thesis by blast
qed

text \<open>The tools of the request, cut down by the policy to the one tool.\<close>

lemma sample_allowed:
  assumes "list_tools sample_runtime analyst = Inr ds" and "\<exists>d \<in> set ds. tdr_name d = ''get_asset_status''"
  shows "\<exists>d ds'. allowed_tools (aq_policy (runtime_request q tools)) ds = d # ds' \<and> tdr_name d = ''get_asset_status''
    \<and> \<not> tdr_is_mutating d"
proof -
  let ?xs = "allowed_tools (aq_policy (runtime_request q tools)) ds"
  have all: "tdr_name d = ''get_asset_status'' \<and> d \<in> set ds" if "d \<in> set ?xs" for d
    using that by (simp add: allowed_tools_def runtime_request_def)
  have "?xs \<noteq> []" using assms(2) by (auto simp: allowed_tools_def runtime_request_def filter_empty_conv)
  then obtain d ds' where xs: "?xs = d # ds'" by (cases ?xs) auto
  then have d: "tdr_name d = ''get_asset_status''" "d \<in> set ds" using all[of d] by simp_all
  have "\<not> tdr_is_mutating d"
    using operations_descriptors[OF assms(1)[unfolded sample_runtime_def] d(2)] d(1) by auto
  then show ?thesis using xs d by blast
qed

lemma sample_runtime_run:
  assumes "list_tools sample_runtime analyst = Inr ds" and "\<exists>d \<in> set ds. tdr_name d = ''get_asset_status''"
  shows "fst (request_run 10 (runtime_request ''asset status'' ds) empty_checkpoint operations_state) = Goto Finished"
proof -
  obtain d ds' where d: "allowed_tools (aq_policy (runtime_request ''asset status'' ds)) ds = d # ds'"
    "tdr_name d = ''get_asset_status''" "\<not> tdr_is_mutating d"
    using sample_allowed[OF assms] by blast
  obtain t s' where call: "runtime_invoke (module_runtime (operations_tools sample_models 0) False) (\<lambda>_. sample_env) analyst
     ''get_asset_status'' [] operations_state = (Inr t, s')"
    using sample_call unfolding sample_runtime_def by blast
  have t: "tcr_tool_name t = ''get_asset_status''" "tcr_evidence t \<noteq> []" using runtime_record[OF call] by simp_all
  have ok: "validate_tool_call_semantics (\<lambda>_. []) ''asset status'' d [] = Allowed"
    using deterministic_plan_core[OF asset_request, of d "\<lambda>_. []"] d by simp
  show ?thesis
    by (simp add: request_run_def request_context_def d(1)[unfolded runtime_request_def, simplified]
      runtime_request_def initial_run_def initial_state_def eval_nat_numeral
      classify_intent_def agent_brain_def asset_request plan_action_def plan_deterministic_def route_def
      callable_tools_def budget_can_call_def calls_of_def effective_max_calls_def invoke_tool_def
      bare_action_def run_call_def observe_result_def budget_record_def decide_next_step_def respond_def
      finish_answer_def compose_def call_evidence_def Let_def d(2) ok call t)
qed

theorem operations_question_answered_witness:
  "\<exists>ds n r. request_run 10 (runtime_request ''asset status'' ds) empty_checkpoint operations_state = (Goto n, r)
     \<and> rn_calls r = [(''get_asset_status'', [])] \<and> gs_finish_reason (rn_state r) = Some COMPLETED"
proof -
  obtain ds where ds: "list_tools sample_runtime analyst = Inr ds" "\<exists>d \<in> set ds. tdr_name d = ''get_asset_status''"
    using sample_offer by blast
  let ?q = "runtime_request ''asset status'' ds"
  obtain r where r: "request_run 10 ?q empty_checkpoint operations_state = (Goto Finished, r)"
    using sample_runtime_run[OF ds] by (metis prod.collapse)
  have "list_tools (module_runtime (operations_tools sample_models 0) False) analyst = Inr (gc_tools (aq_context ?q))"
    using ds(1) by (simp add: runtime_request_def sample_runtime_def)
  moreover have "gc_invoker (aq_context ?q)
      = runtime_invoke (module_runtime (operations_tools sample_models 0) False) (\<lambda>_. sample_env) analyst"
    by (simp add: runtime_request_def)
  moreover have "resolve_intent (gc_query (aq_context ?q))
     = Some \<lparr>ir_intent = GET_ASSET_STATUS, ir_tool_name = Some ''get_asset_status'', ir_payload = []\<rparr>"
    by (simp add: runtime_request_def asset_request)
  ultimately have "rn_calls r = (if ''get_asset_status'' \<in> tdr_name ` set ds then [(''get_asset_status'', [])] else [])"
    "gs_finish_reason (rn_state r) = Some COMPLETED"
    using operations_question_answered[OF _ _ _ _ r] by (auto simp: runtime_request_def effective_max_calls_def)
  then show ?thesis using r ds(2) by force
qed

end
