(* ===== verification/Wiring.thy ===== *)
theory Wiring
  imports Configuration Lifecycle Users Tool_Runtime Facts
begin

section \<open>The wiring of the application\<close>

text \<open>
  \<open>Container.build\<close> of \<open>src/app/container.py\<close> with \<open>build_documents_module\<close>, \<open>build_assistant_module\<close>,
  \<open>build_langgraph_agent_orchestrator\<close>, \<open>OperationsModule.tools\<close> and \<open>UsersModule.tools\<close>: which components the settings
  and the objects handed in lead to, with which parameters, and in which order the container manages them. Objects handed in
  have numbers for their identities; objects the code makes are named by what they are made from. Making a client of an
  external service (Azure, Kafka, Pinecone, the chat and embedding models) is not a step of the model.
\<close>

subsection \<open>Objects\<close>

datatype saver_ref = Given_Saver nat | Postgres_Saver string

datatype blob_ref = Given_Blob nat | Azure_Blob string string

datatype orchestrator_ref = Given_Orchestrator nat | Graph_Orchestrator "saver_ref option"

datatype store_ref = Given_Store nat | Database_Store int | In_Memory_Store nat

datatype runtime_ref = Given_Runtime nat | Gateway_Runtime

datatype provider_ref = Recent_Turns | User_Memories int | Document_Recall int

datatype managed =
    Given_Resource nat
  | Checkpointer_Resource string
  | Orchestrator_Resource "saver_ref option"
  | Retention_Resource int int "saver_ref option"
  | Sync_Resource int
  | Reconciliation_Resource "string list"
  | Memory_Retention_Resource int
  | Consolidation_Resource int int int "string list" "(string \<times> string) list"
  | Blob_Resource string string
  | Outbox_Resource int int
  | Ingestion_Resource blob_ref int int int string

text \<open>The arguments of \<open>Container.build\<close>, with what the code asks of an object: \<open>isinstance\<close> of \<open>ManagedResource\<close> and of
  \<open>BlobDownloaderPort\<close>.\<close>

record given =
  gi_blob_storage :: "nat option"
  gi_tool_runtime :: "nat option"
  gi_orchestrator :: "nat option"
  gi_conversation_store :: "nat option"
  gi_tool_policy :: "tool_call_policy option"
  gi_checkpointer :: "nat option"
  gi_managed_resources :: "nat list"
  gi_is_managed :: "nat \<Rightarrow> bool"
  gi_downloads :: "nat \<Rightarrow> bool"

subsection \<open>The documents module\<close>

record documents_module =
  dm_blob :: blob_ref
  dm_topic :: string
  dm_policy :: upload_policy
  dm_resources :: "managed list"

definition blob_storage_of :: "settings \<Rightarrow> given \<Rightarrow> blob_ref option result" where
  "blob_storage_of s g = (case gi_blob_storage g of
      Some b \<Rightarrow> Inr (Some (Given_Blob b))
    | None \<Rightarrow> if \<not> se_azure_blob_enabled s then Inr None
        else (case se_azure_blob_connection_string s of
            None \<Rightarrow> Inl (RuntimeErr ''azure_blob_connection_string is required when azure_blob_enabled is true'')
          | Some connection \<Rightarrow> Inr (Some (Azure_Blob connection (se_azure_blob_container_name s)))))"

fun blob_resource :: "given \<Rightarrow> blob_ref \<Rightarrow> managed list" where
  "blob_resource g (Given_Blob b) = (if gi_is_managed g b then [Given_Resource b] else [])"
| "blob_resource g (Azure_Blob connection name) = [Blob_Resource connection name]"

fun blob_downloads :: "given \<Rightarrow> blob_ref \<Rightarrow> bool" where
  "blob_downloads g (Given_Blob b) = gi_downloads g b"
| "blob_downloads g (Azure_Blob connection name) = True"

definition ingestion_resource :: "settings \<Rightarrow> blob_ref \<Rightarrow> managed" where
  "ingestion_resource s blob = Ingestion_Resource blob (se_document_chunk_tokens s) (se_document_chunk_overlap_tokens s)
     (se_document_ingestion_batch_size s) (se_kafka_documents_topic s)"

definition build_documents_module :: "settings \<Rightarrow> given \<Rightarrow> documents_module option result" where
  "build_documents_module s g = rbind (blob_storage_of s g) (\<lambda>storage. case storage of
      None \<Rightarrow> Inr None
    | Some blob \<Rightarrow>
        if se_document_ingestion_enabled s \<and> \<not> blob_downloads g blob
        then Inl (RuntimeErr ''document_ingestion_enabled requires blob download support'')
        else Inr (Some \<lparr>dm_blob = blob, dm_topic = se_kafka_documents_topic s,
          dm_policy = \<lparr>up_max_bytes = nat (se_documents_upload_max_bytes s), up_content_types = se_documents_allowed_content_types s\<rparr>,
          dm_resources = blob_resource g blob
            @ (if se_outbox_publisher_enabled s then [Outbox_Resource (se_outbox_publish_batch_size s) (se_outbox_max_retries s)] else [])
            @ (if se_document_ingestion_enabled s then [ingestion_resource s blob] else [])\<rparr>))"

subsection \<open>Searching the web\<close>

text \<open>The tool that searches the web; \<open>provider\<close> is \<open>WebSearchPort.search\<close>, and the two Pydantic models are parameters.\<close>

record web_search_query =
  wq_query :: string
  wq_max_results :: int
  wq_language :: "string option"
  wq_safe_search :: bool

record web_search_result =
  wr_title :: string
  wr_url :: string
  wr_snippet :: string
  wr_published_at :: "string option"

record search_models =
  sm_description :: string
  sm_input :: input_model
  sm_parse :: "dict \<Rightarrow> web_search_query result"
  sm_output :: output_model

type_synonym 'w search_provider = "'w \<Rightarrow> web_search_query \<Rightarrow> web_search_result list result"

definition dump_search_result :: "web_search_result \<Rightarrow> pyval" where
  "dump_search_result r = PDict [(''title'', PStr (wr_title r)), (''url'', PStr (wr_url r)), (''snippet'', PStr (wr_snippet r)),
     (''published_at'', opt_str (wr_published_at r))]"

definition search_handler :: "search_models \<Rightarrow> 'w search_provider \<Rightarrow> dict \<Rightarrow> 'w \<Rightarrow> dict result \<times> 'w" where
  "search_handler m provider payload w = (rmap (\<lambda>results. [(''tool_name'', PStr ''web_search''), (''results'', PList (map dump_search_result results))])
     (rbind (sm_parse m payload) (provider w)), w)"

definition build_web_search_tool :: "search_models \<Rightarrow> 'w search_provider \<Rightarrow> 'w tool_registration" where
  "build_web_search_tool m provider =
     \<lparr>tr_definition = \<lparr>td_name = ''web_search'', td_description = sm_description m, td_input_model = sm_input m, td_output_model = sm_output m,
        td_handler = search_handler m provider, td_required_permission = WEB_SEARCH, td_site_code_field = None, td_requires_approval = False,
        td_max_retries = 0, td_approval_scope = ''write'', td_rate_limit = Some \<lparr>rl_max_calls = 5, rl_window_seconds = 60\<rparr>,
        td_side_effect_type = READ\<rparr>, tr_result_adapter = None\<rparr>"

subsection \<open>The assistant module\<close>

record 'w assistant_module =
  am_registry :: "'w registry"
  am_runtime :: runtime_ref
  am_orchestrator :: orchestrator_ref
  am_policy :: tool_call_policy
  am_store :: store_ref
  am_providers :: "provider_ref list"
  am_budget :: int
  am_eraser :: "saver_ref option option"
  am_rederivable_terms :: "string list"

definition registered_tools :: "search_models \<Rightarrow> 'w tool_registration list \<Rightarrow> 'w search_provider option \<Rightarrow> 'w tool_registration list" where
  "registered_tools sm tools web_search = tools @ (case web_search of None \<Rightarrow> [] | Some provider \<Rightarrow> [build_web_search_tool sm provider])"

definition build_langgraph_agent_orchestrator :: "settings \<Rightarrow> saver_ref option \<Rightarrow> orchestrator_ref option" where
  "build_langgraph_agent_orchestrator s keeper = (if se_chat_api_key s = None then None else Some (Graph_Orchestrator keeper))"

definition wired_policy :: "'w tool_registration list \<Rightarrow> tool_call_policy" where
  "wired_policy tools = \<lparr>tp_allowed_tool_names = set (map (\<lambda>t. td_name (tr_definition t)) tools), tp_max_total_calls = 1,
     tp_max_calls_per_tool = 1, tp_fail_on_policy_violation = True\<rparr>"

definition wired_providers :: "settings \<Rightarrow> bool \<Rightarrow> provider_ref list" where
  "wired_providers s sessions = Recent_Turns # (if se_long_term_memory_enabled s \<and> sessions
     then User_Memories (se_long_term_recall_top_k s) #
       (if se_pinecone_api_key s \<noteq> None \<and> se_embedding_api_key s \<noteq> None then [Document_Recall (se_long_term_recall_top_k s)] else [])
     else [])"

text \<open>\<open>sessions\<close>: whether a session factory is given. The left side is the \<open>ValueError\<close> of the registry or of a missing session
  factory; without a chat key and an orchestrator there is no assistant.\<close>

definition build_assistant_module ::
  "('w tool_definition \<Rightarrow> string list) \<Rightarrow> search_models \<Rightarrow> settings \<Rightarrow> 'w tool_registration list \<Rightarrow> bool
     \<Rightarrow> 'w search_provider option \<Rightarrow> given \<Rightarrow> saver_ref option \<Rightarrow> 'w assistant_module option result" where
  "build_assistant_module fields_of sm s tools sessions web_search g keeper =
     (let registered = registered_tools sm tools web_search in
      (case (case gi_orchestrator g of Some i \<Rightarrow> Some (Given_Orchestrator i) | None \<Rightarrow> build_langgraph_agent_orchestrator s keeper) of
         None \<Rightarrow> Inr None
       | Some orchestrator \<Rightarrow>
         rbind (register_all [] registered) (\<lambda>registry.
         rbind (case gi_tool_runtime g of Some i \<Rightarrow> Inr (Given_Runtime i)
                | None \<Rightarrow> if sessions then Inr Gateway_Runtime
                    else Inl (ValueErr ''session_factory is required when tool_runtime is not provided'')) (\<lambda>runtime.
         Inr (Some \<lparr>am_registry = registry, am_runtime = runtime, am_orchestrator = orchestrator,
           am_policy = (case gi_tool_policy g of None \<Rightarrow> wired_policy registered | Some p \<Rightarrow> p),
           am_store = (case gi_conversation_store g of Some i \<Rightarrow> Given_Store i
                       | None \<Rightarrow> if sessions then Database_Store (se_short_term_retention_days s) else In_Memory_Store 12),
           am_providers = wired_providers s sessions, am_budget = se_context_budget_tokens s,
           am_eraser = (if se_long_term_memory_enabled s \<and> sessions \<and> se_pinecone_api_key s \<noteq> None then Some keeper else None),
           am_rederivable_terms = rederivable_fields fields_of registry\<rparr>)))))"

subsection \<open>The tools of all modules\<close>

text \<open>A tool acts on the tables of its module; lifted, it acts on those of both.\<close>

definition lift_tool :: "('w \<Rightarrow> 'v) \<Rightarrow> ('v \<Rightarrow> 'w \<Rightarrow> 'w) \<Rightarrow> 'v tool_registration \<Rightarrow> 'w tool_registration" where
  "lift_tool get put reg = (let d = tr_definition reg in
     \<lparr>tr_definition = \<lparr>td_name = td_name d, td_description = td_description d, td_input_model = td_input_model d,
        td_output_model = td_output_model d,
        td_handler = (\<lambda>payload w. case td_handler d payload (get w) of (r, v) \<Rightarrow> (r, put v w)),
        td_required_permission = td_required_permission d, td_site_code_field = td_site_code_field d,
        td_requires_approval = td_requires_approval d, td_max_retries = td_max_retries d, td_approval_scope = td_approval_scope d,
        td_rate_limit = td_rate_limit d, td_side_effect_type = td_side_effect_type d\<rparr>,
      tr_result_adapter = tr_result_adapter reg\<rparr>)"

type_synonym application_tables = "user_row list \<times> operations_tables"

record application_models =
  apm_auditor :: auditor_models
  apm_auditor_description :: string
  apm_operations :: operations_models
  apm_search :: search_models
  apm_fields :: "application_tables tool_definition \<Rightarrow> string list"

text \<open>\<open>(*users.tools, *operations.tools)\<close>, with the identifier and the times the handlers will read.\<close>

definition assistant_tools :: "application_models \<Rightarrow> uuid \<Rightarrow> datetime \<Rightarrow> application_tables tool_registration list" where
  "assistant_tools m fresh now =
     lift_tool fst (\<lambda>v w. (v, snd w)) (build_users_consistency_auditor_tool (apm_auditor_description m) (apm_auditor m) fresh now)
     # map (lift_tool snd (\<lambda>v w. (fst w, v))) (operations_tools (apm_operations m) now)"

subsection \<open>The container\<close>

record 'w application =
  ap_documents :: "documents_module option"
  ap_assistant :: "'w assistant_module option"
  ap_resources :: "managed list"

definition append_once :: "managed list \<Rightarrow> managed list \<Rightarrow> managed list" where
  "append_once new resources = foldl (\<lambda>rs r. if r \<in> set rs then rs else rs @ [r]) resources new"

fun saver_resource :: "given \<Rightarrow> saver_ref option \<Rightarrow> managed list" where
  "saver_resource g None = []"
| "saver_resource g (Some (Given_Saver i)) = (if gi_is_managed g i then [Given_Resource i] else [])"
| "saver_resource g (Some (Postgres_Saver url)) = [Checkpointer_Resource url]"

fun orchestrator_resource :: "given \<Rightarrow> orchestrator_ref \<Rightarrow> managed list" where
  "orchestrator_resource g (Given_Orchestrator i) = (if gi_is_managed g i then [Given_Resource i] else [])"
| "orchestrator_resource g (Graph_Orchestrator keeper) = [Orchestrator_Resource keeper]"

definition effective_checkpointer :: "settings \<Rightarrow> given \<Rightarrow> saver_ref option result" where
  "effective_checkpointer s g = (case gi_checkpointer g of
      Some i \<Rightarrow> Inr (Some (Given_Saver i))
    | None \<Rightarrow> if \<not> se_assistant_checkpointing_enabled s then Inr None
        else if postgres_url (se_database_url s) then Inr (Some (Postgres_Saver (se_database_url s)))
        else Inl (ValueErr ''PostgresCheckpointer requires a PostgreSQL database URL''))"

definition tool_permissions :: "'w tool_registration list \<Rightarrow> (string \<times> string) list" where
  "tool_permissions tools = map (\<lambda>t. (td_name (tr_definition t), permission_value (td_required_permission (tr_definition t)))) tools"

definition memory_resources :: "settings \<Rightarrow> 'w assistant_module option \<Rightarrow> 'w tool_registration list \<Rightarrow> managed list result" where
  "memory_resources s assistant tools = (if \<not> se_long_term_memory_enabled s then Inr []
     else if se_pinecone_api_key s = None \<or> se_embedding_api_key s = None then Inl (RuntimeErr ''Long-term memory credentials were not validated'')
     else Inr ([Sync_Resource (se_vector_sync_batch_size s),
         Reconciliation_Resource [se_pinecone_user_memory_namespace s, se_pinecone_documents_namespace s],
         Memory_Retention_Resource (se_memory_retention_batch_size s)]
       @ (if se_consolidation_enabled s \<and> se_chat_api_key s \<noteq> None
          then [Consolidation_Resource (se_fact_max_statement_characters s) (se_fact_candidate_retention_days s)
                 (se_consolidation_idle_minutes s) (case assistant of None \<Rightarrow> [] | Some a \<Rightarrow> am_rederivable_terms a) (tool_permissions tools)]
          else [])))"

definition container_build ::
  "application_models \<Rightarrow> uuid \<Rightarrow> datetime \<Rightarrow> settings \<Rightarrow> application_tables search_provider option \<Rightarrow> given
     \<Rightarrow> application_tables application result" where
  "container_build m fresh now s web_search g =
     rbind (build_documents_module s g) (\<lambda>documents.
     rbind (effective_checkpointer s g) (\<lambda>keeper.
     rbind (build_assistant_module (apm_fields m) (apm_search m) s (assistant_tools m fresh now) True web_search g keeper) (\<lambda>assistant.
     let agent = (case assistant of None \<Rightarrow> [] | Some a \<Rightarrow> saver_resource g keeper @ orchestrator_resource g (am_orchestrator a));
         resources = append_once agent (map Given_Resource (gi_managed_resources g))
           @ [Retention_Resource (se_short_term_retention_days s) (se_assistant_conversation_retention_days s) keeper] in
     rbind (memory_resources s assistant (assistant_tools m fresh now)) (\<lambda>memory.
     Inr \<lparr>ap_documents = documents, ap_assistant = assistant,
          ap_resources = resources @ memory @ (case documents of None \<Rightarrow> [] | Some d \<Rightarrow> dm_resources d)\<rparr>))))"

subsection \<open>What the settings lead to\<close>

definition no_objects :: given where
  "no_objects = \<lparr>gi_blob_storage = None, gi_tool_runtime = None, gi_orchestrator = None, gi_conversation_store = None,
     gi_tool_policy = None, gi_checkpointer = None, gi_managed_resources = [], gi_is_managed = (\<lambda>_. False), gi_downloads = (\<lambda>_. False)\<rparr>"

lemma application_tools_register: "\<exists>r. register_all [] (registered_tools (apm_search m) (assistant_tools m fresh now) search) = Inr r"
  by (cases search) (simp_all add: registered_tools_def assistant_tools_def lift_tool_def build_users_consistency_auditor_tool_def AUDITOR_TOOL_def
      build_web_search_tool_def operations_tools_def build_get_work_orders_tool_def build_get_asset_status_tool_def
      build_get_maintenance_tickets_tool_def build_get_spare_parts_availability_tool_def
      build_get_production_schedule_tool_def build_write_work_order_status_tool_def read_tool_def
      registry_register_def Let_def)

text \<open>The objects the settings alone lead to.\<close>

definition configured_saver :: "settings \<Rightarrow> saver_ref option" where
  "configured_saver s = (if se_assistant_checkpointing_enabled s then Some (Postgres_Saver (se_database_url s)) else None)"

definition configured_documents :: "settings \<Rightarrow> managed list" where
  "configured_documents s = (case se_azure_blob_connection_string s of
      Some connection \<Rightarrow> (if \<not> se_azure_blob_enabled s then [] else
        Blob_Resource connection (se_azure_blob_container_name s)
        # (if se_outbox_publisher_enabled s then [Outbox_Resource (se_outbox_publish_batch_size s) (se_outbox_max_retries s)] else [])
        @ (if se_document_ingestion_enabled s then [ingestion_resource s (Azure_Blob connection (se_azure_blob_container_name s))] else []))
    | None \<Rightarrow> [])"

definition configured_memory :: "settings \<Rightarrow> string list \<Rightarrow> (string \<times> string) list \<Rightarrow> managed list" where
  "configured_memory s terms needed = (if \<not> se_long_term_memory_enabled s then [] else
     [Sync_Resource (se_vector_sync_batch_size s),
      Reconciliation_Resource [se_pinecone_user_memory_namespace s, se_pinecone_documents_namespace s],
      Memory_Retention_Resource (se_memory_retention_batch_size s)]
     @ (if se_consolidation_enabled s then [Consolidation_Resource (se_fact_max_statement_characters s)
          (se_fact_candidate_retention_days s) (se_consolidation_idle_minutes s) terms needed] else []))"

lemma no_objects_simps [simp]:
  "gi_blob_storage no_objects = None" "gi_tool_runtime no_objects = None" "gi_orchestrator no_objects = None"
  "gi_conversation_store no_objects = None" "gi_tool_policy no_objects = None" "gi_checkpointer no_objects = None"
  "gi_managed_resources no_objects = []"
  by (simp_all add: no_objects_def)

lemma configured_documents_built:
  assumes "settings_ok s"
  shows "\<exists>d. build_documents_module s no_objects = Inr d \<and> (d = None \<longleftrightarrow> \<not> se_azure_blob_enabled s)
    \<and> (case d of None \<Rightarrow> [] | Some dm \<Rightarrow> dm_resources dm) = configured_documents s"
proof (cases "se_azure_blob_enabled s")
  case True
  then obtain connection where "se_azure_blob_connection_string s = Some connection" using assms by (auto simp: settings_ok_def)
  then show ?thesis using True by (simp add: build_documents_module_def blob_storage_of_def configured_documents_def)
next
  case False
  then show ?thesis by (simp add: build_documents_module_def blob_storage_of_def configured_documents_def split: option.split)
qed

lemma configured_saver_built: "settings_ok s \<Longrightarrow> effective_checkpointer s no_objects = Inr (configured_saver s)"
  by (auto simp: effective_checkpointer_def configured_saver_def settings_ok_def)

lemma configured_memory_built:
  assumes "settings_ok s"
  shows "memory_resources s assistant tools
    = Inr (configured_memory s (case assistant of None \<Rightarrow> [] | Some a \<Rightarrow> am_rederivable_terms a) (tool_permissions tools))"
proof (cases "se_long_term_memory_enabled s")
  case True
  then have "se_pinecone_api_key s \<noteq> None" "se_embedding_api_key s \<noteq> None" "se_consolidation_enabled s \<Longrightarrow> se_chat_api_key s \<noteq> None"
    using assms unfolding settings_ok_def by simp_all
  then show ?thesis using True by (cases "se_consolidation_enabled s") (simp_all add: memory_resources_def configured_memory_def)
qed (simp add: memory_resources_def configured_memory_def)

text \<open>The module of an application whose settings are accepted and that is given no objects.\<close>

definition configured_module :: "application_models \<Rightarrow> uuid \<Rightarrow> datetime \<Rightarrow> settings \<Rightarrow> application_tables search_provider option
     \<Rightarrow> application_tables assistant_module" where
  "configured_module m fresh now s search = (let tools = registered_tools (apm_search m) (assistant_tools m fresh now) search in
     \<lparr>am_registry = module_registry tools, am_runtime = Gateway_Runtime, am_orchestrator = Graph_Orchestrator (configured_saver s),
      am_policy = wired_policy tools, am_store = Database_Store (se_short_term_retention_days s), am_providers = wired_providers s True,
      am_budget = se_context_budget_tokens s, am_eraser = (if se_long_term_memory_enabled s then Some (configured_saver s) else None),
      am_rederivable_terms = rederivable_fields (apm_fields m) (module_registry tools)\<rparr>)"

lemma configured_assistant_built:
  assumes "settings_ok s"
  shows "build_assistant_module (apm_fields m) (apm_search m) s (assistant_tools m fresh now) True search no_objects (configured_saver s)
    = Inr (if se_chat_api_key s = None then None else Some (configured_module m fresh now s search))"
proof -
  obtain reg where "register_all [] (registered_tools (apm_search m) (assistant_tools m fresh now) search) = Inr reg"
    using application_tools_register by blast
  moreover have "se_long_term_memory_enabled s \<Longrightarrow> se_pinecone_api_key s \<noteq> None" using assms by (simp add: settings_ok_def)
  ultimately show ?thesis
    by (auto simp: build_assistant_module_def build_langgraph_agent_orchestrator_def configured_module_def module_registry_def Let_def)
qed

lemma configured_build:
  assumes ok: "settings_ok s"
  shows "\<exists>app. container_build m fresh now s search no_objects = Inr app \<and> (ap_documents app = None \<longleftrightarrow> \<not> se_azure_blob_enabled s)
    \<and> ap_assistant app = (if se_chat_api_key s = None then None else Some (configured_module m fresh now s search))
    \<and> ap_resources app = (if se_chat_api_key s = None then []
          else saver_resource no_objects (configured_saver s) @ [Orchestrator_Resource (configured_saver s)])
        @ [Retention_Resource (se_short_term_retention_days s) (se_assistant_conversation_retention_days s) (configured_saver s)]
        @ configured_memory s (if se_chat_api_key s = None then [] else am_rederivable_terms (configured_module m fresh now s search))
            (tool_permissions (assistant_tools m fresh now))
        @ configured_documents s"
proof -
  obtain docs where docs: "build_documents_module s no_objects = Inr docs" "docs = None \<longleftrightarrow> \<not> se_azure_blob_enabled s"
    "(case docs of None \<Rightarrow> [] | Some dm \<Rightarrow> dm_resources dm) = configured_documents s"
    using configured_documents_built[OF ok] by blast
  have "am_orchestrator (configured_module m fresh now s search) = Graph_Orchestrator (configured_saver s)"
    by (simp add: configured_module_def Let_def)
  then have once: "append_once (saver_resource no_objects (configured_saver s)
      @ orchestrator_resource no_objects (am_orchestrator (configured_module m fresh now s search))) []
    = saver_resource no_objects (configured_saver s) @ [Orchestrator_Resource (configured_saver s)]"
    by (simp add: append_once_def configured_saver_def)
  have none: "append_once [] [] = []" by (simp add: append_once_def)
  show ?thesis
    using docs(2,3) by (cases "se_chat_api_key s") (simp_all add: container_build_def docs(1) configured_saver_built[OF ok]
        configured_assistant_built[OF ok] configured_memory_built[OF ok] once none Let_def)
qed


definition sample_application_models :: application_models where
  "sample_application_models = \<lparr>apm_auditor = sample_auditor, apm_auditor_description = [], apm_operations = sample_models,
     apm_search = \<lparr>sm_description = [], sm_input = au_input sample_auditor, sm_parse = (\<lambda>_. Inl (ValidationErr ''query'')),
       sm_output = au_output sample_auditor\<rparr>, apm_fields = (\<lambda>_. [])\<rparr>"

definition checkpointing_settings :: settings where
  "checkpointing_settings = default_settings\<lparr>se_assistant_checkpointing_enabled := True, se_database_url := ''postgresql://db/app''\<rparr>"

lemma checkpointing_settings_valid: "validate_settings checkpointing_settings = Inr checkpointing_settings"
proof -
  have "field_bounds checkpointing_settings"
    by (simp add: field_bounds_def checkpointing_settings_def default_settings_def between_def)
  moreover have "postgres_url ''postgresql://db/app''" by (simp add: postgres_url_def prefix_def)
  then have "postgres_url (se_database_url checkpointing_settings)" by (simp add: checkpointing_settings_def)
  moreover have "se_environment checkpointing_settings = Local" "\<not> se_smoke_enabled checkpointing_settings"
    "\<not> se_azure_blob_enabled checkpointing_settings" "\<not> se_kafka_enabled checkpointing_settings"
    "\<not> se_outbox_publisher_enabled checkpointing_settings" "\<not> se_document_ingestion_enabled checkpointing_settings"
    "\<not> se_long_term_memory_enabled checkpointing_settings" "\<not> se_local_auth_bypass_enabled checkpointing_settings"
    by (simp_all add: checkpointing_settings_def default_settings_def)
  ultimately show ?thesis by (simp add: validate_settings_Inr settings_ok_def)
qed


subsection \<open>The order and the number of the managed resources\<close>

lemma append_once_props:
  "distinct rs \<Longrightarrow> distinct (append_once new rs) \<and> set (append_once new rs) = set rs \<union> set new \<and> (\<exists>more. append_once new rs = rs @ more)"
proof (induction new arbitrary: rs)
  case (Cons r new)
  show ?case
  proof (cases "r \<in> set rs")
    case True
    then have "append_once (r # new) rs = append_once new rs" by (simp add: append_once_def)
    then show ?thesis using Cons.IH[OF Cons.prems] True by auto
  next
    case False
    then have "append_once (r # new) rs = append_once new (rs @ [r])" by (simp add: append_once_def)
    moreover have "distinct (rs @ [r])" using Cons.prems False by simp
    ultimately show ?thesis using Cons.IH[of "rs @ [r]"] by auto
  qed
qed (simp add: append_once_def)

lemma append_once_snoc: "append_once (new @ [r]) rs = (let xs = append_once new rs in if r \<in> set xs then xs else xs @ [r])"
  by (simp add: append_once_def Let_def)

lemma append_once_before:
  assumes "distinct rs" and "r \<notin> set rs" and "r \<notin> set sources" and "append_once (sources @ [r]) rs = pre @ r # post"
  shows "set sources \<subseteq> set pre"
proof -
  note props = append_once_props[OF assms(1), of sources]
  then have "r \<notin> set (append_once sources rs)" using assms(2,3) by auto
  then have "append_once sources rs @ [r] = pre @ r # post" using assms(4) by (simp add: append_once_snoc Let_def)
  moreover have "r \<notin> set (append_once sources rs)" by fact
  ultimately have "pre = append_once sources rs" by (auto simp: append_eq_append_conv2 Cons_eq_append_conv append_eq_Cons_conv)
  then show ?thesis using props by auto
qed

lemma split_unique: "A @ x # B = pre @ x # post \<Longrightarrow> x \<notin> set A \<Longrightarrow> x \<notin> set B \<Longrightarrow> pre = A"
  by (auto simp: append_eq_append_conv2 Cons_eq_append_conv append_eq_Cons_conv)

definition agent_resources :: "given \<Rightarrow> saver_ref option \<Rightarrow> 'w assistant_module option \<Rightarrow> managed list" where
  "agent_resources g keeper assistant = append_once
     (case assistant of None \<Rightarrow> [] | Some a \<Rightarrow> saver_resource g keeper @ orchestrator_resource g (am_orchestrator a))
     (map Given_Resource (gi_managed_resources g))"

lemma container_build_cases:
  assumes "container_build m fresh now s search g = Inr app"
  obtains keeper memory where "effective_checkpointer s g = Inr keeper"
    and "build_documents_module s g = Inr (ap_documents app)"
    and "build_assistant_module (apm_fields m) (apm_search m) s (assistant_tools m fresh now) True search g keeper = Inr (ap_assistant app)"
    and "memory_resources s (ap_assistant app) (assistant_tools m fresh now) = Inr memory"
    and "ap_resources app = agent_resources g keeper (ap_assistant app)
      @ [Retention_Resource (se_short_term_retention_days s) (se_assistant_conversation_retention_days s) keeper]
      @ memory @ (case ap_documents app of None \<Rightarrow> [] | Some d \<Rightarrow> dm_resources d)"
  using assms by (auto simp: container_build_def rbind_Inr_iff Let_def agent_resources_def)

lemma documents_resources:
  assumes "build_documents_module s g = Inr (Some d)"
  shows "dm_resources d = blob_resource g (dm_blob d)
      @ (if se_outbox_publisher_enabled s then [Outbox_Resource (se_outbox_publish_batch_size s) (se_outbox_max_retries s)] else [])
      @ (if se_document_ingestion_enabled s then [ingestion_resource s (dm_blob d)] else [])"
    and "(\<exists>b. gi_blob_storage g = Some b \<and> dm_blob d = Given_Blob b) \<or> (\<exists>c n. dm_blob d = Azure_Blob c n)"
proof -
  obtain blob where blob: "blob_storage_of s g = Inr (Some blob)"
    using assms by (auto simp: build_documents_module_def rbind_Inr_iff split: option.splits)
  have "\<not> (se_document_ingestion_enabled s \<and> \<not> blob_downloads g blob)"
    using assms unfolding build_documents_module_def blob rbind.simps option.case by (rule contrapos_pn) simp
  then have d: "d = \<lparr>dm_blob = blob, dm_topic = se_kafka_documents_topic s,
      dm_policy = \<lparr>up_max_bytes = nat (se_documents_upload_max_bytes s), up_content_types = se_documents_allowed_content_types s\<rparr>,
      dm_resources = blob_resource g blob
        @ (if se_outbox_publisher_enabled s then [Outbox_Resource (se_outbox_publish_batch_size s) (se_outbox_max_retries s)] else [])
        @ (if se_document_ingestion_enabled s then [ingestion_resource s blob] else [])\<rparr>"
    using assms unfolding build_documents_module_def blob rbind.simps option.case by (simp only: if_False sum.inject option.inject)
  show "dm_resources d = blob_resource g (dm_blob d)
      @ (if se_outbox_publisher_enabled s then [Outbox_Resource (se_outbox_publish_batch_size s) (se_outbox_max_retries s)] else [])
      @ (if se_document_ingestion_enabled s then [ingestion_resource s (dm_blob d)] else [])"
    unfolding d by (simp only: documents_module.simps)
  show "(\<exists>b. gi_blob_storage g = Some b \<and> dm_blob d = Given_Blob b) \<or> (\<exists>c n. dm_blob d = Azure_Blob c n)"
    using blob unfolding d by (auto simp: blob_storage_of_def split: option.splits if_splits)
qed

lemma assistant_orchestrator:
  assumes "build_assistant_module fields_of sm s tools sessions search g keeper = Inr (Some a)"
  shows "(\<exists>i. gi_orchestrator g = Some i \<and> am_orchestrator a = Given_Orchestrator i) \<or> am_orchestrator a = Graph_Orchestrator keeper"
  using assms by (auto simp: build_assistant_module_def build_langgraph_agent_orchestrator_def rbind_Inr_iff Let_def split: option.splits if_splits)

lemma saver_resource_set: "set (saver_resource g k) \<subseteq> range Given_Resource \<union> range Checkpointer_Resource"
  by (cases "(g, k)" rule: saver_resource.cases) auto

lemma agent_resources_props:
  assumes "distinct (gi_managed_resources g)"
    and "\<And>a. assistant = Some a \<Longrightarrow> (\<exists>i. gi_orchestrator g = Some i \<and> am_orchestrator a = Given_Orchestrator i) \<or> am_orchestrator a = Graph_Orchestrator keeper"
  shows "distinct (agent_resources g keeper assistant)"
    and "set (agent_resources g keeper assistant) \<subseteq> Given_Resource ` (set (gi_managed_resources g) \<union> set_option (gi_orchestrator g))
      \<union> set (case keeper of None \<Rightarrow> [] | Some k \<Rightarrow> saver_resource g keeper) \<union> {Orchestrator_Resource keeper}"
    and "agent_resources g keeper assistant = pre @ Orchestrator_Resource k # post \<Longrightarrow> k = keeper \<and> set (saver_resource g keeper) \<subseteq> set pre"
proof -
  let ?given = "map Given_Resource (gi_managed_resources g)"
  have d: "distinct ?given" using assms(1) by (simp add: distinct_map inj_on_def)
  show "distinct (agent_resources g keeper assistant)" unfolding agent_resources_def using append_once_props[OF d] by blast
  show sub: "set (agent_resources g keeper assistant) \<subseteq> Given_Resource ` (set (gi_managed_resources g) \<union> set_option (gi_orchestrator g))
      \<union> set (case keeper of None \<Rightarrow> [] | Some k \<Rightarrow> saver_resource g keeper) \<union> {Orchestrator_Resource keeper}"
  proof (cases assistant)
    case None
    then show ?thesis by (auto simp: agent_resources_def append_once_def)
  next
    case (Some a)
    then show ?thesis using append_once_props[OF d, of "saver_resource g keeper @ orchestrator_resource g (am_orchestrator a)"] assms(2)[OF Some]
      by (cases keeper) (auto simp: agent_resources_def)
  qed
  assume split: "agent_resources g keeper assistant = pre @ Orchestrator_Resource k # post"
  then have "Orchestrator_Resource k \<in> set (agent_resources g keeper assistant)" by simp
  then have k: "k = keeper" using sub saver_resource_set[of g keeper] by (auto split: option.splits)
  moreover obtain a where a: "assistant = Some a" using split by (cases assistant) (auto simp: agent_resources_def append_once_def map_eq_append_conv)
  moreover have "am_orchestrator a = Graph_Orchestrator keeper"
  proof (rule ccontr)
    assume "am_orchestrator a \<noteq> Graph_Orchestrator keeper"
    then obtain i where "am_orchestrator a = Given_Orchestrator i" using assms(2)[OF a] by blast
    then have "Orchestrator_Resource k \<in> set ?given \<union> set (saver_resource g keeper)"
      using split a append_once_props[OF d, of "saver_resource g keeper @ orchestrator_resource g (am_orchestrator a)"]
      by (auto simp: agent_resources_def split: if_splits)
    then show False using saver_resource_set[of g keeper] by auto
  qed
  ultimately have "append_once (saver_resource g keeper @ [Orchestrator_Resource keeper]) ?given = pre @ Orchestrator_Resource keeper # post"
    using split by (simp add: agent_resources_def)
  moreover have "Orchestrator_Resource keeper \<notin> set ?given" "Orchestrator_Resource keeper \<notin> set (saver_resource g keeper)"
    using saver_resource_set[of g keeper] by auto
  ultimately show "k = keeper \<and> set (saver_resource g keeper) \<subseteq> set pre" using append_once_before[OF d] k by blast
qed

text \<open>The part of the container a resource belongs to; an object handed in can belong to the first and to the last.\<close>

fun part_of :: "managed \<Rightarrow> nat" where
  "part_of (Given_Resource i) = 0"
| "part_of (Checkpointer_Resource url) = 0"
| "part_of (Orchestrator_Resource k) = 0"
| "part_of (Retention_Resource a b k) = 1"
| "part_of (Sync_Resource n) = 2"
| "part_of (Reconciliation_Resource names) = 2"
| "part_of (Memory_Retention_Resource n) = 2"
| "part_of (Consolidation_Resource a b c terms needed) = 2"
| "part_of (Blob_Resource c n) = 3"
| "part_of (Outbox_Resource n l) = 3"
| "part_of (Ingestion_Resource blob w ov n t) = 3"

lemma memory_resources_props:
  assumes "memory_resources s assistant tools = Inr memory"
  shows "distinct memory" and "\<forall>r \<in> set memory. part_of r = 2"
  using assms by (auto simp: memory_resources_def split: if_splits)

lemma part_unique:
  assumes "distinct (us @ vs @ ws)" and "us @ vs @ ws = pre @ x # post" and "x \<in> set vs"
  obtains A B where "vs = A @ x # B" and "pre = us @ A"
proof -
  obtain A B where v: "vs = A @ x # B" using split_list[OF assms(3)] by blast
  then have "(us @ A) @ x # (B @ ws) = pre @ x # post" using assms(2) by simp
  moreover have "x \<notin> set (us @ A)" "x \<notin> set (B @ ws)" using assms(1) v by auto
  ultimately have "pre = us @ A" by (rule split_unique)
  then show thesis using that v by blast
qed

definition given_once :: "given \<Rightarrow> bool" where
  "given_once g \<longleftrightarrow> distinct (gi_managed_resources g) \<and> (\<forall>b. gi_blob_storage g = Some b \<longrightarrow>
     b \<notin> set (gi_managed_resources g) \<and> gi_checkpointer g \<noteq> Some b \<and> gi_orchestrator g \<noteq> Some b)"

lemma effective_given: "effective_checkpointer s g = Inr (Some (Given_Saver i)) \<Longrightarrow> gi_checkpointer g = Some i"
  by (auto simp: effective_checkpointer_def split: option.splits if_splits)

lemma saver_resource_given: "Given_Resource i \<in> set (saver_resource g (Some k)) \<Longrightarrow> k = Given_Saver i"
  by (cases k) (auto split: if_splits)

lemma documents_of_props:
  assumes "build_documents_module s g = Inr docs"
  defines "rs \<equiv> (case docs of None \<Rightarrow> [] | Some d \<Rightarrow> dm_resources d)"
  shows "distinct rs"
    and "(\<forall>r \<in> set rs. part_of r = 3 \<or> (\<exists>b. gi_blob_storage g = Some b \<and> r = Given_Resource b))"
    and "rs = pre @ Ingestion_Resource blob w ov n t # post \<Longrightarrow> set (blob_resource g blob) \<subseteq> set pre"
proof -
  have "distinct rs \<and> (\<forall>r \<in> set rs. part_of r = 3 \<or> (\<exists>b. gi_blob_storage g = Some b \<and> r = Given_Resource b))
      \<and> (rs = pre @ Ingestion_Resource blob w ov n t # post \<longrightarrow> set (blob_resource g blob) \<subseteq> set pre)"
  proof (cases docs)
    case (Some d)
    have "build_documents_module s g = Inr (Some d)" using assms(1) Some by simp
    note d = documents_resources[OF this]
    have blobs: "blob_resource g (dm_blob d) = [] \<or> (\<exists>b. gi_blob_storage g = Some b \<and> blob_resource g (dm_blob d) = [Given_Resource b])
        \<or> (\<exists>c n. blob_resource g (dm_blob d) = [Blob_Resource c n])" using d(2) by (auto split: if_splits)
    have rs: "rs = blob_resource g (dm_blob d)
      @ (if se_outbox_publisher_enabled s then [Outbox_Resource (se_outbox_publish_batch_size s) (se_outbox_max_retries s)] else [])
      @ (if se_document_ingestion_enabled s then [ingestion_resource s (dm_blob d)] else [])" using Some d(1) by (simp add: rs_def)
    have "set (blob_resource g blob) \<subseteq> set pre" if split: "rs = pre @ Ingestion_Resource blob w ov n t # post"
    proof -
      have "Ingestion_Resource blob w ov n t \<in> set rs" using split by simp
      then have here: "se_document_ingestion_enabled s" "Ingestion_Resource blob w ov n t = ingestion_resource s (dm_blob d)"
        using blobs unfolding rs by (auto split: if_splits)
      then have "(blob_resource g (dm_blob d)
          @ (if se_outbox_publisher_enabled s then [Outbox_Resource (se_outbox_publish_batch_size s) (se_outbox_max_retries s)] else []))
        @ ingestion_resource s (dm_blob d) # [] = pre @ ingestion_resource s (dm_blob d) # post" using split rs by simp
      moreover have "ingestion_resource s (dm_blob d) \<notin> set (blob_resource g (dm_blob d)
          @ (if se_outbox_publisher_enabled s then [Outbox_Resource (se_outbox_publish_batch_size s) (se_outbox_max_retries s)] else []))"
        using blobs by (auto simp: ingestion_resource_def)
      ultimately have "pre = blob_resource g (dm_blob d)
          @ (if se_outbox_publisher_enabled s then [Outbox_Resource (se_outbox_publish_batch_size s) (se_outbox_max_retries s)] else [])"
        by (rule split_unique) simp
      then show ?thesis using here(2) by (auto simp: ingestion_resource_def)
    qed
    moreover have "distinct rs" using blobs unfolding rs by (auto simp: ingestion_resource_def)
    moreover have "(\<forall>r \<in> set rs. part_of r = 3 \<or> (\<exists>b. gi_blob_storage g = Some b \<and> r = Given_Resource b))"
      using blobs unfolding rs by (auto simp: ingestion_resource_def split: if_splits)
    ultimately show ?thesis by blast
  qed (simp add: rs_def)
  then show "distinct rs" and "(\<forall>r \<in> set rs. part_of r = 3 \<or> (\<exists>b. gi_blob_storage g = Some b \<and> r = Given_Resource b))"
    and "rs = pre @ Ingestion_Resource blob w ov n t # post \<Longrightarrow> set (blob_resource g blob) \<subseteq> set pre" by blast+
qed

lemma agents_apart:
  assumes once: "given_once g" and saved: "effective_checkpointer s g = Inr keeper"
    and sub: "set agents \<subseteq> Given_Resource ` (set (gi_managed_resources g) \<union> set_option (gi_orchestrator g))
      \<union> set (case keeper of None \<Rightarrow> [] | Some k \<Rightarrow> saver_resource g keeper) \<union> {Orchestrator_Resource keeper}"
  shows "\<forall>r \<in> set agents. part_of r = 0 \<and> (\<forall>b. gi_blob_storage g = Some b \<longrightarrow> r \<noteq> Given_Resource b)"
proof
  fix r assume "r \<in> set agents"
  with sub have "r \<in> Given_Resource ` (set (gi_managed_resources g) \<union> set_option (gi_orchestrator g))
      \<or> (\<exists>k. keeper = Some k \<and> r \<in> set (saver_resource g (Some k))) \<or> r = Orchestrator_Resource keeper" by (cases keeper) auto
  then show "part_of r = 0 \<and> (\<forall>b. gi_blob_storage g = Some b \<longrightarrow> r \<noteq> Given_Resource b)"
  proof (elim disjE exE conjE)
    assume "r \<in> Given_Resource ` (set (gi_managed_resources g) \<union> set_option (gi_orchestrator g))"
    then show ?thesis using once by (auto simp: given_once_def)
  next
    fix k assume k: "keeper = Some k" "r \<in> set (saver_resource g (Some k))"
    show ?thesis
    proof (cases k)
      case (Given_Saver i)
      then have "gi_checkpointer g = Some i" "r = Given_Resource i" using k saved by (auto dest: effective_given split: if_splits)
      then show ?thesis using once by (auto simp: given_once_def)
    qed (use k in simp)
  qed simp
qed


text \<open>An application given storage that is managed and supports downloads.\<close>

definition stored_objects :: given where
  "stored_objects = no_objects\<lparr>gi_blob_storage := Some 4, gi_is_managed := (\<lambda>i. i = 4), gi_downloads := (\<lambda>i. i = 4), gi_managed_resources := [2]\<rparr>"


subsection \<open>What the wired policy allows\<close>

text \<open>C36. A question costs one tool call: with the policy and the registry the application is built with, and the tools the
  runtime lists for a user, a run of the agent makes at most one call, however it ends; the tool is one of the modules' or the
  search of the web, the user holds its permission, and its name is in the policy.\<close>

theorem wired_runs_call_once:
  assumes "validate_settings s0 = Inr s" and "container_build m fresh now s search no_objects = Inr app" and "ap_assistant app = Some a"
    and "aq_policy q = am_policy a"
    and "list_tools \<lparr>trt_registry = am_registry a, trt_allow_write_tools = False\<rparr> c = Inr (gc_tools (aq_context q))"
    and "request_run limit q ck w = (out, r)"
  shows "rn_calls r = [] \<or> (\<exists>payload. \<exists>g \<in> set (registered_tools (apm_search m) (assistant_tools m fresh now) search).
      rn_calls r = [(td_name (tr_definition g), payload)] \<and> can c (td_required_permission (tr_definition g)) None = Inr True)"
proof -
  let ?tools = "registered_tools (apm_search m) (assistant_tools m fresh now) search"
  have ok: "settings_ok s" using assms(1) by (simp add: validate_settings_Inr)
  from configured_build[OF ok, of m fresh now search] assms(2,3) have a: "a = configured_module m fresh now s search"
    by (auto split: if_splits)
  have policy: "aq_policy q = wired_policy ?tools" using assms(4) by (simp add: a configured_module_def Let_def)
  have bound: "tp_max_total_calls (aq_policy q) = 1" by (simp add: policy wired_policy_def)
  obtain extra where led: "run_ledger (request_context q) (effective_max_calls (aq_policy q) (aq_max_tool_calls q) (aq_allow_tool_calls q))
      (tp_max_calls_per_tool (aq_policy q)) r extra"
    using run_inv[OF initial_inv, of q limit ck w] assms(6) bound by (auto simp: request_run_def)
  have "int (length (rn_calls r)) \<le> effective_max_calls (aq_policy q) (aq_max_tool_calls q) (aq_allow_tool_calls q)"
    using ledger_bounds(1)[OF led] by simp
  then have few: "length (rn_calls r) \<le> 1" by (simp add: effective_max_calls_def bound split: if_splits)
  show ?thesis
  proof (cases "rn_calls r")
    case (Cons tp rest)
    then have one: "rn_calls r = [tp]" using few by simp
    obtain t p where tp: "tp = (t, p)" by (cases tp)
    have "(t, p) \<in> set (rn_calls r)" using one tp by simp
    from ledger_bounds(3)[OF led this] obtain d where d: "d \<in> set (gc_tools (aq_context q))" "tdr_name d = t"
      using find_Some_set[of "\<lambda>d. tdr_name d = t"] by (fastforce simp: call_allowed_def request_context_def allowed_tools_def)
    obtain reg where reg: "register_all [] ?tools = Inr reg" using application_tools_register by blast
    have "list_tools (module_runtime ?tools False) c = Inr (gc_tools (aq_context q))"
      using assms(5) by (simp add: a configured_module_def module_runtime_def Let_def)
    then obtain g where "g \<in> set ?tools" "tdr_name d = td_name (tr_definition g)" "can c (td_required_permission (tr_definition g)) None = Inr True"
      using offered_tools_exact[OF reg] d(1) by blast
    then show ?thesis using one tp d(2) by auto
  qed simp
qed

lemma list_tools_total: "permissions c = Inr ps \<Longrightarrow> \<exists>ds. list_tools rt c = Inr ds"
proof -
  assume "permissions c = Inr ps"
  then have "can c p None = Inr (p \<in> ps)" for p by (simp add: can_def)
  then have "traverse (\<lambda>reg. let tool = tr_definition reg in
      rmap (\<lambda>allowed. if allowed \<and> usable_site_scope tool c then [describe_tool tool] else []) (can c (td_required_permission tool) None)) (list_registrations (trt_registry rt))
    = Inr (map (\<lambda>reg. if td_required_permission (tr_definition reg) \<in> ps \<and> usable_site_scope (tr_definition reg) c
        then [describe_tool (tr_definition reg)] else []) (list_registrations (trt_registry rt)))"
    by (intro traverse_all_Inr) (simp add: Let_def)
  then show ?thesis unfolding list_tools_def by (intro exI) (simp only: rmap.simps)
qed

definition chatting_settings :: settings where
  "chatting_settings = default_settings\<lparr>se_chat_api_key := Some ''key''\<rparr>"

lemma chatting_settings_valid: "validate_settings chatting_settings = Inr chatting_settings"
proof -
  have "field_bounds chatting_settings" by (simp add: field_bounds_def chatting_settings_def default_settings_def between_def)
  moreover have "se_environment chatting_settings = Local" "\<not> se_assistant_checkpointing_enabled chatting_settings"
    "\<not> se_smoke_enabled chatting_settings" "\<not> se_azure_blob_enabled chatting_settings" "\<not> se_kafka_enabled chatting_settings"
    "\<not> se_outbox_publisher_enabled chatting_settings" "\<not> se_document_ingestion_enabled chatting_settings"
    "\<not> se_long_term_memory_enabled chatting_settings" "\<not> se_local_auth_bypass_enabled chatting_settings"
    by (simp_all add: chatting_settings_def default_settings_def)
  ultimately show ?thesis by (simp add: validate_settings_Inr settings_ok_def)
qed

definition wired_request :: "tool_call_policy \<Rightarrow> tool_descriptor list \<Rightarrow> unit agent_request" where
  "wired_request p ds = (sample_agent_request ''asset status'')\<lparr>aq_context := (sample_agent_context ''asset status'')\<lparr>gc_tools := ds\<rparr>, aq_policy := p\<rparr>"

theorem wired_runs_call_once_witness:
  "\<exists>app a ds. container_build sample_application_models 1 0 chatting_settings None no_objects = Inr app \<and> ap_assistant app = Some a
    \<and> list_tools \<lparr>trt_registry = am_registry a, trt_allow_write_tools = False\<rparr> analyst = Inr ds
    \<and> length (rn_calls (snd (request_run 10 (wired_request (am_policy a) ds) empty_checkpoint ()))) \<le> 1"
proof -
  have "settings_ok chatting_settings" using chatting_settings_valid by (simp add: validate_settings_Inr)
  from configured_build[OF this, of sample_application_models 1 0 None]
  obtain app a where app: "container_build sample_application_models 1 0 chatting_settings None no_objects = Inr app" "ap_assistant app = Some a"
    by (auto simp: chatting_settings_def)
  have "known_roles analyst" by (simp add: known_roles_def sample_actor_def image_iff) (metis role_value.simps)
  then obtain ds where ds: "list_tools \<lparr>trt_registry = am_registry a, trt_allow_write_tools = False\<rparr> analyst = Inr ds"
    using permissions_known list_tools_total by blast
  have "length (rn_calls (snd (request_run 10 (wired_request (am_policy a) ds) empty_checkpoint ()))) \<le> 1"
    using wired_runs_call_once[OF chatting_settings_valid app, of "wired_request (am_policy a) ds", OF _ _ prod.collapse[symmetric], of analyst 10 empty_checkpoint "()"] ds
    by (auto simp: wired_request_def)
  then show ?thesis using app ds by blast
qed

end
