(* ===== verification/Reference.thy ===== *)
theory Reference
  imports Intent Conversations
begin

section \<open>References to earlier evidence\<close>

text \<open>
  \<open>src/app/modules/assistant/application/reference_resolution\<close>: the parser of follow-up questions
  (\<open>parser.py\<close>), the resolver over stored evidence (\<open>resolver.py\<close>), the field query
  (\<open>field_query.py\<close>), the formatters (\<open>formatting.py\<close>) and the default policy (\<open>policy.py\<close>). Patterns are
  expressions of \<open>Regex\<close>; \<open>casefold\<close> is the lower case of ASCII letters.
\<close>

subsection \<open>Contracts\<close>

datatype reference_operation = FIELD | MAXIMUM | MINIMUM

record reference_request =
  rq_field_name :: string
  rq_operation :: reference_operation
  rq_ordinal :: "nat option"

record resolved_reference =
  rr_entity_label :: string
  rr_items :: "evidence_item list"
  rr_request :: reference_request

datatype resolution_outcome = RESOLVED resolved_reference | NO_REFERENCE | NO_EVIDENCE | AMBIGUOUS

datatype field_query_status = COMPLETE | PARTIAL | EMPTY

record field_value =
  fv_entity_id :: string
  fv_label :: string
  fv_field_name :: string
  fv_value :: pyval

record field_query_result =
  fr_entity_label :: string
  fr_field_name :: string
  fr_values :: "field_value list"
  fr_status :: field_query_status

subsection \<open>The parser\<close>

definition REFERENCE_PATTERN :: rx where
  "REFERENCE_PATTERN = rx_alts [
     rx_b [rx_words [''above'', ''previous'', ''those'', ''they'', ''them'', ''these'', ''it'']],
     rx_b [rx_opt (RSeq (rx_lit ''the'') rx_spaces),
       rx_words [''first'', ''second'', ''third'', ''fourth'', ''fifth''], rx_spaces, rx_words [''one'', ''item'']]]"

record reference_parser =
  rp_field_patterns :: "(rx \<times> string) list"
  rp_maximum_patterns :: "rx list"
  rp_minimum_patterns :: "rx list"
  rp_reference_pattern :: rx

definition ORDINAL_PATTERN :: rx where
  "ORDINAL_PATTERN = rx_b [RGroup 1 (rx_words [''first'', ''second'', ''third'', ''fourth'', ''fifth'']),
     rx_spaces, rx_words [''one'', ''item'']]"

definition ORDINALS :: "(string \<times> nat) list" where
  "ORDINALS = [(''first'', 0), (''second'', 1), (''third'', 2), (''fourth'', 3), (''fifth'', 4)]"

definition extract_ordinal :: "string \<Rightarrow> nat option" where
  "extract_ordinal query = (case rx_search ORDINAL_PATTERN query of
      None \<Rightarrow> None
    | Some m \<Rightarrow> map_of ORDINALS (lower (group_text 1 m)))"

definition reference_operation_of :: "reference_parser \<Rightarrow> string \<Rightarrow> reference_operation" where
  "reference_operation_of p query =
     (if list_ex (\<lambda>r. rx_found r query) (rp_maximum_patterns p) then MAXIMUM
      else if list_ex (\<lambda>r. rx_found r query) (rp_minimum_patterns p) then MINIMUM
      else FIELD)"

definition parse_reference :: "reference_parser \<Rightarrow> string \<Rightarrow> reference_request option" where
  "parse_reference p query =
     (if \<not> rx_found (rp_reference_pattern p) query then None
      else case List.find (\<lambda>(r, name). rx_found r query) (rp_field_patterns p) of
        None \<Rightarrow> None
      | Some (r, name) \<Rightarrow> Some \<lparr>rq_field_name = name, rq_operation = reference_operation_of p query,
          rq_ordinal = extract_ordinal query\<rparr>)"

subsection \<open>The resolver\<close>

type_synonym ranker = "pyval \<Rightarrow> int option"

definition mapping_value_ranker :: "(string \<times> int) list \<Rightarrow> ranker" where
  "mapping_value_ranker values v = (case as_str v of None \<Rightarrow> None | Some s \<Rightarrow> map_of values (lower s))"

record reference_resolver =
  rs_parser :: reference_parser
  rs_rankers :: "(string \<times> ranker) list"

fun nonempty_collection :: "evidence_block \<Rightarrow> collection_evidence option" where
  "nonempty_collection (CollectionEvidence c) = (if ce_items c \<noteq> [] then Some c else None)"
| "nonempty_collection _ = None"

text \<open>The loops over the snapshots and their evidence, both from the end.\<close>

fun first_some :: "('a \<Rightarrow> 'b option) \<Rightarrow> 'a list \<Rightarrow> 'b option" where
  "first_some f [] = None"
| "first_some f (x # xs) = (case f x of Some y \<Rightarrow> Some y | None \<Rightarrow> first_some f xs)"

definition latest_collection :: "evidence_snapshot list \<Rightarrow> collection_evidence option" where
  "latest_collection snapshots =
     first_some (\<lambda>s. first_some nonempty_collection (rev (es_evidence s))) (rev snapshots)"

definition select_items :: "evidence_item list \<Rightarrow> nat option \<Rightarrow> evidence_item list" where
  "select_items items ordinal = (case ordinal of
      None \<Rightarrow> items
    | Some n \<Rightarrow> if n < length items then [items ! n] else [])"

definition item_field_value :: "evidence_item \<Rightarrow> string \<Rightarrow> pyval" where
  "item_field_value item name =
     (case List.find (\<lambda>f. ef_name f = name) (ei_fields item) of None \<Rightarrow> PNone | Some f \<Rightarrow> ef_value f)"

definition rank_item :: "ranker \<Rightarrow> string \<Rightarrow> evidence_item \<Rightarrow> (evidence_item \<times> int) option" where
  "rank_item ranker name item = map_option (Pair item) (ranker (item_field_value item name))"

definition ranked_items :: "evidence_item list \<Rightarrow> reference_request \<Rightarrow> ranker \<Rightarrow> evidence_item list" where
  "ranked_items items request ranker =
     (let ranked = List.map_filter (rank_item ranker (rq_field_name request)) items in
      if ranked = [] then []
      else let target = (if rq_operation request = MAXIMUM then Max (set (map snd ranked)) else Min (set (map snd ranked)))
        in map fst (filter (\<lambda>(item, value). value = target) ranked))"

definition resolve_reference :: "reference_resolver \<Rightarrow> string \<Rightarrow> evidence_snapshot list \<Rightarrow> resolution_outcome" where
  "resolve_reference r query snapshots = (case parse_reference (rs_parser r) query of
      None \<Rightarrow> NO_REFERENCE
    | Some request \<Rightarrow> (case latest_collection snapshots of
        None \<Rightarrow> NO_EVIDENCE
      | Some collection \<Rightarrow>
          let items = select_items (ce_items collection) (rq_ordinal request) in
          if items = [] then AMBIGUOUS
          else if rq_operation request = FIELD then RESOLVED \<lparr>rr_entity_label = ce_entity_label collection,
            rr_items = items, rr_request = request\<rparr>
          else (case map_of (rs_rankers r) (rq_field_name request) of
              None \<Rightarrow> AMBIGUOUS
            | Some ranker \<Rightarrow>
                let items' = ranked_items items request ranker in
                if items' = [] then AMBIGUOUS
                else RESOLVED \<lparr>rr_entity_label = ce_entity_label collection, rr_items = items', rr_request = request\<rparr>)))"

subsection \<open>The field query and its text\<close>

definition execute_field_query :: "resolved_reference \<Rightarrow> field_query_result" where
  "execute_field_query reference =
     (let name = rq_field_name (rr_request reference);
          values = map (\<lambda>item. \<lparr>fv_entity_id = ei_entity_id item, fv_label = ei_label item, fv_field_name = name,
             fv_value = item_field_value item name\<rparr>) (rr_items reference);
          present = length (filter (\<lambda>v. fv_value v \<noteq> PNone) values)
      in \<lparr>fr_entity_label = rr_entity_label reference, fr_field_name = name, fr_values = values,
          fr_status = (if present = length values then COMPLETE else if present \<noteq> 0 then PARTIAL else EMPTY)\<rparr>)"

text \<open>A template is a list of literal parts and placeholders.\<close>

datatype template_part = Literal string | EntityId | Label | FieldValue

fun format_part :: "(pyval \<Rightarrow> string) \<Rightarrow> field_value \<Rightarrow> template_part \<Rightarrow> string" where
  "format_part pr v (Literal s) = s"
| "format_part pr v EntityId = fv_entity_id v"
| "format_part pr v Label = fv_label v"
| "format_part pr v FieldValue = py_str pr (fv_value v)"

definition format_line :: "(pyval \<Rightarrow> string) \<Rightarrow> template_part list \<Rightarrow> field_value \<Rightarrow> string" where
  "format_line pr template v = concat (map (format_part pr v) template)"

definition DEFAULT_TEMPLATE :: "template_part list" where
  "DEFAULT_TEMPLATE = [EntityId, Literal '': '', FieldValue]"

type_synonym formatter = "field_query_result \<Rightarrow> string"

definition template_formatter :: "(pyval \<Rightarrow> string) \<Rightarrow> template_part list \<Rightarrow> formatter" where
  "template_formatter pr template result =
     (let lines = map (format_line pr template) (filter (\<lambda>v. fv_value v \<noteq> PNone) (fr_values result)) in
      if lines \<noteq> [] then join newline lines
      else ''The referenced '' @ fr_entity_label result @ '' items do not contain '' @ fr_field_name result @ ''.'')"

record formatter_registry =
  fg_formatters :: "(string \<times> formatter) list"
  fg_default :: formatter

definition format_result :: "formatter_registry \<Rightarrow> field_query_result \<Rightarrow> string" where
  "format_result g result = (case map_of (fg_formatters g) (fr_field_name result) of
      None \<Rightarrow> fg_default g result
    | Some f \<Rightarrow> f result)"

subsection \<open>The policy\<close>

record reference_field_policy =
  fp_field_name :: string
  fp_query_patterns :: "rx list"
  fp_formatter :: formatter
  fp_ranker :: "ranker option"

record reference_policy =
  pl_fields :: "reference_field_policy list"
  pl_maximum_patterns :: "rx list"
  pl_minimum_patterns :: "rx list"

text \<open>A dictionary built from a list keeps the last value of a repeated key.\<close>

definition build_resolver :: "reference_policy \<Rightarrow> reference_resolver" where
  "build_resolver policy = \<lparr>
     rs_parser = \<lparr>
       rp_field_patterns = concat (map (\<lambda>f. map (\<lambda>r. (r, fp_field_name f)) (fp_query_patterns f)) (pl_fields policy)),
       rp_maximum_patterns = pl_maximum_patterns policy,
       rp_minimum_patterns = pl_minimum_patterns policy,
       rp_reference_pattern = REFERENCE_PATTERN\<rparr>,
     rs_rankers = rev (List.map_filter (\<lambda>f. map_option (Pair (fp_field_name f)) (fp_ranker f)) (pl_fields policy))\<rparr>"

definition build_formatter_registry :: "(pyval \<Rightarrow> string) \<Rightarrow> reference_policy \<Rightarrow> formatter_registry" where
  "build_formatter_registry pr policy = \<lparr>
     fg_formatters = rev (map (\<lambda>f. (fp_field_name f, fp_formatter f)) (pl_fields policy)),
     fg_default = template_formatter pr DEFAULT_TEMPLATE\<rparr>"

definition PRIORITY_RANKS :: "(string \<times> int) list" where
  "PRIORITY_RANKS = [(''low'', 1), (''medium'', 2), (''high'', 3), (''critical'', 4)]"

definition default_reference_policy :: "(pyval \<Rightarrow> string) \<Rightarrow> reference_policy" where
  "default_reference_policy pr = \<lparr>
     pl_fields = [
       \<lparr>fp_field_name = ''due_at'', fp_query_patterns = [rx_b [rx_words [''due'', ''deadline'', ''date'']]],
        fp_formatter = template_formatter pr [EntityId, Literal '' is due on '', FieldValue, Literal ''.''],
        fp_ranker = None\<rparr>,
       \<lparr>fp_field_name = ''priority'', fp_query_patterns = [rx_b [rx_lit ''priority'']],
        fp_formatter = template_formatter pr DEFAULT_TEMPLATE,
        fp_ranker = Some (mapping_value_ranker PRIORITY_RANKS)\<rparr>],
     pl_maximum_patterns = [rx_b [rx_lit ''highest''], rx_b [rx_lit ''most'', rx_spaces, rx_lit ''urgent''],
       rx_b [rx_lit ''most'', rx_spaces, rx_lit ''critical'']],
     pl_minimum_patterns = [rx_b [rx_lit ''lowest''], rx_b [rx_lit ''least'', rx_spaces, rx_lit ''urgent''],
       rx_b [rx_lit ''least'', rx_spaces, rx_lit ''critical'']]\<rparr>"

subsection \<open>What a resolved reference holds\<close>

lemma first_some_Some:
  "first_some f xs = Some y \<longleftrightarrow> (\<exists>pre x post. xs = pre @ x # post \<and> f x = Some y \<and> (\<forall>z \<in> set pre. f z = None))"
proof (induction xs)
  case (Cons a xs)
  show ?case
  proof (cases "f a")
    case None
    have "(\<exists>pre x post. a # xs = pre @ x # post \<and> f x = Some y \<and> (\<forall>z \<in> set pre. f z = None))
      \<longleftrightarrow> (\<exists>pre x post. xs = pre @ x # post \<and> f x = Some y \<and> (\<forall>z \<in> set pre. f z = None))" (is "?L \<longleftrightarrow> ?R")
    proof
      assume ?L
      then obtain pre x post where "a # xs = pre @ x # post" "f x = Some y" "\<forall>z \<in> set pre. f z = None" by blast
      then show ?R using None by (cases pre) auto
    next
      assume ?R
      then obtain pre x post where "xs = pre @ x # post" "f x = Some y" "\<forall>z \<in> set pre. f z = None" by blast
      then show ?L using None by (intro exI[of _ "a # pre"]) auto
    qed
    then show ?thesis using None Cons.IH by simp
  next
    case (Some b)
    have "(\<exists>pre x post. a # xs = pre @ x # post \<and> f x = Some y \<and> (\<forall>z \<in> set pre. f z = None)) \<longleftrightarrow> f a = Some y" (is "?L \<longleftrightarrow> ?R")
    proof
      assume ?L
      then obtain pre x post where "a # xs = pre @ x # post" "f x = Some y" "\<forall>z \<in> set pre. f z = None" by blast
      then show ?R using Some by (cases pre) auto
    qed (rule exI[of _ "[]"], simp)
    then show ?thesis using Some by simp
  qed
qed simp

lemma first_some_None: "first_some f xs = None \<longleftrightarrow> (\<forall>x \<in> set xs. f x = None)"
  by (induction xs) (auto split: option.splits)

lemma first_some_rev:
  "first_some f (rev xs) = Some y \<longleftrightarrow> (\<exists>pre x post. xs = pre @ x # post \<and> f x = Some y \<and> (\<forall>z \<in> set post. f z = None))"
proof -
  have "rev xs = pre @ x # post \<longleftrightarrow> xs = rev post @ x # rev pre" for pre x post by (metis rev.simps(2) rev_append rev_rev_ident append.assoc append_Cons append_Nil)
  then show ?thesis unfolding first_some_Some by (metis set_rev rev_rev_ident)
qed

lemma latest_collection_Some:
  assumes "latest_collection snapshots = Some c"
  shows "\<exists>pre post. concat (map es_evidence snapshots) = pre @ CollectionEvidence c # post \<and> ce_items c \<noteq> []
    \<and> (\<forall>b \<in> set post. nonempty_collection b = None)"
proof -
  obtain pre s post where s: "snapshots = pre @ s # post" "first_some nonempty_collection (rev (es_evidence s)) = Some c"
    "\<forall>z \<in> set post. first_some nonempty_collection (rev (es_evidence z)) = None"
    using assms unfolding latest_collection_def first_some_rev by blast
  obtain p b q where b: "es_evidence s = p @ b # q" "nonempty_collection b = Some c" "\<forall>z \<in> set q. nonempty_collection z = None"
    using s(2) unfolding first_some_rev by blast
  have "b = CollectionEvidence c" "ce_items c \<noteq> []" using b(2) by (cases b; simp split: if_splits)+
  then show ?thesis using s b
    by (intro exI[of _ "concat (map es_evidence pre) @ p"] exI[of _ "q @ concat (map es_evidence post)"])
      (auto simp: first_some_None)
qed

lemma find_map_filter: "x \<in> set (List.map_filter f xs) \<longleftrightarrow> (\<exists>a \<in> set xs. f a = Some x)"
  by (induction xs) (auto simp: List.map_filter_simps split: option.splits)

text \<open>The items whose rank is the best among those that have one.\<close>

definition best_ranked :: "(int \<Rightarrow> int \<Rightarrow> bool) \<Rightarrow> ranker \<Rightarrow> string \<Rightarrow> evidence_item list \<Rightarrow> evidence_item list" where
  "best_ranked le ranker name items = filter (\<lambda>i. case ranker (item_field_value i name) of None \<Rightarrow> False
     | Some v \<Rightarrow> list_all (\<lambda>j. case ranker (item_field_value j name) of None \<Rightarrow> True | Some w \<Rightarrow> le w v) items) items"

lemma map_fst_filter_ranked:
  "map fst (filter (\<lambda>(item, value). value = k) (List.map_filter (rank_item ranker name) items))
     = filter (\<lambda>i. ranker (item_field_value i name) = Some k) items"
  by (induction items) (auto simp: List.map_filter_simps rank_item_def split: option.splits)

lemma ranked_items_best:
  "ranked_items items request ranker = best_ranked (if rq_operation request = MAXIMUM then (\<le>) else (\<ge>)) ranker
     (rq_field_name request) items"
proof (cases "List.map_filter (rank_item ranker (rq_field_name request)) items = []")
  case True
  then have "\<forall>i \<in> set items. ranker (item_field_value i (rq_field_name request)) = None"
    using find_map_filter[of _ "rank_item ranker (rq_field_name request)" items]
    by (auto simp: rank_item_def) (metis not_None_eq)
  then show ?thesis using True by (auto simp: ranked_items_def best_ranked_def filter_empty_conv)
next
  case False
  let ?name = "rq_field_name request"
  let ?V = "snd ` set (List.map_filter (rank_item ranker ?name) items)"
  have V: "v \<in> ?V \<longleftrightarrow> (\<exists>i \<in> set items. ranker (item_field_value i ?name) = Some v)" for v
    by (force simp: image_iff find_map_filter rank_item_def)
  have fin: "finite ?V" "?V \<noteq> {}" using False by simp_all
  have all: "list_all (\<lambda>j. case ranker (item_field_value j ?name) of None \<Rightarrow> True | Some w \<Rightarrow> le w v) items \<longleftrightarrow> (\<forall>w \<in> ?V. le w v)" for le v
  proof -
    have "(\<forall>w \<in> ?V. le w v) \<longleftrightarrow> (\<forall>j \<in> set items. \<forall>w. ranker (item_field_value j ?name) = Some w \<longrightarrow> le w v)"
      using V by blast
    then show ?thesis by (auto simp: list_all_iff split: option.splits)
  qed
  let ?le = "if rq_operation request = MAXIMUM then (\<le>) else (\<ge>) :: int \<Rightarrow> int \<Rightarrow> bool"
  let ?T = "if rq_operation request = MAXIMUM then Max ?V else Min ?V"
  have best: "v = ?T \<longleftrightarrow> (\<forall>w \<in> ?V. ?le w v)" if "v \<in> ?V" for v
  proof (cases "rq_operation request = MAXIMUM")
    case True
    have "v = Max ?V \<longleftrightarrow> (\<forall>w \<in> ?V. w \<le> v)" using Max_eqI[OF fin(1) _ that] Max_ge[OF fin(1)] by blast
    then show ?thesis using True by (simp only: if_True simp_thms)
  next
    case False
    have "v = Min ?V \<longleftrightarrow> (\<forall>w \<in> ?V. w \<ge> v)" using Min_eqI[OF fin(1) _ that] Min_le[OF fin(1)] by blast
    then show ?thesis using False by (simp only: if_False simp_thms)
  qed
  have "filter (\<lambda>i. ranker (item_field_value i ?name) = Some ?T) items = best_ranked ?le ranker ?name items"
    unfolding best_ranked_def all
  proof (rule filter_cong[OF refl])
    fix i assume i: "i \<in> set items"
    show "ranker (item_field_value i ?name) = Some ?T \<longleftrightarrow>
        (case ranker (item_field_value i ?name) of None \<Rightarrow> False | Some v \<Rightarrow> \<forall>w \<in> ?V. ?le w v)"
    proof (cases "ranker (item_field_value i ?name)")
      case (Some v)
      then have "v \<in> ?V" using i V by blast
      then show ?thesis using best[of v] Some by simp
    qed simp
  qed
  then show ?thesis using False unfolding ranked_items_def Let_def map_fst_filter_ranked set_map
    by (simp only: if_False)
qed

text \<open>A follow-up question is resolved against the latest collection with items in the conversation's
  evidence: the items are all of them, or the one at the requested position, or those whose configured rank of the
  asked field is best among the ranked ones; a superlative on a field without ranks is never resolved.\<close>

theorem resolved_reference_exact:
  assumes "resolve_reference r query snapshots = RESOLVED ref"
  shows "\<exists>c pre post. concat (map es_evidence snapshots) = pre @ CollectionEvidence c # post \<and> ce_items c \<noteq> []
    \<and> list_all (\<lambda>b. nonempty_collection b = None) post
    \<and> parse_reference (rs_parser r) query = Some (rr_request ref)
    \<and> rr_entity_label ref = ce_entity_label c \<and> rr_items ref \<noteq> []
    \<and> (let selected = select_items (ce_items c) (rq_ordinal (rr_request ref));
           name = rq_field_name (rr_request ref)
       in case rq_operation (rr_request ref) of
            FIELD \<Rightarrow> rr_items ref = selected
          | MAXIMUM \<Rightarrow> \<exists>ranker. map_of (rs_rankers r) name = Some ranker \<and> rr_items ref = best_ranked (\<le>) ranker name selected
          | MINIMUM \<Rightarrow> \<exists>ranker. map_of (rs_rankers r) name = Some ranker \<and> rr_items ref = best_ranked (\<ge>) ranker name selected)"
proof -
  obtain request c where rc: "parse_reference (rs_parser r) query = Some request" "latest_collection snapshots = Some c"
    using assms by (auto simp: resolve_reference_def split: option.splits)
  obtain pre post where split: "concat (map es_evidence snapshots) = pre @ CollectionEvidence c # post" "ce_items c \<noteq> []"
    "\<forall>b \<in> set post. nonempty_collection b = None"
    using latest_collection_Some[OF rc(2)] by blast
  show ?thesis
  proof (intro exI conjI)
    show "concat (map es_evidence snapshots) = pre @ CollectionEvidence c # post" "ce_items c \<noteq> []" by (fact split)+
    show "list_all (\<lambda>b. nonempty_collection b = None) post" using split(3) by (simp add: list_all_iff)
    show "parse_reference (rs_parser r) query = Some (rr_request ref)" "rr_entity_label ref = ce_entity_label c" "rr_items ref \<noteq> []"
      using assms rc by (auto simp: resolve_reference_def Let_def split: option.splits if_splits)
    show "let selected = select_items (ce_items c) (rq_ordinal (rr_request ref)); name = rq_field_name (rr_request ref)
       in case rq_operation (rr_request ref) of
            FIELD \<Rightarrow> rr_items ref = selected
          | MAXIMUM \<Rightarrow> \<exists>ranker. map_of (rs_rankers r) name = Some ranker \<and> rr_items ref = best_ranked (\<le>) ranker name selected
          | MINIMUM \<Rightarrow> \<exists>ranker. map_of (rs_rankers r) name = Some ranker \<and> rr_items ref = best_ranked (\<ge>) ranker name selected"
      using assms rc unfolding resolve_reference_def Let_def ranked_items_best
      by (auto split: option.splits if_splits reference_operation.splits)
  qed
qed

text \<open>The text the default policy gives for a resolved reference.\<close>

definition reference_line :: "(pyval \<Rightarrow> string) \<Rightarrow> string \<Rightarrow> evidence_item \<Rightarrow> string" where
  "reference_line pr name item =
     (if name = ''due_at'' then ei_entity_id item @ '' is due on '' @ py_str pr (item_field_value item name) @ ''.''
      else ei_entity_id item @ '': '' @ py_str pr (item_field_value item name))"

definition reference_answer :: "(pyval \<Rightarrow> string) \<Rightarrow> resolved_reference \<Rightarrow> string" where
  "reference_answer pr ref =
     (let name = rq_field_name (rr_request ref);
          shown = filter (\<lambda>i. item_field_value i name \<noteq> PNone) (rr_items ref)
      in if shown = [] then ''The referenced '' @ rr_entity_label ref @ '' items do not contain '' @ name @ ''.''
         else join newline (map (reference_line pr name) shown))"

lemma template_formatter_execute:
  "template_formatter pr template (execute_field_query ref) =
     (let name = rq_field_name (rr_request ref); shown = filter (\<lambda>i. item_field_value i name \<noteq> PNone) (rr_items ref) in
      if shown = [] then ''The referenced '' @ rr_entity_label ref @ '' items do not contain '' @ name @ ''.''
      else join newline (map (\<lambda>i. format_line pr template \<lparr>fv_entity_id = ei_entity_id i, fv_label = ei_label i,
         fv_field_name = name, fv_value = item_field_value i name\<rparr>) shown))"
  by (simp add: template_formatter_def execute_field_query_def Let_def filter_map o_def)

lemma default_field_names:
  "parse_reference (rs_parser (build_resolver (default_reference_policy pr))) query = Some request
     \<Longrightarrow> rq_field_name request \<in> {''due_at'', ''priority''}"
  by (auto simp: parse_reference_def build_resolver_def default_reference_policy_def split: if_splits)

lemma default_reference_answer:
  assumes "resolve_reference (build_resolver (default_reference_policy pr)) query snapshots = RESOLVED ref"
  shows "format_result (build_formatter_registry pr (default_reference_policy pr)) (execute_field_query ref) = reference_answer pr ref"
proof -
  have "parse_reference (rs_parser (build_resolver (default_reference_policy pr))) query = Some (rr_request ref)"
    using assms by (auto simp: resolve_reference_def Let_def split: option.splits if_splits)
  from default_field_names[OF this]
  have "rq_field_name (rr_request ref) = ''due_at'' \<or> rq_field_name (rr_request ref) = ''priority''" by simp
  moreover have name: "fr_field_name (execute_field_query ref) = rq_field_name (rr_request ref)"
    by (simp add: execute_field_query_def Let_def)
  ultimately have "format_result (build_formatter_registry pr (default_reference_policy pr)) (execute_field_query ref)
    = template_formatter pr (if rq_field_name (rr_request ref) = ''due_at''
        then [EntityId, Literal '' is due on '', FieldValue, Literal ''.''] else DEFAULT_TEMPLATE) (execute_field_query ref)"
    unfolding format_result_def name by (auto simp: build_formatter_registry_def default_reference_policy_def)
  then show ?thesis unfolding template_formatter_execute reference_answer_def Let_def
    by (auto simp: reference_line_def[abs_def] format_line_def DEFAULT_TEMPLATE_def)
qed

subsection \<open>A sample follow-up\<close>

definition order_item :: "string \<Rightarrow> string \<Rightarrow> evidence_item" where
  "order_item code priority = \<lparr>ei_evidence_id = code, ei_entity_id = code, ei_label = code,
     ei_fields = [\<lparr>ef_name = ''priority'', ef_label = ''Priority'', ef_value = PStr priority\<rparr>], ei_source = None\<rparr>"

definition orders_snapshot :: evidence_snapshot where
  "orders_snapshot = \<lparr>es_conversation_id = 1, es_owner_user_id = 2, es_exchange_id = 3, es_tool_name = ''assistant.run'',
     es_evidence = [CollectionEvidence \<lparr>ce_evidence_id = ''e'', ce_entity_label = ''work order'',
       ce_entity_label_plural = ''work orders'', ce_filters = [], ce_requested_count = None,
       ce_items = [order_item ''WO-1'' ''low'', order_item ''WO-2'' ''High'', order_item ''WO-3'' ''odd'']\<rparr>],
     es_created_at = 0, es_expires_at = None, es_schema_version = 1\<rparr>"

definition follow_up :: string where
  "follow_up = ''highest priority of them''"

lemma follow_up_found:
  "rx_found REFERENCE_PATTERN follow_up"
  "rx_found (rx_b [rx_lit ''priority'']) follow_up"
  "rx_found (rx_b [rx_lit ''highest'']) follow_up"
  by code_simp+

lemma follow_up_other: "\<not> rx_possible (rx_b [rx_words [''due'', ''deadline'', ''date'']]) follow_up"
  by code_simp

lemma follow_up_ordinal: "extract_ordinal follow_up = None"
  by code_simp

lemma follow_up_ranks: "map (map_of PRIORITY_RANKS) (map lower [''low'', ''High'', ''odd'']) = [Some 1, Some 3, None]"
  by code_simp

abbreviation default_resolver :: reference_resolver where
  "default_resolver \<equiv> build_resolver (default_reference_policy (\<lambda>_. []))"

lemma follow_up_parse:
  "parse_reference (rs_parser default_resolver) follow_up
     = Some \<lparr>rq_field_name = ''priority'', rq_operation = MAXIMUM, rq_ordinal = None\<rparr>"
  using follow_up_found follow_up_other[THEN not_possible_not_found]
  by (simp add: parse_reference_def build_resolver_def default_reference_policy_def reference_operation_of_def
      follow_up_ordinal)

lemma follow_up_resolved:
  "resolve_reference default_resolver follow_up [orders_snapshot]
     = RESOLVED \<lparr>rr_entity_label = ''work order'', rr_items = [order_item ''WO-2'' ''High''],
         rr_request = \<lparr>rq_field_name = ''priority'', rq_operation = MAXIMUM, rq_ordinal = None\<rparr>\<rparr>"
  unfolding resolve_reference_def follow_up_parse
  using follow_up_ranks
  by (simp add: build_resolver_def default_reference_policy_def orders_snapshot_def latest_collection_def
      select_items_def List.map_filter_simps ranked_items_def rank_item_def item_field_value_def order_item_def
      mapping_value_ranker_def Let_def)

theorem resolved_reference_exact_witness:
  "\<exists>c. concat (map es_evidence [orders_snapshot]) = [CollectionEvidence c]
    \<and> best_ranked (\<le>) (mapping_value_ranker PRIORITY_RANKS) ''priority'' (ce_items c) = [order_item ''WO-2'' ''High'']"
proof -
  have "map_of (rs_rankers default_resolver) ''priority'' = Some (mapping_value_ranker PRIORITY_RANKS)"
    by (simp add: build_resolver_def default_reference_policy_def List.map_filter_simps)
  then show ?thesis using resolved_reference_exact[OF follow_up_resolved]
    by (auto simp: Let_def select_items_def orders_snapshot_def Cons_eq_append_conv)
qed

end
