(* ===== verification/Assistant_Query.thy ===== *)
theory Assistant_Query
  imports Checkpoints Reference Tool_Runtime
begin

section \<open>The assistant query\<close>

text \<open>
  \<open>OrchestrateAssistantQuery\<close> of \<open>src/app/modules/assistant/application/use_cases.py\<close>: one question of a user,
  from the claim of the conversation to the stored exchange. The stores are used through the port
  \<open>store_port\<close>; both stores provide it and satisfy the locale \<open>exchange_store\<close>. Fresh identifiers and
  clock readings of a query are its \<open>query_env\<close>; the text of an exception, SHA-256 and the assembler are
  parameters.
\<close>

subsection \<open>The parts\<close>

record assistant_command =
  cmd_query :: string
  cmd_actor :: authorization_context
  cmd_conversation_id :: "uuid option"
  cmd_max_tool_calls :: int
  cmd_allow_tool_calls :: bool

record 's store_port =
  sp_claim :: "uuid \<Rightarrow> uuid \<Rightarrow> datetime \<Rightarrow> 's \<Rightarrow> 's result"
  sp_read_recent :: "uuid \<Rightarrow> uuid \<Rightarrow> int \<Rightarrow> 's \<Rightarrow> conversation_turn list result"
  sp_read_evidence :: "datetime \<Rightarrow> uuid \<Rightarrow> uuid \<Rightarrow> int \<Rightarrow> 's \<Rightarrow> evidence_snapshot list result"
  sp_append_exchange :: "uuid \<times> uuid \<times> uuid \<Rightarrow> uuid \<Rightarrow> uuid \<Rightarrow> conversation_turn \<Rightarrow> conversation_turn
     \<Rightarrow> evidence_snapshot option \<Rightarrow> 's \<Rightarrow> 's result"

definition database_port :: "(pyval \<Rightarrow> string) \<Rightarrow> int \<Rightarrow> conversation_tables store_port" where
  "database_port fr days = \<lparr>sp_claim = db_claim, sp_read_recent = db_read_recent,
     sp_read_evidence = db_read_evidence fr, sp_append_exchange = db_append_exchange fr days\<rparr>"

definition memory_port :: "nat \<Rightarrow> memory_store store_port" where
  "memory_port m = \<lparr>sp_claim = (\<lambda>c u tm. mem_claim c u), sp_read_recent = mem_read_recent,
     sp_read_evidence = (\<lambda>now. mem_read_evidence), sp_append_exchange = (\<lambda>ids. mem_append_exchange m)\<rparr>"

record query_env =
  qe_conversation_id :: uuid
  qe_asked_at :: datetime
  qe_read_at :: datetime
  qe_answered_at :: datetime
  qe_exchange_id :: uuid
  qe_rows :: "uuid \<times> uuid \<times> uuid"

record ('s, 'w) assistant =
  as_runtime :: "'w tool_runtime"
  as_call_env :: "'w gateway_state \<Rightarrow> call_env"
  as_brain :: "'w gateway_state brain"
  as_started :: bool
  as_checkpointed :: bool
  as_agent_name :: string
  as_model_name :: string
  as_recursion_limit :: nat
  as_store :: "'s store_port"
  as_policy :: tool_call_policy
  as_assemble :: "context_request \<Rightarrow> assembled_context option"
  as_retention_days :: int
  as_resolver :: "reference_resolver option"
  as_field_queries :: bool
  as_formatters :: "formatter_registry option"
  as_sha256 :: "8 word list \<Rightarrow> string"
  as_repr :: "pyval \<Rightarrow> string"
  as_exc_text :: "exc \<Rightarrow> string"

text \<open>What the graph runtime keeps for each thread.\<close>

type_synonym checkpoints = "string \<Rightarrow> checkpoint option"

datatype telemetry_event = Query_Started string | Tool_Called string | Query_Completed nat

record ('s, 'w) assistant_state =
  st_store :: 's
  st_gateway :: "'w gateway_state"
  st_checkpoints :: checkpoints
  st_telemetry :: "telemetry_event list"

record assistant_response =
  qr_answer :: string
  qr_conversation_id :: uuid
  qr_agent_name :: string
  qr_model_name :: string
  qr_finish_reason :: string
  qr_tool_calls :: "(string \<times> dict \<times> dict) list"

definition tell :: "telemetry_event list \<Rightarrow> ('s, 'w) assistant_state \<Rightarrow> ('s, 'w) assistant_state" where
  "tell evs s = s\<lparr>st_telemetry := st_telemetry s @ evs\<rparr>"

definition cancelled_error :: exc where
  "cancelled_error = ExternalErr ''CancelledError''"

definition orchestration_failed :: "('s, 'w) assistant \<Rightarrow> exc \<Rightarrow> exc" where
  "orchestration_failed q e = DomainErr ''assistant_orchestration_failed'' (as_exc_text q e)"

subsection \<open>The answer from earlier evidence\<close>

definition follow_up_answer :: "('s, 'w) assistant \<Rightarrow> string \<Rightarrow> evidence_snapshot list \<Rightarrow> string option" where
  "follow_up_answer q query evidence = (case as_resolver q of
      None \<Rightarrow> None
    | Some r \<Rightarrow> (case resolve_reference r query evidence of
        RESOLVED ref \<Rightarrow> (case (as_field_queries q, as_formatters q) of
            (True, Some g) \<Rightarrow> Some (format_result g (execute_field_query ref))
          | _ \<Rightarrow> None)
      | _ \<Rightarrow> None))"

definition exchange_turns :: "query_env \<Rightarrow> string \<Rightarrow> string \<Rightarrow> conversation_turn \<times> conversation_turn" where
  "exchange_turns v query answer =
     (\<lparr>ct_role = ''user'', ct_content = query, ct_created_at = qe_asked_at v\<rparr>,
      \<lparr>ct_role = ''assistant'', ct_content = answer, ct_created_at = qe_answered_at v\<rparr>)"

definition store_exchange ::
  "('s, 'w) assistant \<Rightarrow> query_env \<Rightarrow> uuid \<Rightarrow> uuid \<Rightarrow> string \<Rightarrow> string \<Rightarrow> evidence_snapshot option \<Rightarrow> 's \<Rightarrow> 's result" where
  "store_exchange q v c u query answer evidence s = (case exchange_turns v query answer of (a, b) \<Rightarrow>
     sp_append_exchange (as_store q) (qe_rows v) c u a b evidence s)"

definition answer_follow_up ::
  "('s, 'w) assistant \<Rightarrow> query_env \<Rightarrow> uuid \<Rightarrow> uuid \<Rightarrow> string \<Rightarrow> string
     \<Rightarrow> ('s, 'w) assistant_state \<Rightarrow> assistant_response result \<times> ('s, 'w) assistant_state" where
  "answer_follow_up q v c u query answer s = (case store_exchange q v c u query answer None (st_store s) of
      Inl e \<Rightarrow> (Inl e, s)
    | Inr store \<Rightarrow> (Inr \<lparr>qr_answer = answer, qr_conversation_id = c, qr_agent_name = ''assistant.reference-resolver'',
          qr_model_name = ''deterministic'', qr_finish_reason = ''completed'', qr_tool_calls = []\<rparr>,
        tell [Query_Completed 0] (s\<lparr>st_store := store\<rparr>)))"

subsection \<open>The answer of the agent\<close>

definition agent_request_of ::
  "('s, 'w) assistant \<Rightarrow> assistant_command \<Rightarrow> uuid \<Rightarrow> tool_descriptor list \<Rightarrow> assembled_context \<Rightarrow> 'w gateway_state agent_request" where
  "agent_request_of q cmd c tools context = \<lparr>
     aq_context = \<lparr>gc_brain = as_brain q, gc_actor = cmd_actor cmd, gc_tools = tools,
       gc_invoker = runtime_invoke (as_runtime q) (\<lambda>s. (as_call_env q s)\<lparr>env_conversation := Some c\<rparr>) (cmd_actor cmd),
       gc_retrieved = context, gc_query = cmd_query cmd, gc_conversation_id = Some c, gc_repr = as_repr q\<rparr>,
     aq_policy = as_policy q, aq_max_tool_calls = cmd_max_tool_calls cmd, aq_allow_tool_calls = cmd_allow_tool_calls cmd\<rparr>"

definition run_snapshot :: "('s, 'w) assistant \<Rightarrow> query_env \<Rightarrow> uuid \<Rightarrow> uuid \<Rightarrow> agent_run_result \<Rightarrow> evidence_snapshot option" where
  "run_snapshot q v c u run = (if ar_evidence run = [] then None
     else Some \<lparr>es_conversation_id = c, es_owner_user_id = u, es_exchange_id = qe_exchange_id v,
       es_tool_name = ''assistant.run'', es_evidence = ar_evidence run, es_created_at = qe_asked_at v,
       es_expires_at = Some (qe_asked_at v + timedelta_days (as_retention_days q)),
       es_schema_version = EVIDENCE_SCHEMA_VERSION\<rparr>)"

definition run_response :: "uuid \<Rightarrow> agent_run_result \<Rightarrow> assistant_response" where
  "run_response c run = \<lparr>qr_answer = ar_answer run, qr_conversation_id = c, qr_agent_name = ar_agent_name run,
     qr_model_name = ar_model_name run, qr_finish_reason = finish_reason_value (ar_finish_reason run),
     qr_tool_calls = map (\<lambda>t. (tcr_tool_name t, tcr_payload t, tcr_result t)) (ar_tool_calls run)\<rparr>"

definition run_agent ::
  "('s, 'w) assistant \<Rightarrow> assistant_command \<Rightarrow> uuid \<Rightarrow> tool_descriptor list \<Rightarrow> assembled_context
     \<Rightarrow> ('s, 'w) assistant_state \<Rightarrow> agent_run_result result \<times> ('s, 'w) assistant_state" where
  "run_agent q cmd c tools context s =
     (let thread = derive_thread_id (as_sha256 q) (ac_user_id (cmd_actor cmd)) c;
          saved = (if as_checkpointed q then st_checkpoints s thread else None)
      in case orchestrate (as_started q) (as_agent_name q) (as_model_name q) (as_recursion_limit q)
           (agent_request_of q cmd c tools context) (case saved of None \<Rightarrow> empty_checkpoint | Some ck \<Rightarrow> ck) (st_gateway s) of
         (result, ck, w) \<Rightarrow> (result, s\<lparr>st_gateway := w,
           st_checkpoints := (if as_checkpointed q \<and> as_started q then (st_checkpoints s)(thread \<mapsto> ck) else st_checkpoints s)\<rparr>))"

definition answer_with_agent ::
  "('s, 'w) assistant \<Rightarrow> query_env \<Rightarrow> assistant_command \<Rightarrow> uuid \<Rightarrow> uuid \<Rightarrow> conversation_turn list \<Rightarrow> evidence_snapshot list
     \<Rightarrow> ('s, 'w) assistant_state \<Rightarrow> assistant_response result \<times> ('s, 'w) assistant_state" where
  "answer_with_agent q v cmd c u history evidence s =
     (case as_assemble q \<lparr>cq_conversation_id = c, cq_query = cmd_query cmd, cq_actor = cmd_actor cmd,
         cq_recent_turns = history, cq_recent_evidence = evidence\<rparr> of
       None \<Rightarrow> (Inl cancelled_error, s)
     | Some context \<Rightarrow> (case list_tools (as_runtime q) (cmd_actor cmd) of
         Inl e \<Rightarrow> (Inl (orchestration_failed q e), s)
       | Inr tools \<Rightarrow> (case run_agent q cmd c tools context s of
           (Inl e, s1) \<Rightarrow> (Inl (orchestration_failed q e), s1)
         | (Inr run, s1) \<Rightarrow>
             (case store_exchange q v c u (cmd_query cmd) (ar_answer run) (run_snapshot q v c u run) (st_store s1) of
               Inl e \<Rightarrow> (Inl e, s1)
             | Inr store \<Rightarrow> (Inr (run_response c run),
                 tell (map (\<lambda>t. Tool_Called (tcr_tool_name t)) (ar_tool_calls run) @ [Query_Completed (length (ar_tool_calls run))])
                   (s1\<lparr>st_store := store\<rparr>))))))"

subsection \<open>The use case\<close>

definition command_conversation :: "query_env \<Rightarrow> assistant_command \<Rightarrow> uuid" where
  "command_conversation v cmd = (case cmd_conversation_id cmd of Some c \<Rightarrow> c | None \<Rightarrow> qe_conversation_id v)"

definition execute_query ::
  "('s, 'w) assistant \<Rightarrow> query_env \<Rightarrow> assistant_command
     \<Rightarrow> ('s, 'w) assistant_state \<Rightarrow> assistant_response result \<times> ('s, 'w) assistant_state" where
  "execute_query q v cmd s0 =
     (let s = tell [Query_Started (cmd_query cmd)] s0;
          c = command_conversation v cmd;
          u = ac_user_id (cmd_actor cmd)
      in case sp_claim (as_store q) c u (qe_asked_at v) (st_store s) of
           Inl e \<Rightarrow> (Inl e, s)
         | Inr store \<Rightarrow> (let s1 = s\<lparr>st_store := store\<rparr> in
             case sp_read_recent (as_store q) c u 12 store of
               Inl e \<Rightarrow> (Inl e, s1)
             | Inr history \<Rightarrow> (case sp_read_evidence (as_store q) (qe_read_at v) c u 12 store of
                 Inl e \<Rightarrow> (Inl e, s1)
               | Inr evidence \<Rightarrow> (case follow_up_answer q (cmd_query cmd) evidence of
                   Some answer \<Rightarrow> answer_follow_up q v c u (cmd_query cmd) answer s1
                 | None \<Rightarrow> answer_with_agent q v cmd c u history evidence s1))))"

subsection \<open>What the use case needs of its store\<close>

text \<open>\<open>keep\<close> is the trimming of the store: a database keeps every turn, the store in memory the last ones.\<close>

locale exchange_store =
  fixes port :: "'s store_port"
    and owner_of :: "'s \<Rightarrow> uuid \<Rightarrow> uuid option"
    and turns_of :: "'s \<Rightarrow> uuid \<Rightarrow> conversation_turn list"
    and keep :: "conversation_turn list \<Rightarrow> conversation_turn list"
  assumes claim_Inr: "sp_claim port c u tm s = Inr s' \<Longrightarrow>
      owner_of s c \<in> {None, Some u} \<and> owner_of s' = (owner_of s)(c \<mapsto> u) \<and> turns_of s' = turns_of s"
    and claim_Inl: "sp_claim port c u tm s = Inl e \<Longrightarrow>
      e = ownership_error \<and> (\<exists>w. owner_of s c = Some w \<and> w \<noteq> u)"
    and append_Inr: "sp_append_exchange port ids c u a b ev s = Inr s' \<Longrightarrow>
      owner_of s' = (owner_of s)(c \<mapsto> u) \<and> turns_of s' = (turns_of s)(c := keep (turns_of s c @ [a, b]))"
begin

lemma agent_store:
  "run_agent q cmd c tools context s = (res, s') \<Longrightarrow> st_store s' = st_store s \<and> st_telemetry s' = st_telemetry s"
  by (auto simp: run_agent_def Let_def split: prod.splits)

lemma stored_exchange:
  assumes "store_exchange q v c u query answer ev s = Inr s'" and "as_store q = port"
  shows "owner_of s' = (owner_of s)(c \<mapsto> u)
    \<and> turns_of s' = (turns_of s)(c := keep (turns_of s c @ [fst (exchange_turns v query answer), snd (exchange_turns v query answer)]))"
  using assms append_Inr by (auto simp: store_exchange_def exchange_turns_def)

lemma agent_answer:
  assumes "answer_with_agent q v cmd c u history evidence s = (res, s')" and "as_store q = port"
  shows "case res of
      Inl e \<Rightarrow> st_store s' = st_store s
    | Inr r \<Rightarrow> qr_conversation_id r = c \<and> owner_of (st_store s') = (owner_of (st_store s))(c \<mapsto> u)
        \<and> turns_of (st_store s') = (turns_of (st_store s))(c := keep (turns_of (st_store s) c
             @ [fst (exchange_turns v (cmd_query cmd) (qr_answer r)), snd (exchange_turns v (cmd_query cmd) (qr_answer r))]))"
proof -
  consider e where "res = Inl e" "s' = s"
    | e ctx tools where "run_agent q cmd c tools ctx s = (Inl e, s')" "res = Inl (orchestration_failed q e)"
    | run ctx tools s1 where "run_agent q cmd c tools ctx s = (Inr run, s1)"
        "(case store_exchange q v c u (cmd_query cmd) (ar_answer run) (run_snapshot q v c u run) (st_store s1) of
               Inl e \<Rightarrow> (Inl e, s1)
             | Inr store \<Rightarrow> (Inr (run_response c run),
                 tell (map (\<lambda>t. Tool_Called (tcr_tool_name t)) (ar_tool_calls run) @ [Query_Completed (length (ar_tool_calls run))])
                   (s1\<lparr>st_store := store\<rparr>))) = (res, s')"
    using assms(1) unfolding answer_with_agent_def by (auto split: option.splits sum.splits prod.splits)
  then show ?thesis
  proof cases
    case 2
    then show ?thesis using agent_store[OF 2(1)] by simp
  next
    case 3
    have same: "st_store s1 = st_store s" using agent_store[OF 3(1)] by simp
    show ?thesis
    proof (cases "store_exchange q v c u (cmd_query cmd) (ar_answer run) (run_snapshot q v c u run) (st_store s1)")
      case (Inl e)
      then show ?thesis using 3(2) same by auto
    next
      case (Inr store)
      note stored_exchange[OF Inr assms(2)]
      moreover have "res = Inr (run_response c run)" "st_store s' = store" "qr_answer (run_response c run) = ar_answer run"
        "qr_conversation_id (run_response c run) = c"
        using 3(2) Inr by (auto simp: run_response_def tell_def)
      ultimately show ?thesis using same by (simp del: fun_upd_apply)
    qed
  qed simp
qed

lemma query_effect:
  assumes "execute_query q v cmd s = (res, s')" and "as_store q = port"
    and "c = command_conversation v cmd" and "u = ac_user_id (cmd_actor cmd)"
  shows "case res of
      Inl e \<Rightarrow> turns_of (st_store s') = turns_of (st_store s)
    | Inr r \<Rightarrow> qr_conversation_id r = c \<and> owner_of (st_store s) c \<in> {None, Some u}
        \<and> owner_of (st_store s') = (owner_of (st_store s))(c \<mapsto> u)
        \<and> turns_of (st_store s') = (turns_of (st_store s))(c := keep (turns_of (st_store s) c
             @ [fst (exchange_turns v (cmd_query cmd) (qr_answer r)), snd (exchange_turns v (cmd_query cmd) (qr_answer r))]))"
proof (cases "sp_claim (as_store q) c u (qe_asked_at v) (st_store s)")
  case (Inl e)
  then show ?thesis using assms by (auto simp: execute_query_def tell_def Let_def)
next
  case (Inr store)
  note claim = claim_Inr[OF Inr[unfolded assms(2)]]
  let ?s1 = "(tell [Query_Started (cmd_query cmd)] s)\<lparr>st_store := store\<rparr>"
  have s1: "turns_of (st_store ?s1) = turns_of (st_store s)" "owner_of (st_store ?s1) = (owner_of (st_store s))(c \<mapsto> u)"
    using claim by simp_all
  consider e where "res = Inl e" "s' = ?s1"
    | answer where "answer_follow_up q v c u (cmd_query cmd) answer ?s1 = (res, s')"
    | history evidence where "answer_with_agent q v cmd c u history evidence ?s1 = (res, s')"
    using assms(1) Inr unfolding execute_query_def Let_def assms(3,4)[symmetric]
    by (auto simp: tell_def split: sum.splits option.splits)
  then show ?thesis
  proof cases
    case 1
    then show ?thesis using s1 by simp
  next
    case 2
    then show ?thesis using s1 claim stored_exchange[OF _ assms(2)]
      by (auto simp: answer_follow_up_def tell_def split: sum.splits)
  next
    case 3
    show ?thesis using agent_answer[OF 3 assms(2)] s1 claim by (cases res) (simp_all del: fun_upd_apply)
  qed
qed

text \<open>A conversation of somebody else: nothing but the started query is recorded.\<close>

lemma foreign_query:
  assumes "as_store q = port" and "owner_of (st_store s) (command_conversation v cmd) = Some w" and "w \<noteq> ac_user_id (cmd_actor cmd)"
  shows "execute_query q v cmd s = (Inl ownership_error, tell [Query_Started (cmd_query cmd)] s)"
proof (cases "sp_claim port (command_conversation v cmd) (ac_user_id (cmd_actor cmd)) (qe_asked_at v) (st_store s)")
  case (Inl e)
  then show ?thesis using claim_Inl[OF Inl] assms(1) by (simp add: execute_query_def tell_def Let_def)
next
  case (Inr store)
  then show ?thesis using claim_Inr[OF Inr] assms(2,3) by auto
qed

end

text \<open>The turns of the database in the order of their insertion.\<close>

definition stored_turns :: "conversation_tables \<Rightarrow> uuid \<Rightarrow> conversation_turn list" where
  "stored_turns t c = map row_turn (filter (\<lambda>r. tw_conversation r = c) (cvt_turns t))"

lemma stored_turns_same: "cvt_turns t' = cvt_turns t \<Longrightarrow> stored_turns t' = stored_turns t"
  by (simp add: stored_turns_def fun_eq_iff)

interpretation database_exchange: exchange_store "database_port fr days" db_owner stored_turns "\<lambda>xs. xs"
proof
  fix c u tm t t' assume claim: "sp_claim (database_port fr days) c u tm t = Inr t'"
  then show "db_owner t c \<in> {None, Some u} \<and> db_owner t' = (db_owner t)(c \<mapsto> u) \<and> stored_turns t' = stored_turns t"
    using db_claim_owner[of c u tm t t'] stored_turns_same[of t' t] by (simp add: database_port_def)
next
  fix c u tm t e assume "sp_claim (database_port fr days) c u tm t = Inl e"
  then show "e = ownership_error \<and> (\<exists>w. db_owner t c = Some w \<and> w \<noteq> u)"
    using db_claim_Inl[of c u tm t e] by (simp add: database_port_def)
next
  fix ids c u a b ev t t' assume append: "sp_append_exchange (database_port fr days) ids c u a b ev t = Inr t'"
  obtain i j k where "ids = (i, j, k)" by (cases ids)
  then show "db_owner t' = (db_owner t)(c \<mapsto> u) \<and> stored_turns t' = (stored_turns t)(c := stored_turns t c @ [a, b])"
    using db_exchange_effect[of fr days i j k c u a b ev t t'] append
    by (auto simp: database_port_def stored_turns_def row_turn_def turn_record_def)
qed

interpretation memory_exchange: exchange_store "memory_port m" ms_owners ms_turns "last_n m"
  by unfold_locales
    (auto simp: memory_port_def mem_claim_def mem_append_exchange_def mem_extend_def mem_trim_last fun_eq_iff Let_def
      split: option.splits if_splits)

subsection \<open>Properties\<close>

text \<open>C21. What a query leaves in the conversation: an answered query appends exactly two turns to its
  conversation, the question and the answer it returned, and makes the asker its owner; a query that fails
  in any way (store, context, model, tools, limits) appends none; no other conversation changes.\<close>

theorem query_stores_exchange:
  assumes "execute_query q v cmd s = (res, s')" and "as_store q = database_port fr days"
  shows "case res of
      Inl e \<Rightarrow> stored_turns (st_store s') = stored_turns (st_store s)
    | Inr r \<Rightarrow> (let c = command_conversation v cmd; u = ac_user_id (cmd_actor cmd) in
        qr_conversation_id r = c \<and> db_owner (st_store s) c \<in> {None, Some u} \<and> db_owner (st_store s') = (db_owner (st_store s))(c \<mapsto> u)
        \<and> stored_turns (st_store s') = (stored_turns (st_store s))(c := stored_turns (st_store s) c
            @ [\<lparr>ct_role = ''user'', ct_content = cmd_query cmd, ct_created_at = qe_asked_at v\<rparr>,
               \<lparr>ct_role = ''assistant'', ct_content = qr_answer r, ct_created_at = qe_answered_at v\<rparr>]))"
  using database_exchange.query_effect[OF assms refl refl] by (simp add: exchange_turns_def Let_def split: sum.splits)

text \<open>A conversation of somebody else is refused before anything happens: with either store the query ends in
  the ownership error, no tool is called, nothing is read into the answer, and store, tool records, limits and
  checkpoints are as before.\<close>

theorem foreign_query_refused:
  assumes "as_store q = database_port fr days" and "db_owner (st_store s) (command_conversation v cmd) = Some w"
    and "as_store q' = memory_port m" and "ms_owners (st_store s') (command_conversation v cmd) = Some w"
    and "w \<noteq> ac_user_id (cmd_actor cmd)"
  shows "execute_query q v cmd s = (Inl ownership_error, tell [Query_Started (cmd_query cmd)] s)
    \<and> execute_query q' v cmd s' = (Inl ownership_error, tell [Query_Started (cmd_query cmd)] s')"
  using database_exchange.foreign_query[OF assms(1,2,5)] memory_exchange.foreign_query[OF assms(3,4,5)] by simp

text \<open>A follow-up about the conversation's evidence is answered from that evidence: with the default policy, a
  resolved reference gives the answer read off the resolved items, without any tool call or model run, and
  the run state of the agent is untouched.\<close>

theorem follow_up_without_agent:
  assumes "execute_query q v cmd s = (res, s')" and "as_store q = database_port fr days"
    and "as_resolver q = Some (build_resolver (default_reference_policy (as_repr q)))"
    and "as_formatters q = Some (build_formatter_registry (as_repr q) (default_reference_policy (as_repr q)))" and "as_field_queries q"
    and "db_read_evidence fr (qe_read_at v) (command_conversation v cmd) (ac_user_id (cmd_actor cmd)) 12 (st_store s) = Inr evidence"
    and "resolve_reference (build_resolver (default_reference_policy (as_repr q))) (cmd_query cmd) evidence = RESOLVED ref"
  shows "st_gateway s' = st_gateway s \<and> st_checkpoints s' = st_checkpoints s
    \<and> (case res of
        Inl e \<Rightarrow> st_store s' = st_store s
      | Inr r \<Rightarrow> qr_answer r = reference_answer (as_repr q) ref \<and> qr_tool_calls r = [] \<and> qr_finish_reason r = ''completed''
          \<and> qr_agent_name r = ''assistant.reference-resolver'')"
proof -
  let ?c = "command_conversation v cmd" and ?u = "ac_user_id (cmd_actor cmd)"
  have own: "db_owned ?c ?u (st_store s)" using assms(6) by (auto simp: db_read_evidence_def split: if_splits)
  have claim: "sp_claim (as_store q) ?c ?u (qe_asked_at v) (st_store s) = Inr (st_store s)"
    using own by (auto simp: assms(2) database_port_def db_owned_def db_claim_def split: option.splits)
  have recent: "sp_read_recent (as_store q) ?c ?u 12 (st_store s) \<noteq> Inl e" for e
    using own by (simp add: assms(2) database_port_def db_read_recent_def)
  have ev: "sp_read_evidence (as_store q) (qe_read_at v) ?c ?u 12 (st_store s) = Inr evidence"
    using assms(6) by (simp add: assms(2) database_port_def)
  have answer: "follow_up_answer q (cmd_query cmd) evidence = Some (reference_answer (as_repr q) ref)"
    using assms(3,4,5,7) default_reference_answer[OF assms(7)] by (simp add: follow_up_answer_def)
  have "(res, s') = answer_follow_up q v ?c ?u (cmd_query cmd) (reference_answer (as_repr q) ref) (tell [Query_Started (cmd_query cmd)] s)"
    using assms(1) claim ev answer recent
    by (cases "sp_read_recent (as_store q) ?c ?u 12 (st_store s)") (auto simp: execute_query_def Let_def tell_def)
  then show ?thesis by (auto simp: answer_follow_up_def tell_def split: sum.splits)
qed

subsection \<open>Evidence through the database\<close>

definition without_sources :: "evidence_snapshot \<Rightarrow> evidence_snapshot" where
  "without_sources e = e\<lparr>es_evidence := map drop_sources (es_evidence e)\<rparr>"

lemma traverse_snoc_Inr:
  "traverse f (xs @ [x]) = Inr ys \<Longrightarrow> \<exists>zs y. ys = zs @ [y] \<and> f x = Inr y"
proof (induction xs arbitrary: ys)
  case (Cons a xs)
  then obtain z zs' where "ys = z # zs'" "traverse f (xs @ [x]) = Inr zs'" by (auto simp: rbind_Inr_iff rmap_Inr_iff)
  then show ?case using Cons.IH by (metis append_Cons)
qed (auto simp: rbind_Inr_iff rmap_Inr_iff)

lemma stored_row:
  assumes "db_append_exchange fr days ids c u a b (Some e) t = Inr t'"
  shows "\<exists>row. cvt_evidence t' = cvt_evidence t @ [row] \<and> snapshot_to_json fr e = Inr (ew_json row)
    \<and> ew_conversation row = es_conversation_id e \<and> ew_owner row = es_owner_user_id e \<and> ew_created_at row = es_created_at e
    \<and> ew_expires_at row = es_expires_at e \<and> db_owned c u t'"
proof -
  obtain i j k where ids: "ids = (i, j, k)" by (cases ids)
  note eff = db_exchange_effect[OF assms[unfolded ids]]
  obtain r t1 t2 t3 t4 where r: "evidence_record fr k e = Inr r" and t: "db_claim c u (ct_created_at a) t = Inr t1"
    "insert_turn (turn_record days i c u a) t1 = Inr t2" "insert_turn (turn_record days j c u b) t2 = Inr t3"
    "insert_evidence r t3 = Inr t4" "db_advance c u (ct_created_at b) 2 t4 = Inr t'"
    using assms unfolding ids by (auto simp: db_append_exchange_def rbind_Inr_iff rmap_Inr_iff split: if_splits)
  have "cvt_evidence t' = cvt_evidence t @ [r]"
    using db_claim_owner[OF t(1)] insert_turn_owner[OF t(2)] insert_turn_owner[OF t(3)] insert_evidence_owner[OF t(4)]
      db_advance_owner[OF t(5)] by simp
  then show ?thesis using r eff by (auto simp: evidence_record_def rmap_Inr_iff db_owned_owner)
qed

lemma take_sort_desc_newest:
  assumes "\<forall>x \<in> set xs. k x < k y" and "0 < n"
  shows "\<exists>zs. rev (take n (sort_desc k (xs @ [y]))) = zs @ [y]"
proof -
  have "sort_desc k (xs @ [y]) = y # rev (sort_key k (rev xs))"
    using assms(1) by (simp add: sort_desc_def insort_key_last)
  then show ?thesis using assms(2) by (cases n) auto
qed

text \<open>Evidence survives the database: after an exchange is stored with evidence newer than the
  conversation's other evidence, a read before it expires ends with that evidence, item sources apart; so
  when it holds a collection with items, every follow-up is resolved against it.\<close>

theorem stored_evidence_resolves:
  assumes "db_append_exchange fr days ids c u a b (Some e) t = Inr t'"
    and "es_conversation_id e = c" and "es_owner_user_id e = u" and "es_tool_name e \<noteq> []" and "list_all wf_block (es_evidence e)"
    and "list_all (\<lambda>r. ew_conversation r = c \<longrightarrow> ew_created_at r < es_created_at e) (cvt_evidence t)"
    and "unexpired now (es_expires_at e)" and "0 < n" and "db_read_evidence fr now c u n t' = Inr evidence"
  shows "(\<exists>older. evidence = older @ [without_sources e])
    \<and> (latest_collection [without_sources e] \<noteq> None \<longrightarrow>
         resolve_reference r query evidence = resolve_reference r query [without_sources e])"
proof -
  obtain row where row: "cvt_evidence t' = cvt_evidence t @ [row]" "snapshot_to_json fr e = Inr (ew_json row)"
    "ew_conversation row = c" "ew_owner row = u" "ew_created_at row = es_created_at e" "ew_expires_at row = es_expires_at e" "db_owned c u t'"
    using stored_row[OF assms(1)] assms(2,3) by blast
  let ?P = "\<lambda>r. ew_conversation r = c \<and> ew_owner r = u \<and> unexpired now (ew_expires_at r)" and ?k = "\<lambda>r. (ew_created_at r, ew_id r)"
  have "\<forall>x \<in> set (filter ?P (cvt_evidence t)). ?k x < ?k row" using assms(6) row(5) by (auto simp: list_all_iff)
  from take_sort_desc_newest[OF this, of "nat n"] assms(8)
  obtain zs where zs: "rev (take (nat n) (sort_desc ?k (filter ?P (cvt_evidence t) @ [row]))) = zs @ [row]" by auto
  have "filter ?P (cvt_evidence t') = filter ?P (cvt_evidence t) @ [row]" using row assms(7) by simp
  then have "traverse (row_snapshot fr) (zs @ [row]) = Inr evidence"
    using assms(8,9) row(7) zs by (simp add: db_read_evidence_def)
  from traverse_snoc_Inr[OF this] obtain older last where ev: "evidence = older @ [last]" "row_snapshot fr row = Inr last" by blast
  have "row_snapshot fr row = Inr (without_sources e)"
    using snapshot_roundtrip_core[OF row(2) assms(4,5)] row assms(2,3) by (simp add: row_snapshot_def without_sources_def)
  then have last: "evidence = older @ [without_sources e]" using ev by simp
  moreover have "latest_collection evidence = latest_collection [without_sources e]" if "latest_collection [without_sources e] \<noteq> None"
    using that by (auto simp: last latest_collection_def split: option.splits)
  ultimately show ?thesis by (auto simp: resolve_reference_def split: option.splits)
qed

subsection \<open>A sample conversation\<close>

lemma orders_stored: "snapshot_to_json (\<lambda>_. []) orders_snapshot = Inr (snapshot_payload orders_snapshot)"
proof -
  have "length (dumps (\<lambda>_. []) '','' '':'' False (PDict (snapshot_payload orders_snapshot))) \<le> 3000"
    using length_json_chars[of "uuid_str 3"]
    by (simp add: orders_snapshot_def snapshot_payload_def order_item_def serialize_item_def serialize_field_def
        int_str_def nat_str.simps json_str_def json_char_def opt_int_def opt_str_def Let_def)
  then show ?thesis
    by (simp add: snapshot_to_json_def EVIDENCE_SCHEMA_VERSION_def MAX_SERIALIZED_EVIDENCE_BYTES_def Let_def)
      (simp add: orders_snapshot_def)
qed

definition orders_tables :: conversation_tables where
  "orders_tables = \<lparr>cvt_conversations = [\<lparr>cv_id = 1, cv_owner = 2, cv_started_at = 0, cv_last_turn_at = 0,
       cv_turn_count = 0, cv_consolidated_at = None, cv_closed_at = None\<rparr>],
     cvt_turns = [], cvt_evidence = []\<rparr>"

definition orders_exchange :: "conversation_tables result" where
  "orders_exchange = db_append_exchange (\<lambda>_. []) 30 (11, 12, 13) 1 2 (turn_saying ''user'' ''list orders'' 0)
     (turn_saying ''assistant'' ''three orders'' 1) (Some orders_snapshot) orders_tables"

lemma orders_exchange_done: "\<exists>t. orders_exchange = Inr t \<and> db_owned 1 2 t \<and> length (cvt_turns t) = 2
    \<and> stored_turns t 1 = [turn_saying ''user'' ''list orders'' 0, turn_saying ''assistant'' ''three orders'' 1]
    \<and> tw_id ` set (cvt_turns t) = {11, 12}"
  using orders_stored
  by (simp add: orders_exchange_def orders_tables_def sample_store_defs insert_evidence_def evidence_record_def
      orders_snapshot_def stored_turns_def row_turn_def)

lemma orders_without_sources: "without_sources orders_snapshot = orders_snapshot"
  by (simp add: without_sources_def orders_snapshot_def order_item_def drop_source_def)

lemma orders_read:
  assumes "orders_exchange = Inr t"
  shows "db_read_evidence (\<lambda>_. []) 5 1 2 12 t = Inr [orders_snapshot]"
proof -
  note row = stored_row[OF assms[unfolded orders_exchange_def]]
  then obtain row where row: "cvt_evidence t = [row]" "snapshot_to_json (\<lambda>_. []) orders_snapshot = Inr (ew_json row)"
    "ew_conversation row = 1" "ew_owner row = 2" "ew_created_at row = 0" "ew_expires_at row = None" "db_owned 1 2 t"
    by (auto simp: orders_tables_def orders_snapshot_def)
  have wf: "es_tool_name orders_snapshot \<noteq> []" "list_all wf_block (es_evidence orders_snapshot)" and
    ids: "es_conversation_id orders_snapshot = 1" "es_owner_user_id orders_snapshot = 2" "es_created_at orders_snapshot = 0"
      "es_expires_at orders_snapshot = None"
    by (simp_all add: orders_snapshot_def order_item_def wf_item_def wf_field_def)
  have "row_snapshot (\<lambda>_. []) row = Inr (without_sources orders_snapshot)"
    using snapshot_roundtrip_core[OF row(2) wf] row by (simp add: row_snapshot_def without_sources_def ids)
  then show ?thesis using row orders_without_sources
    by (simp add: db_read_evidence_def unexpired_def sort_desc_def)
qed

theorem stored_evidence_resolves_witness:
  "\<exists>t evidence older. orders_exchange = Inr t \<and> db_read_evidence (\<lambda>_. []) 5 1 2 12 t = Inr evidence
    \<and> evidence = older @ [orders_snapshot]
    \<and> resolve_reference default_resolver follow_up evidence = resolve_reference default_resolver follow_up [orders_snapshot]"
proof -
  obtain t where t: "orders_exchange = Inr t" using orders_exchange_done by blast
  obtain evidence where read: "db_read_evidence (\<lambda>_. []) 5 1 2 12 t = Inr evidence" using orders_read[OF t] by blast
  have "(\<exists>older. evidence = older @ [without_sources orders_snapshot])
    \<and> (latest_collection [without_sources orders_snapshot] \<noteq> None \<longrightarrow>
         resolve_reference default_resolver follow_up evidence = resolve_reference default_resolver follow_up [without_sources orders_snapshot])"
    by (rule stored_evidence_resolves[OF t[unfolded orders_exchange_def] _ _ _ _ _ _ _ read])
      (simp_all add: orders_snapshot_def order_item_def wf_item_def wf_field_def orders_tables_def unexpired_def)
  moreover have "latest_collection [orders_snapshot] \<noteq> None" by (simp add: latest_collection_def orders_snapshot_def)
  ultimately show ?thesis using t read unfolding orders_without_sources by blast
qed

definition sample_assistant :: "'s store_port \<Rightarrow> ('s, unit) assistant" where
  "sample_assistant port = \<lparr>as_runtime = module_runtime [] False, as_call_env = (\<lambda>_. sample_env),
     as_brain = agent_brain (\<lambda>_. Inr []) (\<lambda>_ w. (Inl (ExternalErr ''down''), w)) (\<lambda>_ w. (Inr ''hello'', w)),
     as_started = True, as_checkpointed = True, as_agent_name = ''agent'', as_model_name = ''model'', as_recursion_limit = 25,
     as_store = port,
     as_policy = \<lparr>tp_allowed_tool_names = {}, tp_max_total_calls = 1, tp_max_calls_per_tool = 1, tp_fail_on_policy_violation = True\<rparr>,
     as_assemble = (\<lambda>_. None), as_retention_days = 30,
     as_resolver = Some default_resolver, as_field_queries = True,
     as_formatters = Some (build_formatter_registry (\<lambda>_. []) (default_reference_policy (\<lambda>_. []))),
     as_sha256 = (\<lambda>_. []), as_repr = (\<lambda>_. []), as_exc_text = (\<lambda>_. [])\<rparr>"

definition sample_query :: assistant_command where
  "sample_query = \<lparr>cmd_query = follow_up, cmd_actor = (sample_actor ''read_only_analyst'' [''S1''])\<lparr>ac_user_id := 2\<rparr>,
     cmd_conversation_id = Some 1, cmd_max_tool_calls = 4, cmd_allow_tool_calls = True\<rparr>"

definition sample_query_env :: query_env where
  "sample_query_env = \<lparr>qe_conversation_id = 9, qe_asked_at = 4, qe_read_at = 5, qe_answered_at = 6, qe_exchange_id = 21,
     qe_rows = (22, 23, 24)\<rparr>"

definition sample_assistant_state :: "'s \<Rightarrow> ('s, unit) assistant_state" where
  "sample_assistant_state store = \<lparr>st_store = store, st_gateway = \<lparr>gs_audit = [], gs_trace = [], gs_limiter = Map.empty, gs_world = ()\<rparr>,
     st_checkpoints = Map.empty, st_telemetry = []\<rparr>"

lemmas sample_query_defs = sample_assistant_def sample_query_def sample_query_env_def sample_assistant_state_def

lemma sample_query_answer:
  assumes "orders_exchange = Inr t"
  shows "\<exists>r s'. execute_query (sample_assistant (database_port (\<lambda>_. []) 30)) sample_query_env sample_query (sample_assistant_state t)
      = (Inr r, s') \<and> qr_answer r = ''WO-2: High''"
proof -
  obtain t' where "orders_exchange = Inr t'" and t': "db_owned 1 2 t'" "tw_id ` set (cvt_turns t') = {11, 12}"
    using orders_exchange_done by blast
  then have "t' = t" using assms by (metis sum.inject(2))
  then have t: "db_owned 1 2 t" "tw_id ` set (cvt_turns t) = {11, 12}" using t' by simp_all
  let ?q = "sample_assistant (database_port (\<lambda>_. []) 30) :: (conversation_tables, unit) assistant"
  have answer: "follow_up_answer ?q follow_up [orders_snapshot] = Some ''WO-2: High''"
    using follow_up_resolved default_reference_answer[OF follow_up_resolved]
    by (simp add: follow_up_answer_def sample_assistant_def reference_answer_def reference_line_def item_field_value_def order_item_def)
  have claim: "db_claim 1 2 4 t = Inr t" using t(1) by (auto simp: db_owned_def db_claim_def split: option.splits)
  obtain t2 where "insert_turn (turn_record 30 22 1 2 (turn_saying ''user'' follow_up 4)) t = Inr t2"
    using t by (auto simp: insert_turn_def turn_record_def)
  note t2 = this insert_turn_owner[OF this]
  have "db_owned 1 2 t2" using t(1) t2 by (simp add: db_owned_owner)
  then obtain t3 where "insert_turn (turn_record 30 23 1 2 (turn_saying ''assistant'' ''WO-2: High'' 6)) t2 = Inr t3"
    using t(2) t2 by (auto simp: insert_turn_def turn_record_def)
  note t3 = this insert_turn_owner[OF this]
  have "db_owned 1 2 t3" using \<open>db_owned 1 2 t2\<close> t3 by (simp add: db_owned_owner)
  then obtain t4 where t4: "db_advance 1 2 6 2 t3 = Inr t4" by (auto simp: db_advance_def)
  have "db_append_exchange (\<lambda>_. []) 30 (22, 23, 24) 1 2 (turn_saying ''user'' follow_up 4)
      (turn_saying ''assistant'' ''WO-2: High'' 6) None t = Inr t4"
    using claim t2(1) t3(1) t4 by (simp add: db_append_exchange_def exchange_roles_ok_def turn_saying_def)
  then show ?thesis using claim orders_read[OF assms] answer t(1)
    by (simp add: execute_query_def sample_query_defs command_conversation_def database_port_def db_read_recent_def
        answer_follow_up_def store_exchange_def exchange_turns_def turn_saying_def tell_def Let_def)
qed

theorem query_stores_exchange_witness:
  "\<exists>t r s'. orders_exchange = Inr t
    \<and> execute_query (sample_assistant (database_port (\<lambda>_. []) 30)) sample_query_env sample_query (sample_assistant_state t) = (Inr r, s')
    \<and> stored_turns (st_store s') 1 = stored_turns t 1 @ [turn_saying ''user'' follow_up 4, turn_saying ''assistant'' ''WO-2: High'' 6]"
proof -
  obtain t where t: "orders_exchange = Inr t" using orders_exchange_done by blast
  obtain r s' where r: "execute_query (sample_assistant (database_port (\<lambda>_. []) 30)) sample_query_env sample_query (sample_assistant_state t)
      = (Inr r, s')" "qr_answer r = ''WO-2: High''"
    using sample_query_answer[OF t] by blast
  have "as_store (sample_assistant (database_port (\<lambda>_. []) 30) :: (conversation_tables, unit) assistant) = database_port (\<lambda>_. []) 30"
    by (simp add: sample_assistant_def)
  from query_stores_exchange[OF r(1) this]
  have "stored_turns (st_store s') 1 = stored_turns t 1 @ [turn_saying ''user'' follow_up 4, turn_saying ''assistant'' ''WO-2: High'' 6]"
    using r(2) by (simp add: Let_def sample_query_defs command_conversation_def turn_saying_def)
  then show ?thesis using t r(1) by blast
qed

theorem follow_up_without_agent_witness:
  "\<exists>t r s'. orders_exchange = Inr t
    \<and> execute_query (sample_assistant (database_port (\<lambda>_. []) 30)) sample_query_env sample_query (sample_assistant_state t) = (Inr r, s')
    \<and> qr_answer r = ''WO-2: High'' \<and> qr_agent_name r = ''assistant.reference-resolver'' \<and> qr_tool_calls r = []"
proof -
  let ?q = "sample_assistant (database_port (\<lambda>_. []) 30) :: (conversation_tables, unit) assistant"
  obtain t where t: "orders_exchange = Inr t" using orders_exchange_done by blast
  obtain r s' where r: "execute_query ?q sample_query_env sample_query (sample_assistant_state t) = (Inr r, s')" "qr_answer r = ''WO-2: High''"
    using sample_query_answer[OF t] by blast
  have "db_read_evidence (\<lambda>_. []) (qe_read_at sample_query_env) (command_conversation sample_query_env sample_query)
      (ac_user_id (cmd_actor sample_query)) 12 (st_store (sample_assistant_state t)) = Inr [orders_snapshot]"
    using orders_read[OF t] by (simp add: sample_query_defs command_conversation_def)
  moreover have "resolve_reference (build_resolver (default_reference_policy (as_repr ?q))) (cmd_query sample_query) [orders_snapshot]
      = RESOLVED \<lparr>rr_entity_label = ''work order'', rr_items = [order_item ''WO-2'' ''High''],
         rr_request = \<lparr>rq_field_name = ''priority'', rq_operation = MAXIMUM, rq_ordinal = None\<rparr>\<rparr>"
    using follow_up_resolved by (simp add: sample_query_defs)
  ultimately have "qr_tool_calls r = [] \<and> qr_agent_name r = ''assistant.reference-resolver''"
    using follow_up_without_agent[OF r(1)] by (simp add: sample_assistant_def)
  then show ?thesis using t r by blast
qed

theorem foreign_query_refused_witness:
  "execute_query (sample_assistant (database_port (\<lambda>_. []) 30)) sample_query_env
      (sample_query\<lparr>cmd_actor := sample_actor ''read_only_analyst'' [''S1'']\<rparr>) (sample_assistant_state orders_tables)
    = (Inl ownership_error, tell [Query_Started follow_up] (sample_assistant_state orders_tables))"
proof -
  let ?cmd = "sample_query\<lparr>cmd_actor := sample_actor ''read_only_analyst'' [''S1'']\<rparr>"
  have "ac_user_id (sample_actor ''read_only_analyst'' [''S1'']) \<noteq> 2" by (simp add: sample_defs)
  moreover have "cmd_query ?cmd = follow_up" "command_conversation sample_query_env ?cmd = 1"
    by (simp_all add: sample_query_defs command_conversation_def)
  moreover have "db_owner orders_tables 1 = Some 2" by (simp add: db_owner_def find_conversation_def orders_tables_def)
  ultimately show ?thesis
    using foreign_query_refused[of "sample_assistant (database_port (\<lambda>_. []) 30)" "\<lambda>_. []" 30 "sample_assistant_state orders_tables"
        sample_query_env ?cmd 2 "sample_assistant (memory_port 12)" 12
        "sample_assistant_state (empty_memory_store\<lparr>ms_owners := [1 \<mapsto> 2]\<rparr>)"]
    by (simp add: sample_assistant_def sample_assistant_state_def)
qed

end
