(* ===== verification/Api.thy ===== *)
theory Api
  imports Wiring Memory_Jobs Assistant_Query Documents
begin

section \<open>The HTTP interface\<close>

text \<open>
  The routers (\<open>presentation/router.py\<close> of the modules, \<open>health/health_check.py\<close>), the responses for domain errors
  (\<open>bootstrap/errors.py\<close>) and the identity of a request (\<open>utilities/local_auth.py\<close> and \<open>main.py\<close>) over the use cases of the
  other theories. Of FastAPI the model has its order: dependencies first, then the validation of the request, then the
  handler; a body that is no JSON, the host and CORS checks and the headers of a response are left out.
\<close>

subsection \<open>Responses\<close>

record problem =
  pb_type :: string
  pb_title :: string
  pb_status :: int
  pb_detail :: string
  pb_instance :: string

text \<open>The response of a handler, of a domain error, of an \<open>HTTPException\<close>, of a request that is not valid, and of an exception
  nothing handles (status 500).\<close>

datatype 'a reply = Reply int 'a | Problem_Reply problem | Error_Reply int string | Invalid_Request | Server_Error exc

text \<open>The table is keyed by the class of the error; the code determines the class.\<close>

definition error_response :: "string \<Rightarrow> int \<times> string \<times> string" where
  "error_response code =
     (if code = ''assistant_conversation_not_found'' then (404, ''Conversation not found'', ''The requested conversation was not found.'')
      else if code = ''invalid_email'' then (422, ''Invalid email'', [])
      else if code = ''invalid_display_name'' then (422, ''Invalid display name'', [])
      else if code = ''email_already_registered'' then (409, ''Email already registered'', ''A user with this email already exists.'')
      else if code = ''user_not_found'' then (404, ''User not found'', ''The requested user was not found.'')
      else (400, ''Business rule violation'', ''The request was rejected.''))"

definition domain_error_handler :: "string \<Rightarrow> string \<Rightarrow> string \<Rightarrow> problem" where
  "domain_error_handler path code message = (case error_response code of (status, heading, safe_detail) \<Rightarrow>
     \<lparr>pb_type = ''urn:problem:'' @ code, pb_title = heading, pb_status = status,
      pb_detail = (if safe_detail = [] then message else safe_detail), pb_instance = path\<rparr>)"

definition http_response :: "string \<Rightarrow> int \<Rightarrow> 'a result \<Rightarrow> 'a reply" where
  "http_response path status r = (case r of
      Inr x \<Rightarrow> Reply status x
    | Inl (DomainErr code message) \<Rightarrow> Problem_Reply (domain_error_handler path code message)
    | Inl (HTTPErr n detail) \<Rightarrow> Error_Reply n detail
    | Inl e \<Rightarrow> Server_Error e)"

fun reply_status :: "'a reply \<Rightarrow> int" where
  "reply_status (Reply n x) = n"
| "reply_status (Problem_Reply p) = pb_status p"
| "reply_status (Error_Reply n d) = n"
| "reply_status Invalid_Request = 422"
| "reply_status (Server_Error e) = 500"

subsection \<open>The identity of a request\<close>

definition local_actor :: authorization_context where
  "local_actor = \<lparr>ac_user_id = 1, ac_roles = [''read_only_analyst'', ''operations_manager''], ac_site_codes = [], ac_global_scope = True\<rparr>"

text \<open>\<open>LocalAuthorizationMiddleware\<close>: the context is set unless there is one.\<close>

definition local_authorization :: "authorization_context \<Rightarrow> authorization_context option \<Rightarrow> authorization_context option" where
  "local_authorization c state = (case state of None \<Rightarrow> Some c | Some x \<Rightarrow> Some x)"

text \<open>What \<open>create_app\<close> makes of the state of a request, which is empty when the request comes in: no other middleware sets it.\<close>

definition request_state :: "settings \<Rightarrow> authorization_context option" where
  "request_state s = (if se_local_auth_bypass_enabled s then local_authorization local_actor None else None)"

definition request_identity :: "authorization_context option \<Rightarrow> authorization_context result" where
  "request_identity state = (case state of
      None \<Rightarrow> Inl (HTTPErr 401 ''Authentication is required to invoke assistant tools'') | Some c \<Rightarrow> Inr c)"

subsection \<open>The assistant\<close>

definition get_assistant_module :: "'m option \<Rightarrow> 'm result" where
  "get_assistant_module md = (case md of None \<Rightarrow> Inl (HTTPErr 503 ''Assistant is not configured'') | Some m \<Rightarrow> Inr m)"

definition assistant_dependencies :: "'m option \<Rightarrow> authorization_context option \<Rightarrow> ('m \<times> authorization_context) result" where
  "assistant_dependencies md state = rbind (get_assistant_module md) (\<lambda>m. rmap (Pair m) (request_identity state))"

record query_request =
  qt_query :: string
  qt_conversation_id :: "uuid option"
  qt_max_tool_calls :: int
  qt_allow_tool_calls :: bool

definition valid_query_request :: "query_request \<Rightarrow> bool" where
  "valid_query_request r \<longleftrightarrow> 1 \<le> length (qt_query r) \<and> length (qt_query r) \<le> 500 \<and> 0 \<le> qt_max_tool_calls r \<and> qt_max_tool_calls r \<le> 10"

definition query_assistant ::
  "string \<Rightarrow> ('s, 'w) assistant option \<Rightarrow> authorization_context option \<Rightarrow> query_env \<Rightarrow> query_request
     \<Rightarrow> ('s, 'w) assistant_state \<Rightarrow> assistant_response reply \<times> ('s, 'w) assistant_state" where
  "query_assistant path md state v r s = (case assistant_dependencies md state of
      Inl e \<Rightarrow> (http_response path 200 (Inl e), s)
    | Inr (m, c) \<Rightarrow> if \<not> valid_query_request r then (Invalid_Request, s)
        else (case execute_query m v \<lparr>cmd_query = qt_query r, cmd_actor = c, cmd_conversation_id = qt_conversation_id r,
              cmd_max_tool_calls = qt_max_tool_calls r, cmd_allow_tool_calls = qt_allow_tool_calls r\<rparr> s of
            (answer, s') \<Rightarrow> (http_response path 200 answer, s')))"

text \<open>The use case of the module; \<open>None\<close> when erasure is not configured.\<close>

type_synonym 's erasure = "(uuid \<Rightarrow> 's \<Rightarrow> erase_result result \<times> 's) option"

definition run_erasure :: "string \<Rightarrow> 's erasure \<Rightarrow> uuid \<Rightarrow> 's \<Rightarrow> (uuid \<times> erase_result) reply \<times> 's" where
  "run_erasure path eraser u s = (case eraser of
      None \<Rightarrow> (http_response path 200 (Inl (HTTPErr 503 ''Long-term memory erasure is not configured'')), s)
    | Some erase \<Rightarrow> (case erase u s of (r, s') \<Rightarrow> (http_response path 200 (rmap (Pair u) r), s')))"

definition erase_own_memory ::
  "string \<Rightarrow> 's erasure option \<Rightarrow> authorization_context option \<Rightarrow> 's \<Rightarrow> (uuid \<times> erase_result) reply \<times> 's" where
  "erase_own_memory path md state s = (case assistant_dependencies md state of
      Inl e \<Rightarrow> (http_response path 200 (Inl e), s)
    | Inr (eraser, c) \<Rightarrow> run_erasure path eraser (ac_user_id c) s)"

definition erase_user_memory_admin ::
  "string \<Rightarrow> 's erasure option \<Rightarrow> authorization_context option \<Rightarrow> uuid \<Rightarrow> 's \<Rightarrow> (uuid \<times> erase_result) reply \<times> 's" where
  "erase_user_memory_admin path md state u s = (case assistant_dependencies md state of
      Inl e \<Rightarrow> (http_response path 200 (Inl e), s)
    | Inr (eraser, c) \<Rightarrow> (case can c USERS_MANAGE None of
          Inl e \<Rightarrow> (http_response path 200 (Inl e), s)
        | Inr False \<Rightarrow> (http_response path 200 (Inl (HTTPErr 403 ''users:manage permission is required'')), s)
        | Inr True \<Rightarrow> run_erasure path eraser u s))"

subsection \<open>Operations\<close>

text \<open>The repositories of the wired service have neither a policy nor a user.\<close>

definition wired_service :: "operations_tables \<Rightarrow> operations_service" where
  "wired_service t = \<lparr>os_repository_factory = (\<lambda>_. \<lparr>or_tables = t, or_policy = None, or_user = None\<rparr>)\<rparr>"

definition get_operations_module :: "'m option \<Rightarrow> 'm result" where
  "get_operations_module md = (case md of None \<Rightarrow> Inl (HTTPErr 503 ''Operations md is not configured'') | Some m \<Rightarrow> Inr m)"

definition limited :: "string \<Rightarrow> operations_service option \<Rightarrow> int \<Rightarrow> (operations_service \<Rightarrow> dict list result) \<Rightarrow> dict list reply" where
  "limited path md limit call = (case get_operations_module md of
      Inl e \<Rightarrow> http_response path 200 (Inl e)
    | Inr service \<Rightarrow> if limit < 1 \<or> 100 < limit then Invalid_Request else http_response path 200 (call service))"

definition api_work_orders :: "string \<Rightarrow> operations_service option \<Rightarrow> string option \<Rightarrow> string option \<Rightarrow> int \<Rightarrow> dict list reply" where
  "api_work_orders path md site status limit = limited path md limit (\<lambda>sv. service_get_work_orders sv site status limit)"

definition api_asset_status :: "string \<Rightarrow> operations_service option \<Rightarrow> string option \<Rightarrow> dict list reply" where
  "api_asset_status path md site = http_response path 200 (rbind (get_operations_module md) (\<lambda>sv. service_get_asset_status sv site))"

definition api_maintenance_tickets :: "string \<Rightarrow> operations_service option \<Rightarrow> string option \<Rightarrow> int \<Rightarrow> dict list reply" where
  "api_maintenance_tickets path md site limit = limited path md limit (\<lambda>sv. service_get_maintenance_tickets sv site limit)"

definition api_spare_parts :: "string \<Rightarrow> operations_service option \<Rightarrow> string option \<Rightarrow> int \<Rightarrow> dict list reply" where
  "api_spare_parts path md site limit = limited path md limit (\<lambda>sv. service_get_spare_parts sv site limit)"

definition api_production_schedule :: "string \<Rightarrow> operations_service option \<Rightarrow> string option \<Rightarrow> int \<Rightarrow> dict list reply" where
  "api_production_schedule path md site limit = limited path md limit (\<lambda>sv. service_get_production_schedule sv site limit)"

subsection \<open>Documents, users and health\<close>

definition api_upload ::
  "string \<Rightarrow> (bytes \<Rightarrow> string) \<Rightarrow> 'b blob_port \<Rightarrow> string \<Rightarrow> unit result \<Rightarrow> uuid \<Rightarrow> datetime \<Rightarrow> upload_policy option \<Rightarrow> string option \<Rightarrow> string option
     \<Rightarrow> bytes \<Rightarrow> string option \<Rightarrow> string option \<Rightarrow> document_tables \<times> 'b \<Rightarrow> uploaded_document reply \<times> document_tables \<times> 'b" where
  "api_upload path sha256 upload topic commit i now policy filename content_type file request_id key s =
     (case upload_document sha256 upload topic commit i now policy filename content_type file request_id key s of
        (r, s') \<Rightarrow> (http_response path 201 r, s'))"

text \<open>\<open>email_str\<close> is the field type \<open>EmailStr\<close>: the address it makes of a text, if any.\<close>

record user_response =
  ux_id :: uuid
  ux_email :: string
  ux_display_name :: string
  ux_created_at :: datetime

definition user_response_of :: "(string \<Rightarrow> string option) \<Rightarrow> user_view \<Rightarrow> user_response result" where
  "user_response_of email_str u = (case email_str (uv_email u) of
      None \<Rightarrow> Inl (ValidationErr ''email'')
    | Some address \<Rightarrow> Inr \<lparr>ux_id = uv_id u, ux_email = address, ux_display_name = uv_display_name u, ux_created_at = uv_created_at u\<rparr>)"

definition api_register_user ::
  "string \<Rightarrow> (string \<Rightarrow> string option) \<Rightarrow> email_validator \<Rightarrow> uuid \<Rightarrow> datetime \<Rightarrow> datetime \<Rightarrow> unit result \<Rightarrow> string \<Rightarrow> string \<Rightarrow> user_row list
     \<Rightarrow> user_response reply \<times> user_row list" where
  "api_register_user path email_str validate fresh clock1 clock2 commit email name rows =
     (case email_str email of
        None \<Rightarrow> (Invalid_Request, rows)
      | Some address \<Rightarrow> if length name < 2 \<or> 100 < length name then (Invalid_Request, rows)
          else (case register_user validate fresh clock1 clock2 commit
                \<lparr>rc_email = address, rc_display_name = name, rc_source_system = ''unknown''\<rparr> rows of
            (r, rows') \<Rightarrow> (http_response path 201 (rbind r (user_response_of email_str)), rows')))"

definition api_get_user :: "string \<Rightarrow> (string \<Rightarrow> string option) \<Rightarrow> uuid \<Rightarrow> user_row list \<Rightarrow> user_response reply" where
  "api_get_user path email_str i rows = http_response path 200 (rbind (get_user i rows) (user_response_of email_str))"

definition audit_endpoint_enabled :: "settings \<Rightarrow> bool" where
  "audit_endpoint_enabled s \<longleftrightarrow> se_environment s \<in> {Local, Test}"

definition api_consistency_audit :: "string \<Rightarrow> settings \<Rightarrow> uuid \<Rightarrow> datetime \<Rightarrow> audit_command \<Rightarrow> user_row list \<Rightarrow> audit_output reply" where
  "api_consistency_audit path s fresh clock c rows =
     (if ua_limit c < 1 \<or> 500 < ua_limit c \<or> \<not> set (case ua_checks c of None \<Rightarrow> [] | Some xs \<Rightarrow> xs) \<subseteq> fst ` set (all_checks 0 0) then Invalid_Request
      else if \<not> audit_endpoint_enabled s then http_response path 200 (Inl (HTTPErr 404 ''Not found''))
      else http_response path 200 (Inr (audit_output_of (run_audit fresh clock (c\<lparr>ua_checks := (case ua_checks c of None \<Rightarrow> None
        | Some xs \<Rightarrow> if xs = [] then None else Some xs)\<rparr>) rows))))"

text \<open>\<open>ready\<close>: whether the database answers.\<close>

definition api_readiness :: "bool \<Rightarrow> string reply" where
  "api_readiness ready = (if ready then Reply 200 ''ok'' else Reply 503 ''unavailable'')"

subsection \<open>Who is served\<close>



subsection \<open>Registration over HTTP\<close>

definition statuses_known :: "user_row list \<Rightarrow> bool" where
  "statuses_known rows \<longleftrightarrow> (\<forall>r \<in> set rows. \<exists>u. user_of_row r = Inr u)"

lemma make_user_errors: "make_user validate fresh clock1 clock2 email name source i now = Inl e \<Longrightarrow>
    \<exists>message. e = DomainErr ''invalid_email'' message \<or> e = DomainErr ''invalid_display_name'' message"
  by (auto simp: make_user_def Let_def invalid_email_def invalid_display_name_def split: sum.splits if_splits)

lemma stored_address:
  assumes "statuses_known rows"
  shows "get_user_by_email e rows = Inr None \<and> e \<notin> ur_email ` set rows \<or> (\<exists>u. get_user_by_email e rows = Inr (Some u)) \<and> e \<in> ur_email ` set rows"
proof (cases "List.find (\<lambda>r. ur_email r = e) rows")
  case None
  then have "get_user_by_email e rows = Inr None" by (simp add: get_user_by_email_def optional_user_def)
  moreover have "e \<notin> ur_email ` set rows" using None by (auto simp: find_None_iff)
  ultimately show ?thesis by simp
next
  case (Some r)
  then have "r \<in> set rows" "ur_email r = e" by (auto simp: find_Some_iff)
  moreover obtain u where "user_of_row r = Inr u" using assms \<open>r \<in> set rows\<close> by (auto simp: statuses_known_def)
  ultimately show ?thesis using Some by (auto simp: get_user_by_email_def optional_user_def)
qed

lemma register_user_result:
  assumes "statuses_known rows" and "fresh \<notin> ur_id ` set rows"
  shows "register_user validate fresh clock1 clock2 (Inr ()) c rows =
    (case make_user validate fresh clock1 clock2 (rc_email c) (rc_display_name c) (Some (rc_source_system c)) None None of
       Inl e \<Rightarrow> (Inl e, rows)
     | Inr u \<Rightarrow> if us_email u \<in> ur_email ` set rows then (Inl (email_registered (rc_email c)), rows) else (Inr (view_of u), rows @ [row_of_user u]))"
proof (cases "make_user validate fresh clock1 clock2 (rc_email c) (rc_display_name c) (Some (rc_source_system c)) None None")
  case (Inr u)
  then have "us_id u = fresh" by (auto simp: make_user_def Let_def split: sum.splits if_splits)
  then have "us_email u \<notin> ur_email ` set rows \<Longrightarrow> add_user u rows = Inr (rows @ [row_of_user u])"
    using assms(2) by (auto simp: add_user_def list_ex_iff image_iff)
  then show ?thesis using stored_address[OF assms(1), of "us_email u"] Inr by (auto simp: register_user_def)
qed (simp add: register_user_def)

text \<open>C40. Every registration is answered as the table says: while the commit succeeds and the stored addresses can be sent back, a
  request is answered 422 when its address or name is not acceptable, to the schema or to the entity, 409 when the normalised
  address is registered and 201 otherwise, and exactly then the user is added and found by its identifier. No request is
  answered 500.\<close>

theorem registration_answers:
  assumes "api_register_user path email_str validate fresh clock1 clock2 (Inr ()) email name rows = (reply, rows')"
    and "statuses_known rows" and "fresh \<notin> ur_id ` set rows" and "\<And>a e. validate a = Inr e \<Longrightarrow> email_str e \<noteq> None"
  shows "case email_str email of
      None \<Rightarrow> reply_status reply = 422 \<and> rows' = rows
    | Some address \<Rightarrow>
        if length name < 2 \<or> 100 < length name then reply_status reply = 422 \<and> rows' = rows
        else (case make_user validate fresh clock1 clock2 address name (Some ''unknown'') None None of
            Inl e \<Rightarrow> reply_status reply = 422 \<and> rows' = rows
          | Inr u \<Rightarrow> if us_email u \<in> ur_email ` set rows then reply_status reply = 409 \<and> rows' = rows
              else reply_status reply = 201 \<and> rows' = rows @ [row_of_user u]
                \<and> reply_status (api_get_user path email_str fresh rows') = 200)"
proof (cases "email_str email")
  case None
  then show ?thesis using assms(1) by (auto simp: api_register_user_def)
next
  case (Some address)
  show ?thesis
  proof (cases "length name < 2 \<or> 100 < length name")
    case True
    then show ?thesis using assms(1) Some by (auto simp: api_register_user_def)
  next
    case False
    let ?made = "make_user validate fresh clock1 clock2 address name (Some ''unknown'') None None"
    let ?cmd = "\<lparr>rc_email = address, rc_display_name = name, rc_source_system = ''unknown''\<rparr>"
    have run: "(case register_user validate fresh clock1 clock2 (Inr ()) ?cmd rows of
        (res, rows') \<Rightarrow> (http_response path 201 (rbind res (user_response_of email_str)), rows')) = (reply, rows')"
      using assms(1) unfolding api_register_user_def Some option.case if_not_P[OF False] .
    note result = register_user_result[OF assms(2,3), of validate clock1 clock2 ?cmd, simplified]
    show ?thesis
    proof (cases ?made)
      case (Inl e)
      then obtain message where "e = DomainErr ''invalid_email'' message \<or> e = DomainErr ''invalid_display_name'' message"
        using make_user_errors by blast
      then show ?thesis using run result Inl False Some by (auto simp: http_response_def domain_error_handler_def error_response_def)
    next
      case (Inr u)
      then have u: "us_id u = fresh" "us_status u = User_Active" "\<exists>a. validate a = Inr (us_email u)"
        by (auto simp: make_user_def Let_def split: sum.splits if_splits)
      then obtain stored where stored: "email_str (us_email u) = Some stored" using assms(4) by blast
      show ?thesis
      proof (cases "us_email u \<in> ur_email ` set rows")
        case True
        then show ?thesis using run result Inr False Some
          by (auto simp: http_response_def domain_error_handler_def error_response_def email_registered_def)
      next
        case new: False
        have "List.find (\<lambda>r. ur_id r = fresh) (rows @ [row_of_user u]) = Some (row_of_user u)"
          using assms(3) u(1) by (induction rows) (auto simp: row_of_user_def)
        then have "get_user fresh (rows @ [row_of_user u]) = Inr (view_of u)"
          using u(2) by (simp add: get_user_def get_user_by_id_def optional_user_def user_of_row_def row_of_user_def user_status_of_def view_of_def)
        then have "reply_status (api_get_user path email_str fresh (rows @ [row_of_user u])) = 200"
          by (simp add: api_get_user_def user_response_of_def view_of_def stored http_response_def)
        then show ?thesis using run result Inr False Some new stored
          by (auto simp: http_response_def user_response_of_def view_of_def)
      qed
    qed
  qed
qed

theorem registration_answers_witness:
  "\<exists>reply rows'. api_register_user ''/users'' (\<lambda>s. Some s) plain_validator 5 0 0 (Inr ()) ''bo@x.io'' ''Bo'' [] = (reply, rows')
    \<and> reply_status reply = 201 \<and> length rows' = 1"
proof -
  obtain reply rows' where run: "api_register_user ''/users'' (\<lambda>s. Some s) plain_validator 5 0 0 (Inr ()) ''bo@x.io'' ''Bo'' [] = (reply, rows')"
    by fastforce
  have "strip ''bo@x.io'' = ''bo@x.io''" "join '' '' (split_ws ''Bo'') = ''Bo''" by code_simp+
  then have "\<exists>u. make_user plain_validator 5 0 0 ''bo@x.io'' ''Bo'' (Some ''unknown'') None None = Inr u"
    by (simp add: make_user_def plain_validator_def Let_def)
  moreover have "statuses_known []" by (simp add: statuses_known_def)
  ultimately show ?thesis using registration_answers[OF run] run by (auto simp: plain_validator_def)
qed

end
