(* ===== verification/Consolidation.thy ===== *)
theory Consolidation
  imports Memory_Jobs Tools
begin

section \<open>Consolidation of conversations into memory\<close>

text \<open>
  \<open>ConsolidationWorker.consolidate_once\<close> of
  \<open>src/app/modules/assistant/infrastructure/conversation_memory/long_term/consolidation_worker.py\<close>. The
  candidates and the records commit in sessions of their own; the marks on the conversations commit
  together at the end. The model that extracts facts is a parameter; \<open>fresh\<close> and \<open>clock\<close> give the new
  identifier and the time of the \<open>n\<close>-th reading.
\<close>

record consolidator =
  cz_policy :: fact_policy
  cz_repository :: memory_repository
  cz_extract :: "(uuid \<times> conversation_turn) list \<Rightarrow> extracted_fact list result"
  cz_tool_permissions :: "(string \<times> string) list"
  cz_idle_minutes :: int
  cz_batch :: nat
  cz_candidate_days :: int
  cz_fresh :: "nat \<Rightarrow> uuid"
  cz_clock :: "nat \<Rightarrow> datetime"

record consolidation =
  cs_rows :: "memory_row list"
  cs_candidates :: "candidate_row list"
  cs_ticks :: nat

definition insert_candidate :: "candidate_row \<Rightarrow> candidate_row list \<Rightarrow> candidate_row list result" where
  "insert_candidate c cs = (if list_ex (\<lambda>d. cr_id d = cr_id c) cs then Inl integrity_error else Inr (cs @ [c]))"

text \<open>The foreign key of \<open>mark_promoted\<close> holds: records are not deleted between the two steps.\<close>

definition consolidate_fact ::
  "consolidator \<Rightarrow> conversation_row \<Rightarrow> string list \<Rightarrow> uuid list \<Rightarrow> datetime \<Rightarrow> extracted_fact \<Rightarrow> consolidation
     \<Rightarrow> unit result \<times> consolidation" where
  "consolidate_fact z c required turns now f s =
     (case evaluate_fact (cz_policy z) f turns now of
        Inl e \<Rightarrow> (Inl e, s)
      | Inr evaluation \<Rightarrow>
        let n = cs_ticks s; candidate = cz_fresh z n in
        (case insert_candidate (record_outcome (mp_sha (cz_repository z)) (cz_candidate_days z) candidate (cz_clock z n) (cv_id c) (cv_owner c) f
               (fe_decision evaluation) (fe_reason evaluation)) (cs_candidates s) of
           Inl e \<Rightarrow> (Inl e, s\<lparr>cs_ticks := n + 1\<rparr>)
         | Inr candidates \<Rightarrow>
           let s1 = s\<lparr>cs_candidates := candidates, cs_ticks := n + 1\<rparr> in
           if fe_decision evaluation \<noteq> ACCEPTED then (Inr (), s1)
           else (case promote_fact (cz_repository z) (cz_fresh z (n + 1)) (cz_clock z (n + 1)) f evaluation (cv_owner c) required turns
                   (cs_rows s) (cs_rows s) of
               Inl e \<Rightarrow> (Inl e, s1\<lparr>cs_ticks := n + 2\<rparr>)
             | Inr ((i, _), rows) \<Rightarrow>
                 let s2 = s1\<lparr>cs_rows := rows, cs_ticks := n + 2\<rparr> in
                 (case mark_promoted candidate i candidates of
                    Inl e \<Rightarrow> (Inl e, s2)
                  | Inr candidates' \<Rightarrow> (Inr (), s2\<lparr>cs_candidates := candidates'\<rparr>)))))"

fun consolidate_facts ::
  "consolidator \<Rightarrow> conversation_row \<Rightarrow> string list \<Rightarrow> uuid list \<Rightarrow> datetime \<Rightarrow> extracted_fact list \<Rightarrow> consolidation
     \<Rightarrow> unit result \<times> consolidation" where
  "consolidate_facts z c required turns now [] s = (Inr (), s)"
| "consolidate_facts z c required turns now (f # fs) s = (case consolidate_fact z c required turns now f s of
      (Inl e, s') \<Rightarrow> (Inl e, s')
    | (Inr _, s') \<Rightarrow> consolidate_facts z c required turns now fs s')"

definition ordered_turns :: "conversation_tables \<Rightarrow> uuid \<Rightarrow> turn_row list" where
  "ordered_turns t c = sort_key turn_key (filter (\<lambda>r. tw_conversation r = c) (cvt_turns t))"

definition required_permissions :: "consolidator \<Rightarrow> tool_audit_record list \<Rightarrow> uuid \<Rightarrow> string list" where
  "required_permissions z audits c = remdups (List.map_filter (\<lambda>a. map_of (cz_tool_permissions z) (tar_tool_name a))
     (filter (\<lambda>a. tar_conversation_id a = Some c \<and> tar_decision a = APPROVED) audits))"

text \<open>One conversation: the time of its mark, or the error.\<close>

definition consolidate_conversation ::
  "consolidator \<Rightarrow> conversation_tables \<Rightarrow> tool_audit_record list \<Rightarrow> conversation_row \<Rightarrow> consolidation \<Rightarrow> datetime result \<times> consolidation" where
  "consolidate_conversation z t audits c s =
     (let turns = ordered_turns t (cv_id c) in
      if length turns < 2 then (Inr (cz_clock z (cs_ticks s)), s\<lparr>cs_ticks := cs_ticks s + 1\<rparr>)
      else (case cz_extract z (map (\<lambda>r. (tw_id r, row_turn r)) turns) of
          Inl e \<Rightarrow> (Inl e, s)
        | Inr facts \<Rightarrow>
          let now = cz_clock z (cs_ticks s) in
          (case consolidate_facts z c (required_permissions z audits (cv_id c)) (map tw_id turns) now facts (s\<lparr>cs_ticks := cs_ticks s + 1\<rparr>) of
             (Inl e, s') \<Rightarrow> (Inl e, s')
           | (Inr _, s') \<Rightarrow> (Inr (cz_clock z (cs_ticks s')), s'\<lparr>cs_ticks := cs_ticks s' + 1\<rparr>))))"

definition mark_consolidated :: "uuid \<Rightarrow> datetime \<Rightarrow> conversation_tables \<Rightarrow> conversation_tables" where
  "mark_consolidated c at_time t = t\<lparr>cvt_conversations :=
     map (\<lambda>r. if cv_id r = c then r\<lparr>cv_consolidated_at := Some at_time\<rparr> else r) (cvt_conversations t)\<rparr>"

fun consolidate_conversations ::
  "consolidator \<Rightarrow> tool_audit_record list \<Rightarrow> conversation_row list \<Rightarrow> conversation_tables \<times> consolidation
     \<Rightarrow> unit result \<times> conversation_tables \<times> consolidation" where
  "consolidate_conversations z audits [] (t, s) = (Inr (), t, s)"
| "consolidate_conversations z audits (c # cs) (t, s) = (case consolidate_conversation z t audits c s of
      (Inl e, s') \<Rightarrow> (Inl e, t, s')
    | (Inr at_time, s') \<Rightarrow> consolidate_conversations z audits cs (mark_consolidated (cv_id c) at_time t, s'))"

definition idle_conversations :: "consolidator \<Rightarrow> datetime \<Rightarrow> conversation_tables \<Rightarrow> conversation_row list" where
  "idle_conversations z now t = take (cz_batch z) (sort_key cv_last_turn_at (filter (\<lambda>c. cv_consolidated_at c = None
     \<and> cv_last_turn_at c \<le> now - timedelta_minutes (cz_idle_minutes z) \<and> 2 \<le> cv_turn_count c) (cvt_conversations t)))"

text \<open>An error leaves the session: the marks are rolled back, the committed facts stay.\<close>

definition consolidate_once ::
  "consolidator \<Rightarrow> tool_audit_record list \<Rightarrow> datetime \<Rightarrow> conversation_tables \<times> consolidation
     \<Rightarrow> nat result \<times> conversation_tables \<times> consolidation" where
  "consolidate_once z audits now s = (case s of (t, cs) \<Rightarrow>
     let batch = idle_conversations z now t in
     (case consolidate_conversations z audits batch (t, cs) of
        (Inl e, _, cs') \<Rightarrow> (Inl e, t, cs')
      | (Inr _, t', cs') \<Rightarrow> (Inr (length batch), t', cs')))"

subsection \<open>Where memories come from\<close>

text \<open>A record that is kept may only gain turns.\<close>

definition keeps_record :: "memory_row \<Rightarrow> memory_row \<Rightarrow> bool" where
  "keeps_record q r \<longleftrightarrow> r = q\<lparr>mr_turn_ids := mr_turn_ids r\<rparr> \<and> set (mr_turn_ids q) \<subseteq> set (mr_turn_ids r)"

definition drawn_from :: "consolidator \<Rightarrow> tool_audit_record list \<Rightarrow> conversation_tables \<Rightarrow> conversation_row \<Rightarrow> memory_row \<Rightarrow> bool" where
  "drawn_from z audits t c r \<longleftrightarrow> mr_kind r = ''conversation_summary'' \<and> mr_owner r = Some (cv_owner c)
     \<and> mr_permissions r = sort (remdups (required_permissions z audits (cv_id c)))
     \<and> tw_id ` {q \<in> set (cvt_turns t). tw_conversation q = cv_id c} \<subseteq> set (mr_turn_ids r)
     \<and> (\<exists>facts f now e. cz_extract z (map (\<lambda>r. (tw_id r, row_turn r)) (ordered_turns t (cv_id c))) = Inr facts \<and> f \<in> set facts
         \<and> evaluate_fact (cz_policy z) f (map tw_id (ordered_turns t (cv_id c))) now = Inr e \<and> fe_decision e = ACCEPTED
         \<and> mr_content r = strip (ft_statement f) \<and> mr_expires_at r = fe_expires_at e)"

definition memory_grows :: "(memory_row \<Rightarrow> bool) \<Rightarrow> memory_row list \<Rightarrow> memory_row list \<Rightarrow> bool" where
  "memory_grows D rows rows' \<longleftrightarrow> (records_ok rows \<longrightarrow> records_ok rows')
     \<and> (\<forall>q \<in> set rows. \<exists>r \<in> set rows'. keeps_record q r) \<and> (\<forall>r \<in> set rows'. D r \<or> (\<exists>q \<in> set rows. keeps_record q r))"

lemma keeps_record_refl [simp]: "keeps_record r r"
  by (simp add: keeps_record_def)

lemma keeps_record_trans: "keeps_record p q \<Longrightarrow> keeps_record q r \<Longrightarrow> keeps_record p r"
  unfolding keeps_record_def by (metis (no_types, lifting) memory_row.update_convs(8) memory_row.surjective order_trans)

lemma drawn_from_keeps: "drawn_from z audits t c q \<Longrightarrow> keeps_record q r \<Longrightarrow> drawn_from z audits t c r"
  unfolding keeps_record_def drawn_from_def by (cases q; cases r) auto

lemma memory_grows_refl [simp]: "memory_grows D rows rows"
  by (auto simp: memory_grows_def intro: keeps_record_refl)

lemma memory_grows_trans:
  assumes "memory_grows D rows rows1" and "memory_grows D rows1 rows2" and closed: "\<And>q r. D q \<Longrightarrow> keeps_record q r \<Longrightarrow> D r"
  shows "memory_grows D rows rows2"
  using assms unfolding memory_grows_def by (meson keeps_record_trans)

lemma memory_grows_mono: "memory_grows D rows rows' \<Longrightarrow> (\<And>r. D r \<Longrightarrow> E r) \<Longrightarrow> memory_grows E rows rows'"
  unfolding memory_grows_def by blast

lemma merge_grows: "memory_grows D rows (merge_turn_ids i turns rows)"
proof -
  define f where "f = (\<lambda>r :: memory_row. if mr_id r = i then r\<lparr>mr_turn_ids := first_occurrences (mr_turn_ids r @ turns)\<rparr> else r)"
  have f: "keeps_record r (f r)" for r by (auto simp: f_def keeps_record_def first_occurrences_def)
  have rows: "merge_turn_ids i turns rows = map f rows" by (simp add: merge_turn_ids_def f_def)
  have "\<forall>q \<in> set rows. \<exists>r \<in> set (map f rows). keeps_record q r" "\<forall>r \<in> set (map f rows). \<exists>q \<in> set rows. keeps_record q r"
    using f by auto
  then show ?thesis using merge_turn_ids_keeps[of rows i turns] unfolding memory_grows_def rows by blast
qed

lemma insert_grows: "insert_memory r rows = Inr rows' \<Longrightarrow> D r \<Longrightarrow> memory_grows D rows rows'"
  using insert_memory_keeps by (auto simp: memory_grows_def insert_memory_Inr intro: keeps_record_refl)

definition fact_write :: "extracted_fact \<Rightarrow> fact_evaluation \<Rightarrow> uuid \<Rightarrow> string list \<Rightarrow> uuid list \<Rightarrow> memory_write" where
  "fact_write f e owner required turns = \<lparr>mw_kind = ''conversation_summary'', mw_content = ft_statement f, mw_owner = Some owner,
     mw_site = None, mw_permissions = required, mw_turn_ids = turns, mw_document = None, mw_expires_at = fe_expires_at e\<rparr>"

lemma fact_write_content [simp]: "mw_content (fact_write f e owner required turns) = ft_statement f"
  by (simp add: fact_write_def)

lemma promote_grows:
  assumes "promote_fact p i now f e owner required turns rows rows = Inr (x, rows')"
    and D: "\<And>sha s. D (memory_row_of p i now (strip (ft_statement f)) sha s (fact_write f e owner required turns))"
  shows "memory_grows D rows rows'"
proof -
  obtain jc where "record_or_get_user_fact p i now (fact_write f e owner required turns) rows rows = Inr (jc, rows')"
    using assms(1) by (auto simp: promote_fact_def rmap_Inr_iff fact_write_def split: prod.splits)
  from record_fact_cases[OF this] show ?thesis
  proof (elim disjE exE)
    fix s assume "insert_memory (memory_row_of p i now (strip (mw_content (fact_write f e owner required turns)))
        (content_hash p (mw_content (fact_write f e owner required turns))) s (fact_write f e owner required turns)) rows = Inr rows'"
    then show ?thesis by (rule insert_grows) (simp add: D)
  qed (auto simp: merge_grows)
qed

lemma consolidate_fact_grows:
  assumes run: "consolidate_fact z c (required_permissions z audits (cv_id c)) (map tw_id (ordered_turns t (cv_id c))) now f s = (res, s')"
    and facts: "cz_extract z (map (\<lambda>r. (tw_id r, row_turn r)) (ordered_turns t (cv_id c))) = Inr facts" "f \<in> set facts"
  shows "memory_grows (drawn_from z audits t c) (cs_rows s) (cs_rows s')"
proof (cases "cs_rows s' = cs_rows s")
  case False
  let ?turns = "map tw_id (ordered_turns t (cv_id c))" and ?required = "required_permissions z audits (cv_id c)"
  obtain e where e: "evaluate_fact (cz_policy z) f ?turns now = Inr e"
    using run False by (cases "evaluate_fact (cz_policy z) f ?turns now") (auto simp: consolidate_fact_def)
  have acc: "fe_decision e = ACCEPTED"
    using run False e by (auto simp: consolidate_fact_def Let_def split: sum.splits if_splits)
  obtain i at_time x where promote: "promote_fact (cz_repository z) i at_time f e (cv_owner c) ?required ?turns (cs_rows s) (cs_rows s) = Inr (x, cs_rows s')"
    using run False e acc by (auto simp: consolidate_fact_def Let_def split: sum.splits if_splits prod.splits)
  have turns: "set ?turns = tw_id ` {q \<in> set (cvt_turns t). tw_conversation q = cv_id c}" by (simp add: ordered_turns_def)
  show ?thesis by (rule promote_grows[OF promote])
    (use facts e acc turns in \<open>auto simp: drawn_from_def memory_row_of_def fact_write_def\<close>)
qed simp

lemma drawn_from_closed: "drawn_from z audits t c q \<Longrightarrow> keeps_record q r \<Longrightarrow> drawn_from z audits t c r"
  by (rule drawn_from_keeps)

lemma consolidate_facts_grow:
  assumes "consolidate_facts z c (required_permissions z audits (cv_id c)) (map tw_id (ordered_turns t (cv_id c))) now fs s = (res, s')"
    and facts: "cz_extract z (map (\<lambda>r. (tw_id r, row_turn r)) (ordered_turns t (cv_id c))) = Inr facts" and "set fs \<subseteq> set facts"
  shows "memory_grows (drawn_from z audits t c) (cs_rows s) (cs_rows s')"
  using assms(1,3)
proof (induction fs arbitrary: s)
  case (Cons f fs)
  let ?step = "consolidate_fact z c (required_permissions z audits (cv_id c)) (map tw_id (ordered_turns t (cv_id c))) now f s"
  obtain r1 s1 where one: "?step = (r1, s1)" by fastforce
  have first: "memory_grows (drawn_from z audits t c) (cs_rows s) (cs_rows s1)"
    by (rule consolidate_fact_grows[OF one facts]) (use Cons.prems(2) in simp)
  show ?case
  proof (cases r1)
    case (Inl e)
    then show ?thesis using first Cons.prems(1) one by simp
  next
    case (Inr x)
    then have "memory_grows (drawn_from z audits t c) (cs_rows s1) (cs_rows s')"
      using Cons.IH[of s1] Cons.prems one by simp
    then show ?thesis by (rule memory_grows_trans[OF first _ drawn_from_closed])
  qed
qed simp

lemma consolidate_conversation_grows:
  assumes run: "consolidate_conversation z t audits c s = (res, s')"
  shows "memory_grows (drawn_from z audits t c) (cs_rows s) (cs_rows s')"
proof (cases "length (ordered_turns t (cv_id c)) < 2")
  case False
  show ?thesis
  proof (cases "cz_extract z (map (\<lambda>r. (tw_id r, row_turn r)) (ordered_turns t (cv_id c)))")
    case (Inr facts)
    obtain r1 s1 where one: "consolidate_facts z c (required_permissions z audits (cv_id c)) (map tw_id (ordered_turns t (cv_id c)))
        (cz_clock z (cs_ticks s)) facts (s\<lparr>cs_ticks := cs_ticks s + 1\<rparr>) = (r1, s1)" by fastforce
    have "cs_rows s' = cs_rows s1" using run False Inr one
      by (cases r1) (auto simp: consolidate_conversation_def Let_def)
    then show ?thesis using consolidate_facts_grow[OF one Inr] by simp
  qed (use run False in \<open>auto simp: consolidate_conversation_def Let_def\<close>)
qed (use run in \<open>auto simp: consolidate_conversation_def Let_def\<close>)

text \<open>The marks.\<close>

definition marked :: "uuid set \<Rightarrow> conversation_row \<Rightarrow> conversation_row \<Rightarrow> bool" where
  "marked ids r r' \<longleftrightarrow> (if cv_id r \<in> ids then \<exists>m. r' = r\<lparr>cv_consolidated_at := Some m\<rparr> else r' = r)"

definition tables_marked :: "uuid set \<Rightarrow> conversation_tables \<Rightarrow> conversation_tables \<Rightarrow> bool" where
  "tables_marked ids t t' \<longleftrightarrow> cvt_turns t' = cvt_turns t \<and> cvt_evidence t' = cvt_evidence t
     \<and> list_all2 (marked ids) (cvt_conversations t) (cvt_conversations t')"

lemma tables_marked_empty: "tables_marked {} t t"
  by (simp add: tables_marked_def marked_def list_all2_same)

lemma tables_marked_step: "tables_marked ids (mark_consolidated c m t) t' \<Longrightarrow> tables_marked (insert c ids) t t'"
proof -
  have step: "marked ids (if cv_id r = c then r\<lparr>cv_consolidated_at := Some m\<rparr> else r) r' \<Longrightarrow> marked (insert c ids) r r'" for r r'
    by (cases "cv_id r = c"; cases "cv_id r \<in> ids") (auto simp: marked_def)
  assume "tables_marked ids (mark_consolidated c m t) t'"
  then show ?thesis
    by (auto simp: tables_marked_def mark_consolidated_def list_all2_map1 intro: list_all2_mono dest: step)
qed

lemma drawn_from_turns: "cvt_turns t' = cvt_turns t \<Longrightarrow> drawn_from z audits t' c = drawn_from z audits t c"
  by (simp add: drawn_from_def[abs_def] ordered_turns_def)

lemma consolidate_conversations_effect:
  assumes "consolidate_conversations z audits cs (t, s) = (res, t', s')"
  shows "memory_grows (\<lambda>r. \<exists>c \<in> set cs. drawn_from z audits t c r) (cs_rows s) (cs_rows s')
    \<and> (\<forall>u. res = Inr u \<longrightarrow> tables_marked (cv_id ` set cs) t t')"
  using assms
proof (induction cs arbitrary: t s)
  case Nil
  then show ?case by (simp add: tables_marked_empty)
next
  case (Cons c cs)
  obtain r1 s1 where one: "consolidate_conversation z t audits c s = (r1, s1)" by fastforce
  let ?D = "\<lambda>r. \<exists>d \<in> set (c # cs). drawn_from z audits t d r"
  have first: "memory_grows ?D (cs_rows s) (cs_rows s1)"
    by (rule memory_grows_mono[OF consolidate_conversation_grows[OF one]]) simp
  show ?case
  proof (cases r1)
    case (Inl e)
    then show ?thesis using first Cons.prems one by auto
  next
    case (Inr m)
    then have rest: "consolidate_conversations z audits cs (mark_consolidated (cv_id c) m t, s1) = (res, t', s')"
      using Cons.prems one by simp
    note ih = Cons.IH[OF rest]
    have same: "drawn_from z audits (mark_consolidated (cv_id c) m t) d = drawn_from z audits t d" for d
      by (rule drawn_from_turns) (simp add: mark_consolidated_def)
    have "memory_grows ?D (cs_rows s1) (cs_rows s')"
      by (rule memory_grows_mono[OF conjunct1[OF ih]]) (auto simp: same)
    then have "memory_grows ?D (cs_rows s) (cs_rows s')"
      by (rule memory_grows_trans[OF first]) (blast intro: drawn_from_closed)
    then show ?thesis using ih tables_marked_step by auto
  qed
qed

text \<open>C26. Memory is drawn from conversations only: however far a consolidation gets, every record it adds states an accepted
  fact of one idle conversation, belongs to the owner of that conversation, names all of its turns, and requires
  exactly the permissions of the tools that were approved in it; records that were there only gain turns, and facts
  stay unique. On success exactly the conversations of the batch are marked, on an error none is.\<close>

theorem consolidation_provenance:
  assumes "records_ok (cs_rows s)" and "consolidate_once z audits now (t, s) = (res, t', s')"
  shows "records_ok (cs_rows s')
    \<and> (\<forall>q \<in> set (cs_rows s). \<exists>r \<in> set (cs_rows s'). keeps_record q r)
    \<and> (\<forall>r \<in> set (cs_rows s'). (\<exists>q \<in> set (cs_rows s). keeps_record q r)
        \<or> (\<exists>c \<in> set (idle_conversations z now t). drawn_from z audits t c r))
    \<and> (case res of Inl _ \<Rightarrow> t' = t
       | Inr n \<Rightarrow> n = length (idle_conversations z now t) \<and> tables_marked (cv_id ` set (idle_conversations z now t)) t t')"
proof -
  obtain r1 t1 s1 where run: "consolidate_conversations z audits (idle_conversations z now t) (t, s) = (r1, t1, s1)"
    using prod_cases3 by blast
  note eff = consolidate_conversations_effect[OF run]
  have "s' = s1" "case res of Inl _ \<Rightarrow> t' = t | Inr n \<Rightarrow> n = length (idle_conversations z now t) \<and> t' = t1 \<and> (\<exists>u. r1 = Inr u)"
    using assms(2) run by (auto simp: consolidate_once_def Let_def split: sum.splits)
  then show ?thesis using eff assms(1) unfolding memory_grows_def by (cases res) auto
qed

definition sample_likes :: extracted_fact where
  "sample_likes = \<lparr>ft_statement = ''User likes pumps'', ft_class = PREFERENCE, ft_evidence_turn_ids = [11], ft_entity_refs = [],
     ft_explicitly_stated = True\<rparr>"

definition sample_consolidator :: consolidator where
  "sample_consolidator = \<lparr>cz_policy = \<lparr>fpo_max_statement_characters = 200, fpo_rederivable_terms = [''due date'']\<rparr>,
     cz_repository = sample_repository, cz_extract = (\<lambda>_. Inr [sample_likes]), cz_tool_permissions = [], cz_idle_minutes = 10,
     cz_batch = 5, cz_candidate_days = 30, cz_fresh = (\<lambda>n. of_nat (100 + n)), cz_clock = (\<lambda>n. int n)\<rparr>"

lemma sample_likes_accepted: "evaluate_fact \<lparr>fpo_max_statement_characters = 200, fpo_rederivable_terms = [''due date'']\<rparr>
    sample_likes [11, 12, 14] 0 = Inr \<lparr>fe_decision = ACCEPTED, fe_reason = ''accepted'', fe_expires_at = None\<rparr>"
  by code_simp

lemma sample_rows_explicit: "sample_rows = \<lparr>cvt_conversations =
      [\<lparr>cv_id = 1, cv_owner = 7, cv_started_at = 0, cv_last_turn_at = 3, cv_turn_count = 3, cv_consolidated_at = None, cv_closed_at = None\<rparr>,
       \<lparr>cv_id = 2, cv_owner = 8, cv_started_at = 5, cv_last_turn_at = 5, cv_turn_count = 0, cv_consolidated_at = None, cv_closed_at = None\<rparr>],
    cvt_turns =
      [\<lparr>tw_id = 11, tw_conversation = 1, tw_owner = 7, tw_role = ''user'', tw_content = ''hello'', tw_created_at = 1,
         tw_expires_at = Some (1 + timedelta_days 30)\<rparr>,
       \<lparr>tw_id = 12, tw_conversation = 1, tw_owner = 7, tw_role = ''assistant'', tw_content = ''hi'', tw_created_at = 2,
         tw_expires_at = Some (2 + timedelta_days 30)\<rparr>,
       \<lparr>tw_id = 14, tw_conversation = 1, tw_owner = 7, tw_role = ''user'', tw_content = ''again'', tw_created_at = 3,
         tw_expires_at = Some (3 + timedelta_days 30)\<rparr>],
    cvt_evidence = []\<rparr>"
  by (simp add: sample_rows_def sample_conversations_def sample_store_defs turn_record_def db_read_recent_def)

lemma sample_idle: "map cv_id (idle_conversations sample_consolidator (timedelta_minutes 60) sample_rows) = [1]"
    "map cv_owner (idle_conversations sample_consolidator (timedelta_minutes 60) sample_rows) = [7]"
  by (simp_all add: idle_conversations_def sample_consolidator_def sample_rows_explicit timedelta_minutes_def)

lemma sample_consolidator_parts [simp]:
  "cz_policy sample_consolidator = \<lparr>fpo_max_statement_characters = 200, fpo_rederivable_terms = [''due date'']\<rparr>"
  "cz_repository sample_consolidator = sample_repository" "cz_extract sample_consolidator turns = Inr [sample_likes]"
  "cz_clock sample_consolidator n = int n"
  by (simp_all add: sample_consolidator_def)

lemma promote_first: "promote_fact p i now f e owner required turns [] [] = Inr ((i, ACCEPTED), [memory_row_of p i now (strip (ft_statement f))
    (content_hash p (ft_statement f)) (mp_user_namespace p) (fact_write f e owner required turns)])"
  by (simp add: promote_fact_def record_or_get_user_fact_def existing_fact_def namespace_for_def insert_memory_def fact_write_def)

lemma sample_fact_step: "\<exists>s'. consolidate_fact sample_consolidator c required [11, 12, 14] 0 sample_likes
    \<lparr>cs_rows = [], cs_candidates = [], cs_ticks = 1\<rparr> = (Inr (), s') \<and> length (cs_rows s') = 1"
  by (simp add: consolidate_fact_def sample_likes_accepted insert_candidate_def promote_first mark_promoted_def record_outcome_def Let_def)

lemma sample_turn_ids: "tw_id ` {q \<in> set (cvt_turns sample_rows). tw_conversation q = 1} = {11, 12, 14}"
proof -
  have "tw_id ` {q \<in> set (cvt_turns sample_rows). tw_conversation q = 1} = set (map tw_id (filter (\<lambda>q. tw_conversation q = 1) (cvt_turns sample_rows)))"
    by simp
  also have "map tw_id (filter (\<lambda>q. tw_conversation q = 1) (cvt_turns sample_rows)) = [11, 12, 14]"
    by (simp add: sample_rows_explicit)
  finally show ?thesis by simp
qed

lemma sample_consolidation: "\<exists>t' s'. consolidate_once sample_consolidator [] (timedelta_minutes 60)
      (sample_rows, \<lparr>cs_rows = [], cs_candidates = [], cs_ticks = 0\<rparr>) = (Inr 1, t', s') \<and> length (cs_rows s') = 1"
proof -
  obtain c where c: "idle_conversations sample_consolidator (timedelta_minutes 60) sample_rows = [c]" "cv_id c = 1" "cv_owner c = 7"
    using sample_idle by (cases "idle_conversations sample_consolidator (timedelta_minutes 60) sample_rows") auto
  have turns: "map tw_id (ordered_turns sample_rows 1) = [11, 12, 14]" "length (ordered_turns sample_rows 1) = 3"
    by (simp_all add: ordered_turns_def sample_rows_explicit turn_key_def)
  obtain s' where "consolidate_fact sample_consolidator c (required_permissions sample_consolidator [] 1) [11, 12, 14] 0 sample_likes
      \<lparr>cs_rows = [], cs_candidates = [], cs_ticks = 1\<rparr> = (Inr (), s')" "length (cs_rows s') = 1"
    using sample_fact_step by blast
  then show ?thesis by (simp add: consolidate_once_def c Let_def consolidate_conversation_def turns)
qed

theorem consolidation_provenance_witness:
  "\<exists>t' s' r. consolidate_once sample_consolidator [] (timedelta_minutes 60)
      (sample_rows, \<lparr>cs_rows = [], cs_candidates = [], cs_ticks = 0\<rparr>) = (Inr 1, t', s')
    \<and> cs_rows s' = [r] \<and> mr_owner r = Some 7 \<and> {11, 12, 14} \<subseteq> set (mr_turn_ids r)"
proof -
  let ?s = "\<lparr>cs_rows = [], cs_candidates = [], cs_ticks = 0\<rparr>"
  obtain t' s' where run: "consolidate_once sample_consolidator [] (timedelta_minutes 60) (sample_rows, ?s) = (Inr 1, t', s')"
      and one: "length (cs_rows s') = 1"
    using sample_consolidation by blast
  then obtain r where r: "cs_rows s' = [r]" by (auto simp: length_Suc_conv)
  have "records_ok (cs_rows ?s)" by (simp add: records_ok_def)
  from consolidation_provenance[OF this run]
  obtain c where c: "c \<in> set (idle_conversations sample_consolidator (timedelta_minutes 60) sample_rows)"
      and drawn: "drawn_from sample_consolidator [] sample_rows c r" using r by auto
  have "cv_id c \<in> set (map cv_id (idle_conversations sample_consolidator (timedelta_minutes 60) sample_rows))"
    "cv_owner c \<in> set (map cv_owner (idle_conversations sample_consolidator (timedelta_minutes 60) sample_rows))"
    using c by auto
  then have "cv_id c = 1" "cv_owner c = 7" by (simp_all add: sample_idle)
  then have "mr_owner r = Some 7" "{11, 12, 14} \<subseteq> set (mr_turn_ids r)"
    using drawn sample_turn_ids by (simp_all add: drawn_from_def)
  then show ?thesis using run r by blast
qed

end
