(* ===== verification/Tool_Models.thy ===== *)
theory Tool_Models
  imports Tool_Runtime
begin

section \<open>The Pydantic models of the read tools\<close>

text \<open>
  The input, item and output models of \<open>operations/infrastructure/tools/tool_builder.py\<close> as data. Pydantic itself is a parameter,
  a \<open>validator\<close> of such models; what the tools rely on is \<open>validator_ok\<close>, which the validator at the end of the
  theory, unknown keys refused, defaults filled in and every value checked against the type of its field, satisfies.
\<close>

subsection \<open>Models and their validator\<close>

datatype field_type = Text_Field | Optional_Text | Optional_Status | Whole_Number | Limited_Number int int | Truth_Value

record model_field =
  mf_name :: string
  mf_type :: field_type
  mf_default :: "pyval option"

record model_schema =
  ms_name :: string
  ms_strip :: bool
  ms_fields :: "model_field list"

definition is_status :: "string \<Rightarrow> bool" where
  "is_status s \<longleftrightarrow> s \<in> set (map status_value all_statuses)"

fun well_typed :: "field_type \<Rightarrow> pyval \<Rightarrow> bool" where
  "well_typed Text_Field v = (case v of PStr _ \<Rightarrow> True | _ \<Rightarrow> False)"
| "well_typed Optional_Text v = (case v of PNone \<Rightarrow> True | PStr _ \<Rightarrow> True | _ \<Rightarrow> False)"
| "well_typed Optional_Status v = (case v of PNone \<Rightarrow> True | PStr s \<Rightarrow> is_status s | _ \<Rightarrow> False)"
| "well_typed Whole_Number v = (case v of PInt _ \<Rightarrow> True | _ \<Rightarrow> False)"
| "well_typed (Limited_Number lo hi) v = (case v of PInt n \<Rightarrow> lo \<le> n \<and> n \<le> hi | _ \<Rightarrow> False)"
| "well_typed Truth_Value v = (case v of PBool _ \<Rightarrow> True | _ \<Rightarrow> False)"

text \<open>A schema as Pydantic admits it: every name once, every default of the type of its field. \<open>takes_model\<close>: what is given is
  a field and of its type, what is not given has a default. \<open>complete\<close>: every field is given, in the order of the model.\<close>

definition schema_ok :: "model_schema \<Rightarrow> bool" where
  "schema_ok m \<longleftrightarrow> distinct (map mf_name (ms_fields m))
     \<and> (\<forall>f \<in> set (ms_fields m). \<forall>v. mf_default f = Some v \<longrightarrow> well_typed (mf_type f) v \<and> (\<forall>s. v \<noteq> PStr s))"

definition takes_model :: "model_schema \<Rightarrow> dict \<Rightarrow> bool" where
  "takes_model m d \<longleftrightarrow> fst ` set d \<subseteq> mf_name ` set (ms_fields m)
     \<and> (\<forall>f \<in> set (ms_fields m). case map_of d (mf_name f) of None \<Rightarrow> mf_default f \<noteq> None | Some v \<Rightarrow> well_typed (mf_type f) v)"

definition complete :: "model_schema \<Rightarrow> dict \<Rightarrow> bool" where
  "complete m d \<longleftrightarrow> list_all2 (\<lambda>f kv. fst kv = mf_name f \<and> well_typed (mf_type f) (snd kv)) (ms_fields m) d"

text \<open>\<open>va_model\<close> is \<open>model_validate\<close> followed by \<open>model_dump(mode="json")\<close>; \<open>va_output\<close> the same of an output model, given by its
  name, the field of its items and their model. Validation takes what the model takes, leaves alone what it has validated, and
  leaves alone what is complete in a model that does not strip text.\<close>

record validator =
  va_model :: "model_schema \<Rightarrow> dict \<Rightarrow> dict result"
  va_output :: "string \<Rightarrow> string \<Rightarrow> model_schema \<Rightarrow> dict \<Rightarrow> dict result"

definition validator_ok :: "validator \<Rightarrow> bool" where
  "validator_ok va \<longleftrightarrow>
     (\<forall>m d. schema_ok m \<longrightarrow> takes_model m d \<longrightarrow> (\<exists>d'. va_model va m d = Inr d'))
   \<and> (\<forall>m d d'. schema_ok m \<longrightarrow> va_model va m d = Inr d' \<longrightarrow> va_model va m d' = Inr d')
   \<and> (\<forall>m d. schema_ok m \<longrightarrow> \<not> ms_strip m \<longrightarrow> complete m d \<longrightarrow> va_model va m d = Inr d)
   \<and> (\<forall>tool fieldname m ds. fieldname \<noteq> ''tool_name'' \<longrightarrow> (\<forall>d \<in> set ds. va_model va m d = Inr d) \<longrightarrow>
        va_output va tool fieldname m [(''tool_name'', PStr tool), (fieldname, PList (map PDict ds))]
          = Inr [(''tool_name'', PStr tool), (fieldname, PList (map PDict ds))])"

lemma validator_laws:
  assumes "validator_ok va" and "schema_ok m"
  shows validator_accepts: "takes_model m d \<Longrightarrow> \<exists>d'. va_model va m d = Inr d'"
    and validator_again: "va_model va m d = Inr d' \<Longrightarrow> va_model va m d' = Inr d'"
    and validator_complete: "\<not> ms_strip m \<Longrightarrow> complete m d \<Longrightarrow> va_model va m d = Inr d"
proof -
  note laws = assms(1)[unfolded validator_ok_def]
  show "takes_model m d \<Longrightarrow> \<exists>d'. va_model va m d = Inr d'" using conjunct1[OF laws] assms(2) by blast
  show "va_model va m d = Inr d' \<Longrightarrow> va_model va m d' = Inr d'" using conjunct1[OF conjunct2[OF laws]] assms(2) by blast
  show "\<not> ms_strip m \<Longrightarrow> complete m d \<Longrightarrow> va_model va m d = Inr d"
    using conjunct1[OF conjunct2[OF conjunct2[OF laws]]] assms(2) by blast
qed

lemma validator_output:
  assumes "validator_ok va" and "fieldname \<noteq> ''tool_name''" and "\<forall>d \<in> set ds. va_model va m d = Inr d"
  shows "va_output va tool fieldname m [(''tool_name'', PStr tool), (fieldname, PList (map PDict ds))]
    = Inr [(''tool_name'', PStr tool), (fieldname, PList (map PDict ds))]"
  using assms unfolding validator_ok_def by blast

subsection \<open>The models\<close>

definition required :: "string \<Rightarrow> field_type \<Rightarrow> model_field" where
  "required name ty = \<lparr>mf_name = name, mf_type = ty, mf_default = None\<rparr>"

definition site_field :: model_field where
  "site_field = \<lparr>mf_name = ''site_code'', mf_type = Optional_Text, mf_default = Some PNone\<rparr>"

definition limit_field :: model_field where
  "limit_field = \<lparr>mf_name = ''limit'', mf_type = Limited_Number 1 100, mf_default = Some (PInt 10)\<rparr>"

definition GetWorkOrdersInput :: model_schema where
  "GetWorkOrdersInput = \<lparr>ms_name = ''GetWorkOrdersInput'', ms_strip = True, ms_fields = [site_field,
     \<lparr>mf_name = ''status'', mf_type = Optional_Status, mf_default = Some PNone\<rparr>, limit_field]\<rparr>"

definition GetAssetStatusInput :: model_schema where
  "GetAssetStatusInput = \<lparr>ms_name = ''GetAssetStatusInput'', ms_strip = False, ms_fields = [site_field]\<rparr>"

definition GetMaintenanceTicketsInput :: model_schema where
  "GetMaintenanceTicketsInput = \<lparr>ms_name = ''GetMaintenanceTicketsInput'', ms_strip = False, ms_fields = [site_field, limit_field]\<rparr>"

definition GetSparePartsAvailabilityInput :: model_schema where
  "GetSparePartsAvailabilityInput = \<lparr>ms_name = ''GetSparePartsAvailabilityInput'', ms_strip = False, ms_fields = [site_field, limit_field]\<rparr>"

definition GetProductionScheduleInput :: model_schema where
  "GetProductionScheduleInput = \<lparr>ms_name = ''GetProductionScheduleInput'', ms_strip = False, ms_fields = [site_field, limit_field]\<rparr>"

definition texts :: "string list \<Rightarrow> model_field list" where
  "texts names = map (\<lambda>name. required name Text_Field) names"

definition WorkOrderItem :: model_schema where
  "WorkOrderItem = \<lparr>ms_name = ''WorkOrderItem'', ms_strip = False, ms_fields = texts [''id'', ''site_id'', ''site_code'', ''asset_id'',
     ''code'', ''title'', ''description'', ''priority'', ''status'', ''work_type''] @ [required ''due_at'' Optional_Text]
     @ texts [''created_at'', ''updated_at'']\<rparr>"

definition AssetStatusItem :: model_schema where
  "AssetStatusItem = \<lparr>ms_name = ''AssetStatusItem'', ms_strip = False, ms_fields = texts [''id'', ''code'', ''name'', ''category'',
     ''criticality'', ''status''] @ [required ''site_code'' Optional_Text]\<rparr>"

definition MaintenanceTicketItem :: model_schema where
  "MaintenanceTicketItem = \<lparr>ms_name = ''MaintenanceTicketItem'', ms_strip = False, ms_fields = texts [''ticket_id'', ''site_code'', ''code'',
     ''title''] @ [required ''asset_code'' Optional_Text] @ texts [''priority'', ''status''] @ [required ''due_at'' Optional_Text]
     @ texts [''work_type'']\<rparr>"

definition SparePartItem :: model_schema where
  "SparePartItem = \<lparr>ms_name = ''SparePartItem'', ms_strip = False, ms_fields = texts [''part_id'', ''site_code'', ''code'', ''name'', ''uom'']
     @ [required ''on_hand_qty'' Whole_Number, required ''reorder_point'' Whole_Number, required ''critical'' Truth_Value,
        required ''below_reorder'' Truth_Value]\<rparr>"

definition ProductionScheduleItem :: model_schema where
  "ProductionScheduleItem = \<lparr>ms_name = ''ProductionScheduleItem'', ms_strip = False, ms_fields = texts [''id'', ''site_code'', ''code'', ''title'']
     @ [required ''asset_code'' Optional_Text] @ texts [''work_type'', ''status''] @ [required ''due_at'' Optional_Text] @ texts [''priority'']\<rparr>"

definition read_input_of :: "dict \<Rightarrow> read_input" where
  "read_input_of d = \<lparr>ri_site_code = (case dget d ''site_code'' of PStr s \<Rightarrow> Some s | _ \<Rightarrow> None),
     ri_status = (case dget d ''status'' of PStr s \<Rightarrow> (case parse_status s of Inr w \<Rightarrow> Some w | Inl _ \<Rightarrow> None) | _ \<Rightarrow> None),
     ri_limit = (case dget d ''limit'' of PInt n \<Rightarrow> n | _ \<Rightarrow> 0)\<rparr>"

text \<open>\<open>schema\<close> is the JSON schema Pydantic derives from a model.\<close>

definition models_of :: "validator \<Rightarrow> (string \<Rightarrow> dict) \<Rightarrow> model_schema \<Rightarrow> string \<Rightarrow> string \<Rightarrow> model_schema \<Rightarrow> tool_models" where
  "models_of va schema inp tool fieldname item = \<lparr>
     tm_input = \<lparr>im_name = ms_name inp, im_extra = Some ''forbid'', im_validate = va_model va inp, im_schema = schema (ms_name inp)\<rparr>,
     tm_parse = (\<lambda>d. rmap read_input_of (va_model va inp d)), tm_item = va_model va item,
     tm_output = \<lparr>om_validate = va_output va tool fieldname item, om_dump = (\<lambda>d. d)\<rparr>\<rparr>"

definition read_models :: "validator \<Rightarrow> (string \<Rightarrow> dict) \<Rightarrow> string \<Rightarrow> tool_models" where
  "read_models va schema tool =
     (if tool = ''get_work_orders'' then models_of va schema GetWorkOrdersInput tool ''work_orders'' WorkOrderItem
      else if tool = ''get_asset_status'' then models_of va schema GetAssetStatusInput tool ''assets'' AssetStatusItem
      else if tool = ''get_maintenance_tickets'' then models_of va schema GetMaintenanceTicketsInput tool ''tickets'' MaintenanceTicketItem
      else if tool = ''get_spare_parts_availability'' then models_of va schema GetSparePartsAvailabilityInput tool ''spare_parts'' SparePartItem
      else models_of va schema GetProductionScheduleInput tool ''schedule'' ProductionScheduleItem)"

subsection \<open>Rows are items\<close>

lemmas model_defs = required_def texts_def

lemma item_schemas:
  "schema_ok WorkOrderItem" "schema_ok AssetStatusItem" "schema_ok MaintenanceTicketItem" "schema_ok SparePartItem"
  "schema_ok ProductionScheduleItem"
  by (simp_all add: schema_ok_def model_defs WorkOrderItem_def AssetStatusItem_def MaintenanceTicketItem_def SparePartItem_def
      ProductionScheduleItem_def)

lemma item_strip [simp]:
  "\<not> ms_strip WorkOrderItem" "\<not> ms_strip AssetStatusItem" "\<not> ms_strip MaintenanceTicketItem" "\<not> ms_strip SparePartItem"
  "\<not> ms_strip ProductionScheduleItem"
  by (simp_all add: WorkOrderItem_def AssetStatusItem_def MaintenanceTicketItem_def SparePartItem_def ProductionScheduleItem_def)

lemma optional_texts [simp]:
  "well_typed Optional_Text (iso_val x)" "well_typed Optional_Text (asset_code_val t i)"
  "well_typed Optional_Text (case y of None \<Rightarrow> PNone | Some s \<Rightarrow> PStr (g s))"
  by (auto simp: iso_val_def asset_code_val_def split: option.splits)

lemma complete_items:
  "work_order_dict t r = Inr d \<Longrightarrow> complete WorkOrderItem d" "complete AssetStatusItem (asset_dict t a)"
  "ticket_dict t r = Inr d \<Longrightarrow> complete MaintenanceTicketItem d" "spare_part_dict t p = Inr d \<Longrightarrow> complete SparePartItem d"
  "schedule_dict t r = Inr d \<Longrightarrow> complete ProductionScheduleItem d"
  by (auto simp: complete_def model_defs rmap_Inr_iff work_order_dict_def asset_dict_def ticket_dict_def spare_part_dict_def
      schedule_dict_def WorkOrderItem_def AssetStatusItem_def MaintenanceTicketItem_def SparePartItem_def ProductionScheduleItem_def
      simp del: well_typed.simps(2))

lemma valid_items:
  assumes "validator_ok va"
  shows "work_order_dict t r = Inr d \<Longrightarrow> va_model va WorkOrderItem d = Inr d"
    and "va_model va AssetStatusItem (asset_dict t a) = Inr (asset_dict t a)"
    and "ticket_dict t r = Inr d \<Longrightarrow> va_model va MaintenanceTicketItem d = Inr d"
    and "spare_part_dict t p = Inr d \<Longrightarrow> va_model va SparePartItem d = Inr d"
    and "schedule_dict t r = Inr d \<Longrightarrow> va_model va ProductionScheduleItem d = Inr d"
  by (simp_all add: validator_complete[OF assms] item_schemas complete_items)

lemma traverse_fixed: "(\<And>x. x \<in> set xs \<Longrightarrow> f x = Inr x) \<Longrightarrow> traverse f xs = Inr xs"
  using traverse_all_Inr[of xs f id] by simp

lemma traverse_total: "(\<And>x. x \<in> set xs \<Longrightarrow> \<exists>y. f x = Inr y) \<Longrightarrow> \<exists>ys. traverse f xs = Inr ys"
  by (induction xs) (auto, fastforce)

lemma rows_dicts:
  assumes "tables_ok t"
  shows "r \<in> set (ot_work_orders t) \<Longrightarrow> \<exists>d. work_order_dict t r = Inr d" "r \<in> set (ot_work_orders t) \<Longrightarrow> \<exists>d. ticket_dict t r = Inr d"
    "r \<in> set (ot_work_orders t) \<Longrightarrow> \<exists>d. schedule_dict t r = Inr d" "p \<in> set (ot_spare_parts t) \<Longrightarrow> \<exists>d. spare_part_dict t p = Inr d"
  using assms site_code_text_ok[of "wo_site_id r" t] site_code_text_ok[of "sp_site_id p" t]
  by (auto simp: tables_ok_def work_order_dict_def ticket_dict_def schedule_dict_def spare_part_dict_def)

lemma site_filter_sub: "x \<in> set (site_filter t k site xs) \<Longrightarrow> x \<in> set xs"
  by (auto simp: site_filter_def split: option.splits)

text \<open>The repository of the tools has no policy.\<close>

abbreviation tool_repository :: "operations_tables \<Rightarrow> operations_repository" where
  "tool_repository t \<equiv> \<lparr>or_tables = t, or_policy = None, or_user = None\<rparr>"

lemma queries_items:
  assumes "tables_ok t" and "validator_ok va"
  shows "\<exists>ds. list_work_orders (tool_repository t) site status n = Inr ds \<and> (\<forall>d \<in> set ds. va_model va WorkOrderItem d = Inr d)"
    and "\<exists>ds. get_asset_status (tool_repository t) site = Inr ds \<and> (\<forall>d \<in> set ds. va_model va AssetStatusItem d = Inr d)"
    and "\<exists>ds. list_maintenance_tickets (tool_repository t) site n = Inr ds \<and> (\<forall>d \<in> set ds. va_model va MaintenanceTicketItem d = Inr d)"
    and "\<exists>ds. list_spare_parts_availability (tool_repository t) site n = Inr ds \<and> (\<forall>d \<in> set ds. va_model va SparePartItem d = Inr d)"
    and "\<exists>ds. list_production_schedule (tool_repository t) site n = Inr ds \<and> (\<forall>d \<in> set ds. va_model va ProductionScheduleItem d = Inr d)"
proof -
  have items: "\<exists>ds. traverse f rows = Inr ds \<and> (\<forall>d \<in> set ds. P d)"
    if "\<And>r. r \<in> set rows \<Longrightarrow> \<exists>d. f r = Inr d" "\<And>r d. f r = Inr d \<Longrightarrow> P d" for f :: "'r \<Rightarrow> dict result" and rows P
    using traverse_total[of rows f, OF that(1)] that(2) by (metis traverse_Inr_elem)
  have rows: "r \<in> set (ot_work_orders t)" if "r \<in> set (ticket_rows t site n) \<union> set (schedule_rows t site n)" for r
    using that by (auto simp: ticket_rows_def schedule_rows_def dest!: set_take_sub site_filter_sub)
  have spare_rows: "p \<in> set (ot_spare_parts t)"
    if "p \<in> set (take (nat n) (sort_key sp_code (site_filter t sp_site_id site (ot_spare_parts t))))" for p
    using that by (auto dest!: set_take_sub site_filter_sub)
  show "\<exists>ds. list_work_orders (tool_repository t) site status n = Inr ds \<and> (\<forall>d \<in> set ds. va_model va WorkOrderItem d = Inr d)"
    using items[of "work_order_rows t site status n" "work_order_dict t"] rows_dicts(1)[OF assms(1)] work_order_rows_sub valid_items(1)[OF assms(2)]
    by (simp add: list_work_orders_def check_permission_def)
  show "\<exists>ds. get_asset_status (tool_repository t) site = Inr ds \<and> (\<forall>d \<in> set ds. va_model va AssetStatusItem d = Inr d)"
    by (auto simp: get_asset_status_def check_permission_def valid_items(2)[OF assms(2)])
  show "\<exists>ds. list_maintenance_tickets (tool_repository t) site n = Inr ds \<and> (\<forall>d \<in> set ds. va_model va MaintenanceTicketItem d = Inr d)"
    using items[of "ticket_rows t site n" "ticket_dict t"] rows_dicts(2)[OF assms(1)] rows valid_items(3)[OF assms(2)]
    by (simp add: list_maintenance_tickets_def)
  show "\<exists>ds. list_spare_parts_availability (tool_repository t) site n = Inr ds \<and> (\<forall>d \<in> set ds. va_model va SparePartItem d = Inr d)"
    using items[of "take (nat n) (sort_key sp_code (site_filter t sp_site_id site (ot_spare_parts t)))" "spare_part_dict t"]
      rows_dicts(4)[OF assms(1)] spare_rows valid_items(4)[OF assms(2)]
    by (simp add: list_spare_parts_availability_def)
  show "\<exists>ds. list_production_schedule (tool_repository t) site n = Inr ds \<and> (\<forall>d \<in> set ds. va_model va ProductionScheduleItem d = Inr d)"
    using items[of "schedule_rows t site n" "schedule_dict t"] rows_dicts(3)[OF assms(1)] rows valid_items(5)[OF assms(2)]
    by (simp add: list_production_schedule_def)
qed

subsection \<open>A planned read is answered\<close>

text \<open>What the deterministic rules plan for a tool is what the tool takes.\<close>

lemma planned_tools:
  assumes "resolve_intent q = Some res" and "ir_tool_name res = Some tool"
    and "P ''get_production_schedule'' (common_payload q)" and "P ''get_spare_parts_availability'' (common_payload q)"
    and "P ''get_maintenance_tickets'' (common_payload q)" and "P ''get_asset_status'' (site_payload q)"
    and "P ''get_work_orders'' (common_payload q)"
    and "\<And>s. extract_status q = Some s \<Longrightarrow> P ''get_work_orders'' (AList.update ''status'' (PStr s) (common_payload q))"
  shows "P tool (ir_payload res)"
  using assms by (auto simp: resolve_intent_def resolution_def Let_def split: if_splits option.splits)

definition planned_for :: "string \<Rightarrow> dict \<Rightarrow> bool" where
  "planned_for tool d \<longleftrightarrow> payload_ok d \<and> (\<exists>fs. (tool, fs) \<in> set SEMANTIC_FIELDS_BY_TOOL \<and> fst ` set d \<subseteq> set fs)"

lemma planned_payload:
  assumes "resolve_intent q = Some res" and "ir_tool_name res = Some tool"
  shows "planned_for tool (ir_payload res)"
proof (rule planned_tools[OF assms])
  have site: "fst ` set (site_payload q) \<subseteq> {''site_code''}" by (auto simp: site_payload_def split: option.splits)
  note keys = common_payload_keys[of q] payload_ok_common[of q]
  show "planned_for ''get_production_schedule'' (common_payload q)" "planned_for ''get_spare_parts_availability'' (common_payload q)"
    "planned_for ''get_maintenance_tickets'' (common_payload q)" "planned_for ''get_asset_status'' (site_payload q)"
    using keys site payload_ok_site[of q] by (simp_all add: planned_for_def SEMANTIC_FIELDS_BY_TOOL_def)
  show "planned_for ''get_work_orders'' (common_payload q)"
    using keys by (auto simp: planned_for_def SEMANTIC_FIELDS_BY_TOOL_def)
  fix s
  assume "extract_status q = Some s"
  then show "planned_for ''get_work_orders'' (AList.update ''status'' (PStr s) (common_payload q))"
    using keys(1) payload_ok_status[of q s] by (auto simp: planned_for_def SEMANTIC_FIELDS_BY_TOOL_def dom_update)
qed

definition status_field :: model_field where
  "status_field = \<lparr>mf_name = ''status'', mf_type = Optional_Status, mf_default = Some PNone\<rparr>"

lemmas input_defs = GetWorkOrdersInput_def GetAssetStatusInput_def GetMaintenanceTicketsInput_def
  GetSparePartsAvailabilityInput_def GetProductionScheduleInput_def

lemma input_fields:
  "ms_fields GetWorkOrdersInput = [site_field, status_field, limit_field]" "ms_fields GetAssetStatusInput = [site_field]"
  "ms_fields GetMaintenanceTicketsInput = [site_field, limit_field]" "ms_fields GetSparePartsAvailabilityInput = [site_field, limit_field]"
  "ms_fields GetProductionScheduleInput = [site_field, limit_field]"
  by (simp_all add: input_defs status_field_def)

lemma requested_statuses: "(r, s) \<in> set STATUS_PATTERNS \<Longrightarrow> s \<in> status_value ` set all_statuses"
  by (auto simp: STATUS_PATTERNS_def all_statuses_def)

text \<open>What the site scope of the actor adds to a planned payload leaves it one the models take.\<close>

definition takeable :: "dict \<Rightarrow> bool" where
  "takeable d \<longleftrightarrow> list_all (\<lambda>(k, v). v \<noteq> PNone) d
     \<and> (dget d ''site_code'' = PNone \<or> (\<exists>c. dget d ''site_code'' = PStr c))
     \<and> (dget d ''limit'' = PNone \<or> (\<exists>n. dget d ''limit'' = PInt n \<and> 1 \<le> n \<and> n \<le> 100))
     \<and> (dget d ''status'' = PNone \<or> (\<exists>s. dget d ''status'' = PStr s \<and> s \<in> snd ` set STATUS_PATTERNS))"

lemma takeable_planned: "payload_ok d \<Longrightarrow> takeable d"
  by (auto simp: payload_ok_def takeable_def)

lemma takeable_site: "takeable d \<Longrightarrow> takeable (AList.update ''site_code'' (PStr c) d)"
proof -
  assume t: "takeable d"
  have site: "dget (AList.update ''site_code'' (PStr c) d) ''site_code'' = PStr c" by simp
  have others: "dget (AList.update ''site_code'' (PStr c) d) ''limit'' = dget d ''limit''"
    "dget (AList.update ''site_code'' (PStr c) d) ''status'' = dget d ''status''" by simp_all
  have "list_all (\<lambda>(k, v). v \<noteq> PNone) d" using t by (simp add: takeable_def)
  then have "list_all (\<lambda>(k, v). v \<noteq> PNone) (AList.update ''site_code'' (PStr c) d)" by (induction d) auto
  then show ?thesis using t by (simp only: takeable_def site others) blast
qed

lemma planned_acceptable:
  assumes "takeable d" and "set (ms_fields m) \<subseteq> {site_field, status_field, limit_field}" and "fst ` set d \<subseteq> mf_name ` set (ms_fields m)"
  shows "takes_model m d"
proof -
  have "case map_of d (mf_name f) of None \<Rightarrow> mf_default f \<noteq> None | Some v \<Rightarrow> well_typed (mf_type f) v" if f: "f \<in> set (ms_fields m)" for f
  proof (cases "map_of d (mf_name f)")
    case None
    then show ?thesis using f assms(2) by (auto simp: site_field_def status_field_def limit_field_def)
  next
    case (Some v)
    then have v: "dget d (mf_name f) = v" "v \<noteq> PNone"
      using assms(1) map_of_SomeD[OF Some] by (auto simp: dget_def takeable_def list_all_iff)
    have "f \<in> {site_field, status_field, limit_field}" using f assms(2) by blast
    then have "well_typed (mf_type f) v"
      using assms(1) v by (auto simp: takeable_def site_field_def status_field_def limit_field_def is_status_def intro: requested_statuses)
    then show ?thesis using Some by simp
  qed
  then show ?thesis using assms(3) by (simp add: takes_model_def)
qed

lemma input_schema_ok:
  "m \<in> {GetWorkOrdersInput, GetAssetStatusInput, GetMaintenanceTicketsInput, GetSparePartsAvailabilityInput, GetProductionScheduleInput} \<Longrightarrow>
     schema_ok m"
  by (auto simp: schema_ok_def input_fields site_field_def status_field_def limit_field_def)

text \<open>A read tool whose query returns valid items for every request answers every payload its input model accepts.\<close>

definition answers_with :: "operations_tables tool_definition \<Rightarrow> dict \<Rightarrow> operations_tables \<Rightarrow> bool" where
  "answers_with tool d t \<longleftrightarrow> (\<exists>payload out. validate_strict_input (td_input_model tool) d = Inr payload
     \<and> td_handler tool payload t = (Inr out, t) \<and> om_validate (td_output_model tool) out = Inr out)"

lemma read_tool_answers:
  assumes "validator_ok va" and "schema_ok inp" and "va_model va inp d = Inr payload" and "fieldname \<noteq> ''tool_name''"
    and query: "\<And>data. \<exists>rows. query (tool_repository t) data = Inr rows \<and> (\<forall>r \<in> set rows. va_model va item r = Inr r)"
  shows "answers_with (tr_definition (read_tool (models_of va schema inp tool fieldname item) tool description fieldname perm pr ad query)) d t"
proof -
  obtain rows where rows: "query (tool_repository t) (read_input_of payload) = Inr rows"
    and ok: "\<forall>r \<in> set rows. va_model va item r = Inr r"
    using query by blast
  have "traverse (va_model va item) rows = Inr rows" using ok by (auto intro: traverse_fixed)
  then show ?thesis
    using assms(3) rows validator_again[OF assms(1,2,3)] validator_output[OF assms(1,4) ok]
    by (simp add: answers_with_def read_tool_def models_of_def validate_strict_input_def read_handler_def)
qed

lemma scoped_planned:
  assumes "planned_for tool d" and "scope_payload def c d = Some scoped" and "td_site_code_field def = Some ''site_code''"
  shows "takeable scoped \<and> (\<exists>fs. (tool, fs) \<in> set SEMANTIC_FIELDS_BY_TOOL \<and> fst ` set scoped \<subseteq> set fs)"
proof -
  have fields: "''site_code'' \<in> set fs" if "(tool, fs) \<in> set SEMANTIC_FIELDS_BY_TOOL" for fs
    using that by (auto simp: SEMANTIC_FIELDS_BY_TOOL_def)
  have "scoped = d \<or> scoped = AList.update ''site_code'' (PStr (hd (ac_site_codes c))) d"
    using assms(2,3) by (auto simp: scope_payload_def split: if_splits)
  then show ?thesis
  proof
    assume "scoped = d"
    then show ?thesis using assms(1) takeable_planned by (auto simp: planned_for_def)
  next
    assume s: "scoped = AList.update ''site_code'' (PStr (hd (ac_site_codes c))) d"
    obtain fs where fs: "(tool, fs) \<in> set SEMANTIC_FIELDS_BY_TOOL" "fst ` set d \<subseteq> set fs" and ok: "payload_ok d"
      using assms(1) by (auto simp: planned_for_def)
    have "fst ` set scoped \<subseteq> set fs" using fs fields[OF fs(1)] by (simp add: s dom_update)
    then show ?thesis using fs(1) ok s by (auto intro: takeable_planned takeable_site)
  qed
qed

lemma read_tool_scoped:
  assumes "validator_ok va" and "planned_for tool d" and "scope_payload (tr_definition reg) c d = Some scoped"
    and reg: "reg = read_tool (models_of va schema inp tool fieldname item) tool description fieldname perm pr ad query"
    and inp: "inp \<in> {GetWorkOrdersInput, GetAssetStatusInput, GetMaintenanceTicketsInput, GetSparePartsAvailabilityInput, GetProductionScheduleInput}"
    and fs: "\<And>fs. (tool, fs) \<in> set SEMANTIC_FIELDS_BY_TOOL \<Longrightarrow> set fs = mf_name ` set (ms_fields inp)"
    and "fieldname \<noteq> ''tool_name''"
    and "\<And>data. \<exists>rows. query (tool_repository t) data = Inr rows \<and> (\<forall>r \<in> set rows. va_model va item r = Inr r)"
  shows "answers_with (tr_definition reg) scoped t"
proof -
  have "td_site_code_field (tr_definition reg) = Some ''site_code''" by (simp add: reg read_tool_def)
  from scoped_planned[OF assms(2,3) this] have ok: "takeable scoped" and keys: "fst ` set scoped \<subseteq> mf_name ` set (ms_fields inp)"
    using fs by auto
  have "set (ms_fields inp) \<subseteq> {site_field, status_field, limit_field}" using inp by (auto simp: input_fields)
  then obtain payload where "va_model va inp scoped = Inr payload"
    using validator_accepts[OF assms(1) input_schema_ok[OF inp] planned_acceptable[OF ok _ keys]] by blast
  then show ?thesis unfolding reg
    by (rule read_tool_answers[OF assms(1) input_schema_ok[OF inp]]) (use assms(7,8) in auto)
qed

lemma semantic_fields_of:
  "(''get_work_orders'', fs) \<in> set SEMANTIC_FIELDS_BY_TOOL \<Longrightarrow> set fs = mf_name ` set (ms_fields GetWorkOrdersInput)"
  "(''get_asset_status'', fs) \<in> set SEMANTIC_FIELDS_BY_TOOL \<Longrightarrow> set fs = mf_name ` set (ms_fields GetAssetStatusInput)"
  "(''get_maintenance_tickets'', fs) \<in> set SEMANTIC_FIELDS_BY_TOOL \<Longrightarrow> set fs = mf_name ` set (ms_fields GetMaintenanceTicketsInput)"
  "(''get_spare_parts_availability'', fs) \<in> set SEMANTIC_FIELDS_BY_TOOL \<Longrightarrow> set fs = mf_name ` set (ms_fields GetSparePartsAvailabilityInput)"
  "(''get_production_schedule'', fs) \<in> set SEMANTIC_FIELDS_BY_TOOL \<Longrightarrow> set fs = mf_name ` set (ms_fields GetProductionScheduleInput)"
  by (auto simp: SEMANTIC_FIELDS_BY_TOOL_def input_fields site_field_def status_field_def limit_field_def)

lemma read_models_of:
  "read_models va schema ''get_work_orders'' = models_of va schema GetWorkOrdersInput ''get_work_orders'' ''work_orders'' WorkOrderItem"
  "read_models va schema ''get_asset_status'' = models_of va schema GetAssetStatusInput ''get_asset_status'' ''assets'' AssetStatusItem"
  "read_models va schema ''get_maintenance_tickets''
     = models_of va schema GetMaintenanceTicketsInput ''get_maintenance_tickets'' ''tickets'' MaintenanceTicketItem"
  "read_models va schema ''get_spare_parts_availability''
     = models_of va schema GetSparePartsAvailabilityInput ''get_spare_parts_availability'' ''spare_parts'' SparePartItem"
  "read_models va schema ''get_production_schedule''
     = models_of va schema GetProductionScheduleInput ''get_production_schedule'' ''schedule'' ProductionScheduleItem"
  by (simp_all add: read_models_def)

definition serves :: "operations_tables tool_registration list \<Rightarrow> string \<Rightarrow> dict \<Rightarrow> operations_tables \<Rightarrow> bool" where
  "serves regs tool d t \<longleftrightarrow> (\<exists>reg \<in> set regs. td_name (tr_definition reg) = tool
     \<and> (\<forall>c scoped. scope_payload (tr_definition reg) c d = Some scoped \<longrightarrow> answers_with (tr_definition reg) scoped t))"

lemma read_tools_in:
  "build_get_work_orders_tool (opm_description m ''get_work_orders'') (opm_repr m) (opm_read m ''get_work_orders'') \<in> set (operations_tools m now)"
  "build_get_asset_status_tool (opm_description m ''get_asset_status'') (opm_repr m) (opm_read m ''get_asset_status'') \<in> set (operations_tools m now)"
  "build_get_maintenance_tickets_tool (opm_description m ''get_maintenance_tickets'') (opm_repr m) (opm_read m ''get_maintenance_tickets'')
     \<in> set (operations_tools m now)"
  "build_get_spare_parts_availability_tool (opm_description m ''get_spare_parts_availability'') (opm_repr m)
     (opm_read m ''get_spare_parts_availability'') \<in> set (operations_tools m now)"
  "build_get_production_schedule_tool (opm_description m ''get_production_schedule'') (opm_repr m) (opm_read m ''get_production_schedule'')
     \<in> set (operations_tools m now)"
  unfolding operations_tools_def Let_def by (simp_all only: list.set insert_iff simp_thms)

lemma read_tool_serves:
  assumes "reg \<in> set regs"
    and reg: "reg = read_tool (models_of va schema inp tool fieldname item) tool description fieldname perm pr ad query"
    and "validator_ok va" and "planned_for tool d"
    and "inp \<in> {GetWorkOrdersInput, GetAssetStatusInput, GetMaintenanceTicketsInput, GetSparePartsAvailabilityInput, GetProductionScheduleInput}"
    and "\<And>fs. (tool, fs) \<in> set SEMANTIC_FIELDS_BY_TOOL \<Longrightarrow> set fs = mf_name ` set (ms_fields inp)"
    and "fieldname \<noteq> ''tool_name''"
    and "\<And>data. \<exists>rows. query (tool_repository t) data = Inr rows \<and> (\<forall>r \<in> set rows. va_model va item r = Inr r)"
  shows "serves regs tool d t"
proof -
  have "td_name (tr_definition reg) = tool" by (simp add: reg read_tool_def)
  moreover have "answers_with (tr_definition reg) sc t" if "scope_payload (tr_definition reg) c d = Some sc" for c sc
    by (rule read_tool_scoped[OF assms(3,4) that reg assms(5-8)])
  ultimately show ?thesis using assms(1) by (auto simp: serves_def)
qed

lemma served:
  assumes "validator_ok va" and "tables_ok t" and models: "opm_read m = read_models va schema" and plan: "planned_for tool d"
  shows "serves (operations_tools m now) tool d t"
proof -
  note items = queries_items[OF assms(2,1)]
  note serve = read_tool_serves[OF _ _ assms(1)]
  have "tool \<in> set (map fst SEMANTIC_FIELDS_BY_TOOL)" using plan unfolding planned_for_def by force
  then have "tool = ''get_work_orders'' \<or> tool = ''get_asset_status'' \<or> tool = ''get_maintenance_tickets''
    \<or> tool = ''get_spare_parts_availability'' \<or> tool = ''get_production_schedule''"
    by (simp only: SEMANTIC_FIELDS_BY_TOOL_def list.map fst_conv list.set insert_iff empty_iff simp_thms)
  then show ?thesis
  proof (elim disjE)
    assume 1: "tool = ''get_work_orders''"
    show ?thesis unfolding 1 
      by (rule serve[OF read_tools_in(1)[of m now, unfolded models read_models_of] build_get_work_orders_tool_def plan[unfolded 1]])
        (simp_all only: semantic_fields_of items insert_iff simp_thms, simp)
  next
    assume 2: "tool = ''get_asset_status''"
    show ?thesis unfolding 2 
      by (rule serve[OF read_tools_in(2)[of m now, unfolded models read_models_of] build_get_asset_status_tool_def plan[unfolded 2]])
        (simp_all only: semantic_fields_of items insert_iff simp_thms, simp)
  next
    assume 3: "tool = ''get_maintenance_tickets''"
    show ?thesis unfolding 3 
      by (rule serve[OF read_tools_in(3)[of m now, unfolded models read_models_of] build_get_maintenance_tickets_tool_def plan[unfolded 3]])
        (simp_all only: semantic_fields_of items insert_iff simp_thms, simp)
  next
    assume 4: "tool = ''get_spare_parts_availability''"
    show ?thesis unfolding 4 
      by (rule serve[OF read_tools_in(4)[of m now, unfolded models read_models_of] build_get_spare_parts_availability_tool_def plan[unfolded 4]])
        (simp_all only: semantic_fields_of items insert_iff simp_thms, simp)
  next
    assume 5: "tool = ''get_production_schedule''"
    show ?thesis unfolding 5 
      by (rule serve[OF read_tools_in(5)[of m now, unfolded models read_models_of] build_get_production_schedule_tool_def plan[unfolded 5]])
        (simp_all only: semantic_fields_of items insert_iff simp_thms, simp)
  qed
qed

text \<open>C13. A planned read is answered: with any validator that keeps the laws of Pydantic, whatever query the deterministic rules
  plan a tool for, the operations module serves
  that tool, and for every actor whose site scope lets the plan through the payload is one the input model of the tool takes,
  the handler, which validates it a second time, answers it from any consistent tables without changing them, and its answer is
  one the output model takes as it is.\<close>

theorem planned_read_answered:
  assumes "resolve_intent q = Some res" and "ir_tool_name res = Some tool"
    and "tables_ok t" and "opm_read m = read_models va schema" and "validator_ok va"
  shows "\<exists>reg \<in> set (operations_tools m now). td_name (tr_definition reg) = tool
    \<and> (\<forall>c scoped. scope_payload (tr_definition reg) c (ir_payload res) = Some scoped \<longrightarrow>
         (\<exists>payload out. validate_strict_input (td_input_model (tr_definition reg)) scoped = Inr payload
            \<and> td_handler (tr_definition reg) payload t = (Inr out, t)
            \<and> om_validate (td_output_model (tr_definition reg)) out = Inr out))"
  using served[OF assms(5,3,4) planned_payload[OF assms(1,2)], of now] unfolding serves_def answers_with_def .

subsection \<open>A validator\<close>

text \<open>How a value that is no integer (no boolean) is turned into one is left to \<open>coercions\<close>; a value that is one stays as it is.\<close>

record coercions =
  co_int :: "pyval \<Rightarrow> int option"
  co_bool :: "pyval \<Rightarrow> bool option"

definition coercions_ok :: "coercions \<Rightarrow> bool" where
  "coercions_ok co \<longleftrightarrow> (\<forall>n. co_int co (PInt n) = Some n) \<and> (\<forall>b. co_bool co (PBool b) = Some b)"

definition text_value :: "bool \<Rightarrow> pyval \<Rightarrow> pyval option" where
  "text_value stripped v = (case v of PStr s \<Rightarrow> Some (PStr (if stripped then strip s else s)) | _ \<Rightarrow> None)"

definition status_val :: "pyval \<Rightarrow> pyval option" where
  "status_val v = (case v of PStr s \<Rightarrow> if s \<in> set (map status_value all_statuses) then Some v else None | _ \<Rightarrow> None)"

definition optional_value :: "(pyval \<Rightarrow> pyval option) \<Rightarrow> pyval \<Rightarrow> pyval option" where
  "optional_value f v = (if v = PNone then Some PNone else f v)"

fun checked_value :: "coercions \<Rightarrow> bool \<Rightarrow> field_type \<Rightarrow> pyval \<Rightarrow> pyval option" where
  "checked_value co stripped Text_Field v = text_value stripped v"
| "checked_value co stripped Optional_Text v = optional_value (text_value stripped) v"
| "checked_value co stripped Optional_Status v = optional_value status_val v"
| "checked_value co stripped Whole_Number v = map_option PInt (co_int co v)"
| "checked_value co stripped (Limited_Number lo hi) v = (case co_int co v of
      Some n \<Rightarrow> if lo \<le> n \<and> n \<le> hi then Some (PInt n) else None | None \<Rightarrow> None)"
| "checked_value co stripped Truth_Value v = map_option PBool (co_bool co v)"

definition field_entry :: "coercions \<Rightarrow> model_schema \<Rightarrow> dict \<Rightarrow> model_field \<Rightarrow> (string \<times> pyval) result" where
  "field_entry co m d f = (case (case map_of d (mf_name f) of None \<Rightarrow> mf_default f | Some v \<Rightarrow> checked_value co (ms_strip m) (mf_type f) v) of
      None \<Rightarrow> Inl (ValidationErr (ms_name m)) | Some w \<Rightarrow> Inr (mf_name f, w))"

definition validate_model :: "coercions \<Rightarrow> model_schema \<Rightarrow> dict \<Rightarrow> dict result" where
  "validate_model co m d = (if \<not> fst ` set d \<subseteq> mf_name ` set (ms_fields m) then Inl (ValidationErr (ms_name m))
     else traverse (field_entry co m d) (ms_fields m))"

definition item_list :: "coercions \<Rightarrow> model_schema \<Rightarrow> pyval \<Rightarrow> pyval result" where
  "item_list co item v = (case v of
      PList vs \<Rightarrow> rmap PList (traverse (\<lambda>x. case x of PDict d \<Rightarrow> rmap PDict (validate_model co item d) | _ \<Rightarrow> Inl (ValidationErr (ms_name item))) vs)
    | _ \<Rightarrow> Inl (ValidationErr (ms_name item)))"

definition validate_output :: "coercions \<Rightarrow> string \<Rightarrow> string \<Rightarrow> model_schema \<Rightarrow> dict \<Rightarrow> dict result" where
  "validate_output co tool fieldname item d = (if \<not> fst ` set d \<subseteq> {''tool_name'', fieldname} then Inl (ValidationErr tool)
     else case (case map_of d ''tool_name'' of None \<Rightarrow> Some (PStr tool) | Some v \<Rightarrow> text_value False v, map_of d fieldname) of
         (Some name, Some v) \<Rightarrow> rmap (\<lambda>items. [(''tool_name'', name), (fieldname, items)]) (item_list co item v)
       | _ \<Rightarrow> Inl (ValidationErr tool))"

definition validator_of :: "coercions \<Rightarrow> validator" where
  "validator_of co = \<lparr>va_model = validate_model co, va_output = validate_output co\<rparr>"

lemma traverse_same: "(\<And>x. x \<in> set xs \<Longrightarrow> f x = g x) \<Longrightarrow> traverse f xs = traverse g xs"
  by (induction xs) auto

lemma strip_strip: "strip (strip s) = strip s"
proof -
  define a where "a = dropWhile is_space s"
  define u where "u = rev (dropWhile is_space (rev a))"
  have "a = u @ rev (takeWhile is_space (rev a))"
    unfolding u_def by (metis rev_append rev_rev_ident takeWhile_dropWhile_id)
  then have "u \<noteq> [] \<Longrightarrow> hd u = hd a" by (metis hd_append2)
  moreover have "a \<noteq> [] \<Longrightarrow> \<not> is_space (hd a)" unfolding a_def by (rule hd_dropWhile)
  moreover have "u \<noteq> [] \<Longrightarrow> a \<noteq> []" by (auto simp: u_def)
  ultimately have "dropWhile is_space u = u" by (auto simp: dropWhile_eq_self_iff)
  moreover have "dropWhile is_space (rev u) = rev u" by (simp add: u_def)
  ultimately have "strip u = u" by (simp add: strip_def)
  then show ?thesis by (simp add: u_def a_def strip_def)
qed

lemma checked_value_stable: "coercions_ok co \<Longrightarrow> checked_value co b ty v = Some w \<Longrightarrow> checked_value co b ty w = Some w"
  by (cases ty) (auto simp: coercions_ok_def text_value_def optional_value_def status_val_def strip_strip
      split: pyval.splits if_splits option.splits)

lemma checked_value_typed: "coercions_ok co \<Longrightarrow> well_typed ty v \<Longrightarrow> \<exists>w. checked_value co b ty v = Some w"
  by (cases ty; cases v) (auto simp: coercions_ok_def text_value_def optional_value_def status_val_def is_status_def)

lemma checked_value_unstripped: "coercions_ok co \<Longrightarrow> well_typed ty v \<Longrightarrow> b = False \<or> (\<forall>s. v \<noteq> PStr s) \<Longrightarrow> checked_value co b ty v = Some v"
  by (cases ty; cases v) (auto simp: coercions_ok_def text_value_def optional_value_def status_val_def is_status_def)

lemma field_entry_Inr: "field_entry co m d f = Inr kv \<longleftrightarrow> (\<exists>w. kv = (mf_name f, w)
    \<and> (case map_of d (mf_name f) of None \<Rightarrow> mf_default f = Some w | Some v \<Rightarrow> checked_value co (ms_strip m) (mf_type f) v = Some w))"
  by (auto simp: field_entry_def split: option.splits)

lemma validate_model_names: "validate_model co m d = Inr d' \<Longrightarrow> map fst d' = map mf_name (ms_fields m)"
proof -
  assume "validate_model co m d = Inr d'"
  then have "list_all2 (\<lambda>f kv. field_entry co m d f = Inr kv) (ms_fields m) d'"
    by (simp add: validate_model_def traverse_Inr_iff split: if_splits)
  then show ?thesis by (induction rule: list_all2_induct) (auto simp: field_entry_Inr)
qed

lemma validate_model_entry:
  assumes "validate_model co m d = Inr d'" and "distinct (map mf_name (ms_fields m))" and "f \<in> set (ms_fields m)"
  shows "\<exists>w. map_of d' (mf_name f) = Some w \<and> field_entry co m d f = Inr (mf_name f, w)"
proof -
  have "traverse (field_entry co m d) (ms_fields m) = Inr d'" using assms(1) by (simp add: validate_model_def split: if_splits)
  then obtain kv where kv: "kv \<in> set d'" "field_entry co m d f = Inr kv" using traverse_Inr_image[OF _ assms(3)] by metis
  then obtain w where w: "kv = (mf_name f, w)" by (auto simp: field_entry_Inr)
  moreover have "distinct (map fst d')" using validate_model_names[OF assms(1)] assms(2) by simp
  ultimately have "map_of d' (mf_name f) = Some w" using kv(1) by simp
  then show ?thesis using kv(2) w by blast
qed

text \<open>The handler validates the payload the gateway has validated: it finds it as it is.\<close>

lemma validated_again:
  assumes "coercions_ok co" and "schema_ok m" and "validate_model co m d = Inr d'"
  shows "validate_model co m d' = Inr d'"
proof -
  have same: "field_entry co m d' f = field_entry co m d f" if f: "f \<in> set (ms_fields m)" for f
  proof -
    obtain w where w: "map_of d' (mf_name f) = Some w" "field_entry co m d f = Inr (mf_name f, w)"
      using validate_model_entry[OF assms(3) _ f] assms(2) by (auto simp: schema_ok_def)
    have "checked_value co (ms_strip m) (mf_type f) w = Some w"
    proof (cases "map_of d (mf_name f)")
      case None
      then show ?thesis using w(2) assms(1,2) f by (auto simp: field_entry_Inr schema_ok_def intro!: checked_value_unstripped)
    next
      case (Some v)
      then show ?thesis using w(2) checked_value_stable[OF assms(1)] by (auto simp: field_entry_Inr)
    qed
    then have "field_entry co m d' f = Inr (mf_name f, w)" using w(1) by (simp add: field_entry_def)
    then show ?thesis using w(2) by simp
  qed
  have "fst ` set d' = mf_name ` set (ms_fields m)" using validate_model_names[OF assms(3)] by (metis list.set_map)
  moreover have "traverse (field_entry co m d') (ms_fields m) = traverse (field_entry co m d) (ms_fields m)"
    by (rule traverse_same) (rule same)
  ultimately show ?thesis using assms(3) by (simp add: validate_model_def split: if_splits)
qed

lemma validate_model_total:
  assumes "fst ` set d \<subseteq> mf_name ` set (ms_fields m)"
    and "\<And>f. f \<in> set (ms_fields m) \<Longrightarrow> \<exists>kv. field_entry co m d f = Inr kv"
  shows "\<exists>d'. validate_model co m d = Inr d'"
proof (cases "traverse (field_entry co m d) (ms_fields m)")
  case (Inl e)
  then obtain f where "f \<in> set (ms_fields m)" "field_entry co m d f = Inl e" using traverse_Inl_elem by blast
  then show ?thesis using assms(2) by force
next
  case (Inr d')
  then show ?thesis using assms(1) by (simp add: validate_model_def)
qed

lemma valid_as_it_is:
  assumes "distinct (map mf_name (ms_fields m))" and "map fst d = map mf_name (ms_fields m)"
    and "list_all2 (\<lambda>f kv. checked_value co (ms_strip m) (mf_type f) (snd kv) = Some (snd kv)) (ms_fields m) d"
  shows "validate_model co m d = Inr d"
proof -
  have "field_entry co m d (ms_fields m ! i) = Inr (d ! i)" if i: "i < length d" for i
  proof -
    have len: "length (ms_fields m) = length d" using assms(3) by (rule list_all2_lengthD)
    have name: "fst (d ! i) = mf_name (ms_fields m ! i)" using assms(2) i len by (metis nth_map)
    have "map_of d (fst (d ! i)) = Some (snd (d ! i))" using assms(1,2) i by (metis map_of_is_SomeI nth_mem prod.collapse)
    then show ?thesis using assms(3) i name by (auto simp: field_entry_def list_all2_conv_all_nth prod_eq_iff)
  qed
  then have "traverse (field_entry co m d) (ms_fields m) = Inr d"
    using list_all2_lengthD[OF assms(3)] by (simp add: traverse_Inr_iff list_all2_conv_all_nth)
  moreover have "fst ` set d = mf_name ` set (ms_fields m)" using assms(2) by (metis list.set_map)
  ultimately show ?thesis by (simp add: validate_model_def)
qed

lemma item_list_ok:
  "(\<forall>d \<in> set ds. validate_model co item d = Inr d) \<Longrightarrow> item_list co item (PList (map PDict ds)) = Inr (PList (map PDict ds))"
proof -
  assume "\<forall>d \<in> set ds. validate_model co item d = Inr d"
  then have "traverse (\<lambda>x. case x of PDict d \<Rightarrow> rmap PDict (validate_model co item d) | _ \<Rightarrow> Inl (ValidationErr (ms_name item)))
      (map PDict ds) = Inr (map PDict ds)"
    by (intro traverse_fixed) auto
  then show ?thesis by (simp add: item_list_def)
qed

lemma validate_output_same:
  assumes "fieldname \<noteq> ''tool_name''" and "\<forall>d \<in> set ds. validate_model co m d = Inr d"
  shows "validate_output co tool fieldname m [(''tool_name'', PStr tool), (fieldname, PList (map PDict ds))]
    = Inr [(''tool_name'', PStr tool), (fieldname, PList (map PDict ds))]"
  using assms(1) item_list_ok[OF assms(2)] by (simp add: validate_output_def text_value_def)

lemma validator_of_ok:
  assumes "coercions_ok co"
  shows "validator_ok (validator_of co)"
proof -
  have "\<exists>d'. validate_model co m d = Inr d'" if ok: "takes_model m d" for m d
  proof (rule validate_model_total)
    show "fst ` set d \<subseteq> mf_name ` set (ms_fields m)" using ok by (simp add: takes_model_def)
    fix f assume "f \<in> set (ms_fields m)"
    then have "case map_of d (mf_name f) of None \<Rightarrow> mf_default f \<noteq> None | Some v \<Rightarrow> well_typed (mf_type f) v"
      using ok by (simp add: takes_model_def)
    then show "\<exists>kv. field_entry co m d f = Inr kv"
      using checked_value_typed[OF assms] by (fastforce simp: field_entry_def split: option.splits)
  qed
  moreover have "validate_model co m d = Inr d" if "schema_ok m" "\<not> ms_strip m" "complete m d" for m d
  proof (rule valid_as_it_is)
    show "distinct (map mf_name (ms_fields m))" using that(1) by (simp add: schema_ok_def)
    show "map fst d = map mf_name (ms_fields m)"
      using that(3) unfolding complete_def by (induction rule: list_all2_induct) auto
    show "list_all2 (\<lambda>f kv. checked_value co (ms_strip m) (mf_type f) (snd kv) = Some (snd kv)) (ms_fields m) d"
      using that(3) unfolding complete_def by (rule list_all2_mono) (simp add: checked_value_unstripped[OF assms] that(2))
  qed
  ultimately show ?thesis
    using validated_again[OF assms] validate_output_same[of _ _ co] by (simp add: validator_ok_def validator_of_def)
qed

definition sample_coercions :: coercions where
  "sample_coercions = \<lparr>co_int = (\<lambda>v. case v of PInt n \<Rightarrow> Some n | _ \<Rightarrow> None), co_bool = (\<lambda>v. case v of PBool b \<Rightarrow> Some b | _ \<Rightarrow> None)\<rparr>"

definition typed_models :: operations_models where
  "typed_models = sample_models\<lparr>opm_read := read_models (validator_of sample_coercions) (\<lambda>_. [])\<rparr>"

definition plant_tables :: operations_tables where
  "plant_tables = \<lparr>ot_sites = [\<lparr>si_id = 1, si_code = ''S1'', si_name = ''Plant'', si_plant_type = ''glass'',
       si_active = True, si_created_at = 0, si_updated_at = 0\<rparr>],
     ot_assets = [\<lparr>as_id = 2, as_site_id = 1, as_code = ''A-1'', as_name = ''Burner'', as_category = ''heat'',
       as_criticality = ''high'', as_status = ''running'', as_created_at = 0, as_updated_at = 0\<rparr>], ot_work_orders = [], ot_spare_parts = []\<rparr>"

theorem planned_read_answered_witness:
  "\<exists>reg \<in> set (operations_tools typed_models 0). td_name (tr_definition reg) = ''get_asset_status''
    \<and> (\<exists>payload out. validate_strict_input (td_input_model (tr_definition reg)) [] = Inr payload
         \<and> td_handler (tr_definition reg) payload plant_tables = (Inr out, plant_tables)
         \<and> om_validate (td_output_model (tr_definition reg)) out = Inr out)"
proof -
  have tables: "tables_ok plant_tables" by (simp add: tables_ok_def plant_tables_def)
  have models: "opm_read typed_models = read_models (validator_of sample_coercions) (\<lambda>_. [])" by (simp add: typed_models_def)
  have va: "validator_ok (validator_of sample_coercions)"
    by (rule validator_of_ok) (simp add: coercions_ok_def sample_coercions_def)
  let ?c = "(sample_actor ''read_only_analyst'' [])\<lparr>ac_global_scope := True\<rparr>"
  have scoped: "scope_payload def ?c [] = Some []" for def :: "operations_tables tool_definition"
    by (simp add: scope_payload_def sample_actor_def split: option.splits)
  show ?thesis
    using planned_read_answered[OF asset_request _ tables models va, of "''get_asset_status''" 0] scoped by fastforce
qed

end
