(* ===== verification/Spec2Isabelle.thy ===== *)
theory Spec2Isabelle
  imports Api Composer Operations Assistant_Query Consolidation Ingestion Users Lifecycle Configuration
    Tool_Models
begin

text \<open>
  A model of the backend \<open>hot-air-balloon\<close> (\<open>src/src/app\<close>): an assistant for maintenance staff. A question comes in over HTTP, the
  conversation is claimed for its user, follow-ups are answered from stored evidence, and other questions go to an agent graph,
  which plans a tool call from fixed patterns or with a language model, checks the call against the words of the question, and
  invokes the tool through a gateway that enforces site scope, permissions, rate limits and approval and writes an audit. The
  answer is composed from the evidence of the calls and is stored with its question. Beside this run background jobs:
  retention, synchronisation of memories with a vector index, consolidation of idle conversations, publication of uploaded
  documents over an outbox, and their ingestion. All of it is wired by a container from validated settings.

  \<^bold>\<open>Theories and sources\<close> (paths under \<open>src/src/app\<close>; \<open>assistant\<close>, \<open>operations\<close>, \<open>documents\<close>, \<open>user\<close> are under \<open>modules\<close>)

  \<^item> \<open>Prelude\<close>: results (\<open>exc + 'a\<close>), \<open>traverse\<close>, Python values and texts, sorting by keys, identifiers as numbers with their text.
  \<^item> \<open>Authorization\<close>: \<open>user/domain/authorization.py\<close>, \<open>user/application/authorization_policy.py\<close>, the role tables.
  \<^item> \<open>Evidence\<close>, \<open>Composer\<close>: \<open>shared/kernel/response_evidence.py\<close>, \<open>assistant/domain/conversation_evidence.py\<close>,
    \<open>assistant/application/response_composer.py\<close>.
  \<^item> \<open>Rate_Limit\<close>, \<open>Tools\<close>, \<open>Gateway\<close>, \<open>Tool_Runtime\<close>: \<open>assistant/tool_gateway/*.py\<close>, its audit and trace repositories, and
    \<open>assistant/infrastructure/tool_runtime/gateway_runtime.py\<close>.
  \<^item> \<open>Work_Orders\<close>, \<open>Result_Adapters\<close>, \<open>Operations\<close>: the status machine and its use case and repository, the adapters from results to
    evidence, the queries and the six tools of \<open>operations\<close>. \<open>Tool_Models\<close>: the input, item and output models of the five read
    tools in \<open>operations/infrastructure/tools/tool_builder.py\<close>, and that what is planned for them is answered.
  \<^item> \<open>Regex\<close>, \<open>Intent\<close>: the matching of Python's \<open>re\<close> that the patterns need; \<open>assistant/infrastructure/agents/langgraph\<close>
    \<open>deterministic_intent.py\<close> and the semantic validation of planned calls.
  \<^item> \<open>Context\<close>: \<open>assistant/application/context\<close>: blocks, providers, allocator and assembler.
  \<^item> \<open>Agent_Graph\<close>, \<open>Agent_Runs\<close>: the nodes, the budget, the channels and the orchestrator of \<open>agents/langgraph\<close>; their properties.
  \<^item> \<open>Conversations\<close>, \<open>Conversation_Refinement\<close>, \<open>Retention\<close>, \<open>Checkpoints\<close>: both conversation stores, the abstract log they refine,
    the retention job, checkpoint threads and their erasure.
  \<^item> \<open>Reference\<close>, \<open>Assistant_Query\<close>: \<open>assistant/application/reference_resolution\<close> and the use case \<open>OrchestrateAssistantQuery\<close>.
  \<^item> \<open>Facts\<close>, \<open>Memory_Records\<close>, \<open>Memory_Jobs\<close>, \<open>Consolidation\<close>: the policy for extracted facts and
    \<open>assistant/infrastructure/conversation_memory/long_term\<close>.
  \<^item> \<open>Documents\<close>, \<open>Ingestion\<close>: upload, outbox, publishers and ingestion of \<open>documents\<close>, \<open>shared/messaging/kafka\<close>.
  \<^item> \<open>Users\<close>: registration, lookup, the consistency audit with its tool and adapter.
  \<^item> \<open>Lifecycle\<close>, \<open>Configuration\<close>, \<open>Wiring\<close>, \<open>Api\<close>: starting and stopping (\<open>container.py\<close>, the workers, the checkpointer, the
    orchestrator), \<open>core/config.py\<close>, what \<open>Container.build\<close> and the \<open>wiring.py\<close> files make, and the routers with
    \<open>bootstrap/errors.py\<close>, \<open>utilities/local_auth.py\<close> and the identity of a request (\<open>main.py\<close>).

  \<^bold>\<open>How state and effects are modelled.\<close> The tables of a module are records of row lists, a transaction is a function on them that
  returns them unchanged when it is rolled back. Exceptions are values of \<open>exc\<close>; a call returns a result and the new state.
  Times, new identifiers and answers of external services are arguments. Concurrent work is a sequence of atomic steps:
  \<open>change_step\<close> (an inductive relation) and the event lists of \<open>Memory_Jobs\<close>, \<open>Documents\<close>, \<open>Retention\<close> and \<open>Lifecycle\<close>.

  \<^bold>\<open>What the lemmas show.\<close> For the gateway: nothing runs unguarded, sites are isolated, the audit is exact. For the agent: its calls
  are bounded and grounded, its runs end, deterministic questions lead to the call they name. For the stores: both refine one
  log (\<open>simulation\<close>), users are isolated, retention and erasure remove exactly what they should. For memory and documents: the
  index follows the records, facts are recorded once, uploads are all or nothing, the outbox delivers and drains, ingestion
  marks exactly what it has stored. For the whole: accepted settings build, resources start after what they use and are stopped
  in reverse, a question costs one call at most, and who is served at all. Interfaces are locales (\<open>permission_gate\<close>, \<open>rate_limiter\<close>,
  \<open>write_once_map\<close>, \<open>status_store\<close>, \<open>conversation_store\<close>, \<open>simulation\<close>, \<open>exchange_store\<close>, \<open>tool_service\<close>, \<open>confident_planner\<close>,
  \<open>managed_resource\<close>), each interpreted on the model of the code that provides it.

  \<^bold>\<open>Bounds and fuel.\<close> The graph runs under the recursion limit of its runtime; four steps per allowed call and four more
  suffice. The retry loop of the gateway ends by its decreasing number of attempts, the reading of an upload by the remaining
  bytes, a publishing round by its batch. The matcher of \<open>Regex\<close> repeats at most as often as there are characters left, which
  loses nothing: it agrees with the relation \<open>rx_match\<close> (\<open>matches_at_iff\<close>). The number of rounds after which the outbox is
  empty is in the statement that says so.

  \<^bold>\<open>Assumptions about code that is not here\<close> are parameters: Pydantic (for the read tools with the laws \<open>validator_ok\<close>), the
  e-mail validator, SHA-256, the tokenizer, the readers of PDF and DOCX files, the calls to language and embedding models, the
  Pinecone index (laws \<open>pinecone_ok\<close>), Kafka
  (\<open>publisher_law\<close>), Azure storage, the pool and saver of LangGraph. Texts are ASCII where case matters (\<open>casefold\<close>, lower case);
  the order of the database on texts is that of code points; widths of columns are not modelled; the queries of an audit read
  one snapshot.

  \<^bold>\<open>Not modelled\<close>: logging, metrics and telemetry sinks, which have no effect on results; migrations and ORM classes beyond the rows
  and constraints the operations use; the orchestrator of \<open>agents/langchain\<close>, which nothing wires; the clients of language
  models, embeddings and the web search provider, which only call libraries; the waits of the polling loops, cancellation and
  the isolation levels of transactions; the scripts under \<open>.github\<close> and the tests.
\<close>

end
